(* ===== verification/Prelude.thy ===== *)
theory Prelude
  imports
    Complex_Main
    "HOL-Library.Char_ord"
    "HOL-Library.List_Lexorder"
    "HOL-Library.Product_Lexorder"
    "HOL-Library.Multiset"
    "HOL-Library.Sublist"
begin

text \<open>
  What the components share.  A Go string is a \<^typ>\<open>string\<close>, a list of bytes, compared
  bytewise (the lexicographic order of the library, which is Go's \<^verbatim>\<open><\<close>).  A Go map that is
  only read or written by key is a partial function or an association list; where the code ranges
  over a map, the association list is taken in its own order and a lemma of the component shows
  that the order does not matter.  A \<^verbatim>\<open>time.Time\<close> is the number of nanoseconds since Go's zero
  time, so \<^verbatim>\<open>IsZero\<close> is \<^term>\<open>t = (0::int)\<close>.  A fallible operation returns \<^typ>\<open>'e + 'a\<close>,
  the left summand being the error.
\<close>

type_synonym time = int
type_synonym duration = int
type_synonym ('e, 'a) result = "'e + 'a"

named_theorems themisy_simps \<open>unfoldings that the component proofs share\<close>

section \<open>Results\<close>

definition bind_result :: "('e, 'a) result \<Rightarrow> ('a \<Rightarrow> ('e, 'b) result) \<Rightarrow> ('e, 'b) result" where
  "bind_result r f = (case r of Inl e \<Rightarrow> Inl e | Inr x \<Rightarrow> f x)"

lemma bind_result_simps [simp]:
  "bind_result (Inl e) f = Inl e"
  "bind_result (Inr x) f = f x"
  by (simp_all add: bind_result_def)

lemma bind_result_Inr_iff:
  "bind_result r f = Inr y \<longleftrightarrow> (\<exists>x. r = Inr x \<and> f x = Inr y)"
  by (cases r) simp_all

text \<open>A counter map of Go reads 0 for a missing key.\<close>

definition counter :: "('k \<rightharpoonup> int) \<Rightarrow> 'k \<Rightarrow> int" where
  "counter m k = (case m k of None \<Rightarrow> 0 | Some n \<Rightarrow> n)"

lemma counter_upd [simp]: "counter (m(k \<mapsto> v)) j = (if j = k then v else counter m j)"
  by (simp add: counter_def)

lemma counter_del [simp]: "counter (m(k := None)) j = (if j = k then 0 else counter m j)"
  by (simp add: counter_def)

lemma counter_empty [simp]: "counter Map.empty k = 0"
  by (simp add: counter_def)

section \<open>Lists\<close>

lemma sort_key_mset_inj:
  fixes f :: "'a \<Rightarrow> 'b::linorder"
  assumes "mset xs = mset ys" and "inj_on f (set xs)"
  shows "sort_key f xs = sort_key f ys"
proof (rule properties_for_sort_key)
  show "mset (sort_key f ys) = mset xs" using assms(1) by simp
next
  fix k assume k: "k \<in> set (sort_key f ys)"
  have sxy: "set xs = set ys" using assms(1) by (metis set_mset_mset)
  have len: "mset (filter (\<lambda>x. f k = f x) (sort_key f ys)) = mset (filter (\<lambda>x. f k = f x) xs)"
    using assms(1) by (simp add: mset_filter)
  have rep: "zs = replicate (length zs) k" if "set zs \<subseteq> {x. x \<in> set xs \<and> f k = f x}" for zs
  proof -
    have "\<forall>z \<in> set zs. z = k" using that assms(2) k sxy unfolding inj_on_def by auto
    then show ?thesis by (metis replicate_length_same)
  qed
  have "filter (\<lambda>x. f k = f x) (sort_key f ys) = replicate (length (filter (\<lambda>x. f k = f x) (sort_key f ys))) k"
    by (rule rep) (auto simp: sxy)
  moreover have "filter (\<lambda>x. f k = f x) xs = replicate (length (filter (\<lambda>x. f k = f x) xs)) k"
    by (rule rep) auto
  moreover have "length (filter (\<lambda>x. f k = f x) (sort_key f ys)) = length (filter (\<lambda>x. f k = f x) xs)"
    using len by (metis size_mset)
  ultimately show "filter (\<lambda>x. f k = f x) (sort_key f ys) = filter (\<lambda>x. f k = f x) xs" by metis
qed simp

lemma sort_key_eq_iff:
  fixes f :: "'a \<Rightarrow> 'b::linorder"
  shows "inj f \<Longrightarrow> sort_key f xs = sort_key f ys \<longleftrightarrow> mset xs = mset ys"
  by (metis mset_sort sort_key_mset_inj inj_on_subset subset_UNIV)

lemma sort_eq_iff: "sort xs = sort ys \<longleftrightarrow> mset xs = mset ys"
  using sort_key_eq_iff[of "\<lambda>x. x"] by (simp add: inj_def)

lemma sort_mset_cong: "mset xs = mset ys \<Longrightarrow> sort xs = sort ys"
  by (rule properties_for_sort) simp_all

lemma sort_idem [simp]: "sort (sort xs) = sort xs"
  by (simp add: sorted_sort_id)

lemma subseq_set: "subseq xs ys \<Longrightarrow> set xs \<subseteq> set ys"
  by (auto simp: subseq_conv_nths dest: in_set_nthsD)

lemma subseq_distinct: "subseq xs ys \<Longrightarrow> distinct ys \<Longrightarrow> distinct xs"
  by (auto simp: subseq_conv_nths intro: distinct_nthsI)

end
