(* ===== verification/Domain.thy ===== *)
theory Domain
  imports Prelude
begin

text \<open>
  The data of \<^verbatim>\<open>internal/domain\<close>.  Every struct is a record whose fields carry the Go field name
  behind a short prefix; a string type whose values come from outside (environment, dependency
  type, capability, rollback mode, decision) stays a string with its constants as abbreviations,
  and a string type that only the code assigns (statuses) is a datatype.  A pointer field is an
  option.
\<close>

section \<open>Errors\<close>

datatype ReasonCode =
    ReasonUnsupportedSchemaVersion | ReasonInvalidContract | ReasonInvalidProfile
  | ReasonMissingOwner | ReasonUnknownProfile | ReasonMissingCapability
  | ReasonUnknownDependency | ReasonDependencyCycle | ReasonPlanExpired
  | ReasonPlanHashMismatch | ReasonContractChanged | ReasonProfileChanged
  | ReasonContextChanged | ReasonPolicyChanged | ReasonEvidenceChanged
  | ReasonTenantBoundary | ReasonRunnerFrozen | ReasonCircuitOpen | ReasonBackpressure

text \<open>
  A Go error: \<^verbatim>\<open>errors.New\<close> or \<^verbatim>\<open>fmt.Errorf\<close> without a wrapped error (the format string is kept,
  its arguments are not), a package-level sentinel by its name, \<^verbatim>\<open>fmt.Errorf\<close> with a wrapped
  error, \<^verbatim>\<open>domain.ReasonError\<close> with its code, field and wrapped error, and the classified errors
  \<^verbatim>\<open>adapter.Error\<close> and \<^verbatim>\<open>workflow.ClassifiedError\<close> with class, operation, correlation and wrapped error
  (the workflow's has no correlation), and Temporal's non-retryable application error with message,
  type and cause.
\<close>

datatype error =
    Errorf string
  | Sentinel string
  | Wrapf string error
  | ReasonError ReasonCode string "error option"
  | AdapterError string string string error
  | ClassifiedError string string error
  | ApplicationError string string error

fun ReasonOf :: "error \<Rightarrow> ReasonCode option" where
  "ReasonOf (ReasonError c f w) = Some c"
| "ReasonOf (Wrapf m e) = ReasonOf e"
| "ReasonOf (AdapterError c oper i e) = ReasonOf e"
| "ReasonOf (ClassifiedError c oper e) = ReasonOf e"
| "ReasonOf (ApplicationError m k e) = ReasonOf e"
| "ReasonOf (Errorf m) = None"
| "ReasonOf (Sentinel n) = None"

fun errors_Is :: "error \<Rightarrow> error \<Rightarrow> bool" where
  "errors_Is (Wrapf m e) t \<longleftrightarrow> Wrapf m e = t \<or> errors_Is e t"
| "errors_Is (AdapterError c oper i e) t \<longleftrightarrow> AdapterError c oper i e = t \<or> errors_Is e t"
| "errors_Is (ClassifiedError c oper e) t \<longleftrightarrow> ClassifiedError c oper e = t \<or> errors_Is e t"
| "errors_Is (ApplicationError m k e) t \<longleftrightarrow> ApplicationError m k e = t \<or> errors_Is e t"
| "errors_Is (ReasonError c f (Some e)) t \<longleftrightarrow> ReasonError c f (Some e) = t \<or> errors_Is e t"
| "errors_Is e t \<longleftrightarrow> e = t"

abbreviation NewReasonError :: "ReasonCode \<Rightarrow> string \<Rightarrow> error" where
  "NewReasonError c f \<equiv> ReasonError c f None"

section \<open>Enumerations\<close>

type_synonym Environment = string

abbreviation EnvironmentStaging :: Environment where "EnvironmentStaging \<equiv> ''staging''"
abbreviation EnvironmentProduction :: Environment where "EnvironmentProduction \<equiv> ''production''"

type_synonym DependencyType = string

abbreviation DependencyRolloutOrder :: DependencyType where
  "DependencyRolloutOrder \<equiv> ''rollout-order''"
abbreviation DependencySchemaCompatibility :: DependencyType where
  "DependencySchemaCompatibility \<equiv> ''schema-compatibility''"
abbreviation DependencyRuntime :: DependencyType where
  "DependencyRuntime \<equiv> ''runtime''"
abbreviation DependencySharedFailureDomain :: DependencyType where
  "DependencySharedFailureDomain \<equiv> ''shared-failure-domain''"
abbreviation DependencyDataMigration :: DependencyType where
  "DependencyDataMigration \<equiv> ''data-migration''"
abbreviation DependencyTraffic :: DependencyType where
  "DependencyTraffic \<equiv> ''traffic''"

definition DependencyType_Valid :: "DependencyType \<Rightarrow> bool" where
  "DependencyType_Valid t \<longleftrightarrow> t \<in> {DependencyRolloutOrder, DependencySchemaCompatibility,
     DependencyRuntime, DependencySharedFailureDomain, DependencyDataMigration, DependencyTraffic}"

definition EnforcesRolloutOrder :: "DependencyType \<Rightarrow> bool" where
  "EnforcesRolloutOrder t \<longleftrightarrow>
     t \<in> {DependencyRolloutOrder, DependencyDataMigration, DependencyTraffic}"

record Dependency =
  dep_Service :: string
  dep_Resource :: string
  dep_Type :: DependencyType
  dep_Condition :: string
  dep_Constraint :: string

type_synonym Capability = string

abbreviation CapabilityDeploy :: Capability where "CapabilityDeploy \<equiv> ''deploy''"
abbreviation CapabilityGetStatus :: Capability where "CapabilityGetStatus \<equiv> ''get_status''"
abbreviation CapabilityCancel :: Capability where "CapabilityCancel \<equiv> ''cancel''"
abbreviation CapabilityRollback :: Capability where "CapabilityRollback \<equiv> ''rollback''"
abbreviation CapabilityVerifyRuntime :: Capability where
  "CapabilityVerifyRuntime \<equiv> ''verify_runtime''"
abbreviation CapabilityVerifyMetric :: Capability where
  "CapabilityVerifyMetric \<equiv> ''verify_metric''"
abbreviation CapabilityDrain :: Capability where "CapabilityDrain \<equiv> ''drain''"
abbreviation CapabilityShiftTraffic :: Capability where
  "CapabilityShiftTraffic \<equiv> ''shift_traffic''"

definition Capability_Valid :: "Capability \<Rightarrow> bool" where
  "Capability_Valid c \<longleftrightarrow> c \<in> {CapabilityDeploy, CapabilityGetStatus, CapabilityCancel,
     CapabilityRollback, CapabilityVerifyRuntime, CapabilityVerifyMetric, CapabilityDrain,
     CapabilityShiftTraffic}"

type_synonym RollbackMode = string

abbreviation RollbackAutomatic :: RollbackMode where "RollbackAutomatic \<equiv> ''automatic''"
abbreviation RollbackApprovalRequired :: RollbackMode where
  "RollbackApprovalRequired \<equiv> ''approval-required''"
abbreviation RollbackManualOnly :: RollbackMode where "RollbackManualOnly \<equiv> ''manual-only''"
abbreviation RollbackUnsupported :: RollbackMode where "RollbackUnsupported \<equiv> ''unsupported''"

type_synonym Decision = string

abbreviation DecisionAllow :: Decision where "DecisionAllow \<equiv> ''ALLOW''"
abbreviation DecisionDeny :: Decision where "DecisionDeny \<equiv> ''DENY''"
abbreviation DecisionRequireApproval :: Decision where
  "DecisionRequireApproval \<equiv> ''REQUIRE_APPROVAL''"

datatype RunStatus =
    RunPending | RunRunning | RunPaused | RunWaitingApproval | RunSucceeded
  | RunBlocked | RunFailed | RunEscalated | RunCancelled

datatype StepStatus =
    StepPending | StepWaitingApproval | StepExecuting | StepVerifying | StepSucceeded
  | StepBlocked | StepRollingBack | StepRolledBack | StepEscalated | StepUnknown | StepCancelled

datatype ApprovalStatus =
    ApprovalPending | ApprovalApproved | ApprovalDenied | ApprovalExpired | ApprovalRevoked

datatype RunnerStatus = RunnerUnknown | RunnerReady | RunnerFrozen

datatype VerificationStatus =
    VerificationPass | VerificationFail | VerificationInconclusive | VerificationMissing

section \<open>Structs\<close>

record Service =
  svc_ID :: string
  svc_Name :: string
  svc_OwnerTeam :: string
  svc_RiskTier :: string
  svc_Repository :: string
  svc_ReleasePhase :: int
  svc_Dependencies :: "string list"
  svc_RunnerGroups :: "(Environment \<times> string) list"
  svc_FailureDomains :: "string list"
  svc_MetadataVersion :: string
  svc_UpdatedAt :: time

record AgentIdentity =
  agent_ID :: string
  agent_Scopes :: "string list"

record Change =
  ch_Service :: string
  ch_DesiredVersion :: string
  ch_CISuccess :: bool
  ch_DependenciesHealthy :: bool
  ch_DestructiveMigration :: bool
  ch_Risk :: string

record ReleaseRequest =
  rq_RequestID :: string
  rq_ReleaseVersion :: string
  rq_TenantID :: string
  rq_Environment :: Environment
  rq_Region :: string
  rq_Cluster :: string
  rq_RequestedBy :: string
  rq_Agent :: AgentIdentity
  rq_Changes :: "Change list"

abbreviation ReleaseIntentAPIVersion :: string where
  "ReleaseIntentAPIVersion \<equiv> ''execution.themisy.io/v1alpha1''"
abbreviation ReleaseIntentKind :: string where "ReleaseIntentKind \<equiv> ''ReleaseIntent''"

record ReleaseIntent =
  in_APIVersion :: string
  in_Kind :: string
  in_RequestID :: string
  in_ReleaseVersion :: string
  in_TenantID :: string
  in_Environment :: Environment
  in_Region :: string
  in_Cluster :: string
  in_RequestedBy :: string
  in_Agent :: AgentIdentity
  in_Changes :: "Change list"

record SchedulingContext =
  sc_TenantID :: string
  sc_Environment :: Environment
  sc_Region :: string
  sc_Cluster :: string
  sc_Team :: string
  sc_RiskTier :: string
  sc_RunnerGroup :: string
  sc_FailureDomains :: "string list"

record PlanStep =
  ps_Service :: string
  ps_DesiredVersion :: string
  ps_Phase :: int
  ps_Profile :: string
  ps_Dependencies :: "Dependency list"
  ps_RequiredCapabilities :: "Capability list"
  ps_ContractHash :: string
  ps_ProfileHash :: string
  ps_ChangeHash :: string
  ps_VerificationRequired :: bool
  ps_ObservationWindow :: string
  ps_RollbackMode :: RollbackMode
  ps_Scheduling :: SchedulingContext

record PlanPhase =
  pp_Number :: int
  pp_Steps :: "PlanStep list"

record ReleasePlan =
  pl_APIVersion :: string
  pl_ID :: string
  pl_ReleaseVersion :: string
  pl_Environment :: Environment
  pl_Phases :: "PlanPhase list"
  pl_Hash :: string
  pl_PlanHash :: string
  pl_ContractHashes :: "(string \<times> string) list"
  pl_ProfileHashes :: "(string \<times> string) list"
  pl_ContextSnapshotRef :: string
  pl_PolicyHash :: string
  pl_EvidenceHash :: string
  pl_CreatedAt :: time
  pl_ExpiresAt :: time

record PolicyDecision =
  pd_Decision :: Decision
  pd_PolicyVersion :: string
  pd_ReasonCode :: string
  pd_ReasonDetail :: string
  pd_RequiredRoles :: "string list"
  pd_InputHash :: string
  pd_CreatedAt :: time

record Approval =
  ap_ID :: string
  ap_RequiredRoles :: "string list"
  ap_Status :: ApprovalStatus
  ap_PlanHash :: string
  ap_RequestedAt :: time
  ap_ExpiresAt :: time
  ap_DecidedBy :: string
  ap_DecidedAt :: "time option"

record ApprovalSummary =
  as_Approval :: Approval
  as_RunID :: string
  as_Service :: string
  as_TenantID :: string

record RunnerInfo =
  ri_ID :: string
  ri_TenantID :: string
  ri_Group :: string
  ri_Status :: RunnerStatus
  ri_Capacity :: int
  ri_LastSeen :: time
  ri_FrozenBy :: string
  ri_FrozenAt :: "time option"

record Execution =
  ex_ID :: string
  ex_Adapter :: string
  ex_IdempotencyKey :: string
  ex_Status :: string
  ex_ExternalExecutionID :: string
  ex_StartedAt :: time
  ex_FinishedAt :: time

text \<open>A float64: a finite value (the two zeros are one), an infinity, or not a number.\<close>

datatype float_value = Finite rat | Infinite bool | NotANumber

record Evidence =
  ev_Source :: string
  ev_QueryHash :: string
  ev_WindowFrom :: time
  ev_WindowTo :: time
  ev_ObservedAt :: time
  ev_ObservedValue :: float_value
  ev_Threshold :: float_value
  ev_AdapterVersion :: string
  ev_EvidenceHash :: string

record Verification =
  vf_Status :: VerificationStatus
  vf_Healthy :: bool
  vf_Reason :: string
  vf_ObservedValue :: float_value
  vf_Threshold :: float_value
  vf_CheckedAt :: time
  vf_Evidence :: Evidence

record ReleaseStep =
  rs_Service :: string
  rs_Phase :: int
  rs_Wave :: int
  rs_Status :: StepStatus
  rs_Change :: Change
  rs_Policy :: "PolicyDecision option"
  rs_Approval :: "Approval option"
  rs_Execution :: "Execution option"
  rs_Verification :: "Verification option"
  rs_VerificationRequired :: bool
  rs_ObservationWindow :: string
  rs_RollbackMode :: RollbackMode
  rs_RollbackExecution :: "Execution option"
  rs_RollbackVerification :: "Verification option"
  rs_Failure :: string

text \<open>The empty \<^verbatim>\<open>PausedFrom\<close> of a run that is not paused is \<^const>\<open>None\<close>.\<close>

record ReleaseRun =
  run_ID :: string
  run_RequestID :: string
  run_ReleaseVersion :: string
  run_Environment :: Environment
  run_RequestedBy :: string
  run_SubjectType :: string
  run_SubjectIssuer :: string
  run_UserIdentityProof :: string
  run_TenantID :: string
  run_Region :: string
  run_Cluster :: string
  run_RunnerGroup :: string
  run_DelegationRef :: string
  run_Agent :: AgentIdentity
  run_Plan :: ReleasePlan
  run_Status :: RunStatus
  run_PausedFrom :: "RunStatus option"
  run_Steps :: "ReleaseStep list"
  run_StateVersion :: int
  run_WorkflowID :: string
  run_TemporalRunID :: string
  run_CreatedAt :: time
  run_UpdatedAt :: time

text \<open>
  The values of payload and detail maps: strings, string lists, integers, floats, times, the RFC 3339
  text of a time with nanoseconds (which parses back to that time), lists of objects, and the
  encoded run of a projection event.
\<close>

datatype AnyValue =
    AnyString string
  | AnyStrings "string list"
  | AnyInt int
  | AnyFloat float_value
  | AnyTime time
  | AnyTimeText time
  | AnyObjects "(string \<times> AnyValue) list list"
  | AnyRun ReleaseRun

record OutboxEvent =
  ob_ID :: string
  ob_AggregateType :: string
  ob_AggregateID :: string
  ob_EventType :: string
  ob_Payload :: "(string \<times> AnyValue) list"
  ob_CreatedAt :: time
  ob_AvailableAt :: time
  ob_PublishedAt :: "time option"
  ob_Attempts :: int

record AuditEvent =
  au_ID :: string
  au_CorrelationID :: string
  au_ActorType :: string
  au_ActorID :: string
  au_DelegatedBy :: string
  au_Action :: string
  au_ResourceType :: string
  au_ResourceID :: string
  au_Result :: string
  au_Details :: "(string \<times> AnyValue) list"
  au_Timestamp :: time

end
