(* ===== verification/Budget.thy ===== *)
theory Budget
  imports Domain
begin

text \<open>
  The concurrency budget of \<^verbatim>\<open>internal/scheduler/budget.go\<close>: the scheduling projection of a step,
  the configured limits, and the counters that \<^verbatim>\<open>TryAcquire\<close> raises and \<^verbatim>\<open>Release\<close> lowers under
  the budget's mutex.  The locale \<open>admission\<close> is the contract a budget gives to the wave builder
  and the dispatcher; the interpretation at the end discharges it for the code's budget.
\<close>

section \<open>Model\<close>

record Step =
  step_ID :: string
  step_Phase :: int
  step_Tenant :: string
  step_Environment :: string
  step_Region :: string
  step_Cluster :: string
  step_Team :: string
  step_RiskTier :: string
  step_RunnerGroup :: string
  step_FailureDomains :: "string list"
  step_Dependencies :: "string list"

record Limits =
  lim_TenantGlobal :: int
  lim_DefaultPerDimension :: int
  lim_Environment :: "(string \<times> int) list"
  lim_Region :: "(string \<times> int) list"
  lim_Cluster :: "(string \<times> int) list"
  lim_Team :: "(string \<times> int) list"
  lim_RiskTier :: "(string \<times> int) list"
  lim_SharedFailureDomain :: int

definition DefaultLimits :: Limits where
  "DefaultLimits = \<lparr>lim_TenantGlobal = 20, lim_DefaultPerDimension = 20, lim_Environment = [],
     lim_Region = [], lim_Cluster = [], lim_Team = [], lim_RiskTier = [],
     lim_SharedFailureDomain = 1\<rparr>"

text \<open>
  \<^verbatim>\<open>Validate\<close> ranges over five maps and reports the first entry it meets with an empty key or a
  limit below one; which of several bad entries it names is not kept.
\<close>

definition Limits_Validate :: "Limits \<Rightarrow> error option" where
  "Limits_Validate l =
     (if lim_TenantGlobal l < 1 \<or> lim_DefaultPerDimension l < 1 \<or> lim_SharedFailureDomain l < 1
      then Some (Errorf ''all default concurrency limits must be positive'')
      else if \<exists>(key, value) \<in> set (lim_Environment l @ lim_Region l @ lim_Cluster l @ lim_Team l
                @ lim_RiskTier l). key = [] \<or> value < 1
      then Some (Errorf ''%s concurrency limit %q must be positive'')
      else None)"

datatype Dimension =
    DimensionTenant | DimensionEnvironment | DimensionRegion | DimensionCluster
  | DimensionTeam | DimensionRiskTier | DimensionFailureDomain | DimensionService

record Blocked =
  bl_Dimension :: Dimension
  bl_Key :: string
  bl_Limit :: int

record budgetKey =
  bk_dimension :: Dimension
  bk_key :: string
  bk_limitKey :: string

text \<open>The zero \<^verbatim>\<open>Reservation\<close> has no keys; the step it was taken for is never read again.\<close>

record Reservation =
  res_keys :: "budgetKey list"

record Budget =
  bud_limits :: Limits
  bud_active :: "budgetKey \<rightharpoonup> int"

definition NewBudget :: "Limits \<Rightarrow> (error, Budget) result" where
  "NewBudget limits = (case Limits_Validate limits of
       Some err \<Rightarrow> Inl err
     | None \<Rightarrow> Inr \<lparr>bud_limits = limits, bud_active = Map.empty\<rparr>)"

definition configuredLimit :: "(string \<times> int) list \<Rightarrow> string \<Rightarrow> int \<Rightarrow> int" where
  "configuredLimit values key fallback =
     (case map_of values key of Some value \<Rightarrow> value | None \<Rightarrow> fallback)"

definition limit :: "Limits \<Rightarrow> budgetKey \<Rightarrow> int" where
  "limit l key = (case bk_dimension key of
       DimensionTenant \<Rightarrow> lim_TenantGlobal l
     | DimensionEnvironment \<Rightarrow>
         configuredLimit (lim_Environment l) (bk_limitKey key) (lim_DefaultPerDimension l)
     | DimensionRegion \<Rightarrow>
         configuredLimit (lim_Region l) (bk_limitKey key) (lim_DefaultPerDimension l)
     | DimensionCluster \<Rightarrow>
         configuredLimit (lim_Cluster l) (bk_limitKey key) (lim_DefaultPerDimension l)
     | DimensionTeam \<Rightarrow>
         configuredLimit (lim_Team l) (bk_limitKey key) (lim_DefaultPerDimension l)
     | DimensionRiskTier \<Rightarrow>
         configuredLimit (lim_RiskTier l) (bk_limitKey key) (lim_DefaultPerDimension l)
     | DimensionFailureDomain \<Rightarrow> lim_SharedFailureDomain l
     | DimensionService \<Rightarrow> 1)"

definition keysFor :: "Step \<Rightarrow> budgetKey list" where
  "keysFor step =
     (let tenant = (if step_Tenant step = [] then ''default'' else step_Tenant step);
          env = tenant @ ''/'' @ step_Environment step
      in [\<lparr>bk_dimension = DimensionTenant, bk_key = tenant, bk_limitKey = tenant\<rparr>,
          \<lparr>bk_dimension = DimensionEnvironment, bk_key = env,
             bk_limitKey = step_Environment step\<rparr>,
          \<lparr>bk_dimension = DimensionRegion, bk_key = env @ ''/'' @ step_Region step,
             bk_limitKey = step_Region step\<rparr>,
          \<lparr>bk_dimension = DimensionCluster,
             bk_key = env @ ''/'' @ step_Region step @ ''/'' @ step_Cluster step,
             bk_limitKey = step_Cluster step\<rparr>,
          \<lparr>bk_dimension = DimensionTeam, bk_key = tenant @ ''/'' @ step_Team step,
             bk_limitKey = step_Team step\<rparr>,
          \<lparr>bk_dimension = DimensionRiskTier, bk_key = tenant @ ''/'' @ step_RiskTier step,
             bk_limitKey = step_RiskTier step\<rparr>,
          \<lparr>bk_dimension = DimensionService, bk_key = env @ ''/'' @ step_ID step,
             bk_limitKey = step_ID step\<rparr>]
         @ map (\<lambda>failureDomain. \<lparr>bk_dimension = DimensionFailureDomain,
                  bk_key = env @ ''/'' @ failureDomain, bk_limitKey = failureDomain\<rparr>)
             (sort (step_FailureDomains step)))"

fun acquire_keys :: "budgetKey list \<Rightarrow> (budgetKey \<rightharpoonup> int) \<Rightarrow> (budgetKey \<rightharpoonup> int)" where
  "acquire_keys [] active = active"
| "acquire_keys (key # keys) active = acquire_keys keys (active(key \<mapsto> counter active key + 1))"

definition TryAcquire :: "Budget \<Rightarrow> Step \<Rightarrow> Budget \<times> Reservation \<times> Blocked list" where
  "TryAcquire b step =
     (let keys = keysFor step;
          blocked = map (\<lambda>key. \<lparr>bl_Dimension = bk_dimension key, bl_Key = bk_key key,
                                  bl_Limit = limit (bud_limits b) key\<rparr>)
                      (filter (\<lambda>key. counter (bud_active b) key \<ge> limit (bud_limits b) key) keys)
      in if blocked \<noteq> [] then (b, \<lparr>res_keys = []\<rparr>, blocked)
         else (b\<lparr>bud_active := acquire_keys keys (bud_active b)\<rparr>, \<lparr>res_keys = keys\<rparr>, []))"

fun release_keys :: "budgetKey list \<Rightarrow> (budgetKey \<rightharpoonup> int) \<Rightarrow> (budgetKey \<rightharpoonup> int)" where
  "release_keys [] active = active"
| "release_keys (key # keys) active =
     release_keys keys (if counter active key \<le> 1 then active(key := None)
                        else active(key \<mapsto> counter active key - 1))"

definition Release :: "Budget \<Rightarrow> Reservation \<Rightarrow> Budget" where
  "Release b reservation = b\<lparr>bud_active := release_keys (res_keys reservation) (bud_active b)\<rparr>"

section \<open>The admission contract\<close>

text \<open>
  What the wave builder and the dispatcher rely on: a refused request changes nothing, a granted
  one raises the load of exactly the demanded keys, each of which was below its cap, and a release
  takes the same amounts away.  The client lemma is that whatever sequence of grants and releases
  led to the present holders, no key has more holders than its cap.
\<close>

locale admission =
  fixes try_acquire :: "'b \<Rightarrow> 's \<Rightarrow> 'b \<times> 'r \<times> 'x list"
    and release :: "'b \<Rightarrow> 'r \<Rightarrow> 'b"
    and demand :: "'s \<Rightarrow> 'k list"
    and held :: "'r \<Rightarrow> 'k list"
    and load :: "'b \<Rightarrow> 'k \<Rightarrow> int"
    and cap :: "'b \<Rightarrow> 'k \<Rightarrow> int"
    and wf :: "'b \<Rightarrow> bool"
  assumes refused: "try_acquire b s = (b', r, x) \<Longrightarrow> x \<noteq> [] \<Longrightarrow> b' = b"
    and refused_full: "try_acquire b s = (b', r, x) \<Longrightarrow> x \<noteq> [] \<Longrightarrow>
          \<exists>k \<in> set (demand s). cap b k \<le> load b k"
    and granted_room: "try_acquire b s = (b', r, []) \<Longrightarrow> k \<in> set (demand s) \<Longrightarrow> load b k < cap b k"
    and granted_held: "try_acquire b s = (b', r, []) \<Longrightarrow> held r = demand s"
    and granted_load: "try_acquire b s = (b', r, []) \<Longrightarrow>
          load b' k = load b k + int (count_list (demand s) k)"
    and granted_cap: "try_acquire b s = (b', r, []) \<Longrightarrow> cap b' = cap b"
    and granted_wf: "wf b \<Longrightarrow> try_acquire b s = (b', r, []) \<Longrightarrow> wf b'"
    and release_load: "wf b \<Longrightarrow> (\<And>k. int (count_list (held r) k) \<le> load b k) \<Longrightarrow>
          load (release b r) k = load b k - int (count_list (held r) k)"
    and release_cap: "cap (release b r) = cap b"
    and release_wf: "wf b \<Longrightarrow> wf (release b r)"
    and cap_pos: "wf b \<Longrightarrow> 1 \<le> cap b k"
    and load_determines: "wf b \<Longrightarrow> wf b' \<Longrightarrow> cap b = cap b' \<Longrightarrow> load b = load b' \<Longrightarrow>
          try_acquire b s = (c, r, x) \<Longrightarrow> try_acquire b' s = (c', r', x') \<Longrightarrow> x = [] \<longleftrightarrow> x' = []"
begin

definition usage :: "'r list \<Rightarrow> 'k \<Rightarrow> int" where
  "usage rs k = int (sum_list (map (\<lambda>r. count_list (held r) k) rs))"

definition holders :: "'r list \<Rightarrow> 'k \<Rightarrow> nat" where
  "holders rs k = length (filter (\<lambda>r. k \<in> set (held r)) rs)"

definition accounts :: "'b \<Rightarrow> 'r list \<Rightarrow> bool" where
  "accounts b rs \<longleftrightarrow> wf b \<and> (\<forall>k. load b k = usage rs k)"

definition fits :: "'b \<Rightarrow> 'r list \<Rightarrow> bool" where
  "fits b rs \<longleftrightarrow> accounts b rs \<and> (\<forall>k. int (holders rs k) \<le> cap b k)"

lemma usage_simps [simp]:
  "usage [] k = 0"
  "usage (r # rs) k = int (count_list (held r) k) + usage rs k"
  by (simp_all add: usage_def)

lemma usage_append [simp]: "usage (rs @ ss) k = usage rs k + usage ss k"
  by (simp add: usage_def)

lemma holders_append [simp]: "holders (rs @ ss) k = holders rs k + holders ss k"
  by (simp add: holders_def)

lemma holders_le_usage: "int (holders rs k) \<le> usage rs k"
proof (induction rs)
  case (Cons r rs)
  have "k \<in> set (held r) \<Longrightarrow> count_list (held r) k \<noteq> 0" by (simp add: count_list_0_iff)
  with Cons show ?case by (auto simp: holders_def)
qed (simp add: holders_def)

lemma fits_grant:
  assumes "fits b rs" and t: "try_acquire b s = (b', r, [])"
  shows "fits b' (rs @ [r])"
proof -
  have acc: "wf b" "\<And>k. load b k = usage rs k" and cap: "\<And>k. int (holders rs k) \<le> cap b k"
    using assms(1) by (auto simp: fits_def accounts_def)
  have h: "held r = demand s" using granted_held[OF t] .
  have "int (holders (rs @ [r]) k) \<le> cap b' k" for k
  proof (cases "k \<in> set (demand s)")
    case True
    have "int (holders rs k) < cap b k"
      using holders_le_usage[of rs k] acc(2) granted_room[OF t True] by simp
    then show ?thesis using True h granted_cap[OF t] by (simp add: holders_def)
  next
    case False
    then show ?thesis using h cap[of k] granted_cap[OF t] by (simp add: holders_def)
  qed
  moreover have "accounts b' (rs @ [r])"
    using acc granted_wf[OF acc(1) t] granted_load[OF t] h by (simp add: accounts_def)
  ultimately show ?thesis by (simp add: fits_def)
qed

lemma fits_release:
  assumes "fits b (rs @ r # ss)"
  shows "fits (release b r) (rs @ ss)"
proof -
  have wfb: "wf b" and ld: "\<And>k. load b k = usage (rs @ r # ss) k"
    and cap: "\<And>k. int (holders (rs @ r # ss) k) \<le> cap b k"
    using assms by (auto simp: fits_def accounts_def)
  have nonneg: "0 \<le> usage ts k" for ts k by (simp add: usage_def)
  have le: "int (count_list (held r) k) \<le> load b k" for k
    using ld[of k] nonneg[of rs k] nonneg[of ss k] by simp
  have "int (holders (rs @ ss) k) \<le> cap b k" for k
    using cap[of k] by (auto simp: holders_def split: if_splits)
  then show ?thesis
    using release_load[OF wfb le] release_wf[OF wfb] release_cap[of b r] ld
    by (simp add: fits_def accounts_def)
qed

lemma fits_release_all:
  "fits b (rs @ ss) \<Longrightarrow> fits (fold (\<lambda>r b. release b r) rs b) ss"
proof (induction rs arbitrary: b)
  case (Cons r rs)
  then show ?case using fits_release[of b "[]" r "rs @ ss"] by simp
qed simp

lemma fits_empty: "wf b \<Longrightarrow> (\<And>k. load b k = 0) \<Longrightarrow> fits b []"
  using cap_pos[of b] by (simp add: fits_def accounts_def holders_def) (meson order_trans zero_le_one)

lemma idle_grants:
  assumes "accounts b []" and "try_acquire b s = (b', r, x)"
  shows "x = []"
proof (rule ccontr)
  assume "x \<noteq> []"
  then obtain k where "cap b k \<le> load b k" using refused_full[OF assms(2)] by blast
  then show False using assms(1) cap_pos[of b k] by (simp add: accounts_def)
qed

end

section \<open>The code's budget meets the contract\<close>

definition budget_wf :: "Budget \<Rightarrow> bool" where
  "budget_wf b \<longleftrightarrow> Limits_Validate (bud_limits b) = None \<and> (\<forall>k n. bud_active b k = Some n \<longrightarrow> 1 \<le> n)"

definition budget_load :: "Budget \<Rightarrow> budgetKey \<Rightarrow> int" where
  "budget_load b k = counter (bud_active b) k"

definition budget_cap :: "Budget \<Rightarrow> budgetKey \<Rightarrow> int" where
  "budget_cap b k = limit (bud_limits b) k"

lemma counter_acquire_keys: "counter (acquire_keys ks m) k = counter m k + int (count_list ks k)"
  by (induction ks arbitrary: m) auto

lemma acquire_keys_positive:
  "\<forall>k n. m k = Some n \<longrightarrow> 1 \<le> n \<Longrightarrow> \<forall>k n. acquire_keys ks m k = Some n \<longrightarrow> 1 \<le> n"
proof (induction ks arbitrary: m)
  case (Cons key keys)
  have "0 \<le> counter m key"
    using Cons.prems by (cases "m key") (force simp: counter_def)+
  then show ?case
    unfolding acquire_keys.simps using Cons.prems by (intro Cons.IH) simp
qed simp

lemma counter_release_keys:
  "(\<And>k. int (count_list ks k) \<le> counter m k) \<Longrightarrow>
   counter (release_keys ks m) k = counter m k - int (count_list ks k)"
proof (induction ks arbitrary: m)
  case (Cons key keys)
  define m' where "m' = (if counter m key \<le> 1 then m(key := None)
                         else m(key \<mapsto> counter m key - 1))"
  have key: "1 + int (count_list keys key) \<le> counter m key" using Cons.prems[of key] by simp
  have m': "counter m' j = counter m j - (if j = key then 1 else 0)" for j
    using key by (cases "counter m key \<le> 1") (auto simp: m'_def)
  have "int (count_list keys j) \<le> counter m' j" for j
    using Cons.prems[of j] m'[of j] by (cases "j = key") auto
  then have "counter (release_keys keys m') k = counter m' k - int (count_list keys k)"
    by (rule Cons.IH)
  then show ?case using m'[of k] by (auto simp: m'_def)
qed simp

lemma release_keys_positive:
  "\<forall>k n. m k = Some n \<longrightarrow> 1 \<le> n \<Longrightarrow> \<forall>k n. release_keys ks m k = Some n \<longrightarrow> 1 \<le> n"
proof (induction ks arbitrary: m)
  case (Cons key keys)
  then show ?case unfolding release_keys.simps by (intro Cons.IH) simp
qed simp

lemma configuredLimit_positive:
  "\<forall>(key, value) \<in> set vs. 1 \<le> value \<Longrightarrow> 1 \<le> d \<Longrightarrow> 1 \<le> configuredLimit vs key d"
  by (auto simp: configuredLimit_def split: option.splits dest!: map_of_SomeD)

lemma Limits_Validate_positive:
  assumes "Limits_Validate l = None"
  shows "1 \<le> lim_TenantGlobal l" "1 \<le> lim_DefaultPerDimension l" "1 \<le> lim_SharedFailureDomain l"
    and "\<forall>(key, value) \<in> set (lim_Environment l). 1 \<le> value"
    and "\<forall>(key, value) \<in> set (lim_Region l). 1 \<le> value"
    and "\<forall>(key, value) \<in> set (lim_Cluster l). 1 \<le> value"
    and "\<forall>(key, value) \<in> set (lim_Team l). 1 \<le> value"
    and "\<forall>(key, value) \<in> set (lim_RiskTier l). 1 \<le> value"
  using assms by (auto simp: Limits_Validate_def not_less ball_Un split: if_splits)

lemma limit_positive: "Limits_Validate l = None \<Longrightarrow> 1 \<le> limit l k"
  by (cases "bk_dimension k")
     (simp_all add: limit_def Limits_Validate_positive configuredLimit_positive)

lemma TryAcquire_granted_iff:
  "TryAcquire b s = (b', r, []) \<longleftrightarrow>
     (\<forall>k \<in> set (keysFor s). counter (bud_active b) k < limit (bud_limits b) k) \<and>
     b' = b\<lparr>bud_active := acquire_keys (keysFor s) (bud_active b)\<rparr> \<and> r = \<lparr>res_keys = keysFor s\<rparr>"
  by (auto simp: TryAcquire_def Let_def filter_empty_conv not_le)

lemma TryAcquire_refused:
  "TryAcquire b s = (b', r, x) \<Longrightarrow> x \<noteq> [] \<Longrightarrow>
     b' = b \<and> r = \<lparr>res_keys = []\<rparr> \<and> (\<exists>k \<in> set (keysFor s). limit (bud_limits b) k \<le> counter (bud_active b) k)"
  by (auto simp: TryAcquire_def Let_def filter_empty_conv split: if_splits)

lemma TryAcquire_verdict:
  "TryAcquire b s = (b', r, x) \<Longrightarrow>
     x = [] \<longleftrightarrow> (\<forall>k \<in> set (keysFor s). counter (bud_active b) k < limit (bud_limits b) k)"
  by (auto simp: TryAcquire_def Let_def filter_empty_conv not_le split: if_splits)

lemmas budget_view_defs = budget_cap_def budget_load_def budget_wf_def

interpretation bud: admission TryAcquire Release keysFor res_keys budget_load budget_cap budget_wf
proof (unfold_locales, goal_cases)
  case (1 b s b' r x)
  then show ?case using TryAcquire_refused by blast
next
  case (2 b s b' r x)
  then show ?case using TryAcquire_refused unfolding budget_view_defs by blast
next
  case (3 b s b' r k)
  then show ?case by (simp add: TryAcquire_granted_iff budget_view_defs)
next
  case (4 b s b' r)
  then show ?case by (simp add: TryAcquire_granted_iff)
next
  case (5 b s b' r k)
  then show ?case by (simp add: TryAcquire_granted_iff budget_view_defs counter_acquire_keys)
next
  case (6 b s b' r)
  then show ?case by (auto simp: TryAcquire_granted_iff budget_view_defs fun_eq_iff)
next
  case (7 b s b' r)
  then show ?case
    using acquire_keys_positive[of "bud_active b" "keysFor s"]
    by (simp add: TryAcquire_granted_iff budget_wf_def)
next
  case (8 b r k)
  then show ?case by (simp add: budget_load_def Release_def counter_release_keys)
next
  case (9 b r)
  show ?case by (simp add: budget_cap_def Release_def fun_eq_iff)
next
  case (10 b r)
  then show ?case
    using release_keys_positive[of "bud_active b" "res_keys r"]
    by (simp add: Release_def budget_wf_def)
next
  case (11 b k)
  then show ?case by (simp add: budget_view_defs limit_positive)
next
  case (12 b b' s c r x c' r' x')
  then show ?case
    using TryAcquire_verdict[OF 12(5)] TryAcquire_verdict[OF 12(6)]
    by (simp add: budget_cap_def budget_load_def fun_eq_iff)
qed

section \<open>Sequences of budget operations\<close>

text \<open>
  Every budget operation runs under the budget's mutex, so an execution of any number of
  goroutines is a sequence of whole operations.  \<open>budget_run\<close> keeps the list of reservations that
  were granted and not yet given back; \<open>GiveBack i\<close> releases the \<open>i\<close>-th of them.
\<close>

datatype budget_op = Request Step | GiveBack nat

fun budget_step :: "budget_op \<Rightarrow> Budget \<times> Reservation list \<Rightarrow> Budget \<times> Reservation list" where
  "budget_step (Request s) (b, held) = (case TryAcquire b s of (b', r, blocked) \<Rightarrow>
     if blocked \<noteq> [] then (b', held) else (b', held @ [r]))"
| "budget_step (GiveBack i) (b, held) =
     (if i < length held then (Release b (held ! i), take i held @ drop (Suc i) held) else (b, held))"

definition budget_run :: "budget_op list \<Rightarrow> Budget \<Rightarrow> Budget \<times> Reservation list" where
  "budget_run ops b = fold budget_step ops (b, [])"

lemma budget_step_fits:
  "bud.fits b held \<Longrightarrow> budget_step op (b, held) = (b', held') \<Longrightarrow> bud.fits b' held'"
proof (cases op)
  case (Request s)
  assume f: "bud.fits b held" and st: "budget_step op (b, held) = (b', held')"
  obtain b1 r x where t: "TryAcquire b s = (b1, r, x)" by (metis prod_cases3)
  show ?thesis
    using f st t Request bud.fits_grant[OF f] bud.refused[OF t] by (cases "x = []") auto
next
  case (GiveBack i)
  assume f: "bud.fits b held" and "budget_step op (b, held) = (b', held')"
  then show ?thesis
    using GiveBack bud.fits_release[of b "take i held" "held ! i" "drop (Suc i) held"] f
    by (auto simp: id_take_nth_drop[symmetric] split: if_splits)
qed

lemma budget_step_limits:
  "budget_step op (b, held) = (b', held') \<Longrightarrow> bud_limits b' = bud_limits b"
  by (cases op) (auto simp: TryAcquire_def Release_def Let_def split: if_splits)

lemma budget_fold_fits:
  "bud.fits b held \<Longrightarrow> fold budget_step ops (b, held) = (b', held') \<Longrightarrow>
     bud.fits b' held' \<and> bud_limits b' = bud_limits b"
proof (induction ops arbitrary: b held)
  case (Cons op ops)
  obtain b1 h1 where s: "budget_step op (b, held) = (b1, h1)" by fastforce
  with Cons show ?case using budget_step_fits[OF Cons.prems(1) s] budget_step_limits[OF s] by simp
qed simp

lemma NewBudget_fits: "NewBudget l = Inr b \<Longrightarrow> bud.fits b [] \<and> bud_limits b = l"
  by (auto simp: NewBudget_def budget_view_defs intro!: bud.fits_empty split: option.splits)

lemma active_of_counter:
  "\<forall>k n. m k = Some n \<longrightarrow> 1 \<le> n \<Longrightarrow> m = (\<lambda>k. if counter m k = 0 then None else Some (counter m k))"
  by (rule ext) (force simp: counter_def split: option.splits)

text \<open>
  C15.  Whatever sequence of requests and give-backs is made on a fresh budget, the number of
  reservations that hold a key never exceeds the configured limit of that key: in every tenant,
  environment, region, cluster, team, risk tier and failure domain, and for every service, at most
  \<^const>\<open>limit\<close> steps run at the same time.
\<close>

theorem budget_never_exceeds_limits:
  assumes "NewBudget l = Inr b" and "budget_run ops b = (b', held)"
  shows "int (length (filter (\<lambda>r. k \<in> set (res_keys r)) held)) \<le> limit l k"
proof -
  have "bud.fits b []" "bud_limits b = l" using NewBudget_fits[OF assms(1)] by auto
  with budget_fold_fits[of b "[]" ops b' held] assms(2)
  have "bud.fits b' held" "bud_limits b' = l" by (auto simp: budget_run_def)
  then show ?thesis by (auto simp: bud.fits_def bud.holders_def budget_cap_def)
qed

definition demo_step :: "string \<Rightarrow> int \<Rightarrow> string list \<Rightarrow> Step" where
  "demo_step i phase deps = \<lparr>step_ID = i, step_Phase = phase, step_Tenant = ''t'',
     step_Environment = ''production'', step_Region = ''r'', step_Cluster = ''c'', step_Team = ''m'',
     step_RiskTier = ''high'', step_RunnerGroup = ''g'', step_FailureDomains = [''db''],
     step_Dependencies = deps\<rparr>"

theorem budget_never_exceeds_limits_witness:
  "\<exists>b b' held. NewBudget DefaultLimits = Inr b \<and>
     budget_run [Request (demo_step ''a'' 0 []), Request (demo_step ''b'' 0 [])] b = (b', held) \<and>
     length held = 1 \<and>
     (\<forall>k. int (length (filter (\<lambda>r. k \<in> set (res_keys r)) held)) \<le> limit DefaultLimits k)"
proof -
  obtain b where b: "NewBudget DefaultLimits = Inr b" "b = \<lparr>bud_limits = DefaultLimits, bud_active = Map.empty\<rparr>"
    by (simp add: NewBudget_def Limits_Validate_def DefaultLimits_def)
  obtain b' held where r: "budget_run [Request (demo_step ''a'' 0 []), Request (demo_step ''b'' 0 [])] b = (b', held)"
    by fastforce
  have "length held = 1"
    using r by (auto simp: b(2) budget_run_def TryAcquire_def keysFor_def demo_step_def limit_def
        DefaultLimits_def configuredLimit_def Let_def split: if_splits)
  with budget_never_exceeds_limits[OF b(1) r] b(1) r show ?thesis by blast
qed

text \<open>
  Giving back a reservation undoes the acquisition exactly: the budget is the one before the
  request, whatever it holds and even when the step names a failure domain more than once.
\<close>

theorem release_undoes_acquire:
  assumes "budget_wf b" and "TryAcquire b s = (b', r, [])"
  shows "Release b' r = b"
proof -
  have r: "res_keys r = keysFor s" and b': "b' = b\<lparr>bud_active := acquire_keys (keysFor s) (bud_active b)\<rparr>"
    using assms(2) by (simp_all add: TryAcquire_granted_iff)
  have pos: "\<forall>k n. bud_active b k = Some n \<longrightarrow> 1 \<le> n" using assms(1) by (simp add: budget_wf_def)
  let ?m = "release_keys (keysFor s) (acquire_keys (keysFor s) (bud_active b))"
  have "0 \<le> counter (bud_active b) k" for k
    using pos by (cases "bud_active b k") (force simp: counter_def)+
  then have "counter ?m = counter (bud_active b)"
    by (intro ext, subst counter_release_keys) (simp_all add: counter_acquire_keys)
  moreover have "\<forall>k n. ?m k = Some n \<longrightarrow> 1 \<le> n"
    by (intro release_keys_positive acquire_keys_positive pos)
  ultimately have "?m = bud_active b"
    using active_of_counter[of ?m] active_of_counter[OF pos] by metis
  then show ?thesis by (simp add: Release_def r b')
qed

theorem release_undoes_acquire_witness:
  "\<exists>b b' r. budget_wf b \<and> TryAcquire b (demo_step ''a'' 0 []) = (b', r, []) \<and> b' \<noteq> b \<and> Release b' r = b"
proof -
  let ?b = "\<lparr>bud_limits = DefaultLimits, bud_active = Map.empty\<rparr>"
  have wf: "budget_wf ?b" by (simp add: budget_wf_def Limits_Validate_def DefaultLimits_def)
  obtain b' r where t: "TryAcquire ?b (demo_step ''a'' 0 []) = (b', r, [])"
    by (simp add: TryAcquire_granted_iff keysFor_def demo_step_def limit_def DefaultLimits_def
        configuredLimit_def Let_def)
  have "b' \<noteq> ?b" using bud.granted_load[OF t, of "hd (keysFor (demo_step ''a'' 0 []))"]
    by (auto simp: keysFor_def Let_def budget_load_def)
  with wf t release_undoes_acquire[OF wf t] show ?thesis by blast
qed

end
