(* ===== verification/Waves.thy ===== *)
theory Waves
  imports Budget
begin

text \<open>
  \<^verbatim>\<open>internal/scheduler/waves.go\<close>: grouping of ready steps into waves.  The map \<^verbatim>\<open>pending\<close> is keyed by
  the step's own id, so it is a list of steps with distinct ids; Go ranges over it in an arbitrary
  order, which \<open>waves_order_irrelevant\<close> shows to be without effect.
\<close>

section \<open>Model\<close>

record Wave =
  wave_Number :: int
  wave_Steps :: "Step list"

definition cloneStep :: "Step \<Rightarrow> Step" where
  "cloneStep step = step\<lparr>step_FailureDomains := sort (step_FailureDomains step),
                         step_Dependencies := sort (step_Dependencies step)\<rparr>"

definition dependenciesComplete :: "Step \<Rightarrow> (string \<Rightarrow> bool) \<Rightarrow> bool" where
  "dependenciesComplete step completed \<longleftrightarrow> list_all completed (step_Dependencies step)"

fun collect_pending :: "Step list \<Rightarrow> Step list \<Rightarrow> (error, Step list) result" where
  "collect_pending pending [] = Inr pending"
| "collect_pending pending (step # steps) =
     (if step_ID step = [] then Inl (Errorf ''scheduled step id is required'')
      else if step_ID step \<in> set (map step_ID pending)
      then Inl (Errorf ''duplicate scheduled step %q'')
      else collect_pending (pending @ [cloneStep step]) steps)"

definition ready_key :: "Step \<Rightarrow> int \<times> string" where
  "ready_key s = (step_Phase s, step_ID s)"

definition ready_steps :: "Step list \<Rightarrow> (string \<Rightarrow> bool) \<Rightarrow> Step list" where
  "ready_steps pending completed =
     sort_key ready_key (filter (\<lambda>step. dependenciesComplete step completed) pending)"

fun fill_wave :: "Budget \<Rightarrow> int \<Rightarrow> Step list \<Rightarrow> Budget \<times> Step list \<times> Reservation list" where
  "fill_wave budget minimumPhase [] = (budget, [], [])"
| "fill_wave budget minimumPhase (step # ready) =
     (if step_Phase step \<noteq> minimumPhase then (budget, [], [])
      else case TryAcquire budget step of (budget', reservation, blocked) \<Rightarrow>
        if blocked \<noteq> [] then fill_wave budget' minimumPhase ready
        else case fill_wave budget' minimumPhase ready of (budget'', steps, reservations) \<Rightarrow>
          (budget'', step # steps, reservation # reservations))"

lemma fill_wave_subset: "fill_wave b m ss = (b', ws, rs) \<Longrightarrow> set ws \<subseteq> set ss"
  by (induction b m ss arbitrary: b' ws rs rule: fill_wave.induct)
     (auto split: if_splits prod.splits, blast+)

function wave_loop ::
  "Budget \<Rightarrow> Step list \<Rightarrow> (string \<Rightarrow> bool) \<Rightarrow> Wave list \<Rightarrow> (error, Wave list) result" where
  "wave_loop budget pending completed waves =
     (if pending = [] then Inr waves
      else let ready = ready_steps pending completed in
        if ready = [] then
          Inl (Errorf ''dependency cycle or unknown dependency in scheduling input'')
        else case fill_wave budget (step_Phase (hd ready)) ready of (budget', steps, reservations) \<Rightarrow>
          if steps = [] then
            Inl (Errorf ''configured limits prevent every ready step from dispatching'')
          else
            let ids = map step_ID steps in
            wave_loop (fold (\<lambda>reservation b. Release b reservation) reservations budget')
              (filter (\<lambda>step. step_ID step \<notin> set ids) pending)
              (\<lambda>i. i \<in> set ids \<or> completed i)
              (waves @ [\<lparr>wave_Number = int (length waves), wave_Steps = steps\<rparr>]))"
  by pat_completeness auto

termination
proof (relation "measure (\<lambda>(_, pending, _, _). length pending)", goal_cases)
  case (2 budget pending completed waves ready b1 y steps rs ids)
  then have "fill_wave budget (step_Phase (hd ready)) ready = (b1, steps, rs)" by auto
  then have "set steps \<subseteq> set pending"
    using fill_wave_subset 2(2) by (fastforce simp: ready_steps_def)
  then obtain s where "s \<in> set pending" "step_ID s \<in> set ids"
    using 2 by (cases steps) auto
  then have "length (filter (\<lambda>step. step_ID step \<notin> set ids) pending) < length pending"
    by (auto intro: length_filter_less)
  then show ?case by simp
qed simp

declare wave_loop.simps [simp del]

definition BuildWaves :: "Step list \<Rightarrow> Limits \<Rightarrow> (error, Wave list) result" where
  "BuildWaves steps limits =
     (case NewBudget limits of
        Inl err \<Rightarrow> Inl err
      | Inr budget \<Rightarrow>
          (case collect_pending [] steps of
             Inl err \<Rightarrow> Inl err
           | Inr pending \<Rightarrow> wave_loop budget pending (\<lambda>_. False) []))"

section \<open>One wave\<close>

lemma cloneStep_sel [simp]:
  "step_ID (cloneStep s) = step_ID s"
  "step_Phase (cloneStep s) = step_Phase s"
  "set (step_Dependencies (cloneStep s)) = set (step_Dependencies s)"
  by (simp_all add: cloneStep_def)

lemma keysFor_cloneStep [simp]: "keysFor (cloneStep s) = keysFor s"
  by (simp add: keysFor_def cloneStep_def)

lemma fill_wave_facts:
  "bud.fits b held \<Longrightarrow> fill_wave b m ss = (b', ws, rs) \<Longrightarrow>
     bud.fits b' (held @ rs) \<and> bud_limits b' = bud_limits b \<and> map res_keys rs = map keysFor ws \<and>
     subseq ws ss \<and> (\<forall>w \<in> set ws. step_Phase w = m)"
proof (induction b m ss arbitrary: held b' ws rs rule: fill_wave.induct)
  case (2 b m s ss)
  obtain b1 r x where t: "TryAcquire b s = (b1, r, x)" by (metis prod_cases3)
  obtain b2 ws2 rs2 where f: "fill_wave b1 m ss = (b2, ws2, rs2)" by (metis prod_cases3)
  show ?case
  proof (cases "step_Phase s = m")
    case phase: True
    show ?thesis
    proof (cases "x = []")
      case True
      have g: "TryAcquire b s = (b1, r, [])" using t True by simp
      then have lim: "bud_limits b1 = bud_limits b" "res_keys r = keysFor s"
        by (simp_all add: TryAcquire_granted_iff)
      have IH: "bud.fits b2 ((held @ [r]) @ rs2) \<and> bud_limits b2 = bud_limits b1 \<and>
          map res_keys rs2 = map keysFor ws2 \<and> subseq ws2 ss \<and> (\<forall>w \<in> set ws2. step_Phase w = m)"
        by (rule 2(2)[OF _ t[symmetric] refl _ bud.fits_grant[OF 2(3) g] f])
           (use phase True in simp_all)
      then show ?thesis using 2(4) phase True t f lim by auto
    next
      case False
      have "b1 = b" using bud.refused[OF t False] .
      then have "fill_wave b m ss = (b', ws, rs)" using 2(4) phase False t by simp
      then have "bud.fits b' (held @ rs) \<and> bud_limits b' = bud_limits b \<and>
          map res_keys rs = map keysFor ws \<and> subseq ws ss \<and> (\<forall>w \<in> set ws. step_Phase w = m)"
        using 2(1)[OF _ t[symmetric] refl _ 2(3)[folded \<open>b1 = b\<close>], of b' ws rs] phase False \<open>b1 = b\<close>
        by simp
      then show ?thesis by auto
    qed
  next
    case False
    then show ?thesis using 2(3,4) by auto
  qed
qed auto

lemma fill_wave_nonempty:
  assumes "bud.fits b []" and "fill_wave b (step_Phase s) (s # ss) = (b', ws, rs)"
  shows "ws \<noteq> []"
proof -
  obtain b1 r x where t: "TryAcquire b s = (b1, r, x)" by (metis prod_cases3)
  then have "x = []" using bud.idle_grants assms(1) unfolding bud.fits_def by blast
  then show ?thesis using assms(2) t by (auto split: prod.splits)
qed

text \<open>A wave is admissible when it is not empty, its steps share a phase, and every budget key is
  demanded by at most as many of its steps as the key's limit allows.\<close>

definition wave_admissible :: "Limits \<Rightarrow> Wave \<Rightarrow> bool" where
  "wave_admissible l w \<longleftrightarrow> wave_Steps w \<noteq> [] \<and>
     (\<forall>s \<in> set (wave_Steps w). step_Phase s = step_Phase (hd (wave_Steps w))) \<and>
     (\<forall>k. int (length (filter (\<lambda>s. k \<in> set (keysFor s)) (wave_Steps w))) \<le> limit l k)"

lemma holders_map:
  "map res_keys rs = map keysFor ws \<Longrightarrow>
     bud.holders rs k = length (filter (\<lambda>s. k \<in> set (keysFor s)) ws)"
  by (induction rs arbitrary: ws) (auto simp: bud.holders_def)

text \<open>One turn of the loop on an idle budget.\<close>

lemma wave_turn:
  assumes fits: "bud.fits b []" and lim: "bud_limits b = l" and pend: "pending \<noteq> []"
  shows "ready_steps pending completed = [] \<and> wave_loop b pending completed waves =
           Inl (Errorf ''dependency cycle or unknown dependency in scheduling input'') \<or>
         (\<exists>b' ws. bud.fits b' [] \<and> bud_limits b' = l \<and> subseq ws (ready_steps pending completed) \<and>
            wave_admissible l \<lparr>wave_Number = int (length waves), wave_Steps = ws\<rparr> \<and>
            wave_loop b pending completed waves =
              wave_loop b' (filter (\<lambda>s. step_ID s \<notin> step_ID ` set ws) pending)
                (\<lambda>i. i \<in> step_ID ` set ws \<or> completed i)
                (waves @ [\<lparr>wave_Number = int (length waves), wave_Steps = ws\<rparr>]))"
proof (cases "ready_steps pending completed")
  case Nil
  then show ?thesis using pend by (subst wave_loop.simps) simp
next
  case (Cons s ss)
  obtain b' ws rs where f: "fill_wave b (step_Phase s) (s # ss) = (b', ws, rs)"
    by (metis prod_cases3)
  have ne: "ws \<noteq> []" using fill_wave_nonempty[OF fits f] .
  have facts: "bud.fits b' rs" "bud_limits b' = bud_limits b" "map res_keys rs = map keysFor ws"
    "subseq ws (s # ss)" "\<forall>w \<in> set ws. step_Phase w = step_Phase s"
    using fill_wave_facts[OF fits f] by auto
  define b'' where "b'' = fold (\<lambda>r b. Release b r) rs b'"
  have fits'': "bud.fits b'' []" using bud.fits_release_all[of b' rs "[]"] facts(1) by (simp add: b''_def)
  have lim'': "bud_limits b'' = l"
  proof -
    have "bud_limits (fold (\<lambda>r b. Release b r) rs c) = bud_limits c" for c
      by (induction rs arbitrary: c) (simp_all add: Release_def)
    then show ?thesis using facts(2) lim by (simp add: b''_def)
  qed
  have "wave_admissible l \<lparr>wave_Number = int (length waves), wave_Steps = ws\<rparr>"
    using facts lim ne holders_map[OF facts(3)]
    by (auto simp: wave_admissible_def bud.fits_def budget_cap_def dest: hd_in_set) 
  moreover have "wave_loop b pending completed waves =
      wave_loop b'' (filter (\<lambda>s. step_ID s \<notin> step_ID ` set ws) pending)
                (\<lambda>i. i \<in> step_ID ` set ws \<or> completed i)
                (waves @ [\<lparr>wave_Number = int (length waves), wave_Steps = ws\<rparr>])"
    using pend Cons f ne by (subst wave_loop.simps) (simp add: b''_def)
  ultimately show ?thesis
    using fits'' lim'' facts(4) Cons by (intro disjI2 exI[of _ b''] exI[of _ ws] conjI) auto
qed

section \<open>The loop\<close>

text \<open>The waves are in dependency order relative to the steps completed before the first of them.\<close>

fun deps_ordered :: "(string \<Rightarrow> bool) \<Rightarrow> Wave list \<Rightarrow> bool" where
  "deps_ordered completed [] \<longleftrightarrow> True"
| "deps_ordered completed (w # ws) \<longleftrightarrow>
     (\<forall>s \<in> set (wave_Steps w). \<forall>d \<in> set (step_Dependencies s). completed d) \<and>
     deps_ordered (\<lambda>i. i \<in> step_ID ` set (wave_Steps w) \<or> completed i) ws"

lemma ready_steps_sub:
  "set (ready_steps pending completed) =
     {s \<in> set pending. \<forall>d \<in> set (step_Dependencies s). completed d}"
  by (auto simp: ready_steps_def dependenciesComplete_def list_all_iff)

lemma mset_partition_ids:
  assumes "distinct (map step_ID pending)" and "distinct ws" and "set ws \<subseteq> set pending"
  shows "mset ws + mset (filter (\<lambda>s. step_ID s \<notin> step_ID ` set ws) pending) = mset pending"
proof -
  have inj: "inj_on step_ID (set pending)" and d: "distinct pending"
    using assms(1) by (simp_all add: distinct_map)
  have "{s \<in> set pending. step_ID s \<in> step_ID ` set ws} = set ws"
    using inj assms(3) by (auto simp: inj_on_def)
  then have "set (filter (\<lambda>s. step_ID s \<in> step_ID ` set ws) pending) = set ws" by simp
  then have "mset (filter (\<lambda>s. step_ID s \<in> step_ID ` set ws) pending) = mset ws"
    using assms(2) d by (intro set_eq_iff_mset_eq_distinct[THEN iffD1]) simp_all
  then show ?thesis by (metis mset_filter multiset_partition)
qed

lemma wave_loop_sound:
  "bud.fits b [] \<Longrightarrow> bud_limits b = l \<Longrightarrow> distinct (map step_ID pending) \<Longrightarrow>
   wave_loop b pending completed waves = Inr out \<Longrightarrow>
   \<exists>new. out = waves @ new \<and> mset (concat (map wave_Steps new)) = mset pending \<and>
     map wave_Number new = map int [length waves..<length out] \<and>
     (\<forall>w \<in> set new. wave_admissible l w) \<and> deps_ordered completed new"
proof (induction "length pending" arbitrary: b pending completed waves rule: less_induct)
  case less
  show ?case
  proof (cases "pending = []")
    case True
    then show ?thesis using less.prems(4) by (simp add: wave_loop.simps)
  next
    case False
    obtain b' ws where turn: "bud.fits b' []" "bud_limits b' = l"
        "subseq ws (ready_steps pending completed)"
        "wave_admissible l \<lparr>wave_Number = int (length waves), wave_Steps = ws\<rparr>"
      and loop: "wave_loop b' (filter (\<lambda>s. step_ID s \<notin> step_ID ` set ws) pending)
                (\<lambda>i. i \<in> step_ID ` set ws \<or> completed i)
                (waves @ [\<lparr>wave_Number = int (length waves), wave_Steps = ws\<rparr>]) = Inr out"
      using wave_turn[OF less.prems(1,2) False, of completed waves] less.prems(4) by auto
    let ?rest = "filter (\<lambda>s. step_ID s \<notin> step_ID ` set ws) pending"
    have dp: "distinct pending" using less.prems(3) by (simp add: distinct_map)
    have dws: "distinct ws"
      using subseq_distinct[OF turn(3)] dp by (simp add: ready_steps_def)
    have sub: "set ws \<subseteq> set (ready_steps pending completed)" using subseq_set[OF turn(3)] .
    then have part: "mset ws + mset ?rest = mset pending"
      using mset_partition_ids[OF less.prems(3) dws] ready_steps_sub by blast
    have "ws \<noteq> []" using turn(4) by (simp add: wave_admissible_def)
    then have "length ?rest < length pending" using part by (metis add_lessD1 size_mset size_union
        length_greater_0_conv less_add_same_cancel2)
    moreover have "distinct (map step_ID ?rest)" using less.prems(3) by (simp add: distinct_map_filter)
    ultimately obtain new where new: "out = (waves @ [\<lparr>wave_Number = int (length waves), wave_Steps = ws\<rparr>]) @ new"
        "mset (concat (map wave_Steps new)) = mset ?rest"
        "map wave_Number new = map int [Suc (length waves)..<length out]"
        "\<forall>w \<in> set new. wave_admissible l w"
        "deps_ordered (\<lambda>i. i \<in> step_ID ` set ws \<or> completed i) new"
      using less.hyps[OF _ turn(1,2) _ loop] by auto
    have "length waves < length out" using new(1) by simp
    then have num: "map wave_Number (\<lparr>wave_Number = int (length waves), wave_Steps = ws\<rparr> # new) =
        map int [length waves..<length out]"
      using new(3) by (simp add: upt_conv_Cons)
    have deps: "\<forall>s \<in> set ws. \<forall>d \<in> set (step_Dependencies s). completed d"
      using sub ready_steps_sub[of pending completed] by blast
    show ?thesis
      by (rule exI[of _ "\<lparr>wave_Number = int (length waves), wave_Steps = ws\<rparr> # new"], intro conjI num)
         (use new(1,2,4,5) part turn(4) deps in simp_all)
  qed
qed

lemma wave_loop_error:
  "bud.fits b [] \<Longrightarrow> distinct (map step_ID pending) \<Longrightarrow>
   wave_loop b pending completed waves = Inl e \<Longrightarrow>
   e = Errorf ''dependency cycle or unknown dependency in scheduling input'' \<and>
   (\<exists>stuck. stuck \<noteq> {} \<and> stuck \<subseteq> set pending \<and>
      (\<forall>s \<in> stuck. \<exists>d \<in> set (step_Dependencies s).
         \<not> completed d \<and> d \<notin> step_ID ` (set pending - stuck)))"
proof (induction "length pending" arbitrary: b pending completed waves rule: less_induct)
  case less
  have "pending \<noteq> []" using less.prems(3) by (auto simp: wave_loop.simps)
  note turn = wave_turn[OF less.prems(1) refl this, of completed waves]
  show ?case
  proof (cases "ready_steps pending completed = []")
    case True
    then have "\<forall>s \<in> set pending. \<exists>d \<in> set (step_Dependencies s). \<not> completed d"
      using ready_steps_sub[of pending completed] by auto
    moreover have "e = Errorf ''dependency cycle or unknown dependency in scheduling input''"
      using turn True less.prems(3) by (auto simp: wave_admissible_def)
    ultimately show ?thesis using \<open>pending \<noteq> []\<close> by (intro conjI exI[of _ "set pending"]) auto
  next
    case False
    obtain b' ws where b': "bud.fits b' []" and sub: "subseq ws (ready_steps pending completed)"
      and adm: "wave_admissible (bud_limits b) \<lparr>wave_Number = int (length waves), wave_Steps = ws\<rparr>"
      and loop: "wave_loop b' (filter (\<lambda>s. step_ID s \<notin> step_ID ` set ws) pending)
                (\<lambda>i. i \<in> step_ID ` set ws \<or> completed i)
                (waves @ [\<lparr>wave_Number = int (length waves), wave_Steps = ws\<rparr>]) = Inl e"
      using turn False less.prems(3) by auto
    let ?rest = "filter (\<lambda>s. step_ID s \<notin> step_ID ` set ws) pending"
    obtain w where "w \<in> set ws" using adm by (cases ws) (auto simp: wave_admissible_def)
    then have "w \<in> set pending" using subseq_set[OF sub] ready_steps_sub by blast
    then have lt: "length ?rest < length pending"
      using \<open>w \<in> set ws\<close> by (auto intro: length_filter_less)
    have dist: "distinct (map step_ID ?rest)" using less.prems(2) by (simp add: distinct_map_filter)
    obtain stuck where e: "e = Errorf ''dependency cycle or unknown dependency in scheduling input''"
      and st: "stuck \<noteq> {}" "stuck \<subseteq> set ?rest"
        "\<forall>s \<in> stuck. \<exists>d \<in> set (step_Dependencies s).
           \<not> (d \<in> step_ID ` set ws \<or> completed d) \<and> d \<notin> step_ID ` (set ?rest - stuck)"
      using less.hyps[OF lt b' dist loop] by blast
    have "set pending - stuck \<subseteq> (set ?rest - stuck) \<union> {s. step_ID s \<in> step_ID ` set ws}" by auto
    then have "\<forall>s \<in> stuck. \<exists>d \<in> set (step_Dependencies s).
        \<not> completed d \<and> d \<notin> step_ID ` (set pending - stuck)"
      using st(3) by blast
    moreover have "stuck \<subseteq> set pending" using st(2) by auto
    ultimately show ?thesis using e st(1) by blast
  qed
qed

lemma wave_loop_perm:
  "mset pending = mset pending' \<Longrightarrow> distinct (map step_ID pending) \<Longrightarrow>
   wave_loop b pending completed waves = wave_loop b pending' completed waves"
proof (induction "length pending" arbitrary: b pending pending' completed waves rule: less_induct)
  case less
  have inj: "inj_on ready_key (set pending)"
    using less.prems(2) by (auto simp: distinct_map inj_on_def ready_key_def)
  have ready: "ready_steps pending completed = ready_steps pending' completed"
    unfolding ready_steps_def using less.prems(1) inj
    by (intro sort_key_mset_inj) (simp_all add: mset_filter inj_on_def)
  have nil: "pending = [] \<longleftrightarrow> pending' = []" using less.prems(1) by (metis mset_zero_iff)
  obtain b' ws rs where f: "fill_wave b (step_Phase (hd (ready_steps pending' completed)))
      (ready_steps pending' completed) = (b', ws, rs)" by (metis prod_cases3)
  let ?rest = "\<lambda>p. filter (\<lambda>s. step_ID s \<notin> step_ID ` set ws) p"
  have "wave_loop c (?rest pending) fin vs = wave_loop c (?rest pending') fin vs"
    if "ws \<noteq> []" for c fin vs
  proof (rule less.hyps)
    obtain w where "w \<in> set ws" using \<open>ws \<noteq> []\<close> by (cases ws) auto
    then have "w \<in> set pending"
      using fill_wave_subset[OF f] ready ready_steps_sub[of pending completed] by auto
    then show "length (?rest pending) < length pending"
      using \<open>w \<in> set ws\<close> by (auto intro: length_filter_less)
  qed (use less.prems in \<open>simp_all add: mset_filter distinct_map_filter\<close>)
  then show ?case
    using nil f ready by (subst (1 2) wave_loop.simps) (simp add: Let_def)
qed

section \<open>Properties of \<open>BuildWaves\<close>\<close>

lemma collect_pending_Inr:
  "distinct (map step_ID pending) \<Longrightarrow> collect_pending pending steps = Inr out \<longleftrightarrow>
     (\<forall>s \<in> set steps. step_ID s \<noteq> []) \<and> distinct (map step_ID (pending @ steps)) \<and>
     out = pending @ map cloneStep steps"
proof (induction pending steps rule: collect_pending.induct)
  case (2 pending step steps)
  show ?case
  proof (cases "step_ID step = [] \<or> step_ID step \<in> set (map step_ID pending)")
    case True
    then show ?thesis by auto
  next
    case False
    then have "distinct (map step_ID (pending @ [cloneStep step]))" using 2(2) by simp
    with 2(1) False show ?thesis by auto
  qed
qed auto

lemma BuildWaves_Inr:
  assumes "BuildWaves steps l = Inr waves"
  obtains b where "NewBudget l = Inr b" "distinct (map step_ID steps)"
    "\<forall>s \<in> set steps. step_ID s \<noteq> []"
    "wave_loop b (map cloneStep steps) (\<lambda>_. False) [] = Inr waves"
proof -
  obtain b pending where "NewBudget l = Inr b" "collect_pending [] steps = Inr pending"
    "wave_loop b pending (\<lambda>_. False) [] = Inr waves"
    using assms by (auto simp: BuildWaves_def split: sum.splits)
  with collect_pending_Inr[of "[]" steps pending] that show thesis by simp
qed

lemma distinct_clones: "distinct (map step_ID (map cloneStep steps)) \<longleftrightarrow> distinct (map step_ID steps)"
  by (simp add: comp_def)

lemma deps_ordered_nth:
  "deps_ordered completed ws \<Longrightarrow> i < length ws \<Longrightarrow> s \<in> set (wave_Steps (ws ! i)) \<Longrightarrow>
   d \<in> set (step_Dependencies s) \<Longrightarrow>
   completed d \<or> (\<exists>j < i. d \<in> step_ID ` set (wave_Steps (ws ! j)))"
proof (induction ws arbitrary: completed i)
  case (Cons w ws)
  show ?case
  proof (cases i)
    case 0
    then show ?thesis using Cons.prems by auto
  next
    case (Suc i')
    then have "(d \<in> step_ID ` set (wave_Steps w) \<or> completed d) \<or>
        (\<exists>j < i'. d \<in> step_ID ` set (wave_Steps (ws ! j)))"
      using Cons.IH[of _ i'] Cons.prems by auto
    then show ?thesis using Suc by (auto intro: exI[of _ 0] exI[of _ "Suc _"])
  qed
qed simp

lemma BuildWaves_facts:
  assumes "BuildWaves steps l = Inr waves"
  shows "mset (concat (map wave_Steps waves)) = mset (map cloneStep steps)"
    and "map wave_Number waves = map int [0..<length waves]"
    and "\<forall>w \<in> set waves. wave_admissible l w"
    and "deps_ordered (\<lambda>_. False) waves"
proof -
  obtain b where b: "NewBudget l = Inr b" "distinct (map step_ID steps)"
    "wave_loop b (map cloneStep steps) (\<lambda>_. False) [] = Inr waves"
    using BuildWaves_Inr[OF assms] by metis
  have fits: "bud.fits b []" "bud_limits b = l" using NewBudget_fits[OF b(1)] by auto
  have dist: "distinct (map step_ID (map cloneStep steps))" using b(2) distinct_clones by blast
  show "mset (concat (map wave_Steps waves)) = mset (map cloneStep steps)"
    "map wave_Number waves = map int [0..<length waves]"
    "\<forall>w \<in> set waves. wave_admissible l w" "deps_ordered (\<lambda>_. False) waves"
    using wave_loop_sound[OF fits dist b(3)] by (simp_all only: append_Nil list.size(3)) blast+
qed

text \<open>
  C34.  The waves are a partition of the input: every step (with its lists sorted) is in exactly one
  wave, the waves are numbered from 0, none is empty, all steps of a wave have the same phase, and
  in each wave at most \<^const>\<open>limit\<close> steps demand the same budget key, so that dispatching a whole
  wave at once never exceeds a limit.
\<close>

theorem waves_partition_within_limits:
  assumes "BuildWaves steps l = Inr waves"
  shows "mset (concat (map wave_Steps waves)) = mset (map cloneStep steps) \<and>
         map wave_Number waves = map int [0..<length waves] \<and>
         (\<forall>w \<in> set waves. wave_Steps w \<noteq> [] \<and>
            (\<forall>s \<in> set (wave_Steps w). step_Phase s = step_Phase (hd (wave_Steps w))) \<and>
            (\<forall>k. int (length (filter (\<lambda>s. k \<in> set (keysFor s)) (wave_Steps w))) \<le> limit l k))"
  using BuildWaves_facts[OF assms] unfolding wave_admissible_def by blast

text \<open>
  C14.  Waves respect dependencies: whatever a step of a wave depends on is the id of a step of an
  earlier wave.
\<close>

theorem waves_respect_dependencies:
  assumes "BuildWaves steps l = Inr waves" and "i < length waves"
    and "s \<in> set (wave_Steps (waves ! i))" and "d \<in> set (step_Dependencies s)"
  shows "\<exists>j < i. d \<in> step_ID ` set (wave_Steps (waves ! j))"
  using deps_ordered_nth[OF BuildWaves_facts(4)[OF assms(1)] assms(2-4)] by simp

lemma first_index_le:
  "j < length ws \<Longrightarrow> \<not> P (ws ! j) \<Longrightarrow> length (takeWhile P ws) \<le> j"
  by (metis leI nth_mem set_takeWhileD takeWhile_nth)

lemma ranked_if_ordered:
  assumes part: "mset (concat (map wave_Steps waves)) = mset (map cloneStep steps)"
    and dist: "distinct (map step_ID steps)" and ord: "deps_ordered (\<lambda>_. False) waves"
  shows "\<exists>rank :: string \<Rightarrow> nat. \<forall>s \<in> set steps. \<forall>d \<in> set (step_Dependencies s).
           d \<in> step_ID ` set steps \<and> rank d < rank (step_ID s)"
proof (intro exI ballI)
  define absent where "absent = (\<lambda>i (w :: Wave). i \<notin> step_ID ` set (wave_Steps w))"
  define rank where "rank = (\<lambda>i. length (takeWhile (absent i) waves))"
  have all: "(\<Union>w \<in> set waves. set (wave_Steps w)) = cloneStep ` set steps"
    using mset_eq_setD[OF part] by simp
  fix s d assume s: "s \<in> set steps" and d: "d \<in> set (step_Dependencies s)"
  obtain w where w: "w \<in> set waves" "cloneStep s \<in> set (wave_Steps w)"
    using imageI[OF s, of cloneStep] all by blast
  have "step_ID s \<in> step_ID ` set (wave_Steps w)" using imageI[OF w(2), of step_ID] by simp
  then have "\<not> absent (step_ID s) w" by (simp add: absent_def)
  then have "takeWhile (absent (step_ID s)) waves \<noteq> waves" using w(1) by (auto simp: takeWhile_eq_all_conv)
  then have r: "rank (step_ID s) < length waves"
    unfolding rank_def by (metis length_takeWhile_le le_neq_implies_less takeWhile_eq_take take_all order_refl)
  then have "\<not> absent (step_ID s) (waves ! rank (step_ID s))"
    unfolding rank_def by (rule nth_length_takeWhile)
  then obtain s' where s': "s' \<in> set (wave_Steps (waves ! rank (step_ID s)))" "step_ID s' = step_ID s"
    by (auto simp: absent_def)
  then have "s' \<in> cloneStep ` set steps" using r all by (metis UN_I nth_mem)
  then have "s' = cloneStep s" using s s'(2) dist by (auto simp: distinct_map inj_on_def)
  then obtain j where j: "j < rank (step_ID s)" "d \<in> step_ID ` set (wave_Steps (waves ! j))"
    using deps_ordered_nth[OF ord r s'(1), of d] d by auto
  have "rank d \<le> j"
    unfolding rank_def using j r by (intro first_index_le) (auto simp: absent_def)
  moreover have "d \<in> step_ID ` set steps"
  proof -
    have "waves ! j \<in> set waves" using j(1) r by simp
    then have "d \<in> step_ID ` (cloneStep ` set steps)" using j(2) all by blast
    then show ?thesis by (simp add: image_image)
  qed
  ultimately show "d \<in> step_ID ` set steps \<and> rank d < rank (step_ID s)" using j(1) by simp
qed

lemma no_stuck_if_ranked:
  assumes rank: "\<forall>s \<in> set steps. \<forall>d \<in> set (step_Dependencies s).
           d \<in> step_ID ` set steps \<and> rank d < (rank (step_ID s) :: nat)"
    and stuck: "stuck \<noteq> {}" "stuck \<subseteq> set (map cloneStep steps)"
      "\<forall>s \<in> stuck. \<exists>d \<in> set (step_Dependencies s).
         d \<notin> step_ID ` (set (map cloneStep steps) - stuck)"
  shows False
proof -
  obtain s where s: "s \<in> stuck" "\<forall>t \<in> stuck. rank (step_ID s) \<le> rank (step_ID t)"
    using ex_has_least_nat[of "\<lambda>s. s \<in> stuck" _ "\<lambda>s. rank (step_ID s)"] stuck(1) by blast
  obtain d where d: "d \<in> set (step_Dependencies s)"
      "d \<notin> step_ID ` (set (map cloneStep steps) - stuck)"
    using stuck(3) s(1) by blast
  obtain u where u: "u \<in> set steps" "s = cloneStep u" using s(1) stuck(2) by auto
  then have "d \<in> step_ID ` set steps" "rank d < rank (step_ID s)" using rank d(1) by auto
  then obtain t where t: "t \<in> set steps" "step_ID t = d" by auto
  have "cloneStep t \<in> stuck"
  proof (rule ccontr)
    assume "cloneStep t \<notin> stuck"
    then have "step_ID (cloneStep t) \<in> step_ID ` (set (map cloneStep steps) - stuck)"
      using t(1) by (intro imageI) simp
    then show False using d(2) t(2) by simp
  qed
  then have "rank (step_ID s) \<le> rank d" using s(2) t(2) by (metis cloneStep_sel(1))
  then show False using \<open>rank d < rank (step_ID s)\<close> by simp
qed

text \<open>
  C16.  \<^const>\<open>BuildWaves\<close> succeeds exactly when the steps can be ordered at all: with valid limits and
  distinct, non-empty ids it returns waves if and only if there is a rank that puts every
  dependency, which must be one of the steps, strictly below the step that needs it.  In
  particular the configured limits alone never make it fail, and the loop always ends.
\<close>

theorem waves_exist_iff_orderable:
  assumes "Limits_Validate l = None" and "distinct (map step_ID steps)"
    and "\<forall>s \<in> set steps. step_ID s \<noteq> []"
  shows "(\<exists>waves. BuildWaves steps l = Inr waves) \<longleftrightarrow>
         (\<exists>rank :: string \<Rightarrow> nat. \<forall>s \<in> set steps. \<forall>d \<in> set (step_Dependencies s).
            d \<in> step_ID ` set steps \<and> rank d < rank (step_ID s))"
proof -
  obtain b where b: "NewBudget l = Inr b" using assms(1) by (simp add: NewBudget_def)
  have fits: "bud.fits b []" using NewBudget_fits[OF b] by simp
  have build: "BuildWaves steps l = wave_loop b (map cloneStep steps) (\<lambda>_. False) []"
    using assms b collect_pending_Inr[of "[]" steps "map cloneStep steps"] by (simp add: BuildWaves_def)
  have dist: "distinct (map step_ID (map cloneStep steps))" using assms(2) distinct_clones by blast
  show ?thesis
  proof (cases "BuildWaves steps l")
    case (Inl e)
    then obtain stuck where st: "stuck \<noteq> {}" "stuck \<subseteq> set (map cloneStep steps)"
      "\<forall>s \<in> stuck. \<exists>d \<in> set (step_Dependencies s).
         d \<notin> step_ID ` (set (map cloneStep steps) - stuck)"
      using wave_loop_error[OF fits dist, of "\<lambda>_. False" "[]" e] build by auto
    have "\<not> (\<exists>waves. BuildWaves steps l = Inr waves)" using Inl by simp
    then show ?thesis using no_stuck_if_ranked[OF _ st] by blast
  next
    case (Inr waves)
    have "mset (concat (map wave_Steps waves)) = mset (map cloneStep steps)"
      and "deps_ordered (\<lambda>_. False) waves"
      using BuildWaves_facts[OF Inr] by blast+
    with ranked_if_ordered[OF _ assms(2)] Inr show ?thesis by blast
  qed
qed

text \<open>
  Determinism: neither the order of the input steps nor the order in which Go ranges over the
  pending map changes the waves.
\<close>

theorem waves_order_irrelevant:
  assumes "mset steps = mset steps'" and "BuildWaves steps l = Inr waves"
  shows "BuildWaves steps' l = Inr waves"
proof -
  obtain b where b: "NewBudget l = Inr b" "distinct (map step_ID steps)"
    "\<forall>s \<in> set steps. step_ID s \<noteq> []"
    "wave_loop b (map cloneStep steps) (\<lambda>_. False) [] = Inr waves"
    using BuildWaves_Inr[OF assms(2)] by metis
  have m: "mset (map cloneStep steps) = mset (map cloneStep steps')" using assms(1) by simp
  have "distinct (map step_ID steps')"
    using b(2) assms(1) by (metis mset_eq_imp_distinct_iff mset_map)
  moreover have "\<forall>s \<in> set steps'. step_ID s \<noteq> []" using b(3) assms(1) by (metis mset_eq_setD)
  ultimately have "collect_pending [] steps' = Inr (map cloneStep steps')"
    using collect_pending_Inr[of "[]" steps' "map cloneStep steps'"] by simp
  then show ?thesis
    using b wave_loop_perm[OF m] distinct_clones[of steps] by (simp add: BuildWaves_def)
qed

section \<open>A concrete schedule\<close>

definition demo_steps :: "Step list" where
  "demo_steps = [demo_step ''b'' 0 [''a''], demo_step ''a'' 0 []]"

lemma wave_loop_singleton:
  assumes "bud.fits b []" and "ready_steps pending completed = [s]"
  shows "\<exists>b'. bud.fits b' [] \<and> wave_loop b pending completed waves =
    wave_loop b' (filter (\<lambda>t. step_ID t \<noteq> step_ID s) pending) (\<lambda>i. i = step_ID s \<or> completed i)
      (waves @ [\<lparr>wave_Number = int (length waves), wave_Steps = [s]\<rparr>])"
proof -
  have "pending \<noteq> []" using assms(2) by (auto simp: ready_steps_def)
  then obtain b' ws where t: "bud.fits b' []" "subseq ws [s]"
      "wave_admissible (bud_limits b) \<lparr>wave_Number = int (length waves), wave_Steps = ws\<rparr>"
      "wave_loop b pending completed waves =
              wave_loop b' (filter (\<lambda>s. step_ID s \<notin> step_ID ` set ws) pending)
                (\<lambda>i. i \<in> step_ID ` set ws \<or> completed i)
                (waves @ [\<lparr>wave_Number = int (length waves), wave_Steps = ws\<rparr>])"
    using wave_turn[OF assms(1) refl, of pending completed waves] assms(2) by auto
  then have "ws = [s]" by (cases ws) (auto simp: wave_admissible_def dest: list_emb_length split: if_splits)
  with t show ?thesis by auto
qed

lemma demo_waves:
  "BuildWaves demo_steps DefaultLimits = Inr
     [\<lparr>wave_Number = 0, wave_Steps = [demo_step ''a'' 0 []]\<rparr>,
      \<lparr>wave_Number = 1, wave_Steps = [demo_step ''b'' 0 [''a'']]\<rparr>]"
proof -
  obtain b where b: "NewBudget DefaultLimits = Inr b"
    by (simp add: NewBudget_def Limits_Validate_def DefaultLimits_def)
  have clone: "map cloneStep demo_steps = demo_steps"
    by (simp add: demo_steps_def cloneStep_def demo_step_def)
  have "collect_pending [] demo_steps = Inr demo_steps"
    by (subst collect_pending_Inr) (simp_all add: clone, simp_all add: demo_steps_def demo_step_def)
  then have "BuildWaves demo_steps DefaultLimits = wave_loop b demo_steps (\<lambda>_. False) []"
    using b by (simp add: BuildWaves_def)
  also obtain b' where b': "bud.fits b' []" and "\<dots> = wave_loop b'
      (filter (\<lambda>t. step_ID t \<noteq> ''a'') demo_steps) (\<lambda>i. i = ''a'' \<or> False)
      [\<lparr>wave_Number = 0, wave_Steps = [demo_step ''a'' 0 []]\<rparr>]"
    using wave_loop_singleton[of b demo_steps "\<lambda>_. False" "demo_step ''a'' 0 []" "[]"] NewBudget_fits[OF b]
    by (auto simp: ready_steps_def dependenciesComplete_def demo_steps_def demo_step_def)
  note this(2)
  also have "filter (\<lambda>t. step_ID t \<noteq> ''a'') demo_steps = [demo_step ''b'' 0 [''a'']]"
    by (simp add: demo_steps_def demo_step_def)
  also obtain b'' where "wave_loop b' [demo_step ''b'' 0 [''a'']] (\<lambda>i. i = ''a'' \<or> False)
      [\<lparr>wave_Number = 0, wave_Steps = [demo_step ''a'' 0 []]\<rparr>] = wave_loop b'' [] 
        (\<lambda>i. i = ''b'' \<or> i = ''a'' \<or> False)
      [\<lparr>wave_Number = 0, wave_Steps = [demo_step ''a'' 0 []]\<rparr>,
       \<lparr>wave_Number = 1, wave_Steps = [demo_step ''b'' 0 [''a'']]\<rparr>]"
    using wave_loop_singleton[of b' "[demo_step ''b'' 0 [''a'']]" "\<lambda>i. i = ''a'' \<or> False"
        "demo_step ''b'' 0 [''a'']" "[\<lparr>wave_Number = 0, wave_Steps = [demo_step ''a'' 0 []]\<rparr>]"] b'
    by (auto simp: ready_steps_def dependenciesComplete_def demo_step_def)
  note this
  finally show ?thesis by (simp add: wave_loop.simps)
qed

theorem waves_partition_within_limits_witness:
  "\<exists>waves. BuildWaves demo_steps DefaultLimits = Inr waves \<and> length waves = 2 \<and>
     mset (concat (map wave_Steps waves)) = mset (map cloneStep demo_steps)"
  using demo_waves waves_partition_within_limits[OF demo_waves] by (intro exI conjI) auto

theorem waves_respect_dependencies_witness:
  "\<exists>waves s. BuildWaves demo_steps DefaultLimits = Inr waves \<and> s \<in> set (wave_Steps (waves ! 1)) \<and>
     ''a'' \<in> set (step_Dependencies s) \<and>
     (\<exists>j < 1. ''a'' \<in> step_ID ` set (wave_Steps (waves ! j)))"
proof -
  let ?s = "demo_step ''b'' 0 [''a'']"
  have "''a'' \<in> set (step_Dependencies ?s)" by (simp add: demo_step_def)
  with waves_respect_dependencies[OF demo_waves, of 1 ?s "''a''"] demo_waves
  show ?thesis by fastforce
qed

theorem waves_exist_iff_orderable_witness:
  "Limits_Validate DefaultLimits = None \<and> distinct (map step_ID demo_steps) \<and>
   list_all (\<lambda>s. step_ID s \<noteq> []) demo_steps \<and> (\<exists>waves. BuildWaves demo_steps DefaultLimits = Inr waves)"
proof -
  have h: "Limits_Validate DefaultLimits = None" "distinct (map step_ID demo_steps)"
      "\<forall>s \<in> set demo_steps. step_ID s \<noteq> []"
    by (simp_all add: Limits_Validate_def DefaultLimits_def demo_steps_def demo_step_def)
  have "\<exists>rank :: string \<Rightarrow> nat. \<forall>s \<in> set demo_steps. \<forall>d \<in> set (step_Dependencies s).
          d \<in> step_ID ` set demo_steps \<and> rank d < rank (step_ID s)"
    by (rule exI[of _ "\<lambda>i. if i = ''a'' then 0 else 1"]) (simp add: demo_steps_def demo_step_def)
  with waves_exist_iff_orderable[OF h] h show ?thesis unfolding list_all_iff by blast
qed

theorem waves_order_irrelevant_witness:
  "\<exists>waves. mset demo_steps = mset (rev demo_steps) \<and> BuildWaves demo_steps DefaultLimits = Inr waves \<and>
     BuildWaves (rev demo_steps) DefaultLimits = Inr waves"
  using waves_order_irrelevant[OF _ demo_waves, of "rev demo_steps"] demo_waves by simp

end
