(* ===== verification/Go_Std.thy ===== *)
theory Go_Std
  imports Domain
begin

text \<open>
  What the program uses of the Go standard library, as executable functions: rounding of float64
  quotients, \<^verbatim>\<open>strings.TrimSpace\<close>, \<^verbatim>\<open>time.ParseDuration\<close>, and the value tree that
  \<^verbatim>\<open>encoding/json\<close> writes (struct fields in order with \<^verbatim>\<open>omitempty\<close> applied, map keys sorted).
  SHA-256 over the encoded tree is a parameter \<open>digest\<close> of the functions that hash.
\<close>

section \<open>float64\<close>

text \<open>
  \<open>float64 a b\<close> is the quotient of the positive integers \<open>a\<close> and \<open>b\<close> rounded to the nearest value with 53
  significant bits, ties to even.  Exponents stay far from the limits of the format here.
\<close>

function shift_up :: "int \<Rightarrow> int \<Rightarrow> nat" where
  "shift_up a b = (if a \<le> 0 \<or> b * 2 ^ 52 \<le> a then 0 else Suc (shift_up (2 * a) b))"
  by pat_completeness auto
termination by (relation "measure (\<lambda>(a, b). nat (b * 2 ^ 52 - a))") auto

function shift_down :: "int \<Rightarrow> int \<Rightarrow> nat" where
  "shift_down a b = (if b \<le> 0 \<or> a < b * 2 ^ 53 then 0 else Suc (shift_down a (2 * b)))"
  by pat_completeness auto
termination by (relation "measure (\<lambda>(a, b). nat (a - b))") auto

declare shift_up.simps [simp del] shift_down.simps [simp del]

definition round_half_even :: "int \<Rightarrow> int \<Rightarrow> int" where
  "round_half_even a b = (let q = a div b; r = a mod b in
     if b < 2 * r \<or> (2 * r = b \<and> odd q) then q + 1 else q)"

definition float64 :: "int \<Rightarrow> int \<Rightarrow> rat" where
  "float64 a b = (if a = 0 then 0
     else let u = shift_up a b; d = shift_down a b
          in of_int (round_half_even (a * 2 ^ u) (b * 2 ^ d)) * 2 ^ d / 2 ^ u)"

section \<open>strings.TrimSpace\<close>

text \<open>The white space of Unicode, as the byte sequences that encode it in UTF-8.\<close>

definition space_sequences :: "nat list list" where
  "space_sequences =
     [[9], [10], [11], [12], [13], [32], [194, 133], [194, 160], [225, 154, 128]]
     @ map (\<lambda>i. [226, 128, i]) [128..<139]
     @ [[226, 128, 168], [226, 128, 169], [226, 128, 175], [226, 129, 159], [227, 128, 128]]"

definition space_strings :: "string list" where
  "space_strings = map (map char_of) space_sequences"

lemma space_strings_nonempty: "p \<in> set space_strings \<Longrightarrow> p \<noteq> []"
  by (auto simp: space_strings_def space_sequences_def)

function trim_front :: "string list \<Rightarrow> string \<Rightarrow> string" where
  "trim_front seqs s = (case find (\<lambda>p. p \<noteq> [] \<and> prefix p s) seqs of
       None \<Rightarrow> s
     | Some p \<Rightarrow> trim_front seqs (drop (length p) s))"
  by pat_completeness auto
termination
proof (relation "measure (\<lambda>(_, s). length s)", goal_cases)
  case (2 seqs s p)
  then have "p \<noteq> []" "prefix p s" by (auto simp: find_Some_iff)
  then show ?case by (auto dest: prefix_length_le simp flip: length_greater_0_conv)
qed simp

declare trim_front.simps [simp del]

definition TrimSpace :: "string \<Rightarrow> string" where
  "TrimSpace s = rev (trim_front (map rev space_strings) (rev (trim_front space_strings s)))"

lemma trim_front_keeps:
  assumes "c \<in> set s" and "\<forall>p \<in> set ps. c \<notin> set p"
  shows "c \<in> set (trim_front ps s)"
  using assms
proof (induction ps s rule: trim_front.induct)
  case (1 ps s)
  show ?case
  proof (cases "find (\<lambda>p. p \<noteq> [] \<and> prefix p s) ps")
    case None
    then show ?thesis using 1 by (simp add: trim_front.simps[of ps s])
  next
    case (Some p)
    then have p: "p \<in> set ps" "prefix p s" by (auto simp: find_Some_iff)
    then obtain r where "s = p @ r" by (auto simp: prefix_def)
    then have "c \<in> set (drop (length p) s)" using 1(2,3) p(1) by auto
    then show ?thesis using 1(1)[OF Some] 1(3) Some by (simp add: trim_front.simps[of ps s])
  qed
qed

lemma TrimSpace_graphic:
  assumes "c \<in> set s" and "33 \<le> (of_char c :: nat)" and "(of_char c :: nat) < 127"
  shows "TrimSpace s \<noteq> []"
proof -
  have "\<forall>p \<in> set space_sequences. \<forall>n \<in> set p. n < 33 \<or> 127 < n \<and> n < 256"
    by (simp add: space_sequences_def upt_rec[of _ "_ + 1"] upt_rec)
  then have "\<forall>p \<in> set space_strings. c \<notin> set p"
    using assms(2,3) by (fastforce simp: space_strings_def)
  then have "c \<in> set (TrimSpace s)"
    unfolding TrimSpace_def using assms(1) by (simp add: trim_front_keeps)
  then show ?thesis by force
qed

lemma trim_front_nil [simp]: "trim_front seqs [] = []"
proof -
  have "find (\<lambda>p. p \<noteq> [] \<and> prefix p []) seqs = None" by (auto simp: find_None_iff)
  then show ?thesis by (subst trim_front.simps) simp
qed

lemma TrimSpace_nil [simp]: "TrimSpace [] = []"
  by (simp add: TrimSpace_def)

lemmas nonblank = TrimSpace_graphic[OF list.set_intros(1)]

section \<open>Decimal numbers\<close>

text \<open>The verb \<^verbatim>\<open>%d\<close> of \<^verbatim>\<open>fmt\<close>.\<close>

fun nat_text :: "nat \<Rightarrow> string" where
  "nat_text n = (if n < 10 then [char_of (48 + n)] else nat_text (n div 10) @ [char_of (48 + n mod 10)])"

declare nat_text.simps [simp del]

definition int_text :: "int \<Rightarrow> string" where
  "int_text i = (if i < 0 then CHR ''-'' # nat_text (nat (- i)) else nat_text (nat i))"

section \<open>time.ParseDuration\<close>

abbreviation digit_char :: "char \<Rightarrow> bool" where
  "digit_char c \<equiv> CHR ''0'' \<le> c \<and> c \<le> CHR ''9''"

definition digit_value :: "char \<Rightarrow> int" where
  "digit_value c = int (of_char c) - 48"

fun leadingInt :: "int \<Rightarrow> string \<Rightarrow> (int \<times> string) option" where
  "leadingInt x [] = Some (x, [])"
| "leadingInt x (c # s) =
     (if \<not> digit_char c then Some (x, c # s)
      else if x > 2 ^ 63 div 10 then None
      else let x' = x * 10 + digit_value c in if x' > 2 ^ 63 then None else leadingInt x' s)"

text \<open>The fraction's digits, its scale, and the rest; digits that would overflow are skipped.\<close>

fun leadingFraction :: "int \<Rightarrow> int \<Rightarrow> bool \<Rightarrow> string \<Rightarrow> int \<times> int \<times> string" where
  "leadingFraction x scale overflow [] = (x, scale, [])"
| "leadingFraction x scale overflow (c # s) =
     (if \<not> digit_char c then (x, scale, c # s)
      else if overflow then leadingFraction x scale True s
      else if x > (2 ^ 63 - 1) div 10 then leadingFraction x scale True s
      else let y = x * 10 + digit_value c in
        if y > 2 ^ 63 then leadingFraction x scale True s
        else leadingFraction y (scale * 10) False s)"

text \<open>The two spellings of the micro sign are the UTF-8 bytes of U+00B5 and U+03BC.\<close>

definition unitMap :: "(string \<times> int) list" where
  "unitMap = [(''ns'', 1), (''us'', 1000), ([char_of (194::nat), char_of (181::nat), CHR ''s''], 1000),
     ([char_of (206::nat), char_of (188::nat), CHR ''s''], 1000), (''ms'', 1000000),
     (''s'', 1000000000), (''m'', 60000000000), (''h'', 3600000000000)]"

definition unit_char :: "char \<Rightarrow> bool" where
  "unit_char c \<longleftrightarrow> \<not> (c = CHR ''.'' \<or> digit_char c)"

text \<open>
  One \<open>number unit\<close> group: the nanoseconds it denotes and the rest of the text.  A fraction \<open>f / scale\<close>
  of a unit is \<open>float64(f) * (float64(unit) / scale)\<close>, truncated; the counters involved are exact
  in float64 as long as they are below \<^verbatim>\<open>2^53\<close>.
\<close>

definition fraction_of_unit :: "int \<Rightarrow> int \<Rightarrow> int \<Rightarrow> int" where
  "fraction_of_unit f scale unit =
     (let q = float64 unit scale; (a, b) = quotient_of (of_int f * q) in \<lfloor>float64 a b\<rfloor>)"

definition fraction_part :: "string \<Rightarrow> int \<times> int \<times> string \<times> bool" where
  "fraction_part s =
     (if s \<noteq> [] \<and> hd s = CHR ''.''
      then case leadingFraction 0 1 False (tl s) of (f, scale, r) \<Rightarrow>
             (f, scale, r, length r \<noteq> length (tl s))
      else (0, 1, s, False))"

definition duration_group :: "string \<Rightarrow> (int \<times> string) option" where
  "duration_group s =
     (if \<not> (hd s = CHR ''.'' \<or> digit_char (hd s)) then None
      else case leadingInt 0 s of
        None \<Rightarrow> None
      | Some (v, s1) \<Rightarrow>
          case fraction_part s1 of (f, scale, s2, post) \<Rightarrow>
             if length s1 = length s \<and> \<not> post then None
             else let u = takeWhile unit_char s2; s3 = dropWhile unit_char s2 in
               if u = [] then None
               else case map_of unitMap u of
                 None \<Rightarrow> None
               | Some unit \<Rightarrow>
                   if v > 2 ^ 63 div unit then None
                   else let w = v * unit + (if f > 0 then fraction_of_unit f scale unit else 0) in
                     if w > 2 ^ 63 then None else Some (w, s3))"

lemma leadingInt_length: "leadingInt x s = Some (v, r) \<Longrightarrow> length r \<le> length s"
  by (induction x s rule: leadingInt.induct) (auto simp: Let_def split: if_splits)

lemma leadingFraction_length: "leadingFraction x sc ov s = (f, sc', r) \<Longrightarrow> length r \<le> length s"
  by (induction x sc ov s rule: leadingFraction.induct) (auto simp: Let_def split: if_splits)

lemma fraction_part_length: "fraction_part s = (f, scale, r, post) \<Longrightarrow> length r \<le> length s"
  by (cases s) (auto simp: fraction_part_def split: if_splits prod.splits dest: leadingFraction_length)

lemma duration_group_length:
  assumes "duration_group s = Some (w, r)"
  shows "length r < length s"
proof -
  obtain v s1 where v: "leadingInt 0 s = Some (v, s1)"
    using assms by (auto simp: duration_group_def split: if_splits option.splits)
  obtain f scale s2 post where p: "fraction_part s1 = (f, scale, s2, post)" by (metis prod_cases4)
  have le: "length s2 \<le> length s"
    using leadingInt_length[OF v] fraction_part_length[OF p] by simp
  have "r = dropWhile unit_char s2 \<and> takeWhile unit_char s2 \<noteq> []"
    using assms v p by (auto simp: duration_group_def Let_def split: if_splits option.splits)
  then have "length r < length s2"
    by (metis append_Nil length_append less_add_same_cancel2 length_greater_0_conv takeWhile_dropWhile_id)
  then show ?thesis using le by simp
qed

function duration_sum :: "int \<Rightarrow> string \<Rightarrow> int option" where
  "duration_sum d s =
     (if s = [] then Some d
      else case duration_group s of
        None \<Rightarrow> None
      | Some (w, r) \<Rightarrow> if d + w > 2 ^ 63 then None else duration_sum (d + w) r)"
  by pat_completeness auto
termination by (relation "measure (\<lambda>(_, s). length s)") (auto dest: duration_group_length)

declare duration_sum.simps [simp del]

definition ParseDuration :: "string \<Rightarrow> duration option" where
  "ParseDuration s0 =
     (let neg = (case s0 of c # _ \<Rightarrow> c = CHR ''-'' | [] \<Rightarrow> False);
          s = (case s0 of c # s' \<Rightarrow> if c = CHR ''-'' \<or> c = CHR ''+'' then s' else s0 | [] \<Rightarrow> [])
      in if s = ''0'' then Some 0
         else if s = [] then None
         else case duration_sum 0 s of
           None \<Rightarrow> None
         | Some d \<Rightarrow> if neg then Some (- d) else if d > 2 ^ 63 - 1 then None else Some d)"

definition positive_duration :: "string \<Rightarrow> bool" where
  "positive_duration s = (case ParseDuration s of None \<Rightarrow> False | Some d \<Rightarrow> 0 < d)"

section \<open>encoding/json\<close>

datatype json = JNull | JBool bool | JInt int | JFloat rat | JStr string | JTime time
  | JArr "json list" | JObj "(string \<times> json) list"

lemma inj_JStr [simp]: "inj JStr"
  by (simp add: inj_def)

text \<open>Fields of a struct: always written, or left out when empty.\<close>

definition jstr :: "string \<Rightarrow> string \<Rightarrow> (string \<times> json) list" where
  "jstr name s = [(name, JStr s)]"

definition jstr_omit :: "string \<Rightarrow> string \<Rightarrow> (string \<times> json) list" where
  "jstr_omit name s = (if s = [] then [] else [(name, JStr s)])"

definition jarr :: "string \<Rightarrow> ('a \<Rightarrow> json) \<Rightarrow> 'a list \<Rightarrow> (string \<times> json) list" where
  "jarr name enc xs = [(name, JArr (map enc xs))]"

definition jarr_omit :: "string \<Rightarrow> ('a \<Rightarrow> json) \<Rightarrow> 'a list \<Rightarrow> (string \<times> json) list" where
  "jarr_omit name enc xs = (if xs = [] then [] else [(name, JArr (map enc xs))])"

text \<open>A map with string keys: an object with its keys sorted.\<close>

definition jmap :: "('v \<Rightarrow> json) \<Rightarrow> (string \<times> 'v) list \<Rightarrow> json" where
  "jmap enc m = JObj (map (\<lambda>(k, v). (k, enc v)) (sort_key fst m))"

text \<open>Reading a field back; a missing field reads as the zero value.\<close>

definition get_str :: "(string \<times> json) list \<Rightarrow> string \<Rightarrow> string" where
  "get_str obj name = (case map_of obj name of Some (JStr s) \<Rightarrow> s | _ \<Rightarrow> [])"

definition get_arr :: "(json \<Rightarrow> 'a) \<Rightarrow> (string \<times> json) list \<Rightarrow> string \<Rightarrow> 'a list" where
  "get_arr dec obj name = (case map_of obj name of Some (JArr xs) \<Rightarrow> map dec xs | _ \<Rightarrow> [])"

definition get_int :: "(string \<times> json) list \<Rightarrow> string \<Rightarrow> int" where
  "get_int obj name = (case map_of obj name of Some (JInt i) \<Rightarrow> i | _ \<Rightarrow> 0)"

definition get_bool :: "(string \<times> json) list \<Rightarrow> string \<Rightarrow> bool" where
  "get_bool obj name = (case map_of obj name of Some (JBool b) \<Rightarrow> b | _ \<Rightarrow> False)"

definition get_obj :: "(string \<times> json) list \<Rightarrow> string \<Rightarrow> json" where
  "get_obj obj name = (case map_of obj name of Some j \<Rightarrow> j | None \<Rightarrow> JNull)"

fun str_of :: "json \<Rightarrow> string" where
  "str_of (JStr s) = s"
| "str_of _ = []"

fun obj_fields :: "json \<Rightarrow> (string \<times> json) list" where
  "obj_fields (JObj fs) = fs"
| "obj_fields _ = []"

text \<open>\<^verbatim>\<open>"sha256:" + hex(sha256(json))\<close>; \<open>digest\<close> stands for the hexadecimal SHA-256 of the encoded value.\<close>

definition hashValue :: "(json \<Rightarrow> string) \<Rightarrow> json \<Rightarrow> string" where
  "hashValue digest v = ''sha256:'' @ digest v"

text \<open>
  SHA-256 maps infinitely many values to finitely many digests, so no injectivity is assumed of it.
  Where a property needs it, the hypothesis is that the two values at hand do not collide.
\<close>

definition no_collision :: "(json \<Rightarrow> string) \<Rightarrow> json \<Rightarrow> json \<Rightarrow> bool" where
  "no_collision digest v w \<longleftrightarrow> (digest v = digest w \<longrightarrow> v = w)"

lemma hashValue_eq_iff: "no_collision digest v w \<Longrightarrow> hashValue digest v = hashValue digest w \<longleftrightarrow> v = w"
  by (auto simp: hashValue_def no_collision_def)

lemma map_of_fields [simp]:
  "map_of (jstr n s) k = (if k = n then Some (JStr s) else None)"
  "map_of (jstr_omit n s) k = (if k = n \<and> s \<noteq> [] then Some (JStr s) else None)"
  "map_of (jarr n enc xs) k = (if k = n then Some (JArr (map enc xs)) else None)"
  "map_of (jarr_omit n enc xs) k = (if k = n \<and> xs \<noteq> [] then Some (JArr (map enc xs)) else None)"
  by (auto simp: jstr_def jstr_omit_def jarr_def jarr_omit_def)

lemma jmap_eq_iff:
  assumes "inj enc"
  shows "jmap enc m = jmap enc m' \<longleftrightarrow> sort_key fst m = sort_key fst m'"
proof -
  have "inj (\<lambda>(k :: string, v). (k, enc v))" using assms by (auto simp: inj_def)
  then show ?thesis by (auto simp: jmap_def inj_map_eq_map)
qed

lemma distinct_keys_mset:
  "distinct (map fst m) \<Longrightarrow> distinct (map fst m') \<Longrightarrow> map_of m = map_of m' \<longleftrightarrow> mset m = mset m'"
  by (subst map_of_inject_set, simp, simp, rule set_eq_iff_mset_eq_distinct)
     (simp_all add: distinct_map)

lemma sorted_map_eq_iff:
  assumes "distinct (map fst m)" "distinct (map fst m')"
  shows "sort_key fst m = sort_key fst m' \<longleftrightarrow> map_of m = map_of m'"
  using assms distinct_keys_mset[OF assms] sort_key_mset_inj[of m m' fst]
  by (metis distinct_map mset_sort)

lemmas get_defs = get_str_def get_arr_def get_int_def get_bool_def get_obj_def map_add_def

end
