(* ===== verification/Scheduler.thy ===== *)
theory Scheduler
  imports Waves Go_Std
begin

text \<open>
  The rest of \<^verbatim>\<open>internal/scheduler\<close>: the production circuit breaker (\<^verbatim>\<open>circuit_breaker.go\<close>), runner
  backpressure (\<^verbatim>\<open>backpressure.go\<close>) and the dispatcher that combines them with the budget
  (\<^verbatim>\<open>scheduler.go\<close>).  The breaker's failure rate is the float64 quotient of two counters.
\<close>

section \<open>Model: circuit breaker\<close>

record CircuitPolicy =
  cp_MinimumSamples :: int
  cp_WindowSize :: int
  cp_ErrorRate :: rat

record CircuitState =
  cs_Open :: bool
  cs_Samples :: int
  cs_Failures :: int
  cs_ErrorRate :: rat

abbreviation ErrCircuitOpen :: error where
  "ErrCircuitOpen \<equiv> Sentinel ''scheduler.ErrCircuitOpen''"
abbreviation ErrBackpressure :: error where
  "ErrBackpressure \<equiv> Sentinel ''scheduler.ErrBackpressure''"

text \<open>A missing window reads as the empty slice and a missing \<^verbatim>\<open>open\<close> entry as false.\<close>

record CircuitBreaker =
  cb_policy :: CircuitPolicy
  cb_windows :: "string \<Rightarrow> bool list"
  cb_open :: "string \<Rightarrow> bool"

definition NewCircuitBreaker :: "CircuitPolicy \<Rightarrow> (error, CircuitBreaker) result" where
  "NewCircuitBreaker policy =
     (if cp_MinimumSamples policy < 1 \<or> cp_WindowSize policy < cp_MinimumSamples policy \<or>
         cp_ErrorRate policy \<le> 0 \<or> cp_ErrorRate policy > 1
      then Inl (Errorf ''invalid circuit breaker policy'')
      else Inr \<lparr>cb_policy = policy, cb_windows = \<lambda>_. [], cb_open = \<lambda>_. False\<rparr>)"

definition tenantKey :: "string \<Rightarrow> string" where
  "tenantKey tenant = (if tenant = [] then ''default'' else tenant)"

definition Allow :: "CircuitBreaker \<Rightarrow> string \<Rightarrow> string \<Rightarrow> error option" where
  "Allow b tenant environment =
     (if environment \<noteq> EnvironmentProduction then None
      else if cb_open b (tenantKey tenant) then Some ErrCircuitOpen else None)"

definition stateOf :: "bool list \<Rightarrow> bool \<Rightarrow> CircuitState" where
  "stateOf window is_open =
     (let failures = int (length (filter (\<lambda>failed. failed) window)) in
      \<lparr>cs_Open = is_open, cs_Samples = int (length window), cs_Failures = failures,
       cs_ErrorRate = (if window \<noteq> [] then float64 failures (int (length window)) else 0)\<rparr>)"

definition Record ::
  "CircuitBreaker \<Rightarrow> string \<Rightarrow> string \<Rightarrow> bool \<Rightarrow> CircuitBreaker \<times> CircuitState" where
  "Record b tenant environment failed =
     (if environment \<noteq> EnvironmentProduction
      then (b, \<lparr>cs_Open = False, cs_Samples = 0, cs_Failures = 0, cs_ErrorRate = 0\<rparr>)
      else
        let key = tenantKey tenant;
            appended = cb_windows b key @ [failed];
            window = (if int (length appended) > cp_WindowSize (cb_policy b)
                      then drop (nat (int (length appended) - cp_WindowSize (cb_policy b))) appended
                      else appended);
            b' = b\<lparr>cb_windows := (cb_windows b)(key := window)\<rparr>;
            state = stateOf window (cb_open b key)
        in if int (length window) \<ge> cp_MinimumSamples (cb_policy b) \<and>
              cs_ErrorRate state \<ge> cp_ErrorRate (cb_policy b)
           then (b'\<lparr>cb_open := (cb_open b)(key := True)\<rparr>, state\<lparr>cs_Open := True\<rparr>)
           else (b', state))"

definition State :: "CircuitBreaker \<Rightarrow> string \<Rightarrow> CircuitState" where
  "State b tenant = (let key = tenantKey tenant in stateOf (cb_windows b key) (cb_open b key))"

section \<open>Model: backpressure and dispatch\<close>

datatype BackpressureReason =
    BackpressureRunnerCapacity | BackpressureAdapterRate | BackpressureQueueDepth

record Capacity =
  cap_RunnerAvailable :: int
  cap_AdapterRemaining :: int
  cap_QueueDepth :: int
  cap_QueueLimit :: int

definition Available :: "Capacity \<Rightarrow> int \<times> BackpressureReason option" where
  "Available capacity =
     (if cap_RunnerAvailable capacity \<le> 0 then (0, Some BackpressureRunnerCapacity)
      else if cap_AdapterRemaining capacity \<le> 0 then (0, Some BackpressureAdapterRate)
      else if cap_QueueLimit capacity \<le> 0 \<or> cap_QueueDepth capacity \<ge> cap_QueueLimit capacity
      then (0, Some BackpressureQueueDepth)
      else (min (min (cap_RunnerAvailable capacity) (cap_AdapterRemaining capacity))
                (cap_QueueLimit capacity - cap_QueueDepth capacity), None))"

record DispatchResult =
  di_Step :: Step
  di_Reservation :: Reservation
  di_BlockedBy :: "Blocked list"
  di_Pressure :: "BackpressureReason option"
  di_Err :: "error option"

record Scheduler =
  sch_budget :: Budget
  sch_breaker :: CircuitBreaker

definition NewScheduler :: "Limits \<Rightarrow> CircuitPolicy \<Rightarrow> (error, Scheduler) result" where
  "NewScheduler limits policy =
     (case NewBudget limits of
        Inl err \<Rightarrow> Inl err
      | Inr budget \<Rightarrow>
          (case NewCircuitBreaker policy of
             Inl err \<Rightarrow> Inl err
           | Inr breaker \<Rightarrow> Inr \<lparr>sch_budget = budget, sch_breaker = breaker\<rparr>))"

definition blank_dispatch :: "Step \<Rightarrow> DispatchResult" where
  "blank_dispatch step = \<lparr>di_Step = cloneStep step, di_Reservation = \<lparr>res_keys = []\<rparr>,
     di_BlockedBy = [], di_Pressure = None, di_Err = None\<rparr>"

fun dispatch_loop :: "CircuitBreaker \<Rightarrow> BackpressureReason option \<Rightarrow> Budget \<Rightarrow> int \<Rightarrow> Step list
    \<Rightarrow> Budget \<times> DispatchResult list" where
  "dispatch_loop breaker pressure budget available [] = (budget, [])"
| "dispatch_loop breaker pressure budget available (step # steps) =
     (let result = blank_dispatch step in
      if available = 0 then
        map_prod id ((#) (result\<lparr>di_Pressure := pressure, di_Err := Some ErrBackpressure\<rparr>))
          (dispatch_loop breaker pressure budget available steps)
      else case Allow breaker (step_Tenant step) (step_Environment step) of
        Some err \<Rightarrow>
          map_prod id ((#) (result\<lparr>di_Err := Some err\<rparr>))
            (dispatch_loop breaker pressure budget available steps)
      | None \<Rightarrow>
          (case TryAcquire budget step of (budget', reservation, blocked) \<Rightarrow>
             if blocked \<noteq> [] then
               map_prod id ((#) (result\<lparr>di_BlockedBy := blocked\<rparr>))
                 (dispatch_loop breaker pressure budget' available steps)
             else
               map_prod id ((#) (result\<lparr>di_Reservation := reservation\<rparr>))
                 (dispatch_loop breaker pressure budget' (available - 1) steps)))"

definition Dispatch :: "Scheduler \<Rightarrow> Step list \<Rightarrow> Capacity \<Rightarrow> Scheduler \<times> DispatchResult list" where
  "Dispatch s steps capacity =
     (case Available capacity of (available, pressure) \<Rightarrow>
        case dispatch_loop (sch_breaker s) pressure (sch_budget s) available steps of
          (budget, results) \<Rightarrow> (s\<lparr>sch_budget := budget\<rparr>, results))"

definition Complete :: "Scheduler \<Rightarrow> DispatchResult \<Rightarrow> bool \<Rightarrow> Scheduler \<times> CircuitState" where
  "Complete s dispatch failed =
     (let s' = (if length (res_keys (di_Reservation dispatch)) > 0
                then s\<lparr>sch_budget := Release (sch_budget s) (di_Reservation dispatch)\<rparr> else s)
      in case Record (sch_breaker s') (step_Tenant (di_Step dispatch))
                (step_Environment (di_Step dispatch)) failed of
           (breaker, state) \<Rightarrow> (s'\<lparr>sch_breaker := breaker\<rparr>, state))"

section \<open>The breaker is a function of the tenant's production history\<close>

text \<open>
  The abstract breaker: the outcomes recorded for a tenant in production, oldest first; the window
  is the last \<^verbatim>\<open>WindowSize\<close> of them; the breaker is open when the window at some moment held at
  least \<^verbatim>\<open>MinimumSamples\<close> outcomes with a failure rate of \<^verbatim>\<open>ErrorRate\<close> or more.
\<close>

definition outcomes :: "(string \<times> string \<times> bool) list \<Rightarrow> string \<Rightarrow> bool list" where
  "outcomes hist key = map (\<lambda>(tenant, env, failed). failed)
     (filter (\<lambda>(tenant, env, failed). env = EnvironmentProduction \<and> tenantKey tenant = key) hist)"

definition last_n :: "nat \<Rightarrow> 'a list \<Rightarrow> 'a list" where
  "last_n n xs = drop (length xs - n) xs"

definition trips :: "CircuitPolicy \<Rightarrow> bool list \<Rightarrow> bool" where
  "trips p os \<longleftrightarrow> (let w = last_n (nat (cp_WindowSize p)) os in
     cp_MinimumSamples p \<le> int (length w) \<and> cp_ErrorRate p \<le> cs_ErrorRate (stateOf w False))"

definition breaker_after :: "(string \<times> string \<times> bool) list \<Rightarrow> CircuitBreaker \<Rightarrow> CircuitBreaker" where
  "breaker_after hist b = fold (\<lambda>(tenant, env, failed) b. fst (Record b tenant env failed)) hist b"

lemma last_n_snoc: "1 \<le> n \<Longrightarrow> last_n n (last_n n xs @ [x]) = last_n n (xs @ [x])"
  by (cases "length xs < n") (auto simp: last_n_def Suc_diff_le)

lemma stateOf_rate: "cs_ErrorRate (stateOf w x) = cs_ErrorRate (stateOf w y)"
  by (simp add: stateOf_def Let_def)

lemma trim_window:
  "0 \<le> n \<Longrightarrow> (if int (length xs) > n then drop (nat (int (length xs) - n)) xs else xs) = last_n (nat n) xs"
  by (auto simp: last_n_def nat_diff_distrib)

lemma Record_window:
  "1 \<le> cp_WindowSize (cb_policy b) \<Longrightarrow>
   cb_windows (fst (Record b tenant env failed)) =
     (if env = EnvironmentProduction
      then (cb_windows b)(tenantKey tenant :=
              last_n (nat (cp_WindowSize (cb_policy b))) (cb_windows b (tenantKey tenant) @ [failed]))
      else cb_windows b)"
  unfolding Record_def Let_def trim_window[OF order_trans[OF zero_le_one]] by simp

lemma Record_open:
  "1 \<le> cp_WindowSize (cb_policy b) \<Longrightarrow>
   cb_open (fst (Record b tenant env failed)) key \<longleftrightarrow> cb_open b key \<or>
     (env = EnvironmentProduction \<and> key = tenantKey tenant \<and>
      cp_MinimumSamples (cb_policy b) \<le> int (length (cb_windows (fst (Record b tenant env failed)) key)) \<and>
      cp_ErrorRate (cb_policy b) \<le>
        cs_ErrorRate (stateOf (cb_windows (fst (Record b tenant env failed)) key) False))"
  by (auto simp: Record_def Let_def stateOf_rate[of _ "cb_open b _" False])

lemma Record_policy [simp]: "cb_policy (fst (Record b tenant env failed)) = cb_policy b"
  by (simp add: Record_def Let_def)

lemma breaker_after_snoc:
  "breaker_after (hist @ [(tenant, env, failed)]) b = fst (Record (breaker_after hist b) tenant env failed)"
  by (simp add: breaker_after_def)

lemma breaker_after_policy [simp]: "cb_policy (breaker_after hist b) = cb_policy b"
  by (induction hist rule: rev_induct) (auto simp: breaker_after_snoc, simp add: breaker_after_def)

lemma outcomes_snoc:
  "outcomes (hist @ [(tenant, env, failed)]) key =
     outcomes hist key @ (if env = EnvironmentProduction \<and> tenantKey tenant = key then [failed] else [])"
  by (simp add: outcomes_def)

lemma breaker_window:
  assumes "NewCircuitBreaker p = Inr b"
  shows "cb_windows (breaker_after hist b) key = last_n (nat (cp_WindowSize p)) (outcomes hist key)"
proof -
  have pol: "cb_policy b = p" and w: "1 \<le> cp_WindowSize p" and b0: "cb_windows b = (\<lambda>_. [])"
    using assms by (auto simp: NewCircuitBreaker_def split: if_splits)
  show ?thesis
  proof (induction hist arbitrary: key rule: rev_induct)
    case Nil
    then show ?case by (simp add: breaker_after_def outcomes_def last_n_def b0)
  next
    case (snoc x hist)
    obtain tenant env failed where x: "x = (tenant, env, failed)" by (cases x)
    show ?case
      using snoc w last_n_snoc[of "nat (cp_WindowSize p)" "outcomes hist (tenantKey tenant)" failed]
      by (auto simp: x breaker_after_snoc Record_window outcomes_snoc pol)
  qed
qed

lemma breaker_open:
  assumes "NewCircuitBreaker p = Inr b"
  shows "cb_open (breaker_after hist b) key \<longleftrightarrow>
           (\<exists>n \<le> length (outcomes hist key). trips p (take n (outcomes hist key)))"
proof -
  have pol: "cb_policy b = p" and w: "1 \<le> cp_WindowSize p" and m: "1 \<le> cp_MinimumSamples p"
    and b0: "cb_open b = (\<lambda>_. False)"
    using assms by (auto simp: NewCircuitBreaker_def split: if_splits)
  show ?thesis
  proof (induction hist rule: rev_induct)
    case Nil
    have "\<not> trips p []" using m by (simp add: trips_def last_n_def)
    then show ?case by (simp add: breaker_after_def outcomes_def b0)
  next
    case (snoc x hist)
    obtain tenant env failed where x: "x = (tenant, env, failed)" by (cases x)
    let ?os = "outcomes hist key" and ?b = "breaker_after hist b"
    show ?case
    proof (cases "env = EnvironmentProduction \<and> tenantKey tenant = key")
      case True
      then have env: "env = EnvironmentProduction" and key: "tenantKey tenant = key" by auto
      then have os: "outcomes (hist @ [x]) key = ?os @ [failed]" by (simp add: x outcomes_snoc)
      have win: "cb_windows (fst (Record ?b tenant env failed)) key =
          last_n (nat (cp_WindowSize p)) (?os @ [failed])"
        using breaker_window[OF assms, of "hist @ [x]" key] os by (simp add: x breaker_after_snoc)
      have "cb_open (breaker_after (hist @ [x]) b) key \<longleftrightarrow> cb_open ?b key \<or> trips p (?os @ [failed])"
        using w unfolding x breaker_after_snoc
        by (subst Record_open) (simp_all add: pol env key win[unfolded env] trips_def Let_def)
      also have "\<dots> \<longleftrightarrow> (\<exists>n \<le> Suc (length ?os). trips p (take n (?os @ [failed])))"
        using snoc by (auto simp: le_Suc_eq)
      finally show ?thesis by (simp add: os)
    next
      case False
      then have "outcomes (hist @ [x]) key = ?os" by (simp add: x outcomes_snoc)
      moreover have "cb_open (breaker_after (hist @ [x]) b) key \<longleftrightarrow> cb_open ?b key"
        using False w unfolding x breaker_after_snoc by (subst Record_open) (auto simp: pol)
      ultimately show ?thesis using snoc by simp
    qed
  qed
qed

text \<open>
  C30.  The breaker refines its abstract contract: after any sequence of recorded outcomes a request
  is refused exactly when it is for production and the outcomes of its own tenant in production
  reached the failure rate over a full enough window at some moment.  So outcomes of other tenants
  and of staging never matter, and once open a breaker never closes again.
\<close>

theorem breaker_refuses_iff_tripped:
  assumes "NewCircuitBreaker p = Inr b"
  shows "Allow (breaker_after hist b) tenant env = Some ErrCircuitOpen \<longleftrightarrow>
         env = EnvironmentProduction \<and>
         (\<exists>n \<le> length (outcomes hist (tenantKey tenant)).
            trips p (take n (outcomes hist (tenantKey tenant))))"
  using breaker_open[OF assms, of hist "tenantKey tenant"] by (auto simp: Allow_def)

definition demo_policy :: CircuitPolicy where
  "demo_policy = \<lparr>cp_MinimumSamples = 2, cp_WindowSize = 3, cp_ErrorRate = 1 / 2\<rparr>"

theorem breaker_refuses_iff_tripped_witness:
  "\<exists>b. NewCircuitBreaker demo_policy = Inr b \<and>
     Allow (breaker_after [([], EnvironmentProduction, True), (''default'', EnvironmentProduction, True)] b)
       ''default'' EnvironmentProduction = Some ErrCircuitOpen"
proof -
  obtain b where b: "NewCircuitBreaker demo_policy = Inr b"
    by (simp add: NewCircuitBreaker_def demo_policy_def)
  have "trips demo_policy (take 2 [True, True])"
    by (simp add: trips_def last_n_def demo_policy_def stateOf_def float64_def shift_up.simps
        shift_down.simps round_half_even_def)
  moreover have "outcomes [([], EnvironmentProduction, True), (''default'', EnvironmentProduction, True)]
      (tenantKey ''default'') = [True, True]"
    by (simp add: outcomes_def tenantKey_def)
  ultimately show ?thesis
    using b breaker_refuses_iff_tripped[OF b, of _ "''default''" EnvironmentProduction]
    by (intro exI[of _ b]) (auto intro: exI[of _ 2])
qed

section \<open>Dispatch\<close>

definition granted :: "DispatchResult \<Rightarrow> bool" where
  "granted d \<longleftrightarrow> res_keys (di_Reservation d) \<noteq> []"

lemma keysFor_nonempty: "keysFor s \<noteq> []"
  by (simp add: keysFor_def Let_def)

lemma blank_dispatch_simps [simp]:
  "di_Step (blank_dispatch s) = cloneStep s" "\<not> granted (blank_dispatch s)"
  "di_Err (blank_dispatch s) = None" "di_BlockedBy (blank_dispatch s) = []"
  by (simp_all add: blank_dispatch_def granted_def)

lemma granted_upd [simp]:
  "granted (d\<lparr>di_Pressure := p\<rparr>) = granted d" "granted (d\<lparr>di_Err := e\<rparr>) = granted d"
  "granted (d\<lparr>di_BlockedBy := x\<rparr>) = granted d"
  by (simp_all add: granted_def)

text \<open>What each dispatch result says about the verdict on its step.\<close>

definition verdict_ok :: "CircuitBreaker \<Rightarrow> DispatchResult \<Rightarrow> bool" where
  "verdict_ok breaker d \<longleftrightarrow>
     (if granted d then Allow breaker (step_Tenant (di_Step d)) (step_Environment (di_Step d)) = None \<and>
                        di_Err d = None \<and> di_BlockedBy d = [] \<and>
                        res_keys (di_Reservation d) = keysFor (di_Step d)
      else di_Err d \<noteq> None \<or> di_BlockedBy d \<noteq> [])"

lemma cloneStep_context [simp]:
  "step_Tenant (cloneStep s) = step_Tenant s" "step_Environment (cloneStep s) = step_Environment s"
  by (simp_all add: cloneStep_def)

lemma dispatch_loop_cases:
  obtains (pressed) "available = 0"
    | (opened) err where "available \<noteq> 0" "Allow breaker (step_Tenant step) (step_Environment step) = Some err"
    | (full) x where "available \<noteq> 0" "Allow breaker (step_Tenant step) (step_Environment step) = None"
        "TryAcquire budget step = (budget, \<lparr>res_keys = []\<rparr>, x)" "x \<noteq> []"
    | (ok) b1 r where "available \<noteq> 0" "Allow breaker (step_Tenant step) (step_Environment step) = None"
        "TryAcquire budget step = (b1, r, [])" "res_keys r = keysFor step" "bud_limits b1 = bud_limits budget"
proof -
  obtain b1 r x where t: "TryAcquire budget step = (b1, r, x)" by (metis prod_cases3)
  show thesis
  proof (cases "x = []")
    case True
    then have "res_keys r = keysFor step \<and> bud_limits b1 = bud_limits budget"
      using t by (simp add: TryAcquire_granted_iff)
    then show thesis using that(1,2,4) t True by (cases "Allow breaker (step_Tenant step) (step_Environment step)") blast+
  next
    case False
    then show thesis using that(1,2,3) t TryAcquire_refused[OF t False]
      by (cases "Allow breaker (step_Tenant step) (step_Environment step)") blast+
  qed
qed

lemma verdict_refused:
  "\<not> granted d \<Longrightarrow> di_Err d \<noteq> None \<or> di_BlockedBy d \<noteq> [] \<Longrightarrow> verdict_ok breaker d"
  by (simp add: verdict_ok_def)

lemma map_prod_id_eq: "map_prod id f p = (a, b) \<longleftrightarrow> (\<exists>c. p = (a, c) \<and> b = f c)"
  by (cases p) auto

lemma dispatch_loop_shape:
  "0 \<le> available \<Longrightarrow>
   dispatch_loop breaker pressure budget available steps = (budget', results) \<Longrightarrow>
   bud_limits budget' = bud_limits budget \<and>
   map di_Step results = map cloneStep steps \<and>
   int (length (filter granted results)) \<le> available \<and>
   (\<forall>d \<in> set results. verdict_ok breaker d)"
proof (induction steps arbitrary: budget available results)
  case (Cons step steps)
  show ?case
  proof (cases rule: dispatch_loop_cases[where available = available and breaker = breaker and step = step
      and budget = budget])
    case (ok b1 r)
    then have "granted (blank_dispatch step\<lparr>di_Reservation := r\<rparr>)"
      using keysFor_nonempty by (simp add: granted_def)
    moreover have "verdict_ok breaker (blank_dispatch step\<lparr>di_Reservation := r\<rparr>)"
      using calculation ok by (simp add: verdict_ok_def)
    ultimately show ?thesis using ok Cons.IH[of "available - 1" b1] Cons.prems
      by (auto simp: Let_def map_prod_id_eq)
  qed (use Cons.IH[of available budget] Cons.prems in \<open>auto simp: Let_def verdict_refused map_prod_id_eq\<close>)
qed auto

lemma dispatch_loop_fits:
  "bud.fits budget held \<Longrightarrow>
   dispatch_loop breaker pressure budget available steps = (budget', results) \<Longrightarrow>
   bud.fits budget' (held @ map di_Reservation (filter granted results))"
proof (induction steps arbitrary: budget available held results)
  case (Cons step steps)
  show ?case
  proof (cases rule: dispatch_loop_cases[where available = available and breaker = breaker and step = step
      and budget = budget])
    case (ok b1 r)
    then have "granted (blank_dispatch step\<lparr>di_Reservation := r\<rparr>)"
      using keysFor_nonempty by (simp add: granted_def)
    with ok Cons.IH[OF bud.fits_grant[OF Cons.prems(1) ok(3)], of "available - 1"] Cons.prems show ?thesis
      by (auto simp: Let_def map_prod_id_eq)
  qed (use Cons.IH[OF Cons.prems(1), of available] Cons.prems in \<open>auto simp: Let_def map_prod_id_eq\<close>)
qed auto

lemma Available_nonneg: "0 \<le> fst (Available c)"
  by (auto simp: Available_def)

lemma Dispatch_shape:
  assumes "Dispatch s steps capacity = (s', results)"
  shows "bud_limits (sch_budget s') = bud_limits (sch_budget s)"
    and "map di_Step results = map cloneStep steps"
    and "int (length (filter granted results)) \<le> fst (Available capacity)"
    and "\<forall>d \<in> set results. verdict_ok (sch_breaker s) d"
    and "bud.fits (sch_budget s) held \<Longrightarrow>
           bud.fits (sch_budget s') (held @ map di_Reservation (filter granted results))"
proof -
  obtain available pressure where a: "Available capacity = (available, pressure)" by fastforce
  obtain budget where l: "dispatch_loop (sch_breaker s) pressure (sch_budget s) available steps = (budget, results)"
    and s': "s' = s\<lparr>sch_budget := budget\<rparr>"
    using assms a by (auto simp: Dispatch_def split: prod.splits)
  have nn: "0 \<le> available" using Available_nonneg[of capacity] a by simp
  show "bud_limits (sch_budget s') = bud_limits (sch_budget s)"
    "map di_Step results = map cloneStep steps"
    "int (length (filter granted results)) \<le> fst (Available capacity)"
    "\<forall>d \<in> set results. verdict_ok (sch_breaker s) d"
    using dispatch_loop_shape[OF nn l] s' a by simp_all
  show "bud.fits (sch_budget s) held \<Longrightarrow>
          bud.fits (sch_budget s') (held @ map di_Reservation (filter granted results))"
    using dispatch_loop_fits[OF _ l] s' by simp
qed

text \<open>
  The scheduler under any interleaving of its operations: \<open>SDispatch\<close> adds the granted results to
  the outstanding ones, \<open>SComplete i failed\<close> completes the \<open>i\<close>-th outstanding dispatch.
\<close>

datatype sched_op = SDispatch "Step list" Capacity | SComplete nat bool

fun sched_step :: "sched_op \<Rightarrow> Scheduler \<times> DispatchResult list \<Rightarrow> Scheduler \<times> DispatchResult list" where
  "sched_step (SDispatch steps capacity) (s, out) =
     (case Dispatch s steps capacity of (s', results) \<Rightarrow> (s', out @ filter granted results))"
| "sched_step (SComplete i failed) (s, out) =
     (if i < length out
      then (fst (Complete s (out ! i) failed), take i out @ drop (Suc i) out) else (s, out))"

lemma Complete_budget:
  "sch_budget (fst (Complete s d failed)) =
     (if granted d then Release (sch_budget s) (di_Reservation d) else sch_budget s)"
  by (simp add: Complete_def granted_def Let_def split: prod.splits)

definition sched_inv :: "Limits \<Rightarrow> Scheduler \<times> DispatchResult list \<Rightarrow> bool" where
  "sched_inv l st \<longleftrightarrow> bud.fits (sch_budget (fst st)) (map di_Reservation (snd st)) \<and>
     bud_limits (sch_budget (fst st)) = l \<and>
     (\<forall>d \<in> set (snd st). granted d \<and> res_keys (di_Reservation d) = keysFor (di_Step d))"

lemma sched_step_inv: "sched_inv l st \<Longrightarrow> sched_inv l (sched_step op st)"
proof (cases st, cases op)
  fix s out steps capacity
  assume inv: "sched_inv l st" and st: "st = (s, out)" and op: "op = SDispatch steps capacity"
  obtain s' results where d: "Dispatch s steps capacity = (s', results)" by fastforce
  have "bud.fits (sch_budget s) (map di_Reservation out)" using inv st by (simp add: sched_inv_def)
  from Dispatch_shape(5)[OF d this] Dispatch_shape(1,4)[OF d] show ?thesis
    using inv st op d by (auto simp: sched_inv_def verdict_ok_def)
next
  fix s out i failed
  assume inv: "sched_inv l st" and st: "st = (s, out)" and op: "op = SComplete i failed"
  show ?thesis
  proof (cases "i < length out")
    case True
    let ?res = "map di_Reservation"
    have "bud.fits (sch_budget s) (?res (take i out) @ di_Reservation (out ! i) # ?res (drop (Suc i) out))"
      using inv st True by (simp add: sched_inv_def flip: list.map(2) map_append id_take_nth_drop)
    from bud.fits_release[OF this] have "bud.fits (Release (sch_budget s) (di_Reservation (out ! i)))
        (?res (take i out @ drop (Suc i) out))" by simp
    moreover have "granted (out ! i)" using inv st True by (simp add: sched_inv_def)
    moreover have "set (take i out @ drop (Suc i) out) \<subseteq> set out"
      by (auto dest: in_set_takeD in_set_dropD)
    ultimately show ?thesis
      using inv st op True by (auto simp: sched_inv_def Complete_budget Release_def)
  qed (use inv st op in simp)
qed

lemma NewScheduler_inv: "NewScheduler l policy = Inr s \<Longrightarrow> sched_inv l (s, [])"
  using NewBudget_fits[of l] by (auto simp: NewScheduler_def sched_inv_def split: sum.splits)

lemma sched_inv_limits:
  assumes "sched_inv l (s, out)"
  shows "int (length (filter (\<lambda>d. k \<in> set (keysFor (di_Step d))) out)) \<le> limit l k"
proof -
  have "bud.holders (map di_Reservation out) k = length (filter (\<lambda>d. k \<in> set (keysFor (di_Step d))) out)"
    using assms unfolding sched_inv_def bud.holders_def
    by (simp add: filter_map comp_def) (metis (no_types, lifting) filter_cong)
  moreover have "int (bud.holders (map di_Reservation out) k) \<le> limit l k"
    using assms by (auto simp: sched_inv_def bud.fits_def budget_cap_def)
  ultimately show ?thesis by simp
qed

text \<open>
  Dispatch never admits what it must not: there is one result per step, in order; at most as
  many steps are admitted as the runner capacity, the adapter rate and the queue leave room for;
  every admitted step passed the circuit breaker and carries the reservation of exactly its own
  budget keys; and every step that is not admitted carries a reason.
\<close>

theorem dispatch_admits_only_permitted:
  assumes "Dispatch s steps capacity = (s', results)"
  shows "map di_Step results = map cloneStep steps \<and>
         int (length (filter granted results)) \<le> fst (Available capacity) \<and>
         (\<forall>d \<in> set results.
            (granted d \<longrightarrow>
               Allow (sch_breaker s) (step_Tenant (di_Step d)) (step_Environment (di_Step d)) = None \<and>
               res_keys (di_Reservation d) = keysFor (di_Step d)) \<and>
            (\<not> granted d \<longrightarrow> di_Err d \<noteq> None \<or> di_BlockedBy d \<noteq> []))"
  using Dispatch_shape(2-4)[OF assms] by (auto simp: verdict_ok_def split: if_splits)

definition demo_capacity :: Capacity where
  "demo_capacity = \<lparr>cap_RunnerAvailable = 1, cap_AdapterRemaining = 5, cap_QueueDepth = 0, cap_QueueLimit = 5\<rparr>"

lemma demo_scheduler:
  "NewScheduler DefaultLimits demo_policy = Inr
     \<lparr>sch_budget = \<lparr>bud_limits = DefaultLimits, bud_active = Map.empty\<rparr>,
      sch_breaker = \<lparr>cb_policy = demo_policy, cb_windows = \<lambda>_. [], cb_open = \<lambda>_. False\<rparr>\<rparr>"
  by (simp add: NewScheduler_def NewBudget_def Limits_Validate_def DefaultLimits_def
      NewCircuitBreaker_def demo_policy_def)

lemma demo_granted:
  "bud.fits b [] \<Longrightarrow> snd (snd (TryAcquire b s)) = []"
  using bud.idle_grants[of b s] by (cases "TryAcquire b s") (auto simp: bud.fits_def)

lemma demo_dispatch:
  assumes "NewScheduler DefaultLimits demo_policy = Inr s"
  shows "length (filter granted (snd (Dispatch s (map (\<lambda>i. demo_step i 0 []) [''a'', ''b'']) demo_capacity))) = 1"
proof -
  let ?b = "\<lparr>bud_limits = DefaultLimits, bud_active = Map.empty\<rparr>"
  have "bud.fits ?b []"
    using NewBudget_fits[of DefaultLimits ?b]
    by (simp add: NewBudget_def Limits_Validate_def DefaultLimits_def)
  then obtain b' r where t: "TryAcquire ?b (demo_step ''a'' 0 []) = (b', r, [])"
    using demo_granted[of ?b "demo_step ''a'' 0 []"] by (metis prod.collapse)
  then have "res_keys r \<noteq> []" using keysFor_nonempty by (simp add: TryAcquire_granted_iff)
  with t show ?thesis
    using assms unfolding demo_scheduler
    by (auto simp: Dispatch_def Available_def demo_capacity_def Allow_def blank_dispatch_def granted_def Let_def)
qed

theorem dispatch_admits_only_permitted_witness:
  "\<exists>s s' results. NewScheduler DefaultLimits demo_policy = Inr s \<and>
     Dispatch s (map (\<lambda>i. demo_step i 0 []) [''a'', ''b'']) demo_capacity = (s', results) \<and>
     length (filter granted results) = 1 \<and>
     list_all (\<lambda>d. granted d \<or> di_Err d \<noteq> None \<or> di_BlockedBy d \<noteq> []) results"
proof -
  obtain s where s: "NewScheduler DefaultLimits demo_policy = Inr s" using demo_scheduler by blast
  obtain s' results where d: "Dispatch s (map (\<lambda>i. demo_step i 0 []) [''a'', ''b'']) demo_capacity = (s', results)"
    by fastforce
  have "list_all (\<lambda>d. granted d \<or> di_Err d \<noteq> None \<or> di_BlockedBy d \<noteq> []) results"
    unfolding list_all_iff using dispatch_admits_only_permitted[OF d] by blast
  moreover have "length (filter granted results) = 1" using demo_dispatch[OF s] d by simp
  ultimately show ?thesis using s d by blast
qed

text \<open>
  Whatever sequence of dispatch rounds and completions a fresh scheduler goes through, at no
  moment are more dispatched steps outstanding on a budget key than the key's limit.
\<close>

theorem scheduler_never_exceeds_limits:
  assumes "NewScheduler l policy = Inr s" and "fold sched_step ops (s, []) = (s', out)"
  shows "int (length (filter (\<lambda>d. k \<in> set (keysFor (di_Step d))) out)) \<le> limit l k"
proof -
  have "sched_inv l st \<Longrightarrow> sched_inv l (fold sched_step ops st)" for st
    by (induction ops arbitrary: st) (simp_all add: sched_step_inv)
  from this[OF NewScheduler_inv[OF assms(1)]] show ?thesis using assms(2) by (simp add: sched_inv_limits)
qed

theorem scheduler_never_exceeds_limits_witness:
  "\<exists>s s' out. NewScheduler DefaultLimits demo_policy = Inr s \<and>
     fold sched_step [SDispatch (map (\<lambda>i. demo_step i 0 []) [''a'', ''b'']) demo_capacity] (s, []) = (s', out) \<and>
     length out = 1 \<and>
     (\<forall>k. int (length (filter (\<lambda>d. k \<in> set (keysFor (di_Step d))) out)) \<le> limit DefaultLimits k)"
proof -
  obtain s where s: "NewScheduler DefaultLimits demo_policy = Inr s" using demo_scheduler by blast
  obtain s' out where d: "fold sched_step [SDispatch (map (\<lambda>i. demo_step i 0 []) [''a'', ''b'']) demo_capacity]
      (s, []) = (s', out)" by fastforce
  have "length out = 1" using d demo_dispatch[OF s] by (auto split: prod.splits)
  with scheduler_never_exceeds_limits[OF s d] s d show ?thesis by blast
qed

end
