(* ===== verification/Contracts.thy ===== *)
theory Contracts
  imports Go_Std
begin

text \<open>
  Service contracts (\<^verbatim>\<open>internal/contract\<close>), release profiles (\<^verbatim>\<open>internal/profile\<close>) and the conversion
  of the legacy catalog (\<^verbatim>\<open>internal/catalog\<close>): validation, canonical form and content hash.  The
  YAML decoder and the file system are outside the model; \<open>Decode\<close> starts from the decoded value.
\<close>

section \<open>Model: service contracts\<close>

abbreviation APIVersion :: string where "APIVersion \<equiv> ''execution.themisy.io/v1alpha1''"

record ContractMetadata =
  cm_Name :: string
  cm_Owner :: string
  cm_Repository :: string
  cm_RiskTier :: string

record EnvironmentContract =
  ec_ReleaseProfile :: string
  ec_RunnerGroup :: string
  ec_Capabilities :: "Capability list"

record VerificationCheck =
  vc_Type :: string
  vc_Threshold :: string
  vc_Check :: string

record ContractVerification =
  cv_Profile :: string
  cv_ObservationWindow :: string
  cv_Checks :: "VerificationCheck list"

record ContractRollback =
  cr_Capability :: string
  cr_Strategy :: string
  cr_Deadline :: string

record ServiceContract =
  sct_APIVersion :: string
  sct_Kind :: string
  sct_Metadata :: ContractMetadata
  sct_Environments :: "(string \<times> EnvironmentContract) list"
  sct_Dependencies :: "Dependency list"
  sct_Verification :: ContractVerification
  sct_Rollback :: ContractRollback
  sct_ContentHash :: string
  sct_Source :: string

fun validate_capabilities :: "ReasonCode \<Rightarrow> string \<Rightarrow> Capability list \<Rightarrow> Capability list \<Rightarrow> error option" where
  "validate_capabilities code field seen [] = None"
| "validate_capabilities code field seen (capability # rest) =
     (if \<not> Capability_Valid capability then Some (NewReasonError code field)
      else if capability \<in> set seen then Some (NewReasonError code field)
      else validate_capabilities code field (capability # seen) rest)"

text \<open>\<^verbatim>\<open>range contract.Environments\<close>: the first failing entry of the map's iteration order is reported.\<close>

fun validate_environments :: "(string \<times> EnvironmentContract) list \<Rightarrow> error option" where
  "validate_environments [] = None"
| "validate_environments ((name, environment) # rest) =
     (let field = ''environments.'' @ name in
      if name \<noteq> EnvironmentStaging \<and> name \<noteq> EnvironmentProduction
      then Some (NewReasonError ReasonInvalidContract field)
      else if ec_ReleaseProfile environment = []
      then Some (NewReasonError ReasonInvalidContract (field @ ''.releaseProfile''))
      else if ec_RunnerGroup environment = []
      then Some (NewReasonError ReasonInvalidContract (field @ ''.runnerGroup''))
      else if ec_Capabilities environment = []
      then Some (NewReasonError ReasonMissingCapability (field @ ''.capabilities''))
      else case validate_capabilities ReasonInvalidContract (field @ ''.capabilities'') []
                  (ec_Capabilities environment) of
        Some err \<Rightarrow> Some err
      | None \<Rightarrow> validate_environments rest)"

fun validate_dependencies :: "Dependency list \<Rightarrow> error option" where
  "validate_dependencies [] = None"
| "validate_dependencies (dependency # rest) =
     (if \<not> DependencyType_Valid (dep_Type dependency)
      then Some (NewReasonError ReasonInvalidContract ''dependencies[%d].type'')
      else if (dep_Service dependency = []) = (dep_Resource dependency = [])
      then Some (NewReasonError ReasonInvalidContract ''dependencies[%d]'')
      else validate_dependencies rest)"

definition check_complete :: "VerificationCheck \<Rightarrow> bool" where
  "check_complete check \<longleftrightarrow> \<not> (vc_Type check = [] \<or> (vc_Threshold check = [] \<and> vc_Check check = []))"

definition rollback_modes :: "string list" where
  "rollback_modes = [RollbackAutomatic, RollbackApprovalRequired, RollbackManualOnly, RollbackUnsupported]"

definition contract_Validate :: "ServiceContract \<Rightarrow> error option" where
  "contract_Validate contract =
     (let meta = sct_Metadata contract; ver = sct_Verification contract; rb = sct_Rollback contract in
      if sct_APIVersion contract \<noteq> APIVersion
      then Some (NewReasonError ReasonUnsupportedSchemaVersion ''apiVersion'')
      else if sct_Kind contract \<noteq> ''ServiceContract''
      then Some (NewReasonError ReasonInvalidContract ''kind'')
      else if TrimSpace (cm_Name meta) = []
      then Some (NewReasonError ReasonInvalidContract ''metadata.name'')
      else if TrimSpace (cm_Owner meta) = []
      then Some (NewReasonError ReasonMissingOwner ''metadata.owner'')
      else if TrimSpace (cm_Repository meta) = []
      then Some (NewReasonError ReasonInvalidContract ''metadata.repository'')
      else if cm_RiskTier meta \<notin> {''low'', ''medium'', ''high'', ''critical''}
      then Some (NewReasonError ReasonInvalidContract ''metadata.riskTier'')
      else if sct_Environments contract = []
      then Some (NewReasonError ReasonInvalidContract ''environments'')
      else case validate_environments (sct_Environments contract) of
        Some err \<Rightarrow> Some err
      | None \<Rightarrow>
        (case validate_dependencies (sct_Dependencies contract) of
          Some err \<Rightarrow> Some err
        | None \<Rightarrow>
          if cv_Profile ver = [] \<or> cv_ObservationWindow ver = [] \<or> cv_Checks ver = []
          then Some (NewReasonError ReasonInvalidContract ''verification'')
          else if \<not> positive_duration (cv_ObservationWindow ver)
          then Some (NewReasonError ReasonInvalidContract ''verification.observationWindow'')
          else if \<not> list_all check_complete (cv_Checks ver)
          then Some (NewReasonError ReasonInvalidContract ''verification.checks[%d]'')
          else if cr_Capability rb \<notin> set rollback_modes
          then Some (NewReasonError ReasonInvalidContract ''rollback.capability'')
          else if cr_Strategy rb = []
          then Some (NewReasonError ReasonInvalidContract ''rollback.strategy'')
          else if \<not> positive_duration (cr_Deadline rb)
          then Some (NewReasonError ReasonInvalidContract ''rollback.deadline'')
          else None))"

definition dependency_key :: "Dependency \<Rightarrow> string \<times> string \<times> string \<times> string \<times> string" where
  "dependency_key d =
     (dep_Type d, dep_Service d, dep_Resource d, dep_Condition d, dep_Constraint d)"

definition sortedDependencies :: "Dependency list \<Rightarrow> Dependency list" where
  "sortedDependencies values = sort_key dependency_key values"

definition check_key :: "VerificationCheck \<Rightarrow> string \<times> string \<times> string" where
  "check_key c = (vc_Type c, vc_Check c, vc_Threshold c)"

definition dependency_json :: "Dependency \<Rightarrow> json" where
  "dependency_json d = JObj (jstr_omit ''service'' (dep_Service d) @ jstr_omit ''resource'' (dep_Resource d)
     @ jstr ''type'' (dep_Type d) @ jstr_omit ''condition'' (dep_Condition d)
     @ jstr_omit ''constraint'' (dep_Constraint d))"

definition check_json :: "VerificationCheck \<Rightarrow> json" where
  "check_json c = JObj (jstr ''type'' (vc_Type c) @ jstr_omit ''threshold'' (vc_Threshold c)
     @ jstr_omit ''check'' (vc_Check c))"

definition environment_json :: "EnvironmentContract \<Rightarrow> json" where
  "environment_json e = JObj (jstr ''releaseProfile'' (ec_ReleaseProfile e)
     @ jstr ''runnerGroup'' (ec_RunnerGroup e) @ jarr ''capabilities'' JStr (ec_Capabilities e))"

text \<open>The content hash and the source are tagged \<^verbatim>\<open>json:"-"\<close> and never encoded.\<close>

definition contract_json :: "ServiceContract \<Rightarrow> json" where
  "contract_json c = JObj (jstr ''apiVersion'' (sct_APIVersion c) @ jstr ''kind'' (sct_Kind c)
     @ [(''metadata'', JObj (jstr ''name'' (cm_Name (sct_Metadata c))
          @ jstr ''owner'' (cm_Owner (sct_Metadata c))
          @ jstr ''repository'' (cm_Repository (sct_Metadata c))
          @ jstr ''riskTier'' (cm_RiskTier (sct_Metadata c)))),
        (''environments'', jmap environment_json (sct_Environments c))]
     @ jarr_omit ''dependencies'' dependency_json (sct_Dependencies c)
     @ [(''verification'', JObj (jstr ''profile'' (cv_Profile (sct_Verification c))
          @ jstr ''observationWindow'' (cv_ObservationWindow (sct_Verification c))
          @ jarr ''checks'' check_json (cv_Checks (sct_Verification c)))),
        (''rollback'', JObj (jstr ''capability'' (cr_Capability (sct_Rollback c))
          @ jstr ''strategy'' (cr_Strategy (sct_Rollback c))
          @ jstr ''deadline'' (cr_Deadline (sct_Rollback c))))])"

definition normal_environments ::
  "(string \<times> EnvironmentContract) list \<Rightarrow> (string \<times> EnvironmentContract) list" where
  "normal_environments =
     map (\<lambda>(name, e). (name, e\<lparr>ec_Capabilities := sort (ec_Capabilities e)\<rparr>))"

definition contract_normal :: "ServiceContract \<Rightarrow> ServiceContract" where
  "contract_normal c = c\<lparr>
     sct_Environments := normal_environments (sct_Environments c),
     sct_Dependencies := sortedDependencies (sct_Dependencies c),
     sct_Verification := (sct_Verification c)\<lparr>cv_Checks := sort_key check_key (cv_Checks (sct_Verification c))\<rparr>,
     sct_ContentHash := [], sct_Source := []\<rparr>"

definition contract_Canonical :: "ServiceContract \<Rightarrow> json" where
  "contract_Canonical c = contract_json (contract_normal c)"

definition contract_Hash :: "(json \<Rightarrow> string) \<Rightarrow> ServiceContract \<Rightarrow> string" where
  "contract_Hash digest c = hashValue digest (contract_Canonical c)"

definition contract_Decode :: "(json \<Rightarrow> string) \<Rightarrow> ServiceContract \<Rightarrow> (error, ServiceContract) result" where
  "contract_Decode digest contract =
     (case contract_Validate contract of
        Some err \<Rightarrow> Inl err
      | None \<Rightarrow> Inr (contract\<lparr>sct_ContentHash := contract_Hash digest contract\<rparr>))"

section \<open>Model: release profiles\<close>

record ReleaseProfile =
  rp_APIVersion :: string
  rp_Kind :: string
  rp_Name :: string
  rp_RequiredCapabilities :: "Capability list"
  rp_DeploymentStrategy :: string
  rp_VerificationRequired :: bool
  rp_ObservationWindow :: string
  rp_RollbackMode :: string
  rp_ContentHash :: string
  rp_Source :: string

definition profile_Validate :: "ReleaseProfile \<Rightarrow> error option" where
  "profile_Validate profile =
     (if rp_APIVersion profile \<noteq> APIVersion
      then Some (NewReasonError ReasonUnsupportedSchemaVersion ''apiVersion'')
      else if rp_Kind profile \<noteq> ''ReleaseProfile''
      then Some (NewReasonError ReasonInvalidProfile ''kind'')
      else if TrimSpace (rp_Name profile) = []
      then Some (NewReasonError ReasonInvalidProfile ''metadata.name'')
      else if rp_RequiredCapabilities profile = []
      then Some (NewReasonError ReasonMissingCapability ''spec.requiredCapabilities'')
      else case validate_capabilities ReasonInvalidProfile ''spec.requiredCapabilities'' []
                  (rp_RequiredCapabilities profile) of
        Some err \<Rightarrow> Some err
      | None \<Rightarrow>
        if rp_DeploymentStrategy profile = []
        then Some (NewReasonError ReasonInvalidProfile ''spec.deployment.strategy'')
        else if \<not> positive_duration (rp_ObservationWindow profile)
        then Some (NewReasonError ReasonInvalidProfile ''spec.verification.observationWindow'')
        else if rp_RollbackMode profile \<notin> set rollback_modes
        then Some (NewReasonError ReasonInvalidProfile ''spec.rollback.mode'')
        else None)"

definition profile_json :: "ReleaseProfile \<Rightarrow> json" where
  "profile_json p = JObj (jstr ''apiVersion'' (rp_APIVersion p) @ jstr ''kind'' (rp_Kind p)
     @ [(''metadata'', JObj (jstr ''name'' (rp_Name p))),
        (''spec'', JObj (jarr ''requiredCapabilities'' JStr (rp_RequiredCapabilities p)
          @ [(''deployment'', JObj (jstr ''strategy'' (rp_DeploymentStrategy p))),
             (''verification'', JObj ([(''required'', JBool (rp_VerificationRequired p))]
               @ jstr ''observationWindow'' (rp_ObservationWindow p))),
             (''rollback'', JObj (jstr ''mode'' (rp_RollbackMode p)))]))])"

definition profile_Canonical :: "ReleaseProfile \<Rightarrow> json" where
  "profile_Canonical p = profile_json (p\<lparr>rp_RequiredCapabilities := sort (rp_RequiredCapabilities p),
     rp_ContentHash := [], rp_Source := []\<rparr>)"

definition profile_Hash :: "(json \<Rightarrow> string) \<Rightarrow> ReleaseProfile \<Rightarrow> string" where
  "profile_Hash digest p = hashValue digest (profile_Canonical p)"

definition profile_Decode :: "(json \<Rightarrow> string) \<Rightarrow> ReleaseProfile \<Rightarrow> (error, ReleaseProfile) result" where
  "profile_Decode digest profile =
     (case profile_Validate profile of
        Some err \<Rightarrow> Inl err
      | None \<Rightarrow> Inr (profile\<lparr>rp_ContentHash := profile_Hash digest profile\<rparr>))"

section \<open>Model: the legacy catalog\<close>

definition CompatibilityProfile :: ReleaseProfile where
  "CompatibilityProfile = \<lparr>rp_APIVersion = APIVersion, rp_Kind = ''ReleaseProfile'',
     rp_Name = ''legacy-mock'',
     rp_RequiredCapabilities = [CapabilityDeploy, CapabilityGetStatus, CapabilityVerifyRuntime,
       CapabilityRollback],
     rp_DeploymentStrategy = ''mock'', rp_VerificationRequired = True, rp_ObservationWindow = ''1m'',
     rp_RollbackMode = RollbackAutomatic, rp_ContentHash = [], rp_Source = []\<rparr>"

definition catalog_contract :: "(json \<Rightarrow> string) \<Rightarrow> string \<Rightarrow> Service \<Rightarrow> ServiceContract" where
  "catalog_contract digest path service =
     (let caps = rp_RequiredCapabilities CompatibilityProfile;
          environment = (\<lambda>group. \<lparr>ec_ReleaseProfile = rp_Name CompatibilityProfile,
                            ec_RunnerGroup = group, ec_Capabilities = caps\<rparr>);
          contract = \<lparr>sct_APIVersion = APIVersion, sct_Kind = ''ServiceContract'',
            sct_Metadata = \<lparr>cm_Name = svc_Name service, cm_Owner = svc_OwnerTeam service,
               cm_Repository = svc_Repository service, cm_RiskTier = ''medium''\<rparr>,
            sct_Environments = [(EnvironmentStaging, environment ''legacy-staging''),
               (EnvironmentProduction, environment ''legacy-production'')],
            sct_Dependencies = map (\<lambda>dependency. \<lparr>dep_Service = dependency, dep_Resource = [],
               dep_Type = DependencyRolloutOrder, dep_Condition = ''verified'', dep_Constraint = []\<rparr>)
               (svc_Dependencies service),
            sct_Verification = \<lparr>cv_Profile = ''legacy-health'', cv_ObservationWindow = ''1m'',
               cv_Checks = [\<lparr>vc_Type = ''health'', vc_Threshold = ''healthy'', vc_Check = []\<rparr>]\<rparr>,
            sct_Rollback = \<lparr>cr_Capability = RollbackAutomatic, cr_Strategy = ''mock-previous-version'',
               cr_Deadline = ''30m''\<rparr>,
            sct_ContentHash = [], sct_Source = []\<rparr>
      in contract\<lparr>sct_ContentHash := contract_Hash digest contract, sct_Source := path\<rparr>)"

definition LoadContracts ::
  "(json \<Rightarrow> string) \<Rightarrow> string \<Rightarrow> Service list \<Rightarrow> ServiceContract list \<times> ReleaseProfile list" where
  "LoadContracts digest path services =
     (map (catalog_contract digest path) services,
      [CompatibilityProfile\<lparr>rp_ContentHash := profile_Hash digest CompatibilityProfile\<rparr>])"

section \<open>The encoding loses nothing\<close>

definition json_dependency :: "json \<Rightarrow> Dependency" where
  "json_dependency j = (let fs = obj_fields j in
     \<lparr>dep_Service = get_str fs ''service'', dep_Resource = get_str fs ''resource'',
      dep_Type = get_str fs ''type'', dep_Condition = get_str fs ''condition'',
      dep_Constraint = get_str fs ''constraint''\<rparr>)"

definition json_check :: "json \<Rightarrow> VerificationCheck" where
  "json_check j = (let fs = obj_fields j in
     \<lparr>vc_Type = get_str fs ''type'', vc_Threshold = get_str fs ''threshold'',
      vc_Check = get_str fs ''check''\<rparr>)"

lemma json_dependency_inverse [simp]: "json_dependency (dependency_json d) = d"
  by (simp add: json_dependency_def dependency_json_def Let_def get_defs)

lemma json_check_inverse [simp]: "json_check (check_json c) = c"
  by (simp add: json_check_def check_json_def Let_def get_defs)

lemma inj_dependency_json: "inj dependency_json"
  by (rule inj_on_inverseI[of _ json_dependency]) simp

lemma inj_check_json: "inj check_json"
  by (rule inj_on_inverseI[of _ json_check]) simp

lemma inj_environment_json: "inj environment_json"
  by (rule injI) (auto simp: environment_json_def jstr_def jarr_def inj_map_eq_map inj_def
      intro: EnvironmentContract.equality)

lemma contract_json_eq_iff:
  "contract_json c = contract_json c' \<longleftrightarrow>
     sct_APIVersion c = sct_APIVersion c' \<and> sct_Kind c = sct_Kind c' \<and>
     sct_Metadata c = sct_Metadata c' \<and>
     sort_key fst (sct_Environments c) = sort_key fst (sct_Environments c') \<and>
     sct_Dependencies c = sct_Dependencies c' \<and> sct_Verification c = sct_Verification c' \<and>
     sct_Rollback c = sct_Rollback c'"
proof -
  have meta: "m = m' \<longleftrightarrow> cm_Name m = cm_Name m' \<and> cm_Owner m = cm_Owner m' \<and>
      cm_Repository m = cm_Repository m' \<and> cm_RiskTier m = cm_RiskTier m'" for m m' :: ContractMetadata
    by auto
  have ver: "v = v' \<longleftrightarrow> cv_Profile v = cv_Profile v' \<and> cv_ObservationWindow v = cv_ObservationWindow v' \<and>
      cv_Checks v = cv_Checks v'" for v v' :: ContractVerification by auto
  have rb: "r = r' \<longleftrightarrow> cr_Capability r = cr_Capability r' \<and> cr_Strategy r = cr_Strategy r' \<and>
      cr_Deadline r = cr_Deadline r'" for r r' :: ContractRollback by auto
  show ?thesis
    unfolding meta ver rb
    by (auto simp: contract_json_def jstr_def jarr_def jarr_omit_def jmap_eq_iff[OF inj_environment_json]
        inj_map_eq_map[OF inj_dependency_json] inj_map_eq_map[OF inj_check_json] split: if_splits)
qed

section \<open>The content hash identifies a contract up to order\<close>

definition same_environment :: "EnvironmentContract \<Rightarrow> EnvironmentContract \<Rightarrow> bool" where
  "same_environment e e' \<longleftrightarrow> ec_ReleaseProfile e = ec_ReleaseProfile e' \<and>
     ec_RunnerGroup e = ec_RunnerGroup e' \<and> mset (ec_Capabilities e) = mset (ec_Capabilities e')"

definition same_contract :: "ServiceContract \<Rightarrow> ServiceContract \<Rightarrow> bool" where
  "same_contract c c' \<longleftrightarrow>
     sct_APIVersion c = sct_APIVersion c' \<and> sct_Kind c = sct_Kind c' \<and>
     sct_Metadata c = sct_Metadata c' \<and> sct_Rollback c = sct_Rollback c' \<and>
     (\<forall>name. rel_option same_environment (map_of (sct_Environments c) name) (map_of (sct_Environments c') name)) \<and>
     mset (sct_Dependencies c) = mset (sct_Dependencies c') \<and>
     cv_Profile (sct_Verification c) = cv_Profile (sct_Verification c') \<and>
     cv_ObservationWindow (sct_Verification c) = cv_ObservationWindow (sct_Verification c') \<and>
     mset (cv_Checks (sct_Verification c)) = mset (cv_Checks (sct_Verification c'))"

lemma inj_dependency_key: "inj dependency_key"
  by (rule injI) (simp add: dependency_key_def)

lemma inj_check_key: "inj check_key"
  by (rule injI) (simp add: check_key_def)

lemma sortedDependencies_eq_iff:
  "sortedDependencies xs = sortedDependencies ys \<longleftrightarrow> mset xs = mset ys"
  by (simp add: sortedDependencies_def sort_key_eq_iff inj_dependency_key)

lemma sortedDependencies_simps [simp]:
  "mset (sortedDependencies xs) = mset xs" "set (sortedDependencies xs) = set xs"
  "sortedDependencies (sortedDependencies xs) = sortedDependencies xs"
  by (simp_all add: sortedDependencies_def sort_key_id_if_sorted)

lemma sorted_environment_eq_iff:
  "e\<lparr>ec_Capabilities := sort (ec_Capabilities e)\<rparr> = e'\<lparr>ec_Capabilities := sort (ec_Capabilities e')\<rparr> \<longleftrightarrow>
     same_environment e (e' :: EnvironmentContract)"
  by (cases e; cases e') (simp add: same_environment_def sort_eq_iff)

lemma normal_environments_eq_iff:
  assumes "distinct (map fst E)" "distinct (map fst E')"
  shows "sort_key fst (normal_environments E) = sort_key fst (normal_environments E') \<longleftrightarrow>
         (\<forall>name. rel_option same_environment (map_of E name) (map_of E' name))"
proof -
  have "map fst (normal_environments F) = map fst F" for F by (auto simp: normal_environments_def)
  then have "sort_key fst (normal_environments E) = sort_key fst (normal_environments E') \<longleftrightarrow>
      map_of (normal_environments E) = map_of (normal_environments E')"
    using assms by (intro sorted_map_eq_iff) auto
  also have "\<dots> \<longleftrightarrow> (\<forall>name. rel_option same_environment (map_of E name) (map_of E' name))"
    unfolding fun_eq_iff normal_environments_def map_of_map comp_def
  proof (intro all_cong1)
    fix name
    show "map_option (\<lambda>e. e\<lparr>ec_Capabilities := sort (ec_Capabilities e)\<rparr>) (map_of E name) =
        map_option (\<lambda>e. e\<lparr>ec_Capabilities := sort (ec_Capabilities e)\<rparr>) (map_of E' name) \<longleftrightarrow>
        rel_option same_environment (map_of E name) (map_of E' name)"
      by (cases "map_of E name"; cases "map_of E' name") (simp_all add: sorted_environment_eq_iff)
  qed
  finally show ?thesis .
qed

text \<open>
  Content hashing: two contracts whose canonical encodings do not collide under SHA-256 have
  the same hash exactly when they agree in every field, where the order of dependencies, of
  verification checks and of capabilities, the iteration order of the environments map, the stored
  hash and the source path do not count.
\<close>

theorem contract_hash_identifies_content:
  assumes "distinct (map fst (sct_Environments c))" "distinct (map fst (sct_Environments c'))"
    and "no_collision digest (contract_Canonical c) (contract_Canonical c')"
  shows "contract_Hash digest c = contract_Hash digest c' \<longleftrightarrow> same_contract c c'"
proof -
  have ver: "(sct_Verification c)\<lparr>cv_Checks := x\<rparr> = (sct_Verification c')\<lparr>cv_Checks := y\<rparr> \<longleftrightarrow>
      cv_Profile (sct_Verification c) = cv_Profile (sct_Verification c') \<and>
      cv_ObservationWindow (sct_Verification c) = cv_ObservationWindow (sct_Verification c') \<and> x = y" for x y
    by (cases "sct_Verification c"; cases "sct_Verification c'") auto
  have "contract_Hash digest c = contract_Hash digest c' \<longleftrightarrow> contract_Canonical c = contract_Canonical c'"
    unfolding contract_Hash_def using assms(3) by (rule hashValue_eq_iff)
  also have "\<dots> \<longleftrightarrow> same_contract c c'"
    unfolding contract_Canonical_def contract_json_eq_iff same_contract_def
    by (auto simp: contract_normal_def normal_environments_eq_iff[OF assms(1,2)] sortedDependencies_eq_iff
        ver sort_key_eq_iff[OF inj_check_key])
  finally show ?thesis .
qed

definition demo_service :: "string \<Rightarrow> string list \<Rightarrow> Service" where
  "demo_service name deps = \<lparr>svc_ID = name, svc_Name = name, svc_OwnerTeam = ''team'', svc_RiskTier = [],
     svc_Repository = ''repo'', svc_ReleasePhase = 0, svc_Dependencies = deps, svc_RunnerGroups = [],
     svc_FailureDomains = [], svc_MetadataVersion = [], svc_UpdatedAt = 0\<rparr>"

theorem contract_hash_identifies_content_witness:
  "\<exists>digest c c'. distinct (map fst (sct_Environments c)) \<and> distinct (map fst (sct_Environments c')) \<and>
     no_collision digest (contract_Canonical c) (contract_Canonical c') \<and> c \<noteq> c' \<and>
     contract_Hash digest c = contract_Hash digest c' \<and> same_contract c c'"
proof -
  let ?digest = "\<lambda>j. case j of JObj fs \<Rightarrow> get_str fs ''kind'' | _ \<Rightarrow> []"
  let ?c = "catalog_contract ?digest ''p'' (demo_service ''s'' [''a'', ''b''])"
  let ?c' = "catalog_contract ?digest ''q'' (demo_service ''s'' [''b'', ''a''])"
  have same: "same_contract ?c ?c'"
    by (auto simp: same_contract_def catalog_contract_def Let_def demo_service_def same_environment_def
        option.rel_refl)
  have dist: "distinct (map fst (sct_Environments ?c))" "distinct (map fst (sct_Environments ?c'))"
    by (simp_all add: catalog_contract_def Let_def)
  have eq: "contract_Canonical ?c = contract_Canonical ?c'"
    using same normal_environments_eq_iff[OF dist]
    unfolding contract_Canonical_def contract_json_eq_iff same_contract_def
    by (auto simp: contract_normal_def sortedDependencies_eq_iff sort_key_eq_iff[OF inj_check_key]
        catalog_contract_def Let_def demo_service_def)
  then have nc: "no_collision ?digest (contract_Canonical ?c) (contract_Canonical ?c')"
    by (simp add: no_collision_def)
  have "?c \<noteq> ?c'" by (simp add: catalog_contract_def Let_def)
  with contract_hash_identifies_content[OF dist nc] same dist nc show ?thesis by blast
qed

end
