(* ===== verification/Ordering.thy ===== *)
theory Ordering
  imports Domain "HOL-Library.AList"
begin

text \<open>
  The two topological passes of \<^verbatim>\<open>internal/planner/planner.go\<close>: over the changes of a release
  (\<^verbatim>\<open>PlanIntent\<close>, a queue kept sorted) and over the whole catalog (\<^verbatim>\<open>validateGlobalOrderingGraph\<close>, a
  stack).  Both build in-degrees and child lists, take ready services from a container, and raise
  the phase of the children.  The locale \<open>topological_pass\<close> states what the container must provide and
  proves, once, that such a pass processes every service exactly when the dependencies can be
  ranked, and that the phases are then the unique solution of \<open>phase n = max (initial n)
  (1 + max of the phases of its dependencies)\<close>; it is interpreted on both loops.
\<close>

section \<open>Model\<close>

text \<open>The Go map \<^verbatim>\<open>children\<close> is an association list, \<^verbatim>\<open>indegree\<close> and \<^verbatim>\<open>phase\<close> are maps that read 0.\<close>

definition children_of :: "(string \<times> string list) list \<Rightarrow> string \<Rightarrow> string list" where
  "children_of children name = (case map_of children name of Some cs \<Rightarrow> cs | None \<Rightarrow> [])"

definition add_edge :: "string \<Rightarrow> string \<Rightarrow> (string \<Rightarrow> int) \<times> (string \<times> string list) list
    \<Rightarrow> (string \<Rightarrow> int) \<times> (string \<times> string list) list" where
  "add_edge name dependency = (\<lambda>(indegree, children).
     (indegree(name := indegree name + 1),
      AList.update dependency (children_of children dependency @ [name]) children))"

definition build_graph :: "string list \<Rightarrow> (string \<Rightarrow> string list)
    \<Rightarrow> (string \<Rightarrow> int) \<times> (string \<times> string list) list" where
  "build_graph names deps =
     fold (\<lambda>name g. fold (\<lambda>dependency g. add_edge name dependency g) (deps name) g) names (\<lambda>_. 0, [])"

definition initially_ready :: "string list \<Rightarrow> (string \<Rightarrow> int) \<Rightarrow> string list" where
  "initially_ready names indegree = filter (\<lambda>name. indegree name = 0) names"

fun relax :: "(string \<Rightarrow> string list \<Rightarrow> string list) \<Rightarrow> string \<Rightarrow> string list
    \<Rightarrow> (string \<Rightarrow> int) \<times> (string \<Rightarrow> int) \<times> string list
    \<Rightarrow> (string \<Rightarrow> int) \<times> (string \<Rightarrow> int) \<times> string list" where
  "relax push name [] st = st"
| "relax push name (child # cs) (phase, indegree, ready) =
     (let phase' = (if phase child \<le> phase name then phase(child := phase name + 1) else phase);
          indegree' = indegree(child := indegree child - 1);
          ready' = (if indegree' child = 0 then push child ready else ready)
      in relax push name cs (phase', indegree', ready'))"

definition push_sorted :: "string \<Rightarrow> string list \<Rightarrow> string list" where
  "push_sorted child ready = sort (ready @ [child])"

definition push_stack :: "string \<Rightarrow> string list \<Rightarrow> string list" where
  "push_stack child ready = ready @ [child]"

text \<open>The potential that each turn of either loop lowers.\<close>

definition potential :: "string set \<Rightarrow> (string \<Rightarrow> int) \<Rightarrow> string list \<Rightarrow> nat" where
  "potential S indegree ready = length ready + (\<Sum>n\<in>S. nat (indegree n))"

definition all_children :: "(string \<times> string list) list \<Rightarrow> string set" where
  "all_children children = \<Union> (set ` snd ` set children)"

lemma potential_relax:
  assumes "finite S" and "set cs \<subseteq> S" and push: "\<And>c q. length (push c q) = Suc (length q)"
    and "relax push name cs (phase, indegree, ready) = (phase', indegree', ready')"
  shows "potential S indegree' ready' \<le> potential S indegree ready"
  using assms(2,4)
proof (induction cs arbitrary: phase indegree ready)
  case (Cons child cs)
  let ?ind = "indegree(child := indegree child - 1)"
  let ?rdy = "if ?ind child = 0 then push child ready else ready"
  have "(\<Sum>n\<in>S. nat (?ind n)) = nat (indegree child - 1) + (\<Sum>n\<in>S - {child}. nat (indegree n))"
    using Cons.prems(1) assms(1) by (subst sum.remove[of S child]) auto
  moreover have "(\<Sum>n\<in>S. nat (indegree n)) = nat (indegree child) + (\<Sum>n\<in>S - {child}. nat (indegree n))"
    using Cons.prems(1) assms(1) by (subst sum.remove[of S child]) auto
  ultimately have "potential S ?ind ?rdy \<le> potential S indegree ready"
    using push by (auto simp: potential_def)
  moreover have "potential S indegree' ready' \<le> potential S ?ind ?rdy"
    using Cons by (auto simp: Let_def)
  ultimately show ?case by simp
qed simp

lemma children_in_all: "set (children_of children name) \<subseteq> all_children children"
  by (cases "map_of children name") (force simp: children_of_def all_children_def dest: map_of_SomeD)+

lemma finite_all_children: "finite (all_children children)"
  by (simp add: all_children_def)

text \<open>\<^verbatim>\<open>PlanIntent\<close>: take the first of the sorted queue, visit its children in order.\<close>

function plan_loop :: "(string \<times> string list) list \<Rightarrow> (string \<Rightarrow> int) \<Rightarrow> (string \<Rightarrow> int) \<Rightarrow> string list
    \<Rightarrow> int \<Rightarrow> (string \<Rightarrow> int) \<times> int" where
  "plan_loop children phase indegree ready processed =
     (if ready = [] then (phase, processed)
      else let name = hd ready in
        case relax push_sorted name (sort (children_of children name)) (phase, indegree, tl ready) of
          (phase', indegree', ready') \<Rightarrow> plan_loop children phase' indegree' ready' (processed + 1))"
  by pat_completeness auto
termination
proof (relation "measure (\<lambda>(children, phase, indegree, ready, processed).
    potential (all_children children) indegree ready)", goal_cases)
  case (2 children phase indegree ready processed name phase' q indegree' ready')
  have relaxed: "relax push_sorted name (sort (children_of children name)) (phase, indegree, tl ready) = (phase', indegree', ready')"
    using 2 by auto
  have "potential (all_children children) indegree' ready' \<le> potential (all_children children) indegree (tl ready)"
    by (rule potential_relax[OF finite_all_children _ _ relaxed])
       (use children_in_all in \<open>auto simp: push_sorted_def\<close>)
  also have "\<dots> < potential (all_children children) indegree ready"
    using 2 by (cases ready) (auto simp: potential_def)
  finally show ?case by simp
qed simp

text \<open>\<^verbatim>\<open>validateGlobalOrderingGraph\<close>: take the top of the stack, visit its children as they were added.\<close>

function global_loop :: "(string \<times> string list) list \<Rightarrow> (string \<Rightarrow> int) \<Rightarrow> (string \<Rightarrow> int) \<Rightarrow> string list
    \<Rightarrow> int \<Rightarrow> (string \<Rightarrow> int) \<times> int" where
  "global_loop children phase indegree ready processed =
     (if ready = [] then (phase, processed)
      else let name = last ready in
        case relax push_stack name (children_of children name) (phase, indegree, butlast ready) of
          (phase', indegree', ready') \<Rightarrow> global_loop children phase' indegree' ready' (processed + 1))"
  by pat_completeness auto
termination
proof (relation "measure (\<lambda>(children, phase, indegree, ready, processed).
    potential (all_children children) indegree ready)", goal_cases)
  case (2 children phase indegree ready processed name phase' q indegree' ready')
  have relaxed: "relax push_stack name (children_of children name) (phase, indegree, butlast ready) = (phase', indegree', ready')"
    using 2 by auto
  have "potential (all_children children) indegree' ready' \<le> potential (all_children children) indegree (butlast ready)"
    by (rule potential_relax[OF finite_all_children _ _ relaxed])
       (use children_in_all in \<open>auto simp: push_stack_def\<close>)
  also have "\<dots> < potential (all_children children) indegree ready"
    using 2 by (cases ready rule: rev_cases) (auto simp: potential_def)
  finally show ?case by simp
qed simp

declare plan_loop.simps [simp del] global_loop.simps [simp del]

section \<open>Graphs\<close>

lemma children_of_update:
  "children_of (AList.update k v m) n = (if n = k then v else children_of m n)"
  by (simp add: children_of_def AList.update_conv')

lemma add_edge_facts:
  assumes "add_edge name d (ind, ch) = (ind', ch')"
  shows "ind' n = ind n + (if n = name then 1 else 0)"
    and "mset (children_of ch' k) = mset (children_of ch k) + (if k = d then {#name#} else {#})"
  using assms by (auto simp: add_edge_def children_of_update)

lemma add_edges_facts:
  "fold (\<lambda>d g. add_edge name d g) ds (ind, ch) = (ind', ch') \<Longrightarrow>
   ind' n = ind n + (if n = name then int (length ds) else 0) \<and>
   mset (children_of ch' k) = mset (children_of ch k) + replicate_mset (count_list ds k) name"
proof (induction ds arbitrary: ind ch)
  case (Cons d ds)
  obtain ind1 ch1 where e: "add_edge name d (ind, ch) = (ind1, ch1)" by fastforce
  with Cons show ?case using add_edge_facts[OF e] by auto
qed auto

lemma build_graph_facts:
  assumes "build_graph names deps = (ind, ch)" and "distinct names"
  shows "ind n = (if n \<in> set names then int (length (deps n)) else 0)"
    and "count (mset (children_of ch k)) n = (if n \<in> set names then count_list (deps n) k else 0)"
proof -
  have gen: "fold (\<lambda>name g. fold (\<lambda>d g. add_edge name d g) (deps name) g) names (i0, c0) = (ind, ch) \<Longrightarrow>
      distinct names \<Longrightarrow>
      ind n = i0 n + (if n \<in> set names then int (length (deps n)) else 0) \<and>
      count (mset (children_of ch k)) n = count (mset (children_of c0 k)) n +
        (if n \<in> set names then count_list (deps n) k else 0)" for i0 c0
  proof (induction names arbitrary: i0 c0)
    case (Cons name names)
    obtain i1 c1 where e: "fold (\<lambda>d g. add_edge name d g) (deps name) (i0, c0) = (i1, c1)" by fastforce
    show ?case using Cons add_edges_facts[OF e, of n k] e by auto
  qed auto
  from gen[of "\<lambda>_. 0" "[]"] assms show
    "ind n = (if n \<in> set names then int (length (deps n)) else 0)"
    "count (mset (children_of ch k)) n = (if n \<in> set names then count_list (deps n) k else 0)"
    by (simp_all add: build_graph_def children_of_def)
qed

section \<open>What every topological pass does\<close>

text \<open>
  The state of a pass relative to the set \<open>P\<close> of services already processed: the in-degree counts the
  dependencies outside \<open>P\<close>, the ready services are those without any, and a phase is the maximum of
  the initial phase and one more than the phases of the processed dependencies.
\<close>

definition phase_of :: "(string \<Rightarrow> int) \<Rightarrow> (string \<Rightarrow> int) \<Rightarrow> string set \<Rightarrow> string \<Rightarrow> int" where
  "phase_of initial phase D n = Max (insert (initial n) ((\<lambda>d. phase d + 1) ` D))"

definition pass_inv :: "string set \<Rightarrow> (string \<Rightarrow> string list) \<Rightarrow> (string \<Rightarrow> int) \<Rightarrow> string set
    \<Rightarrow> (string \<Rightarrow> int) \<Rightarrow> (string \<Rightarrow> int) \<Rightarrow> string list \<Rightarrow> bool" where
  "pass_inv N deps initial P phase indegree ready \<longleftrightarrow>
     P \<subseteq> N \<and> set ready \<subseteq> N \<and> distinct ready \<and> set ready \<inter> P = {} \<and>
     (\<forall>n \<in> N. indegree n = int (length (filter (\<lambda>d. d \<notin> P) (deps n)))) \<and>
     (\<forall>n \<in> N. indegree n = 0 \<longleftrightarrow> n \<in> P \<union> set ready) \<and>
     (\<forall>n \<in> N. phase n = phase_of initial phase (set (deps n) \<inter> P) n)"

definition graph_of :: "string set \<Rightarrow> (string \<Rightarrow> string list) \<Rightarrow> (string \<times> string list) list \<Rightarrow> bool" where
  "graph_of N deps children \<longleftrightarrow> finite N \<and> (\<forall>n \<in> N. set (deps n) \<subseteq> N) \<and>
     (\<forall>k n. count (mset (children_of children k)) n = (if n \<in> N then count_list (deps n) k else 0))"

lemma phase_of_insert:
  "finite D \<Longrightarrow> phase_of initial phase (insert d D) n = max (phase_of initial phase D n) (phase d + 1)"
  by (cases "D = {}") (simp_all add: phase_of_def ac_simps)

lemma phase_of_cong:
  "(\<And>d. d \<in> D \<Longrightarrow> phase d = phase' d) \<Longrightarrow> phase_of initial phase D n = phase_of initial phase' D n"
  unfolding phase_of_def by (metis (mono_tags, lifting) image_cong)

lemma phase_of_less:
  "finite D \<Longrightarrow> d \<in> D \<Longrightarrow> phase d < phase_of initial phase D n"
proof -
  assume "finite D" "d \<in> D"
  then have "phase d + 1 \<le> phase_of initial phase D n" unfolding phase_of_def by (intro Max_ge) auto
  then show ?thesis by simp
qed

lemma filter_insert_count:
  "name \<notin> P \<Longrightarrow> length (filter (\<lambda>d. d \<notin> P) xs) =
     length (filter (\<lambda>d. d \<notin> insert name P) xs) + count_list xs name"
  by (induction xs) auto

lemma relax_indegree:
  "relax push name cs (phase, ind, ready) = (phase', ind', ready') \<Longrightarrow>
     ind' n = ind n - int (count_list cs n)"
  by (induction cs arbitrary: phase ind ready) (auto simp: Let_def)

lemma relax_phase:
  "name \<notin> set cs \<Longrightarrow> relax push name cs (phase, ind, ready) = (phase', ind', ready') \<Longrightarrow>
     phase' n = (if n \<in> set cs then max (phase n) (phase name + 1) else phase n)"
  by (induction cs arbitrary: phase ind ready) (auto simp: Let_def max_def split: if_splits)

locale topological_pass =
  fixes first :: "string list \<Rightarrow> string" and rest :: "string list \<Rightarrow> string list"
    and push :: "string \<Rightarrow> string list \<Rightarrow> string list" and arrange :: "string list \<Rightarrow> string list"
    and loop :: "(string \<times> string list) list \<Rightarrow> (string \<Rightarrow> int) \<Rightarrow> (string \<Rightarrow> int) \<Rightarrow> string list
      \<Rightarrow> int \<Rightarrow> (string \<Rightarrow> int) \<times> int"
  assumes take_mset: "q \<noteq> [] \<Longrightarrow> mset q = add_mset (first q) (mset (rest q))"
    and push_mset: "mset (push c q) = add_mset c (mset q)"
    and arrange_mset: "mset (arrange cs) = mset cs"
    and loop_stop: "loop children phase indegree [] processed = (phase, processed)"
    and loop_turn: "ready \<noteq> [] \<Longrightarrow>
      relax push (first ready) (arrange (children_of children (first ready))) (phase, indegree, rest ready)
        = (phase', indegree', ready') \<Longrightarrow>
      loop children phase indegree ready processed = loop children phase' indegree' ready' (processed + 1)"
begin

lemma relax_ready:
  "(\<And>n. int (count_list cs n) \<le> ind n \<or> n \<notin> set cs) \<Longrightarrow>
   relax push name cs (phase, ind, ready) = (phase', ind', ready') \<Longrightarrow>
   mset ready' = mset ready + mset_set {n \<in> set cs. ind n = int (count_list cs n)}"
proof (induction cs arbitrary: phase ind ready)
  case (Cons c cs)
  let ?ind = "ind(c := ind c - 1)"
  have le: "1 + int (count_list cs c) \<le> ind c" using Cons.prems(1)[of c] by auto
  have enough: "int (count_list cs n) \<le> ?ind n \<or> n \<notin> set cs" for n
    using Cons.prems(1)[of n] by (auto split: if_splits)
  have rel: "relax push name cs (if phase c \<le> phase name then phase(c := phase name + 1) else phase,
      ?ind, if ?ind c = 0 then push c ready else ready) = (phase', ind', ready')"
    using Cons.prems(2) unfolding relax.simps Let_def .
  have IH: "mset ready' = mset (if ?ind c = 0 then push c ready else ready) +
      mset_set {n \<in> set cs. ?ind n = int (count_list cs n)}"
    by (rule Cons.IH[OF _ rel]) (rule enough)
  show ?case
  proof (cases "ind c = 1")
    case True
    then have "c \<notin> set cs" using le by (auto simp: count_list_0_iff)
    then have "{n \<in> set (c # cs). ind n = int (count_list (c # cs) n)} =
        insert c {n \<in> set cs. ?ind n = int (count_list cs n)}"
      using True by (auto simp: count_list_0_iff)
    then show ?thesis using IH True \<open>c \<notin> set cs\<close> by (simp add: push_mset)
  next
    case False
    then have "{n \<in> set (c # cs). ind n = int (count_list (c # cs) n)} =
        {n \<in> set cs. ?ind n = int (count_list cs n)}"
      using le by (auto simp: count_list_0_iff)
    then show ?thesis using IH False by simp
  qed
qed simp

lemma turn_inv:
  assumes g: "graph_of N deps children" and inv: "pass_inv N deps initial P phase indegree ready"
    and ne: "ready \<noteq> []"
    and rel: "relax push (first ready) (arrange (children_of children (first ready)))
        (phase, indegree, rest ready) = (phase', indegree', ready')"
  shows "pass_inv N deps initial (insert (first ready) P) phase' indegree' ready'"
    and "first ready \<in> N - P"
proof -
  define name where "name = first ready"
  define cs where "cs = arrange (children_of children name)"
  have split: "mset ready = add_mset name (mset (rest ready))" using take_mset[OF ne] by (simp add: name_def)
  have inv': "P \<subseteq> N" "set ready \<subseteq> N" "distinct ready" "set ready \<inter> P = {}"
    and ind: "\<And>n. n \<in> N \<Longrightarrow> indegree n = int (length (filter (\<lambda>d. d \<notin> P) (deps n)))"
    and zero: "\<And>n. n \<in> N \<Longrightarrow> indegree n = 0 \<longleftrightarrow> n \<in> P \<union> set ready"
    and ph: "\<And>n. n \<in> N \<Longrightarrow> phase n = phase_of initial phase (set (deps n) \<inter> P) n"
    using inv by (auto simp: pass_inv_def)
  have sets: "set ready = insert name (set (rest ready))" using split by (metis set_mset_add_mset_insert set_mset_mset)
  have dist: "distinct (rest ready)" "name \<notin> set (rest ready)"
    using split inv'(3) mset_eq_imp_distinct_iff[of ready "name # rest ready"] by auto
  have name: "name \<in> N" "name \<notin> P" using sets inv' by auto
  then show "first ready \<in> N - P" by (simp add: name_def)
  have cnt: "count_list cs n = (if n \<in> N then count_list (deps n) name else 0)" for n
    using g arrange_mset[of "children_of children name"]
    by (metis count_mset cs_def graph_of_def)
  have ind_split: "indegree n = int (length (filter (\<lambda>d. d \<notin> insert name P) (deps n))) + int (count_list cs n)"
    if "n \<in> N" for n
    using ind[OF that] filter_insert_count[OF name(2), of "deps n"] cnt[of n] that by simp
  have cs_N: "n \<in> N" if "n \<in> set cs" for n using that cnt[of n] by (metis count_list_0_iff)
  have not_done: "n \<notin> set cs" if "n \<in> P \<union> set ready" for n
  proof (cases "n \<in> N")
    case True
    then have "count_list cs n = 0" using zero[OF True] that ind_split[OF True] by auto
    then show ?thesis by (simp add: count_list_0_iff)
  qed (use cs_N in blast)
  have rel': "relax push name cs (phase, indegree, rest ready) = (phase', indegree', ready')"
    using rel by (simp add: name_def cs_def)
  have ind': "indegree' n = indegree n - int (count_list cs n)" for n using relax_indegree[OF rel'] .
  have "name \<notin> set cs" using not_done sets by simp
  note ph' = relax_phase[OF this rel']
  have rdy: "mset ready' = mset (rest ready) + mset_set {n \<in> set cs. indegree n = int (count_list cs n)}"
    by (rule relax_ready[OF _ rel']) (use ind_split cs_N in force)
  have sets': "set ready' = set (rest ready) \<union> {n \<in> set cs. indegree n = int (count_list cs n)}"
    using arg_cong[OF rdy, of set_mset] by simp
  have fresh: "{n \<in> set cs. indegree n = int (count_list cs n)} \<inter> (P \<union> set ready) = {}"
    using not_done by blast
  have "distinct ready'"
  proof -
    obtain zs where zs: "set zs = {n \<in> set cs. indegree n = int (count_list cs n)}" "distinct zs"
      using finite_distinct_list[of "{n \<in> set cs. indegree n = int (count_list cs n)}"] by auto
    then have "mset ready' = mset (rest ready @ zs)" using rdy mset_set_set[OF zs(2)] by simp
    moreover have "distinct (rest ready @ zs)" using zs fresh dist sets by auto
    ultimately show ?thesis using mset_eq_imp_distinct_iff by blast
  qed
  moreover have "set ready' \<inter> insert name P = {}" using sets' fresh dist(2) inv'(4) sets by blast
  moreover have "set ready' \<subseteq> N" using sets' sets inv'(2) cs_N by blast
  moreover have "\<forall>n \<in> N. indegree' n = int (length (filter (\<lambda>d. d \<notin> insert name P) (deps n)))"
    using ind' ind_split by simp
  moreover have "\<forall>n \<in> N. indegree' n = 0 \<longleftrightarrow> n \<in> insert name P \<union> set ready'"
  proof
    fix n assume n: "n \<in> N"
    show "indegree' n = 0 \<longleftrightarrow> n \<in> insert name P \<union> set ready'"
    proof (cases "n \<in> set cs")
      case True
      then show ?thesis using ind'[of n] sets' not_done[of n] sets by auto
    next
      case False
      then have "indegree' n = indegree n" using ind'[of n] by (simp add: count_list_0_iff)
      then show ?thesis using zero[OF n] sets' sets False by auto
    qed
  qed
  moreover have "\<forall>n \<in> N. phase' n = phase_of initial phase' (set (deps n) \<inter> insert name P) n"
  proof
    fix n assume n: "n \<in> N"
    have old: "phase' d = phase d" if "d \<in> insert name P" for d
      using ph'[of d] not_done[of d] that sets by auto
    have eq: "phase_of initial phase' D n = phase_of initial phase D n" if "D \<subseteq> insert name P" for D
      by (rule phase_of_cong) (use old that in blast)
    have "n \<in> set cs \<longleftrightarrow> name \<in> set (deps n)" using cnt[of n] n by (metis count_list_0_iff)
    then show "phase' n = phase_of initial phase' (set (deps n) \<inter> insert name P) n"
      using ph'[of n] ph[OF n] eq[OF Int_lower2, of "set (deps n)"]
      by (auto simp: phase_of_insert Int_insert_right)
  qed
  ultimately show "pass_inv N deps initial (insert (first ready) P) phase' indegree' ready'"
    using name(1) inv'(1) by (simp add: pass_inv_def name_def)
qed

lemma loop_result:
  assumes "graph_of N deps children" and "pass_inv N deps initial P phase indegree ready"
    and "loop children phase indegree ready (int (card P)) = (phase', processed)"
  shows "\<exists>P' indegree'. processed = int (card P') \<and> pass_inv N deps initial P' phase' indegree' []"
  using assms(2,3)
proof (induction "card (N - P)" arbitrary: P phase indegree ready rule: less_induct)
  case less
  have fin: "finite N" using assms(1) by (simp add: graph_of_def)
  show ?case
  proof (cases "ready = []")
    case True
    then show ?thesis using less.prems loop_stop by (metis prod.inject)
  next
    case False
    obtain phase1 indegree1 ready1 where rel: "relax push (first ready)
        (arrange (children_of children (first ready))) (phase, indegree, rest ready) = (phase1, indegree1, ready1)"
      by (metis prod_cases3)
    note turn = turn_inv[OF assms(1) less.prems(1) False rel]
    have sub: "P \<subseteq> N" using less.prems(1) by (simp add: pass_inv_def)
    then have "card (insert (first ready) P) = Suc (card P)"
      using turn(2) fin by (simp add: finite_subset)
    then have loop: "loop children phase1 indegree1 ready1 (int (card (insert (first ready) P))) = (phase', processed)"
      using less.prems(2) loop_turn[OF False rel, of "int (card P)"] by (simp add: add.commute)
    have "card (N - insert (first ready) P) < card (N - P)"
      using turn(2) fin by (intro psubset_card_mono) auto
    from less.hyps[OF this turn(1) loop] show ?thesis .
  qed
qed

text \<open>A pass from the initial state of a graph.\<close>

lemma start_inv:
  assumes "graph_of N deps children" and "\<forall>n \<in> N. indegree n = int (length (deps n))"
    and "set ready = {n \<in> N. indegree n = 0}" and "distinct ready"
  shows "pass_inv N deps initial {} initial indegree ready"
  using assms by (auto simp: pass_inv_def phase_of_def)

lemma pass_complete_iff_ranked:
  assumes g: "graph_of N deps children" and ind: "\<forall>n \<in> N. indegree n = int (length (deps n))"
    and rdy: "set ready = {n \<in> N. indegree n = 0}" "distinct ready"
    and run: "loop children initial indegree ready 0 = (phase, processed)"
  shows "processed = int (card N) \<longleftrightarrow> (\<exists>rank :: string \<Rightarrow> int. \<forall>n \<in> N. \<forall>d \<in> set (deps n). rank d < rank n)"
    and "processed = int (card N) \<Longrightarrow> n \<in> N \<Longrightarrow> phase n = phase_of initial phase (set (deps n)) n"
proof -
  have fin: "finite N" and clo: "\<And>n. n \<in> N \<Longrightarrow> set (deps n) \<subseteq> N" using g by (auto simp: graph_of_def)
  obtain P ind' where k: "processed = int (card P)" and inv: "pass_inv N deps initial P phase ind' []"
    using loop_result[OF g start_inv[OF g ind rdy], of initial phase processed] run by auto
  have P: "P \<subseteq> N" "\<And>n. n \<in> N \<Longrightarrow> n \<in> P \<longleftrightarrow> set (deps n) \<subseteq> P"
    and ph: "\<And>n. n \<in> N \<Longrightarrow> phase n = phase_of initial phase (set (deps n) \<inter> P) n"
    using inv by (auto simp: pass_inv_def filter_empty_conv subset_iff)
  have full: "processed = int (card N) \<longleftrightarrow> P = N"
    using k P(1) fin by (metis card_subset_eq of_nat_eq_iff)
  show eqn: "phase n = phase_of initial phase (set (deps n)) n" if "processed = int (card N)" "n \<in> N" for n
    using ph[OF that(2)] full that clo by (simp add: Int_absorb2)
  show "processed = int (card N) \<longleftrightarrow> (\<exists>rank :: string \<Rightarrow> int. \<forall>n \<in> N. \<forall>d \<in> set (deps n). rank d < rank n)"
  proof
    assume k: "processed = int (card N)"
    have "phase d < phase n" if "n \<in> N" "d \<in> set (deps n)" for n d
      using eqn[OF k that(1)] that(2) by (simp add: phase_of_less)
    then show "\<exists>rank :: string \<Rightarrow> int. \<forall>n \<in> N. \<forall>d \<in> set (deps n). rank d < rank n" by blast
  next
    assume "\<exists>rank :: string \<Rightarrow> int. \<forall>n \<in> N. \<forall>d \<in> set (deps n). rank d < rank n"
    then obtain rank :: "string \<Rightarrow> int" where r: "\<And>n d. n \<in> N \<Longrightarrow> d \<in> set (deps n) \<Longrightarrow> rank d < rank n" by blast
    have "N - P = {}"
    proof (rule ccontr)
      assume ne: "N - P \<noteq> {}"
      obtain n where n: "n \<in> N - P" "\<And>m. m \<in> N - P \<Longrightarrow> rank n \<le> rank m"
        using arg_min_if_finite[OF finite_Diff[OF fin] ne, of rank] by (meson leI)
      then obtain d where "d \<in> set (deps n)" "d \<notin> P" using P(2) by blast
      moreover from this have "d \<in> N - P" using n(1) clo by blast
      ultimately show False using n r[of n d] by fastforce
    qed
    then show "processed = int (card N)" using full P(1) by blast
  qed
qed

end

section \<open>Both loops are topological passes\<close>

interpretation plan: topological_pass hd tl push_sorted sort plan_loop
proof
  fix children phase indegree ready phase' indegree' ready' processed
  assume "ready \<noteq> []" "relax push_sorted (hd ready) (sort (children_of children (hd ready)))
    (phase, indegree, tl ready) = (phase', indegree', ready')"
  then show "plan_loop children phase indegree ready processed =
      plan_loop children phase' indegree' ready' (processed + 1)"
    by (subst plan_loop.simps) simp
next
  fix children phase indegree processed
  show "plan_loop children phase indegree [] processed = (phase, processed)"
    by (subst plan_loop.simps) simp
qed (auto simp: push_sorted_def neq_Nil_conv)

interpretation global: topological_pass last butlast push_stack "\<lambda>cs. cs" global_loop
proof
  fix children phase indegree ready phase' indegree' ready' processed
  assume "ready \<noteq> []" "relax push_stack (last ready) (children_of children (last ready))
    (phase, indegree, butlast ready) = (phase', indegree', ready')"
  then show "global_loop children phase indegree ready processed =
      global_loop children phase' indegree' ready' (processed + 1)"
    by (subst global_loop.simps) simp
next
  fix children phase indegree processed
  show "global_loop children phase indegree [] processed = (phase, processed)"
    by (subst global_loop.simps) simp
next
  fix q :: "string list" assume "q \<noteq> []"
  then show "mset q = add_mset (last q) (mset (butlast q))" by (induction q rule: rev_induct) auto
qed (auto simp: push_stack_def)

lemma build_graph_of:
  assumes "build_graph names deps = (indegree, children)" and "distinct names"
    and "\<forall>n \<in> set names. set (deps n) \<subseteq> set names"
  shows "graph_of (set names) deps children"
    and "\<forall>n \<in> set names. indegree n = int (length (deps n))"
    and "set (initially_ready names indegree) = {n \<in> set names. indegree n = 0}"
    and "distinct (initially_ready names indegree)"
  using assms build_graph_facts[OF assms(1,2)] by (auto simp: graph_of_def initially_ready_def)

text \<open>The phases of a completed pass are determined by the graph and the initial phases alone.\<close>

lemma phase_unique:
  assumes fin: "finite N" and clo: "\<And>n. n \<in> N \<Longrightarrow> set (deps n) \<subseteq> N"
    and p: "\<And>n. n \<in> N \<Longrightarrow> p n = phase_of initial p (set (deps n)) n"
    and q: "\<And>n. n \<in> N \<Longrightarrow> q n = phase_of initial q (set (deps n)) n"
    and "n \<in> N"
  shows "p n = q n"
  using assms(5)
proof (induction "card {m \<in> N. p m < p n}" arbitrary: n rule: less_induct)
  case less
  have "p d = q d" if d: "d \<in> set (deps n)" for d
  proof (rule less.hyps)
    have lt: "p d < p n" using p[OF less.prems] d by (simp add: phase_of_less)
    show "d \<in> N" using clo less.prems d by blast
    then show "card {m \<in> N. p m < p d} < card {m \<in> N. p m < p n}"
      using fin lt by (intro psubset_card_mono) auto
  qed
  then show ?case using p[OF less.prems] q[OF less.prems] phase_of_cong[of "set (deps n)" p q] by metis
qed

end
