(* ===== verification/Planner.thy ===== *)
theory Planner
  imports Contracts Ordering
begin

text \<open>
  \<^verbatim>\<open>internal/planner/planner.go\<close>.  A planner holds the services of the catalog and their content
  hashes; \<open>PlanIntent\<close> turns a release intent into a plan of phases, \<open>ValidatePlan\<close> re-checks a stored
  plan before it is executed.  The clock is an argument; maps are association lists keyed by the
  service, profile or environment name.
\<close>

section \<open>Model: planner construction\<close>

abbreviation ErrNoChanges :: error where "ErrNoChanges \<equiv> Sentinel ''planner.ErrNoChanges''"
abbreviation ErrDependencyCycle :: error where
  "ErrDependencyCycle \<equiv> Sentinel ''planner.ErrDependencyCycle''"

record Options =
  opt_PlanTTL :: duration
  opt_ContextSnapshotRef :: string
  opt_PolicyHash :: string
  opt_EvidenceHash :: string

record environmentDefinition =
  ed_profile :: string
  ed_runnerGroup :: string

record serviceDefinition =
  sd_service :: Service
  sd_dependencies :: "Dependency list"
  sd_environments :: "(Environment \<times> environmentDefinition) list"
  sd_contractHash :: string

record Planner =
  pn_services :: "(string \<times> Service) list"
  pn_definitions :: "(string \<times> serviceDefinition) list"
  pn_profiles :: "(string \<times> ReleaseProfile) list"
  pn_contractHashes :: "(string \<times> string) list"
  pn_profileHashes :: "(string \<times> string) list"
  pn_contextSnapshotRef :: string
  pn_policyHash :: string
  pn_evidenceHash :: string
  pn_planTTL :: duration

definition newPlanner :: "(json \<Rightarrow> string) \<Rightarrow> (string \<times> Service) list \<Rightarrow> (string \<times> serviceDefinition) list
    \<Rightarrow> (string \<times> ReleaseProfile) list \<Rightarrow> (string \<times> string) list \<Rightarrow> (string \<times> string) list \<Rightarrow> Options
    \<Rightarrow> Planner" where
  "newPlanner digest services definitions profiles contractHashes profileHashes options =
     (let planTTL = (if opt_PlanTTL options \<le> 0 then 15 * 60 * 1000000000 else opt_PlanTTL options);
          contextRef = (if opt_ContextSnapshotRef options = []
             then ''content:'' @ hashValue digest (JObj (
                    [(''contracts'', jmap JStr contractHashes), (''profiles'', jmap JStr profileHashes)]
                    @ jstr ''policy_hash'' (opt_PolicyHash options)
                    @ jstr ''evidence_hash'' (opt_EvidenceHash options)))
             else opt_ContextSnapshotRef options)
      in \<lparr>pn_services = services, pn_definitions = definitions, pn_profiles = profiles,
          pn_contractHashes = contractHashes, pn_profileHashes = profileHashes,
          pn_contextSnapshotRef = contextRef, pn_policyHash = opt_PolicyHash options,
          pn_evidenceHash = opt_EvidenceHash options, pn_planTTL = planTTL\<rparr>)"

text \<open>\<^verbatim>\<open>New\<close>: a planner for the legacy catalog.\<close>

definition legacy_definition :: "(json \<Rightarrow> string) \<Rightarrow> Service \<Rightarrow> serviceDefinition" where
  "legacy_definition digest service =
     (let dependencies = sortedDependencies (map (\<lambda>dependency. \<lparr>dep_Service = dependency,
            dep_Resource = [], dep_Type = DependencyRolloutOrder, dep_Condition = [], dep_Constraint = []\<rparr>)
            (svc_Dependencies service))
      in \<lparr>sd_service = service, sd_dependencies = dependencies,
          sd_environments =
            [(EnvironmentStaging, \<lparr>ed_profile = ''legacy'', ed_runnerGroup = ''legacy-staging''\<rparr>),
             (EnvironmentProduction, \<lparr>ed_profile = ''legacy'', ed_runnerGroup = ''legacy-production''\<rparr>)],
          sd_contractHash = hashValue digest (JObj (jstr ''name'' (svc_Name service)
            @ jstr ''owner'' (svc_OwnerTeam service) @ jstr ''repository'' (svc_Repository service)
            @ jarr ''dependencies'' dependency_json dependencies))\<rparr>)"

fun collect_services :: "(json \<Rightarrow> string) \<Rightarrow> (string \<times> serviceDefinition) list \<Rightarrow> Service list
    \<Rightarrow> (error, (string \<times> serviceDefinition) list) result" where
  "collect_services digest definitions [] = Inr definitions"
| "collect_services digest definitions (service # services) =
     (if svc_Name service = [] then Inl (Errorf ''service name is required'')
      else if svc_Name service \<in> fst ` set definitions then Inl (Errorf ''duplicate service %q'')
      else collect_services digest
             (definitions @ [(svc_Name service, legacy_definition digest service)]) services)"

definition planner_New :: "(json \<Rightarrow> string) \<Rightarrow> Service list \<Rightarrow> (error, Planner) result" where
  "planner_New digest services =
     (case collect_services digest [] services of
        Inl err \<Rightarrow> Inl err
      | Inr definitions \<Rightarrow>
          if \<exists>(name, definition) \<in> set definitions. \<exists>dependency \<in> set (sd_dependencies definition).
               dep_Service dependency \<notin> fst ` set definitions
          then Inl (Errorf ''service %q references unknown dependency %q'')
          else Inr (newPlanner digest (map (\<lambda>(name, d). (name, sd_service d)) definitions) definitions []
                 (map (\<lambda>(name, d). (name, sd_contractHash d)) definitions)
                 [(''legacy'', hashValue digest (jmap JStr [(''name'', ''legacy'')]))]
                 \<lparr>opt_PlanTTL = 0, opt_ContextSnapshotRef = [], opt_PolicyHash = [], opt_EvidenceHash = []\<rparr>))"

text \<open>\<^verbatim>\<open>NewFromContracts\<close>: profiles first, then contracts, then the graph checks.\<close>

fun collect_profiles :: "(json \<Rightarrow> string) \<Rightarrow> (string \<times> ReleaseProfile) list \<Rightarrow> ReleaseProfile list
    \<Rightarrow> (error, (string \<times> ReleaseProfile) list) result" where
  "collect_profiles digest acc [] = Inr acc"
| "collect_profiles digest acc (profile # profiles) =
     (case profile_Validate profile of
        Some err \<Rightarrow> Inl err
      | None \<Rightarrow>
          if rp_Name profile \<in> fst ` set acc
          then Inl (NewReasonError ReasonInvalidProfile ''metadata.name'')
          else let hash = profile_Hash digest profile in
            if rp_ContentHash profile \<noteq> [] \<and> rp_ContentHash profile \<noteq> hash
            then Inl (NewReasonError ReasonInvalidProfile ''content_hash'')
            else collect_profiles digest (acc @ [(rp_Name profile, profile\<lparr>rp_ContentHash := hash\<rparr>)]) profiles)"

definition sortedCapabilities :: "Capability list \<Rightarrow> Capability list" where
  "sortedCapabilities values = sort values"

definition missingCapabilities :: "Capability list \<Rightarrow> Capability list \<Rightarrow> Capability list" where
  "missingCapabilities actual required =
     sortedCapabilities (filter (\<lambda>capability. capability \<notin> set actual) required)"

fun resolve_environments :: "(string \<times> ReleaseProfile) list \<Rightarrow> (string \<times> EnvironmentContract) list
    \<Rightarrow> (error, (Environment \<times> environmentDefinition) list) result" where
  "resolve_environments profiles [] = Inr []"
| "resolve_environments profiles ((name, environment) # rest) =
     (case map_of profiles (ec_ReleaseProfile environment) of
        None \<Rightarrow> Inl (NewReasonError ReasonUnknownProfile (''environments.'' @ name @ ''.releaseProfile''))
      | Some profile \<Rightarrow>
          if missingCapabilities (ec_Capabilities environment) (rp_RequiredCapabilities profile) \<noteq> []
          then Inl (NewReasonError ReasonMissingCapability (''environments.'' @ name @ ''.capabilities''))
          else (case resolve_environments profiles rest of
             Inl err \<Rightarrow> Inl err
           | Inr environments \<Rightarrow>
               Inr ((name, \<lparr>ed_profile = ec_ReleaseProfile environment,
                            ed_runnerGroup = ec_RunnerGroup environment\<rparr>) # environments)))"

definition enforced :: "Dependency \<Rightarrow> bool" where
  "enforced dependency \<longleftrightarrow> dep_Service dependency \<noteq> [] \<and> EnforcesRolloutOrder (dep_Type dependency)"

definition contract_service ::
  "ServiceContract \<Rightarrow> (Environment \<times> environmentDefinition) list \<Rightarrow> Service" where
  "contract_service contract environments =
     (let dependencies = sortedDependencies (sct_Dependencies contract); name = cm_Name (sct_Metadata contract) in
      \<lparr>svc_ID = name, svc_Name = name, svc_OwnerTeam = cm_Owner (sct_Metadata contract),
       svc_RiskTier = cm_RiskTier (sct_Metadata contract),
       svc_Repository = cm_Repository (sct_Metadata contract), svc_ReleasePhase = 0,
       svc_Dependencies = map dep_Service (filter enforced dependencies),
       svc_RunnerGroups = map (\<lambda>(e, d). (e, ed_runnerGroup d)) environments,
       svc_FailureDomains = map dep_Resource (filter (\<lambda>d. dep_Type d = DependencySharedFailureDomain \<and>
          dep_Resource d \<noteq> []) dependencies),
       svc_MetadataVersion = sct_APIVersion contract, svc_UpdatedAt = 0\<rparr>)"

fun collect_contracts :: "(json \<Rightarrow> string) \<Rightarrow> (string \<times> ReleaseProfile) list \<Rightarrow> (string \<times> serviceDefinition) list
    \<Rightarrow> ServiceContract list \<Rightarrow> (error, (string \<times> serviceDefinition) list) result" where
  "collect_contracts digest profiles acc [] = Inr acc"
| "collect_contracts digest profiles acc (contract # contracts) =
     (case contract_Validate contract of
        Some err \<Rightarrow> Inl err
      | None \<Rightarrow>
          if cm_Name (sct_Metadata contract) \<in> fst ` set acc
          then Inl (NewReasonError ReasonInvalidContract ''metadata.name'')
          else let hash = contract_Hash digest contract in
            if sct_ContentHash contract \<noteq> [] \<and> sct_ContentHash contract \<noteq> hash
            then Inl (NewReasonError ReasonInvalidContract ''content_hash'')
            else (case resolve_environments profiles (sct_Environments contract) of
               Inl err \<Rightarrow> Inl err
             | Inr environments \<Rightarrow>
                 collect_contracts digest profiles
                   (acc @ [(cm_Name (sct_Metadata contract),
                      \<lparr>sd_service = contract_service contract environments,
                       sd_dependencies = sortedDependencies (sct_Dependencies contract),
                       sd_environments = environments, sd_contractHash = hash\<rparr>)])
                   contracts))"

definition ordering_deps :: "(string \<times> serviceDefinition) list \<Rightarrow> string \<Rightarrow> string list" where
  "ordering_deps definitions name = (case map_of definitions name of
       None \<Rightarrow> []
     | Some definition \<Rightarrow> map dep_Service (filter enforced (sd_dependencies definition)))"

definition validateGlobalOrderingGraph ::
  "(string \<times> serviceDefinition) list \<Rightarrow> (error, string \<Rightarrow> int) result" where
  "validateGlobalOrderingGraph definitions =
     (let names = map fst definitions in
      case build_graph names (ordering_deps definitions) of (indegree, children) \<Rightarrow>
        case global_loop children (\<lambda>_. 0) indegree (initially_ready names indegree) 0 of
          (phases, processed) \<Rightarrow>
            if processed \<noteq> int (length definitions)
            then Inl (ReasonError ReasonDependencyCycle ''dependencies'' (Some ErrDependencyCycle))
            else Inr phases)"

definition set_phase :: "(string \<Rightarrow> int) \<Rightarrow> string \<times> serviceDefinition \<Rightarrow> string \<times> serviceDefinition" where
  "set_phase phases = (\<lambda>(name, definition).
     (name, definition\<lparr>sd_service := (sd_service definition)\<lparr>svc_ReleasePhase := phases name\<rparr>\<rparr>))"

definition unknown_dependency :: "(string \<times> serviceDefinition) list \<Rightarrow> bool" where
  "unknown_dependency definitions \<longleftrightarrow>
     (\<exists>(name, definition) \<in> set definitions. \<exists>dependency \<in> set (sd_dependencies definition).
        dep_Service dependency \<noteq> [] \<and> dep_Service dependency \<notin> fst ` set definitions)"

definition NewFromContracts :: "(json \<Rightarrow> string) \<Rightarrow> ServiceContract list \<Rightarrow> ReleaseProfile list \<Rightarrow> Options
    \<Rightarrow> (error, Planner) result" where
  "NewFromContracts digest contracts profiles options =
     (if contracts = [] then Inl (NewReasonError ReasonInvalidContract ''contracts'')
      else case collect_profiles digest [] profiles of
        Inl err \<Rightarrow> Inl err
      | Inr profileByName \<Rightarrow>
        (case collect_contracts digest profileByName [] contracts of
           Inl err \<Rightarrow> Inl err
         | Inr definitions \<Rightarrow>
           if unknown_dependency definitions
           then Inl (NewReasonError ReasonUnknownDependency ''services.%s.dependencies'')
           else (case validateGlobalOrderingGraph definitions of
             Inl err \<Rightarrow> Inl err
           | Inr phases \<Rightarrow>
               let final = map (set_phase phases) definitions in
               Inr (newPlanner digest (map (\<lambda>(name, d). (name, sd_service d)) final) final profileByName
                 (map (\<lambda>(name, d). (name, sd_contractHash d)) final)
                 (map (\<lambda>(name, p). (name, rp_ContentHash p)) profileByName) options))))"

definition Services :: "Planner \<Rightarrow> Service list" where
  "Services p = sort_key svc_Name (map snd (pn_services p))"

section \<open>Model: planning\<close>

definition IntentFromLegacy :: "ReleaseRequest \<Rightarrow> ReleaseIntent" where
  "IntentFromLegacy request = \<lparr>in_APIVersion = ReleaseIntentAPIVersion, in_Kind = ReleaseIntentKind,
     in_RequestID = rq_RequestID request, in_ReleaseVersion = rq_ReleaseVersion request,
     in_TenantID = rq_TenantID request, in_Environment = rq_Environment request,
     in_Region = rq_Region request, in_Cluster = rq_Cluster request,
     in_RequestedBy = rq_RequestedBy request, in_Agent = rq_Agent request,
     in_Changes = rq_Changes request\<rparr>"

definition LegacyRequestFromIntent :: "ReleaseIntent \<Rightarrow> ReleaseRequest" where
  "LegacyRequestFromIntent intent = \<lparr>rq_RequestID = in_RequestID intent,
     rq_ReleaseVersion = in_ReleaseVersion intent, rq_TenantID = in_TenantID intent,
     rq_Environment = in_Environment intent, rq_Region = in_Region intent, rq_Cluster = in_Cluster intent,
     rq_RequestedBy = in_RequestedBy intent, rq_Agent = in_Agent intent, rq_Changes = in_Changes intent\<rparr>"

definition normalizedValue :: "string \<Rightarrow> string \<Rightarrow> string" where
  "normalizedValue value fallback = (if value = [] then fallback else value)"

definition change_json :: "Change \<Rightarrow> json" where
  "change_json c = JObj (jstr ''service'' (ch_Service c) @ jstr ''desired_version'' (ch_DesiredVersion c)
     @ [(''ci_success'', JBool (ch_CISuccess c)), (''dependencies_healthy'', JBool (ch_DependenciesHealthy c))]
     @ (if ch_DestructiveMigration c then [(''destructive_migration'', JBool True)] else [])
     @ jstr_omit ''risk'' (ch_Risk c))"

definition scheduling_json :: "SchedulingContext \<Rightarrow> json" where
  "scheduling_json s = JObj (jstr ''tenant_id'' (sc_TenantID s) @ jstr ''environment'' (sc_Environment s)
     @ jstr ''region'' (sc_Region s) @ jstr ''cluster'' (sc_Cluster s) @ jstr ''team'' (sc_Team s)
     @ jstr ''risk_tier'' (sc_RiskTier s) @ jstr ''runner_group'' (sc_RunnerGroup s)
     @ jarr_omit ''failure_domains'' JStr (sc_FailureDomains s))"

definition plan_step_json :: "PlanStep \<Rightarrow> json" where
  "plan_step_json s = JObj (jstr ''service'' (ps_Service s) @ jstr ''desired_version'' (ps_DesiredVersion s)
     @ [(''phase'', JInt (ps_Phase s))] @ jstr_omit ''profile'' (ps_Profile s)
     @ jarr_omit ''dependencies'' dependency_json (ps_Dependencies s)
     @ jarr_omit ''required_capabilities'' JStr (ps_RequiredCapabilities s)
     @ jstr_omit ''contract_hash'' (ps_ContractHash s) @ jstr_omit ''profile_hash'' (ps_ProfileHash s)
     @ jstr_omit ''change_hash'' (ps_ChangeHash s)
     @ [(''verification_required'', JBool (ps_VerificationRequired s))]
     @ jstr_omit ''observation_window'' (ps_ObservationWindow s) @ jstr ''rollback_mode'' (ps_RollbackMode s)
     @ [(''scheduling'', scheduling_json (ps_Scheduling s))])"

definition plan_phase_json :: "PlanPhase \<Rightarrow> json" where
  "plan_phase_json p = JObj ([(''number'', JInt (pp_Number p))] @ jarr ''steps'' plan_step_json (pp_Steps p))"

definition plan_canonical :: "ReleasePlan \<Rightarrow> json" where
  "plan_canonical plan = JObj (jstr ''api_version'' (pl_APIVersion plan)
     @ jstr ''release_version'' (pl_ReleaseVersion plan) @ jstr ''environment'' (pl_Environment plan)
     @ jarr ''phases'' plan_phase_json (pl_Phases plan)
     @ [(''contract_hashes'', jmap JStr (pl_ContractHashes plan)),
        (''profile_hashes'', jmap JStr (pl_ProfileHashes plan))]
     @ jstr ''context_snapshot_ref'' (pl_ContextSnapshotRef plan) @ jstr ''policy_hash'' (pl_PolicyHash plan)
     @ jstr ''evidence_hash'' (pl_EvidenceHash plan))"

definition planHash :: "(json \<Rightarrow> string) \<Rightarrow> ReleasePlan \<Rightarrow> string" where
  "planHash digest plan = hashValue digest (plan_canonical plan)"

fun collect_changes :: "Planner \<Rightarrow> Environment \<Rightarrow> Change list \<Rightarrow> Change list \<Rightarrow> (error, Change list) result" where
  "collect_changes p environment acc [] = Inr acc"
| "collect_changes p environment acc (change # changes) =
     (case map_of (pn_definitions p) (ch_Service change) of
        None \<Rightarrow> Inl (Errorf ''unknown service %q'')
      | Some definition \<Rightarrow>
          if environment \<notin> fst ` set (sd_environments definition)
          then Inl (Errorf ''service %q does not declare environment %q'')
          else if ch_DesiredVersion change = [] then Inl (Errorf ''desired version is required for %q'')
          else if ch_Service change \<in> ch_Service ` set acc then Inl (Errorf ''duplicate change for %q'')
          else collect_changes p environment (acc @ [change]) changes)"

definition selected_deps :: "Planner \<Rightarrow> string list \<Rightarrow> string \<Rightarrow> string list" where
  "selected_deps p names name =
     filter (\<lambda>dependency. dependency \<in> set names) (ordering_deps (pn_definitions p) name)"

definition release_phase :: "Planner \<Rightarrow> string \<Rightarrow> int" where
  "release_phase p name = (case map_of (pn_definitions p) name of
       None \<Rightarrow> 0 | Some definition \<Rightarrow> svc_ReleasePhase (sd_service definition))"

definition plan_step :: "(json \<Rightarrow> string) \<Rightarrow> Planner \<Rightarrow> ReleaseIntent \<Rightarrow> (string \<Rightarrow> int) \<Rightarrow> Change \<Rightarrow> PlanStep" where
  "plan_step digest p intent phase change =
     (let definition = the (map_of (pn_definitions p) (ch_Service change));
          environment = the (map_of (sd_environments definition) (in_Environment intent));
          service = sd_service definition;
          step = \<lparr>ps_Service = ch_Service change, ps_DesiredVersion = ch_DesiredVersion change,
            ps_Phase = phase (ch_Service change), ps_Profile = ed_profile environment,
            ps_Dependencies = sortedDependencies (sd_dependencies definition), ps_RequiredCapabilities = [],
            ps_ContractHash = sd_contractHash definition,
            ps_ProfileHash = (case map_of (pn_profileHashes p) (ed_profile environment) of
               Some hash \<Rightarrow> hash | None \<Rightarrow> []),
            ps_ChangeHash = hashValue digest (change_json change),
            ps_VerificationRequired = True, ps_ObservationWindow = ''1m'', ps_RollbackMode = RollbackAutomatic,
            ps_Scheduling = \<lparr>sc_TenantID = normalizedValue (in_TenantID intent) ''default'',
               sc_Environment = in_Environment intent,
               sc_Region = normalizedValue (in_Region intent) ''global'',
               sc_Cluster = normalizedValue (in_Cluster intent) (ed_runnerGroup environment),
               sc_Team = svc_OwnerTeam service, sc_RiskTier = normalizedValue (svc_RiskTier service) ''medium'',
               sc_RunnerGroup = ed_runnerGroup environment, sc_FailureDomains = svc_FailureDomains service\<rparr>\<rparr>
      in case map_of (pn_profiles p) (ed_profile environment) of
           None \<Rightarrow> step
         | Some profile \<Rightarrow> step\<lparr>
             ps_RequiredCapabilities := sortedCapabilities (rp_RequiredCapabilities profile),
             ps_VerificationRequired := rp_VerificationRequired profile,
             ps_ObservationWindow := rp_ObservationWindow profile,
             ps_RollbackMode := rp_RollbackMode profile\<rparr>)"

text \<open>The steps grouped by phase: phases in ascending order, steps of a phase by service.\<close>

definition group_phases :: "PlanStep list \<Rightarrow> PlanPhase list" where
  "group_phases steps =
     map (\<lambda>number. \<lparr>pp_Number = number,
            pp_Steps = sort_key ps_Service (filter (\<lambda>step. ps_Phase step = number) steps)\<rparr>)
       (sort (remdups (map ps_Phase steps)))"

definition seal_plan :: "(json \<Rightarrow> string) \<Rightarrow> ReleasePlan \<Rightarrow> ReleasePlan" where
  "seal_plan digest plan =
     (let hash = planHash digest plan
      in plan\<lparr>pl_Hash := hash, pl_PlanHash := hash, pl_ID := ''plan_'' @ take 24 (drop 7 hash)\<rparr>)"

text \<open>\<^verbatim>\<open>PlanIntent\<close> in two parts: the checks of the request, and the plan of the selected changes.\<close>

definition plan_selected :: "(json \<Rightarrow> string) \<Rightarrow> Planner \<Rightarrow> time \<Rightarrow> ReleaseIntent \<Rightarrow> Change list
    \<Rightarrow> (error, ReleasePlan) result" where
  "plan_selected digest p now intent changes =
     (let names = map ch_Service changes in
      case build_graph names (selected_deps p names) of (indegree, children) \<Rightarrow>
      case plan_loop children (release_phase p) indegree (sort (initially_ready names indegree)) 0 of
        (phase, processed) \<Rightarrow>
          if processed \<noteq> int (length changes)
          then Inl (ReasonError ReasonDependencyCycle ''changes'' (Some ErrDependencyCycle))
          else Inr (seal_plan digest \<lparr>pl_APIVersion = APIVersion, pl_ID = [],
                 pl_ReleaseVersion = in_ReleaseVersion intent, pl_Environment = in_Environment intent,
                 pl_Phases = group_phases (map (plan_step digest p intent phase) changes),
                 pl_Hash = [], pl_PlanHash = [], pl_ContractHashes = pn_contractHashes p,
                 pl_ProfileHashes = pn_profileHashes p, pl_ContextSnapshotRef = pn_contextSnapshotRef p,
                 pl_PolicyHash = pn_policyHash p, pl_EvidenceHash = pn_evidenceHash p,
                 pl_CreatedAt = now, pl_ExpiresAt = now + pn_planTTL p\<rparr>))"

definition PlanIntent :: "(json \<Rightarrow> string) \<Rightarrow> Planner \<Rightarrow> time \<Rightarrow> ReleaseIntent \<Rightarrow> (error, ReleasePlan) result" where
  "PlanIntent digest p now intent =
     (if in_APIVersion intent \<noteq> ReleaseIntentAPIVersion
      then Inl (NewReasonError ReasonUnsupportedSchemaVersion ''api_version'')
      else if in_Kind intent \<noteq> ReleaseIntentKind then Inl (Errorf ''unsupported intent kind %q'')
      else if in_Changes intent = [] then Inl ErrNoChanges
      else if in_Environment intent \<noteq> EnvironmentStaging \<and> in_Environment intent \<noteq> EnvironmentProduction
      then Inl (Errorf ''unsupported environment %q'')
      else case collect_changes p (in_Environment intent) [] (in_Changes intent) of
        Inl err \<Rightarrow> Inl err
      | Inr changes \<Rightarrow> plan_selected digest p now intent changes)"

definition Plan :: "(json \<Rightarrow> string) \<Rightarrow> Planner \<Rightarrow> time \<Rightarrow> ReleaseRequest \<Rightarrow> (error, ReleasePlan) result" where
  "Plan digest p now request = PlanIntent digest p now (IntentFromLegacy request)"

text \<open>\<^verbatim>\<open>maps.Equal\<close>: the same number of entries, and every entry of the first is in the second.\<close>

definition maps_Equal :: "(string \<times> string) list \<Rightarrow> (string \<times> string) list \<Rightarrow> bool" where
  "maps_Equal m m' \<longleftrightarrow> length m = length m' \<and> list_all (\<lambda>(k, v). map_of m' k = Some v) m"

definition ValidatePlan :: "(json \<Rightarrow> string) \<Rightarrow> Planner \<Rightarrow> ReleasePlan \<Rightarrow> time \<Rightarrow> error option" where
  "ValidatePlan digest p plan now =
     (if pl_PlanHash plan = [] \<or> pl_Hash plan = [] \<or> pl_PlanHash plan \<noteq> pl_Hash plan \<or>
         pl_PlanHash plan \<noteq> planHash digest plan
      then Some (NewReasonError ReasonPlanHashMismatch ''plan_hash'')
      else if pl_ExpiresAt plan = 0 \<or> \<not> now < pl_ExpiresAt plan
      then Some (NewReasonError ReasonPlanExpired ''expires_at'')
      else if \<not> maps_Equal (pl_ContractHashes plan) (pn_contractHashes p)
      then Some (NewReasonError ReasonContractChanged ''contract_hashes'')
      else if \<not> maps_Equal (pl_ProfileHashes plan) (pn_profileHashes p)
      then Some (NewReasonError ReasonProfileChanged ''profile_hashes'')
      else if pl_ContextSnapshotRef plan \<noteq> pn_contextSnapshotRef p
      then Some (NewReasonError ReasonContextChanged ''context_snapshot_ref'')
      else if pl_PolicyHash plan \<noteq> pn_policyHash p
      then Some (NewReasonError ReasonPolicyChanged ''policy_hash'')
      else if pl_EvidenceHash plan \<noteq> pn_evidenceHash p
      then Some (NewReasonError ReasonEvidenceChanged ''evidence_hash'')
      else None)"

section \<open>Inversion of the planning steps\<close>

lemma collect_changes_Inr:
  "distinct (map ch_Service acc) \<Longrightarrow> collect_changes p env acc cs = Inr out \<longleftrightarrow>
     out = acc @ cs \<and> distinct (map ch_Service (acc @ cs)) \<and>
     (\<forall>c \<in> set cs. ch_DesiredVersion c \<noteq> [] \<and>
        (\<exists>d. map_of (pn_definitions p) (ch_Service c) = Some d \<and> env \<in> fst ` set (sd_environments d)))"
proof (induction p env acc cs rule: collect_changes.induct)
  case (2 p env acc c cs)
  show ?case
  proof (cases "map_of (pn_definitions p) (ch_Service c)")
    case (Some d)
    show ?thesis
    proof (cases "env \<notin> fst ` set (sd_environments d) \<or> ch_DesiredVersion c = [] \<or> ch_Service c \<in> ch_Service ` set acc")
      case False
      then have "distinct (map ch_Service (acc @ [c]))" using 2(2) by auto
      with 2(1)[OF Some] False Some show ?thesis by auto
    qed (use Some in auto)
  qed auto
qed auto

definition changes_ok :: "Planner \<Rightarrow> ReleaseIntent \<Rightarrow> bool" where
  "changes_ok p intent \<longleftrightarrow> distinct (map ch_Service (in_Changes intent)) \<and>
     (\<forall>c \<in> set (in_Changes intent). ch_DesiredVersion c \<noteq> [] \<and>
        (\<exists>d. map_of (pn_definitions p) (ch_Service c) = Some d \<and>
             in_Environment intent \<in> fst ` set (sd_environments d)))"

definition header_ok :: "ReleaseIntent \<Rightarrow> bool" where
  "header_ok intent \<longleftrightarrow> in_APIVersion intent = ReleaseIntentAPIVersion \<and> in_Kind intent = ReleaseIntentKind \<and>
     in_Changes intent \<noteq> [] \<and> in_Environment intent \<in> {EnvironmentStaging, EnvironmentProduction}"

definition names_of :: "ReleaseIntent \<Rightarrow> string list" where
  "names_of intent = map ch_Service (in_Changes intent)"

definition rankable :: "Planner \<Rightarrow> string list \<Rightarrow> bool" where
  "rankable p names \<longleftrightarrow> (\<exists>rank :: string \<Rightarrow> int. \<forall>n \<in> set names. \<forall>d \<in> set (selected_deps p names n). rank d < rank n)"

text \<open>The phases a successful planning run computes.\<close>

definition phases_ok :: "Planner \<Rightarrow> string list \<Rightarrow> (string \<Rightarrow> int) \<Rightarrow> bool" where
  "phases_ok p names phase \<longleftrightarrow>
     (\<forall>n \<in> set names. phase n = phase_of (release_phase p) phase (set (selected_deps p names n)) n)"

definition unsealed_plan :: "(json \<Rightarrow> string) \<Rightarrow> Planner \<Rightarrow> time \<Rightarrow> ReleaseIntent \<Rightarrow> (string \<Rightarrow> int) \<Rightarrow> ReleasePlan" where
  "unsealed_plan digest p now intent phase = \<lparr>pl_APIVersion = APIVersion, pl_ID = [],
     pl_ReleaseVersion = in_ReleaseVersion intent, pl_Environment = in_Environment intent,
     pl_Phases = group_phases (map (plan_step digest p intent phase) (in_Changes intent)),
     pl_Hash = [], pl_PlanHash = [], pl_ContractHashes = pn_contractHashes p,
     pl_ProfileHashes = pn_profileHashes p, pl_ContextSnapshotRef = pn_contextSnapshotRef p,
     pl_PolicyHash = pn_policyHash p, pl_EvidenceHash = pn_evidenceHash p,
     pl_CreatedAt = now, pl_ExpiresAt = now + pn_planTTL p\<rparr>"

lemma plan_pass:
  assumes "distinct names" and "build_graph names (selected_deps p names) = (indegree, children)"
    and "plan_loop children (release_phase p) indegree (sort (initially_ready names indegree)) 0 = (phase, processed)"
  shows "processed = int (length names) \<longleftrightarrow> rankable p names"
    and "processed = int (length names) \<Longrightarrow> phases_ok p names phase"
proof -
  have clo: "\<forall>n \<in> set names. set (selected_deps p names n) \<subseteq> set names" by (auto simp: selected_deps_def)
  note g = build_graph_of[OF assms(2,1) clo]
  have rdy: "set (sort (initially_ready names indegree)) = {n \<in> set names. indegree n = 0}"
      "distinct (sort (initially_ready names indegree))"
    using g(3,4) by simp_all
  have card: "card (set names) = length names" using assms(1) by (rule distinct_card)
  note pass = plan.pass_complete_iff_ranked[OF g(1,2) rdy assms(3)]
  show "processed = int (length names) \<longleftrightarrow> rankable p names"
    using pass(1) card by (simp add: rankable_def)
  show "processed = int (length names) \<Longrightarrow> phases_ok p names phase"
    using pass(2) card by (simp add: phases_ok_def)
qed

lemma PlanIntent_cases:
  obtains (malformed) err where "\<not> (header_ok intent \<and> changes_ok p intent)" "PlanIntent digest p now intent = Inl err"
  | (cyclic) "header_ok intent" "changes_ok p intent" "\<not> rankable p (names_of intent)"
      "PlanIntent digest p now intent = Inl (ReasonError ReasonDependencyCycle ''changes'' (Some ErrDependencyCycle))"
  | (planned) phase where "header_ok intent" "changes_ok p intent" "rankable p (names_of intent)"
      "phases_ok p (names_of intent) phase"
      "PlanIntent digest p now intent = Inr (seal_plan digest (unsealed_plan digest p now intent phase))"
proof (cases "header_ok intent \<and> changes_ok p intent")
  case False
  have "\<exists>err. PlanIntent digest p now intent = Inl err"
  proof (cases "header_ok intent")
    case True
    have "\<not> changes_ok p intent" using True False by simp
    then have "collect_changes p (in_Environment intent) [] (in_Changes intent) \<noteq> Inr out" for out
      unfolding changes_ok_def
      using collect_changes_Inr[of "[]" p "in_Environment intent" "in_Changes intent" out] by simp
    then have "\<exists>err. collect_changes p (in_Environment intent) [] (in_Changes intent) = Inl err"
      by (meson sum.exhaust_sel)
    then show ?thesis using True unfolding PlanIntent_def header_ok_def by fastforce
  next
    case False
    then show ?thesis unfolding PlanIntent_def header_ok_def by auto
  qed
  then show thesis using malformed False by blast
next
  case True
  then have c: "collect_changes p (in_Environment intent) [] (in_Changes intent) = Inr (in_Changes intent)"
    using collect_changes_Inr[of "[]" p "in_Environment intent" "in_Changes intent"] by (simp add: changes_ok_def)
  have d: "distinct (names_of intent)" using True by (simp add: changes_ok_def names_of_def)
  obtain indegree children where g: "build_graph (names_of intent) (selected_deps p (names_of intent)) = (indegree, children)"
    by fastforce
  obtain phase processed where l: "plan_loop children (release_phase p) indegree
      (sort (initially_ready (names_of intent) indegree)) 0 = (phase, processed)" by fastforce
  note pass = plan_pass[OF d g l]
  have sel: "PlanIntent digest p now intent = plan_selected digest p now intent (in_Changes intent)"
    using True c unfolding PlanIntent_def header_ok_def by auto
  show thesis
  proof (cases "processed = int (length (names_of intent))")
    case all: True
    have "plan_selected digest p now intent (in_Changes intent) =
        Inr (seal_plan digest (unsealed_plan digest p now intent phase))"
      using all g l by (simp add: plan_selected_def unsealed_plan_def names_of_def)
    then show thesis using planned[of phase] True pass all sel by simp
  next
    case False
    have "plan_selected digest p now intent (in_Changes intent) =
        Inl (ReasonError ReasonDependencyCycle ''changes'' (Some ErrDependencyCycle))"
      using False g l by (simp add: plan_selected_def names_of_def)
    then show thesis using cyclic True pass False sel by simp
  qed
qed

section \<open>Phases and steps of a plan\<close>

lemma plan_step_sel [simp]:
  "ps_Service (plan_step digest p intent phase c) = ch_Service c"
  "ps_DesiredVersion (plan_step digest p intent phase c) = ch_DesiredVersion c"
  "ps_Phase (plan_step digest p intent phase c) = phase (ch_Service c)"
  "ps_ChangeHash (plan_step digest p intent phase c) = hashValue digest (change_json c)"
  "ps_Dependencies (plan_step digest p intent phase c) =
     sortedDependencies (sd_dependencies (the (map_of (pn_definitions p) (ch_Service c))))"
  by (simp_all add: plan_step_def Let_def split: option.splits)

lemma mset_concat_groups:
  "distinct ns \<Longrightarrow> mset (concat (map (\<lambda>n. sort_key k (filter (\<lambda>x. f x = n) xs)) ns)) =
     mset (filter (\<lambda>x. f x \<in> set ns) xs)"
proof (induction ns)
  case (Cons n ns)
  have "mset (filter (\<lambda>x. f x \<in> set (n # ns)) xs) =
      mset (filter (\<lambda>x. f x = n) xs) + mset (filter (\<lambda>x. f x \<in> set ns) xs)"
    using Cons.prems by (induction xs) auto
  then show ?case using Cons by simp
qed simp

lemma group_phases_mset: "mset (concat (map pp_Steps (group_phases steps))) = mset steps"
proof -
  have "filter (\<lambda>s. ps_Phase s \<in> set (sort (remdups (map ps_Phase steps)))) steps = steps"
    by (rule filter_True) simp
  then show ?thesis
    using mset_concat_groups[of "sort (remdups (map ps_Phase steps))" ps_Service ps_Phase steps]
    by (simp add: group_phases_def comp_def)
qed

lemma group_phases_numbers: "sorted_wrt (<) (map pp_Number (group_phases steps))"
proof -
  have "map pp_Number (group_phases steps) = sort (remdups (map ps_Phase steps))"
    by (simp add: group_phases_def comp_def)
  then show ?thesis by (simp add: strict_sorted_iff)
qed

lemma group_phases_member:
  assumes "ph \<in> set (group_phases steps)"
  shows "pp_Steps ph \<noteq> []" and "s \<in> set (pp_Steps ph) \<Longrightarrow> s \<in> set steps \<and> ps_Phase s = pp_Number ph"
  using assms by (auto simp: group_phases_def filter_empty_conv simp flip: set_empty)

lemma group_phases_perm:
  assumes "mset steps = mset steps'" and "distinct (map ps_Service steps)"
  shows "group_phases steps = group_phases steps'"
proof -
  have "set (map ps_Phase steps) = set (map ps_Phase steps')" using mset_eq_setD[OF assms(1)] by simp
  then have "sort (remdups (map ps_Phase steps)) = sort (remdups (map ps_Phase steps'))"
    unfolding sort_eq_iff by (rule set_eq_iff_mset_remdups_eq[THEN iffD1])
  moreover have "sort_key ps_Service (filter P steps) = sort_key ps_Service (filter P steps')" for P
    using assms by (intro sort_key_mset_inj) (auto simp: distinct_map inj_on_def mset_filter)
  ultimately show ?thesis by (simp add: group_phases_def)
qed

lemma seal_plan_sel [simp]:
  "pl_Phases (seal_plan digest plan) = pl_Phases plan" "pl_ExpiresAt (seal_plan digest plan) = pl_ExpiresAt plan"
  "pl_ContractHashes (seal_plan digest plan) = pl_ContractHashes plan"
  "pl_ProfileHashes (seal_plan digest plan) = pl_ProfileHashes plan"
  "pl_ContextSnapshotRef (seal_plan digest plan) = pl_ContextSnapshotRef plan"
  "pl_PolicyHash (seal_plan digest plan) = pl_PolicyHash plan"
  "pl_EvidenceHash (seal_plan digest plan) = pl_EvidenceHash plan"
  "pl_Hash (seal_plan digest plan) = planHash digest plan"
  "pl_PlanHash (seal_plan digest plan) = planHash digest plan"
  "planHash digest (seal_plan digest plan) = planHash digest plan"
  by (simp_all add: seal_plan_def Let_def planHash_def plan_canonical_def)

lemma PlanIntent_Inr:
  assumes "PlanIntent digest p now intent = Inr plan"
  obtains phase where "header_ok intent" "changes_ok p intent" "phases_ok p (names_of intent) phase"
    "plan = seal_plan digest (unsealed_plan digest p now intent phase)"
  using assms by (cases rule: PlanIntent_cases[of intent p digest now]) auto

text \<open>
  A plan contains exactly the requested changes: every change of the intent becomes one step,
  with its version and the hash of the change, in phases of strictly increasing number, none empty,
  each step lying in the phase it names.
\<close>

theorem plan_covers_changes:
  assumes "PlanIntent digest p now intent = Inr plan"
  shows "mset (map (\<lambda>s. (ps_Service s, ps_DesiredVersion s, ps_ChangeHash s)) (concat (map pp_Steps (pl_Phases plan)))) =
         mset (map (\<lambda>c. (ch_Service c, ch_DesiredVersion c, hashValue digest (change_json c))) (in_Changes intent)) \<and>
         sorted_wrt (<) (map pp_Number (pl_Phases plan)) \<and>
         (\<forall>ph \<in> set (pl_Phases plan). pp_Steps ph \<noteq> [] \<and> (\<forall>s \<in> set (pp_Steps ph). ps_Phase s = pp_Number ph))"
proof -
  obtain phase where plan: "plan = seal_plan digest (unsealed_plan digest p now intent phase)"
    using PlanIntent_Inr[OF assms] by metis
  let ?steps = "map (plan_step digest p intent phase) (in_Changes intent)"
  have ph: "pl_Phases plan = group_phases ?steps" by (simp add: plan unsealed_plan_def)
  show ?thesis
    unfolding ph mset_map group_phases_mset
    using group_phases_numbers group_phases_member by (auto simp: multiset.map_comp comp_def)
qed


text \<open>
  Planning is deterministic: reordering the changes of an intent, or the iteration orders of
  the maps built from them, gives the same plan with the same hash.
\<close>

theorem plan_order_irrelevant:
  assumes "PlanIntent digest p now intent = Inr plan" and "mset changes = mset (in_Changes intent)"
  shows "PlanIntent digest p now (intent\<lparr>in_Changes := changes\<rparr>) = Inr plan"
proof -
  obtain phase where ok: "header_ok intent" "changes_ok p intent" "phases_ok p (names_of intent) phase"
    and plan: "plan = seal_plan digest (unsealed_plan digest p now intent phase)"
    using PlanIntent_Inr[OF assms(1)] by metis
  let ?i = "intent\<lparr>in_Changes := changes\<rparr>"
  have set_eq: "set changes = set (in_Changes intent)" using mset_eq_setD[OF assms(2)] .
  have names: "set (names_of ?i) = set (names_of intent)" using set_eq by (simp add: names_of_def)
  have sel: "selected_deps p (names_of ?i) = selected_deps p (names_of intent)"
    using names by (simp add: selected_deps_def fun_eq_iff)
  have "mset (names_of ?i) = mset (names_of intent)" using assms(2) by (simp add: names_of_def)
  then have dist: "distinct (names_of ?i) \<longleftrightarrow> distinct (names_of intent)" by (rule mset_eq_imp_distinct_iff)
  have "header_ok ?i" using ok(1) set_eq by (auto simp: header_ok_def simp flip: set_empty)
  moreover have "changes_ok p ?i" using ok(2) set_eq dist by (auto simp: changes_ok_def names_of_def)
  moreover have "rankable p (names_of ?i)"
  proof -
    have "rankable p (names_of intent)"
      using ok(3) phase_of_less[of "set (selected_deps p (names_of intent) _)"]
      by (auto simp: rankable_def phases_ok_def intro!: exI[of _ phase])
    then show ?thesis by (simp add: rankable_def names sel)
  qed
  ultimately obtain phase' where p': "phases_ok p (names_of ?i) phase'"
    "PlanIntent digest p now ?i = Inr (seal_plan digest (unsealed_plan digest p now ?i phase'))"
    by (cases rule: PlanIntent_cases[of ?i p digest now]) auto
  have same: "phase' n = phase n" if "n \<in> set (names_of intent)" for n
    by (rule phase_unique[of "set (names_of intent)" "selected_deps p (names_of intent)" phase' "release_phase p" phase])
       (use p'(1) ok(3) that in \<open>auto simp: phases_ok_def names sel selected_deps_def\<close>)
  have step: "plan_step digest p ?i phase' c = plan_step digest p intent phase c" if "c \<in> set changes" for c
    using same[of "ch_Service c"] that set_eq by (simp add: plan_step_def names_of_def Let_def)
  have "mset (map (plan_step digest p ?i phase') changes) = mset (map (plan_step digest p intent phase) (in_Changes intent))"
    using step assms(2) by (metis (no_types, lifting) map_cong mset_map)
  moreover have "distinct (map ps_Service (map (plan_step digest p ?i phase') changes))"
    using \<open>changes_ok p ?i\<close> by (simp add: changes_ok_def comp_def)
  ultimately have "group_phases (map (plan_step digest p ?i phase') changes) =
      group_phases (map (plan_step digest p intent phase) (in_Changes intent))"
    by (intro group_phases_perm)
  then show ?thesis using p'(2) plan by (simp add: unsealed_plan_def)
qed

section \<open>Planners built from contracts\<close>

lemma collect_contracts_Inr:
  "collect_contracts digest profiles acc cs = Inr out \<Longrightarrow> distinct (map fst acc) \<Longrightarrow>
     distinct (map fst out) \<and> length out = length acc + length cs"
  by (induction digest profiles acc cs rule: collect_contracts.induct)
     (auto simp: Let_def split: option.splits if_splits sum.splits)

lemma map_of_set_phase:
  "map_of (map (set_phase phases) defs) n =
     map_option (\<lambda>d. d\<lparr>sd_service := (sd_service d)\<lparr>svc_ReleasePhase := phases n\<rparr>\<rparr>) (map_of defs n)"
  by (induction defs) (auto simp: set_phase_def)

lemma ordering_deps_set_phase: "ordering_deps (map (set_phase phases) defs) = ordering_deps defs"
proof
  show "ordering_deps (map (set_phase phases) defs) n = ordering_deps defs n" for n
    by (cases "map_of defs n") (simp_all add: ordering_deps_def map_of_set_phase)
qed

lemma known_dependencies:
  assumes "\<not> unknown_dependency defs" and "n \<in> set (map fst defs)"
  shows "set (ordering_deps defs n) \<subseteq> set (map fst defs)"
proof
  fix d assume "d \<in> set (ordering_deps defs n)"
  then obtain def dep where def: "map_of defs n = Some def" "dep \<in> set (sd_dependencies def)" "enforced dep"
      "d = dep_Service dep"
    by (cases "map_of defs n") (auto simp: ordering_deps_def)
  from assms(1) have "\<forall>(name, definition) \<in> set defs. \<forall>dependency \<in> set (sd_dependencies definition).
      dep_Service dependency = [] \<or> dep_Service dependency \<in> fst ` set defs"
    unfolding unknown_dependency_def by blast
  with map_of_SomeD[OF def(1)] def(2-4) show "d \<in> set (map fst defs)" by (auto simp: enforced_def)
qed

lemma global_pass:
  assumes "distinct (map fst defs)" and "\<not> unknown_dependency defs"
  shows "(\<exists>phases. validateGlobalOrderingGraph defs = Inr phases) \<longleftrightarrow>
           (\<exists>rank :: string \<Rightarrow> int. \<forall>n \<in> set (map fst defs). \<forall>d \<in> set (ordering_deps defs n). rank d < rank n)"
    and "validateGlobalOrderingGraph defs = Inr phases \<Longrightarrow> n \<in> set (map fst defs) \<Longrightarrow>
           phases n = phase_of (\<lambda>_. 0) phases (set (ordering_deps defs n)) n"
proof -
  let ?names = "map fst defs" and ?deps = "ordering_deps defs"
  obtain indegree children where g: "build_graph ?names ?deps = (indegree, children)" by fastforce
  obtain phases' processed where l: "global_loop children (\<lambda>_. 0) indegree (initially_ready ?names indegree) 0
      = (phases', processed)" by fastforce
  have clo: "\<forall>n \<in> set ?names. set (?deps n) \<subseteq> set ?names"
    using known_dependencies[OF assms(2)] by blast
  note gr = build_graph_of[OF g assms(1) clo]
  note pass = global.pass_complete_iff_ranked[OF gr l]
  have card: "card (set ?names) = length defs" using distinct_card[OF assms(1)] by simp
  have res: "validateGlobalOrderingGraph defs = (if processed \<noteq> int (length defs)
      then Inl (ReasonError ReasonDependencyCycle ''dependencies'' (Some ErrDependencyCycle)) else Inr phases')"
    using g l by (simp add: validateGlobalOrderingGraph_def)
  show "(\<exists>phases. validateGlobalOrderingGraph defs = Inr phases) \<longleftrightarrow>
      (\<exists>rank :: string \<Rightarrow> int. \<forall>n \<in> set ?names. \<forall>d \<in> set (?deps n). rank d < rank n)"
    using pass(1) card res by (auto split: if_splits)
  show "phases n = phase_of (\<lambda>_. 0) phases (set (?deps n)) n"
    if "validateGlobalOrderingGraph defs = Inr phases" "n \<in> set ?names"
    using pass(2)[OF _ that(2)] that(1) card res by (auto split: if_splits)
qed

lemma NewFromContracts_Inr:
  assumes "NewFromContracts digest contracts profiles options = Inr p"
  obtains defs phases where "distinct (map fst defs)" "\<not> unknown_dependency defs"
    "validateGlobalOrderingGraph defs = Inr phases" "pn_definitions p = map (set_phase phases) defs"
    "0 < pn_planTTL p"
proof -
  obtain profs where "collect_profiles digest [] profiles = Inr profs"
    using assms by (auto simp: NewFromContracts_def split: if_splits sum.splits)
  moreover from this obtain defs where d: "collect_contracts digest profs [] contracts = Inr defs"
    using assms by (auto simp: NewFromContracts_def split: if_splits sum.splits)
  ultimately obtain phases where "\<not> unknown_dependency defs" "validateGlobalOrderingGraph defs = Inr phases"
    "p = newPlanner digest (map (\<lambda>(name, d). (name, sd_service d)) (map (set_phase phases) defs))
       (map (set_phase phases) defs) profs
       (map (\<lambda>(name, d). (name, sd_contractHash d)) (map (set_phase phases) defs))
       (map (\<lambda>(name, p). (name, rp_ContentHash p)) profs) options"
    using assms by (auto simp: NewFromContracts_def Let_def split: if_splits sum.splits)
  moreover have "distinct (map fst defs)" using collect_contracts_Inr[OF d] by simp
  ultimately show thesis using that by (simp add: newPlanner_def Let_def)
qed

text \<open>
  C20.  A catalog of contracts that was accepted can plan every well-formed request: the planner
  returns a plan exactly when the header of the intent is supported and every change names, once, a
  known service that declares the environment, with a version.  A dependency cycle is never reported.
\<close>

theorem contract_planner_plans_iff_wellformed:
  assumes "NewFromContracts digest contracts profiles options = Inr p"
  shows "(\<exists>plan. PlanIntent digest p now intent = Inr plan) \<longleftrightarrow> header_ok intent \<and> changes_ok p intent"
proof -
  obtain defs phases where d: "distinct (map fst defs)" "\<not> unknown_dependency defs"
    "validateGlobalOrderingGraph defs = Inr phases" "pn_definitions p = map (set_phase phases) defs"
    using NewFromContracts_Inr[OF assms] by metis
  then obtain rank :: "string \<Rightarrow> int" where
    r: "\<And>n d. n \<in> set (map fst defs) \<Longrightarrow> d \<in> set (ordering_deps defs n) \<Longrightarrow> rank d < rank n"
    using global_pass(1)[OF d(1,2)] by blast
  have "rankable p names" for names
    unfolding rankable_def
  proof (intro exI ballI)
    fix n dep assume dep: "dep \<in> set (selected_deps p names n)"
    then have "dep \<in> set (ordering_deps defs n)"
      using d(4) ordering_deps_set_phase by (simp add: selected_deps_def)
    moreover from this have "map_of defs n \<noteq> None"
      by (cases "map_of defs n") (simp_all add: ordering_deps_def)
    then have "n \<in> set (map fst defs)" by (simp add: map_of_eq_None_iff)
    ultimately show "rank dep < rank n" by (intro r)
  qed
  then show ?thesis by (cases rule: PlanIntent_cases[of intent p digest now]) auto
qed

text \<open>
  The release phase that the catalog gives a service is the length of the longest chain of
  enforced dependencies below it: 0 without any, otherwise one more than the largest phase among
  the services it depends on.
\<close>

theorem catalog_phase_is_longest_chain:
  assumes "NewFromContracts digest contracts profiles options = Inr p"
    and "map_of (pn_definitions p) name = Some definition"
  shows "svc_ReleasePhase (sd_service definition) =
           (let deps = set (ordering_deps (pn_definitions p) name)
            in if deps = {} then 0 else 1 + Max (release_phase p ` deps))"
proof -
  obtain defs phases where d: "distinct (map fst defs)" "\<not> unknown_dependency defs"
    "validateGlobalOrderingGraph defs = Inr phases" "pn_definitions p = map (set_phase phases) defs"
    using NewFromContracts_Inr[OF assms(1)] by metis
  have phase: "release_phase p n = phases n" if "n \<in> set (map fst defs)" for n
  proof (cases "map_of defs n")
    case None
    then show ?thesis using that by (simp add: map_of_eq_None_iff)
  next
    case (Some x)
    then show ?thesis by (simp add: release_phase_def d(4) map_of_set_phase)
  qed
  let ?deps = "set (ordering_deps defs name)"
  have known: "name \<in> set (map fst defs)"
    using map_of_SomeD[OF assms(2)] d(4) by (force simp: set_phase_def)
  then have sub: "?deps \<subseteq> set (map fst defs)" by (rule known_dependencies[OF d(2)])
  have "0 \<le> phases n" if "n \<in> set (map fst defs)" for n
    using global_pass(2)[OF d(1-3) that] by (simp add: phase_of_def)
  then have nonneg: "0 \<le> release_phase p n" if "n \<in> ?deps" for n using phase that sub by (metis subsetD)
  have "svc_ReleasePhase (sd_service definition) = release_phase p name"
    using assms(2) by (simp add: release_phase_def)
  also have "\<dots> = phase_of (\<lambda>_. 0) phases ?deps name"
    using global_pass(2)[OF d(1-3) known] phase[OF known] by simp
  also have "\<dots> = phase_of (\<lambda>_. 0) (release_phase p) ?deps name"
    by (rule phase_of_cong) (use phase sub in force)
  also have "\<dots> = (if ?deps = {} then 0 else 1 + Max (release_phase p ` ?deps))"
  proof (cases "?deps = {}")
    case False
    have "Max ((\<lambda>d. release_phase p d + 1) ` ?deps) = Max (release_phase p ` ?deps) + 1"
      using False Max_add_commute[of ?deps "release_phase p" 1] by simp
    moreover have "0 \<le> Max (release_phase p ` ?deps)"
      using False nonneg by (metis Max_ge List.finite_set finite_imageI image_eqI ex_in_conv order_trans)
    ultimately show ?thesis using False by (simp add: phase_of_def)
  qed (simp add: phase_of_def)
  finally show ?thesis by (simp add: d(4) ordering_deps_set_phase Let_def)
qed

section \<open>Validation of stored plans\<close>

lemma maps_Equal_refl: "distinct (map fst m) \<Longrightarrow> maps_Equal m m"
  by (auto simp: maps_Equal_def list_all_iff)

lemma maps_Equal_iff:
  "distinct (map fst m) \<Longrightarrow> distinct (map fst m') \<Longrightarrow> maps_Equal m m' \<longleftrightarrow> map_of m = map_of m'"
proof
  assume d: "distinct (map fst m)" "distinct (map fst m')" and "maps_Equal m m'"
  then have len: "length m = length m'" and sub: "set m \<subseteq> set m'"
    by (auto simp: maps_Equal_def list_all_iff dest: map_of_SomeD)
  have "card (set m) = card (set m')" using d len by (simp add: distinct_card distinct_map)
  then have "set m = set m'" using sub card_subset_eq[of "set m'" "set m"] by simp
  then show "map_of m = map_of m'" using d by (simp add: map_of_inject_set)
next
  assume d: "distinct (map fst m)" "distinct (map fst m')" and eq: "map_of m = map_of m'"
  then have s: "set m = set m'" by (simp add: map_of_inject_set)
  then have "length m = length m'" using d by (metis distinct_card distinct_map)
  then show "maps_Equal m m'" using d s by (auto simp: maps_Equal_def list_all_iff)
qed

definition planner_wf :: "Planner \<Rightarrow> bool" where
  "planner_wf p \<longleftrightarrow> distinct (map fst (pn_contractHashes p)) \<and> distinct (map fst (pn_profileHashes p))"

text \<open>
  A plan is accepted by the planner that made it until it expires: between the moment it was
  made and the end of its lifetime \<^const>\<open>ValidatePlan\<close> reports nothing, and from then on it reports
  that the plan expired.
\<close>

theorem fresh_plan_validates:
  assumes "PlanIntent digest p now intent = Inr plan" and "planner_wf p" and "0 < now + pn_planTTL p"
  shows "ValidatePlan digest p plan t =
           (if t < now + pn_planTTL p then None else Some (NewReasonError ReasonPlanExpired ''expires_at''))"
proof -
  obtain phase where plan: "plan = seal_plan digest (unsealed_plan digest p now intent phase)"
    using PlanIntent_Inr[OF assms(1)] by metis
  have "planHash digest x \<noteq> []" for x by (simp add: planHash_def hashValue_def)
  then show ?thesis
    using assms(2,3) maps_Equal_refl[of "pn_contractHashes p"] maps_Equal_refl[of "pn_profileHashes p"]
    by (simp add: ValidatePlan_def plan unsealed_plan_def planner_wf_def)
qed

section \<open>The plan hash binds the plan\<close>

definition json_scheduling :: "json \<Rightarrow> SchedulingContext" where
  "json_scheduling j = (let fs = obj_fields j in
     \<lparr>sc_TenantID = get_str fs ''tenant_id'', sc_Environment = get_str fs ''environment'',
      sc_Region = get_str fs ''region'', sc_Cluster = get_str fs ''cluster'', sc_Team = get_str fs ''team'',
      sc_RiskTier = get_str fs ''risk_tier'', sc_RunnerGroup = get_str fs ''runner_group'',
      sc_FailureDomains = get_arr str_of fs ''failure_domains''\<rparr>)"

definition json_plan_step :: "json \<Rightarrow> PlanStep" where
  "json_plan_step j = (let fs = obj_fields j in
     \<lparr>ps_Service = get_str fs ''service'', ps_DesiredVersion = get_str fs ''desired_version'',
      ps_Phase = get_int fs ''phase'', ps_Profile = get_str fs ''profile'',
      ps_Dependencies = get_arr json_dependency fs ''dependencies'',
      ps_RequiredCapabilities = get_arr str_of fs ''required_capabilities'',
      ps_ContractHash = get_str fs ''contract_hash'', ps_ProfileHash = get_str fs ''profile_hash'',
      ps_ChangeHash = get_str fs ''change_hash'',
      ps_VerificationRequired = get_bool fs ''verification_required'',
      ps_ObservationWindow = get_str fs ''observation_window'', ps_RollbackMode = get_str fs ''rollback_mode'',
      ps_Scheduling = json_scheduling (get_obj fs ''scheduling'')\<rparr>)"

lemma json_scheduling_inverse [simp]: "json_scheduling (scheduling_json s) = s"
  by (simp add: json_scheduling_def scheduling_json_def Let_def get_defs comp_def)

lemma json_plan_step_inverse [simp]: "json_plan_step (plan_step_json s) = s"
  by (simp add: json_plan_step_def plan_step_json_def Let_def get_defs comp_def)

lemma inj_plan_phase_json: "inj plan_phase_json"
proof (rule injI)
  fix a b assume "plan_phase_json a = plan_phase_json b"
  then have "pp_Number a = pp_Number b" "map plan_step_json (pp_Steps a) = map plan_step_json (pp_Steps b)"
    by (simp_all add: plan_phase_json_def jarr_def)
  moreover have "inj plan_step_json" by (rule inj_on_inverseI[of _ json_plan_step]) simp
  ultimately show "a = b" by (simp add: inj_map_eq_map)
qed


lemma plan_canonical_eq_iff:
  "plan_canonical a = plan_canonical b \<longleftrightarrow>
     pl_APIVersion a = pl_APIVersion b \<and> pl_ReleaseVersion a = pl_ReleaseVersion b \<and>
     pl_Environment a = pl_Environment b \<and> pl_Phases a = pl_Phases b \<and>
     sort_key fst (pl_ContractHashes a) = sort_key fst (pl_ContractHashes b) \<and>
     sort_key fst (pl_ProfileHashes a) = sort_key fst (pl_ProfileHashes b) \<and>
     pl_ContextSnapshotRef a = pl_ContextSnapshotRef b \<and> pl_PolicyHash a = pl_PolicyHash b \<and>
     pl_EvidenceHash a = pl_EvidenceHash b"
  by (auto simp: plan_canonical_def jstr_def jarr_def jmap_eq_iff[OF inj_JStr]
      inj_map_eq_map[OF inj_plan_phase_json])


text \<open>
  What the plan hash does not bind: the expiry.  Extending the expiry of a stored plan leaves
  its hash valid, and a plan that was refused as expired is accepted again.
\<close>

theorem plan_hash_ignores_expiry:
  assumes "PlanIntent digest p now intent = Inr plan" and "planner_wf p" and "0 < now + pn_planTTL p"
    and "now + pn_planTTL p \<le> t"
  shows "ValidatePlan digest p plan t = Some (NewReasonError ReasonPlanExpired ''expires_at'') \<and>
         ValidatePlan digest p (plan\<lparr>pl_ExpiresAt := t + 1\<rparr>) t = None"
proof -
  obtain phase where plan: "plan = seal_plan digest (unsealed_plan digest p now intent phase)"
    using PlanIntent_Inr[OF assms(1)] by metis
  have same: "planHash digest (x\<lparr>pl_ExpiresAt := e\<rparr>) = planHash digest x" for x e
    by (simp add: planHash_def plan_canonical_def)
  have "planHash digest x \<noteq> []" for x by (simp add: planHash_def hashValue_def)
  then show ?thesis
    using assms(2-4) maps_Equal_refl[of "pn_contractHashes p"] maps_Equal_refl[of "pn_profileHashes p"]
    by (simp add: ValidatePlan_def plan unsealed_plan_def planner_wf_def same)
qed

end
