(* ===== verification/Catalog.thy ===== *)
theory Catalog
  imports Planner
begin

text \<open>
  The legacy catalog as the planner sees it: the contracts and the profile that \<^verbatim>\<open>LoadContracts\<close> derives
  from it pass validation, and the planner accepts them exactly when the dependencies are acyclic.
  The theory closes with a concrete catalog, planner and intent on which the properties of the
  planner are evaluated.
\<close>

section \<open>The legacy catalog\<close>

lemma durations_positive: "positive_duration ''1m''" "positive_duration ''30m''"
  by code_simp+

lemma compatibility_name: "TrimSpace ''legacy-mock'' \<noteq> []"
  by (rule nonblank) simp_all

lemma Hash_ignores_provenance [simp]:
  "profile_Hash digest (profile\<lparr>rp_ContentHash := h\<rparr>) = profile_Hash digest profile"
  "contract_Hash digest (contract\<lparr>sct_ContentHash := h, sct_Source := path\<rparr>) = contract_Hash digest contract"
  by (simp_all add: profile_Hash_def profile_Canonical_def profile_json_def contract_Hash_def
      contract_Canonical_def contract_normal_def contract_json_def)

lemma catalog_profile_valid:
  "profile_Validate (CompatibilityProfile\<lparr>rp_ContentHash := h\<rparr>) = None"
  by (simp add: profile_Validate_def CompatibilityProfile_def compatibility_name durations_positive
      Capability_Valid_def rollback_modes_def)

lemma validate_dependencies_None:
  "validate_dependencies ds = None \<longleftrightarrow>
     (\<forall>d \<in> set ds. DependencyType_Valid (dep_Type d) \<and> (dep_Service d = []) \<noteq> (dep_Resource d = []))"
  by (induction ds rule: validate_dependencies.induct) auto

lemma catalog_contract_valid:
  assumes "TrimSpace (svc_Name s) \<noteq> []" "TrimSpace (svc_OwnerTeam s) \<noteq> []"
    "TrimSpace (svc_Repository s) \<noteq> []" "[] \<notin> set (svc_Dependencies s)"
  shows "contract_Validate (catalog_contract digest path s) = None"
proof -
  have "validate_dependencies (map (\<lambda>dependency. \<lparr>dep_Service = dependency, dep_Resource = [],
      dep_Type = DependencyRolloutOrder, dep_Condition = ''verified'', dep_Constraint = []\<rparr>) (svc_Dependencies s)) = None"
    using assms(4) by (auto simp: validate_dependencies_None DependencyType_Valid_def)
  then show ?thesis
    using assms(1-3)
    by (simp add: contract_Validate_def catalog_contract_def Let_def CompatibilityProfile_def
        Capability_Valid_def durations_positive check_complete_def rollback_modes_def)
qed

definition catalog_definition :: "(json \<Rightarrow> string) \<Rightarrow> Service \<Rightarrow> serviceDefinition" where
  "catalog_definition digest s = (let c = catalog_contract digest [] s;
     environments = [(EnvironmentStaging, \<lparr>ed_profile = ''legacy-mock'', ed_runnerGroup = ''legacy-staging''\<rparr>),
       (EnvironmentProduction, \<lparr>ed_profile = ''legacy-mock'', ed_runnerGroup = ''legacy-production''\<rparr>)] in
     \<lparr>sd_service = contract_service c environments, sd_dependencies = sortedDependencies (sct_Dependencies c),
      sd_environments = environments, sd_contractHash = contract_Hash digest c\<rparr>)"

lemma catalog_contract_path:
  "catalog_contract digest path s = (catalog_contract digest [] s)\<lparr>sct_Source := path\<rparr>"
  by (simp add: catalog_contract_def Let_def)

lemma collect_catalog:
  assumes "map_of profiles ''legacy-mock'' = Some (CompatibilityProfile\<lparr>rp_ContentHash := h\<rparr>)"
    and "\<forall>s \<in> set services. contract_Validate (catalog_contract digest path s) = None"
    and "distinct (map fst acc @ map svc_Name services)"
  shows "collect_contracts digest profiles acc (map (catalog_contract digest path) services) =
           Inr (acc @ map (\<lambda>s. (svc_Name s, catalog_definition digest s)) services)"
  using assms(2,3)
proof (induction services arbitrary: acc)
  case (Cons s services)
  let ?c = "catalog_contract digest path s"
  have name: "cm_Name (sct_Metadata ?c) = svc_Name s" by (simp add: catalog_contract_def Let_def)
  have env: "resolve_environments profiles (sct_Environments ?c) = Inr (sd_environments (catalog_definition digest s))"
    using assms(1) by (simp add: catalog_contract_def Let_def CompatibilityProfile_def catalog_definition_def
        missingCapabilities_def sortedCapabilities_def)
  have hash: "sct_ContentHash ?c = contract_Hash digest ?c"
    unfolding catalog_contract_def Let_def Hash_ignores_provenance(2) by simp
  have defn: "\<lparr>sd_service = contract_service ?c (sd_environments (catalog_definition digest s)),
       sd_dependencies = sortedDependencies (sct_Dependencies ?c),
       sd_environments = sd_environments (catalog_definition digest s),
       sd_contractHash = contract_Hash digest ?c\<rparr> = catalog_definition digest s"
    by (simp add: catalog_definition_def Let_def contract_service_def catalog_contract_path[of digest path]
        contract_Hash_def contract_Canonical_def contract_normal_def contract_json_def)
  have "svc_Name s \<notin> fst ` set acc" using Cons.prems(2) by auto
  then have "collect_contracts digest profiles acc (map (catalog_contract digest path) (s # services)) =
      collect_contracts digest profiles (acc @ [(svc_Name s, catalog_definition digest s)])
        (map (catalog_contract digest path) services)"
    using Cons.prems(1) name env hash defn by simp
  then show ?case using Cons.IH[of "acc @ [(svc_Name s, catalog_definition digest s)]"] Cons.prems by simp
qed simp

definition catalog_definitions :: "(json \<Rightarrow> string) \<Rightarrow> Service list \<Rightarrow> (string \<times> serviceDefinition) list" where
  "catalog_definitions digest services = map (\<lambda>s. (svc_Name s, catalog_definition digest s)) services"

lemma catalog_definition_deps:
  "set (sd_dependencies (catalog_definition digest s)) = (\<lambda>dependency. \<lparr>dep_Service = dependency,
     dep_Resource = [], dep_Type = DependencyRolloutOrder, dep_Condition = ''verified'', dep_Constraint = []\<rparr>) ` set (svc_Dependencies s)"
  by (simp add: catalog_definition_def Let_def catalog_contract_def)

lemma catalog_definition_environments:
  "fst ` set (sd_environments (catalog_definition digest s)) = {EnvironmentStaging, EnvironmentProduction}"
  by (simp add: catalog_definition_def Let_def)

lemma catalog_ordering_deps:
  assumes "distinct (map svc_Name services)" and "s \<in> set services" and "[] \<notin> set (svc_Dependencies s)"
  shows "set (ordering_deps (catalog_definitions digest services) (svc_Name s)) = set (svc_Dependencies s)"
proof -
  have "map_of (catalog_definitions digest services) (svc_Name s) = Some (catalog_definition digest s)"
    unfolding catalog_definitions_def using assms(1,2) by (intro map_of_is_SomeI) (auto simp: comp_def)
  then show ?thesis
    using assms(3) by (auto simp: ordering_deps_def catalog_definition_deps enforced_def
        EnforcesRolloutOrder_def Compr_image_eq image_image)
qed

definition catalog_ok :: "Service list \<Rightarrow> bool" where
  "catalog_ok services \<longleftrightarrow> services \<noteq> [] \<and> distinct (map svc_Name services) \<and>
     (\<forall>s \<in> set services. TrimSpace (svc_Name s) \<noteq> [] \<and> TrimSpace (svc_OwnerTeam s) \<noteq> [] \<and>
        TrimSpace (svc_Repository s) \<noteq> [] \<and> [] \<notin> set (svc_Dependencies s) \<and>
        set (svc_Dependencies s) \<subseteq> svc_Name ` set services)"

lemma catalog_loads:
  assumes "catalog_ok services" and "LoadContracts digest path services = (contracts, profiles)"
  obtains profs where "collect_profiles digest [] profiles = Inr profs"
    and "collect_contracts digest profs [] contracts = Inr (catalog_definitions digest services)"
    and "contracts \<noteq> []"
proof
  let ?profs = "[(''legacy-mock'', CompatibilityProfile\<lparr>rp_ContentHash := profile_Hash digest CompatibilityProfile\<rparr>)]"
  have c: "contracts = map (catalog_contract digest path) services"
    "profiles = [CompatibilityProfile\<lparr>rp_ContentHash := profile_Hash digest CompatibilityProfile\<rparr>]"
    using assms(2) by (auto simp: LoadContracts_def)
  have "rp_Name (CompatibilityProfile\<lparr>rp_ContentHash := x\<rparr>) = ''legacy-mock''" for x by (simp add: CompatibilityProfile_def)
  then show "collect_profiles digest [] profiles = Inr ?profs"
    using catalog_profile_valid by (simp add: c(2) Let_def)
  have valid: "\<forall>s \<in> set services. contract_Validate (catalog_contract digest path s) = None"
    using assms(1) by (simp add: catalog_ok_def catalog_contract_valid)
  have "distinct (map fst ([] :: (string \<times> serviceDefinition) list) @ map svc_Name services)"
    using assms(1) by (simp add: catalog_ok_def)
  from collect_catalog[OF _ valid this, of ?profs]
  show "collect_contracts digest ?profs [] contracts = Inr (catalog_definitions digest services)"
    by (simp add: c(1) catalog_definitions_def)
  show "contracts \<noteq> []" using assms(1) c(1) by (simp add: catalog_ok_def)
qed

lemma catalog_known:
  assumes "catalog_ok services"
  shows "\<not> unknown_dependency (catalog_definitions digest services)"
  using assms by (auto simp: unknown_dependency_def catalog_definitions_def catalog_definition_deps catalog_ok_def image_iff)

lemma catalog_planner:
  assumes "catalog_ok services" and "LoadContracts digest path services = (contracts, profiles)"
  shows "(\<exists>p. NewFromContracts digest contracts profiles options = Inr p) \<longleftrightarrow>
      (\<exists>phases. validateGlobalOrderingGraph (catalog_definitions digest services) = Inr phases)"
    and "NewFromContracts digest contracts profiles options = Inr p \<Longrightarrow>
      \<exists>phases. pn_definitions p = map (set_phase phases) (catalog_definitions digest services)"
proof -
  obtain profs where l: "collect_profiles digest [] profiles = Inr profs"
    "collect_contracts digest profs [] contracts = Inr (catalog_definitions digest services)" "contracts \<noteq> []"
    using catalog_loads[OF assms] .
  note known = catalog_known[OF assms(1), of digest]
  show "(\<exists>p. NewFromContracts digest contracts profiles options = Inr p) \<longleftrightarrow>
      (\<exists>phases. validateGlobalOrderingGraph (catalog_definitions digest services) = Inr phases)"
    using l known by (cases "validateGlobalOrderingGraph (catalog_definitions digest services)")
      (simp_all add: NewFromContracts_def Let_def)
  show "\<exists>phases. pn_definitions p = map (set_phase phases) (catalog_definitions digest services)"
    if "NewFromContracts digest contracts profiles options = Inr p"
    using that l known by (cases "validateGlobalOrderingGraph (catalog_definitions digest services)")
      (auto simp: NewFromContracts_def newPlanner_def Let_def)
qed

lemma catalog_ranked:
  assumes "catalog_ok services"
  shows "(\<exists>phases. validateGlobalOrderingGraph (catalog_definitions digest services) = Inr phases) \<longleftrightarrow>
    (\<exists>rank :: string \<Rightarrow> int. \<forall>s \<in> set services. \<forall>d \<in> set (svc_Dependencies s). rank d < rank (svc_Name s))"
proof -
  let ?defs = "catalog_definitions digest services"
  have names: "map fst ?defs = map svc_Name services" by (simp add: catalog_definitions_def comp_def)
  have dist: "distinct (map fst ?defs)" using assms names by (simp add: catalog_ok_def)
  have "\<forall>s \<in> set services. set (ordering_deps ?defs (svc_Name s)) = set (svc_Dependencies s)"
    using catalog_ordering_deps[of services] assms by (simp add: catalog_ok_def)
  then have "(\<forall>n \<in> set (map fst ?defs). \<forall>d \<in> set (ordering_deps ?defs n). rank d < rank n) \<longleftrightarrow>
      (\<forall>s \<in> set services. \<forall>d \<in> set (svc_Dependencies s). rank d < rank (svc_Name s))" for rank :: "string \<Rightarrow> int"
    unfolding names by simp
  with global_pass(1)[OF dist catalog_known[OF assms]] show ?thesis by simp
qed

text \<open>
  C35.  The conversion of the legacy catalog is sound: for a non-empty catalog with distinct service
  names, non-blank names, owners and repositories, and dependencies that name services of the
  catalog, the converted contracts and profile are accepted exactly when the dependencies can be
  ranked, that is, contain no cycle.
\<close>

theorem catalog_accepted_iff_acyclic:
  assumes "services \<noteq> []" and "distinct (map svc_Name services)"
    and "\<forall>s \<in> set services. TrimSpace (svc_Name s) \<noteq> [] \<and> TrimSpace (svc_OwnerTeam s) \<noteq> [] \<and>
           TrimSpace (svc_Repository s) \<noteq> [] \<and> [] \<notin> set (svc_Dependencies s) \<and>
           set (svc_Dependencies s) \<subseteq> svc_Name ` set services"
    and "LoadContracts digest path services = (contracts, profiles)"
  shows "(\<exists>p. NewFromContracts digest contracts profiles options = Inr p) \<longleftrightarrow>
         (\<exists>rank :: string \<Rightarrow> int. \<forall>s \<in> set services. \<forall>d \<in> set (svc_Dependencies s). rank d < rank (svc_Name s))"
proof -
  have "catalog_ok services" unfolding catalog_ok_def using assms(1-3) by blast
  then show ?thesis using catalog_planner(1)[OF _ assms(4)] catalog_ranked by simp
qed

section \<open>A concrete release\<close>

definition demo_digest :: "json \<Rightarrow> string" where
  "demo_digest j = replicate 64 CHR ''0''"

definition demo_catalog :: "Service list" where
  "demo_catalog = [demo_service ''a'' [], demo_service ''b'' [''a'']]"

definition demo_change :: "string \<Rightarrow> Change" where
  "demo_change name = \<lparr>ch_Service = name, ch_DesiredVersion = ''v2'', ch_CISuccess = True,
     ch_DependenciesHealthy = True, ch_DestructiveMigration = False, ch_Risk = []\<rparr>"

definition demo_intent :: ReleaseIntent where
  "demo_intent = \<lparr>in_APIVersion = ReleaseIntentAPIVersion, in_Kind = ReleaseIntentKind, in_RequestID = ''r'',
     in_ReleaseVersion = ''v2'', in_TenantID = ''t'', in_Environment = EnvironmentProduction, in_Region = [],
     in_Cluster = [], in_RequestedBy = ''u'', in_Agent = \<lparr>agent_ID = ''bot'', agent_Scopes = []\<rparr>,
     in_Changes = [demo_change ''b'', demo_change ''a'']\<rparr>"

definition demo_planner :: Planner where
  "demo_planner = newPlanner demo_digest (map (\<lambda>s. (svc_Name s, s)) demo_catalog)
     (map (\<lambda>s. (svc_Name s, legacy_definition demo_digest s)) demo_catalog) []
     (map (\<lambda>s. (svc_Name s, sd_contractHash (legacy_definition demo_digest s))) demo_catalog)
     [(''legacy'', hashValue demo_digest (jmap JStr [(''name'', ''legacy'')]))]
     \<lparr>opt_PlanTTL = 0, opt_ContextSnapshotRef = [], opt_PolicyHash = [], opt_EvidenceHash = []\<rparr>"

lemma legacy_definition_sel [simp]:
  "sd_service (legacy_definition digest s) = s"
  "set (sd_dependencies (legacy_definition digest s)) = (\<lambda>dependency. \<lparr>dep_Service = dependency,
     dep_Resource = [], dep_Type = DependencyRolloutOrder, dep_Condition = [], dep_Constraint = []\<rparr>) ` set (svc_Dependencies s)"
  "fst ` set (sd_environments (legacy_definition digest s)) = {EnvironmentStaging, EnvironmentProduction}"
  by (simp_all add: legacy_definition_def Let_def)

lemma demo_planner_New: "planner_New demo_digest demo_catalog = Inr demo_planner"
  by (simp add: planner_New_def demo_planner_def demo_catalog_def demo_service_def)

lemma demo_planner_sel:
  "pn_definitions demo_planner = [(''a'', legacy_definition demo_digest (demo_service ''a'' [])),
     (''b'', legacy_definition demo_digest (demo_service ''b'' [''a'']))]"
  "pn_planTTL demo_planner = 900000000000" "planner_wf demo_planner"
  by (simp_all add: demo_planner_def newPlanner_def Let_def demo_catalog_def demo_service_def planner_wf_def)

lemma demo_selected:
  "set (selected_deps demo_planner (names_of demo_intent) n) = (if n = ''b'' then {''a''} else {})"
  by (auto simp: selected_deps_def ordering_deps_def demo_planner_sel names_of_def demo_intent_def
      demo_change_def enforced_def EnforcesRolloutOrder_def demo_service_def image_iff)

lemma demo_plan_exists: "\<exists>plan. PlanIntent demo_digest demo_planner 1 demo_intent = Inr plan"
proof -
  have "header_ok demo_intent" by (simp add: header_ok_def demo_intent_def)
  moreover have "changes_ok demo_planner demo_intent"
    by (simp add: changes_ok_def demo_intent_def demo_change_def demo_planner_sel)
  moreover have "rankable demo_planner (names_of demo_intent)"
    unfolding rankable_def by (rule exI[of _ "\<lambda>n. if n = ''a'' then 0 else 1"]) (simp add: demo_selected)
  ultimately show ?thesis by (cases rule: PlanIntent_cases[of demo_intent demo_planner demo_digest 1]) auto
qed

lemma demo_plan_steps:
  assumes "PlanIntent demo_digest demo_planner 1 demo_intent = Inr plan" and "n \<in> {''a'', ''b''}"
  shows "\<exists>ph s. ph \<in> set (pl_Phases plan) \<and> s \<in> set (pp_Steps ph) \<and> ps_Service s = n \<and>
     (n = ''b'' \<longrightarrow> (\<exists>d \<in> set (ps_Dependencies s). enforced d \<and> dep_Service d = ''a''))"
proof -
  obtain phase where plan: "plan = seal_plan demo_digest (unsealed_plan demo_digest demo_planner 1 demo_intent phase)"
    using PlanIntent_Inr[OF assms(1)] by metis
  let ?s = "plan_step demo_digest demo_planner demo_intent phase (demo_change n)"
  let ?steps = "map (plan_step demo_digest demo_planner demo_intent phase) (in_Changes demo_intent)"
  have "?s \<in> set ?steps" using assms(2) by (auto simp: demo_intent_def)
  then have "?s \<in> set (concat (map pp_Steps (group_phases ?steps)))"
    using mset_eq_setD[OF group_phases_mset[of ?steps]] by blast
  then obtain ph where "ph \<in> set (pl_Phases plan)" "?s \<in> set (pp_Steps ph)"
    by (auto simp: plan unsealed_plan_def)
  moreover have "n = ''b'' \<Longrightarrow> \<exists>d \<in> set (ps_Dependencies ?s). enforced d \<and> dep_Service d = ''a''"
    by (simp add: demo_planner_sel demo_change_def enforced_def EnforcesRolloutOrder_def demo_service_def)
  ultimately show ?thesis by (intro exI[of _ ph] exI[of _ ?s]) (simp add: demo_change_def)
qed

theorem plan_covers_changes_witness:
  "\<exists>plan. PlanIntent demo_digest demo_planner 1 demo_intent = Inr plan \<and>
     mset (map (\<lambda>s. (ps_Service s, ps_DesiredVersion s, ps_ChangeHash s)) (concat (map pp_Steps (pl_Phases plan)))) =
     mset (map (\<lambda>c. (ch_Service c, ch_DesiredVersion c, hashValue demo_digest (change_json c))) (in_Changes demo_intent))"
  using demo_plan_exists plan_covers_changes by blast


theorem plan_order_irrelevant_witness:
  "\<exists>plan. PlanIntent demo_digest demo_planner 1 demo_intent = Inr plan \<and>
     mset (rev (in_Changes demo_intent)) = mset (in_Changes demo_intent) \<and>
     PlanIntent demo_digest demo_planner 1 (demo_intent\<lparr>in_Changes := rev (in_Changes demo_intent)\<rparr>) = Inr plan"
  using demo_plan_exists plan_order_irrelevant[of demo_digest demo_planner 1 demo_intent _ "rev (in_Changes demo_intent)"]
  by auto

theorem fresh_plan_validates_witness:
  "\<exists>plan. PlanIntent demo_digest demo_planner 1 demo_intent = Inr plan \<and> planner_wf demo_planner \<and>
     0 < 1 + pn_planTTL demo_planner \<and> ValidatePlan demo_digest demo_planner plan 2 = None"
proof -
  obtain plan where plan: "PlanIntent demo_digest demo_planner 1 demo_intent = Inr plan" using demo_plan_exists by blast
  with fresh_plan_validates[OF plan demo_planner_sel(3), of 2] show ?thesis by (simp add: demo_planner_sel)
qed


theorem plan_hash_ignores_expiry_witness:
  "\<exists>plan. PlanIntent demo_digest demo_planner 1 demo_intent = Inr plan \<and> planner_wf demo_planner \<and>
     0 < 1 + pn_planTTL demo_planner \<and> 1 + pn_planTTL demo_planner \<le> 900000000005 \<and>
     ValidatePlan demo_digest demo_planner (plan\<lparr>pl_ExpiresAt := 900000000006\<rparr>) 900000000005 = None"
proof -
  obtain plan where plan: "PlanIntent demo_digest demo_planner 1 demo_intent = Inr plan" using demo_plan_exists by blast
  with plan_hash_ignores_expiry[OF plan demo_planner_sel(3), of 900000000005] show ?thesis
    by (simp add: demo_planner_sel)
qed

lemma demo_catalog_ok: "catalog_ok demo_catalog"
proof -
  have "TrimSpace ''a'' \<noteq> []" "TrimSpace ''b'' \<noteq> []" "TrimSpace ''team'' \<noteq> []" "TrimSpace ''repo'' \<noteq> []"
    by (rule nonblank; simp)+
  then show ?thesis by (simp add: catalog_ok_def demo_catalog_def demo_service_def)
qed

lemma demo_catalog_ranked:
  "\<exists>rank :: string \<Rightarrow> int. \<forall>s \<in> set demo_catalog. \<forall>d \<in> set (svc_Dependencies s). rank d < rank (svc_Name s)"
  by (rule exI[of _ "\<lambda>n. if n = ''a'' then 0 else 1"]) (simp add: demo_catalog_def demo_service_def)

definition demo_options :: Options where
  "demo_options = \<lparr>opt_PlanTTL = 0, opt_ContextSnapshotRef = [], opt_PolicyHash = [], opt_EvidenceHash = []\<rparr>"

lemma demo_contract_planner:
  obtains contracts profiles p phases where "LoadContracts demo_digest ''p'' demo_catalog = (contracts, profiles)"
    and "NewFromContracts demo_digest contracts profiles demo_options = Inr p"
    and "pn_definitions p = map (set_phase phases) (catalog_definitions demo_digest demo_catalog)"
proof -
  obtain cs ps where l: "LoadContracts demo_digest ''p'' demo_catalog = (cs, ps)" by fastforce
  then obtain p where p: "NewFromContracts demo_digest cs ps demo_options = Inr p"
    using catalog_planner(1)[OF demo_catalog_ok l, of demo_options] catalog_ranked[OF demo_catalog_ok, of demo_digest]
      demo_catalog_ranked by blast
  from that[OF l p] catalog_planner(2)[OF demo_catalog_ok l p] show thesis by blast
qed

theorem catalog_accepted_iff_acyclic_witness:
  "\<exists>contracts profiles. LoadContracts demo_digest ''p'' demo_catalog = (contracts, profiles) \<and>
     demo_catalog \<noteq> [] \<and> distinct (map svc_Name demo_catalog) \<and>
     (\<exists>p. NewFromContracts demo_digest contracts profiles demo_options = Inr p)"
proof -
  obtain cs ps where l: "LoadContracts demo_digest ''p'' demo_catalog = (cs, ps)" by fastforce
  from demo_catalog_ok[unfolded catalog_ok_def] have ok: "demo_catalog \<noteq> []" "distinct (map svc_Name demo_catalog)"
    "\<forall>s \<in> set demo_catalog. TrimSpace (svc_Name s) \<noteq> [] \<and> TrimSpace (svc_OwnerTeam s) \<noteq> [] \<and>
       TrimSpace (svc_Repository s) \<noteq> [] \<and> [] \<notin> set (svc_Dependencies s) \<and>
       set (svc_Dependencies s) \<subseteq> svc_Name ` set demo_catalog" by blast+
  with catalog_accepted_iff_acyclic[OF ok l, of demo_options] l demo_catalog_ranked show ?thesis by blast
qed

theorem contract_planner_plans_iff_wellformed_witness:
  "\<exists>contracts profiles p plan. LoadContracts demo_digest ''p'' demo_catalog = (contracts, profiles) \<and>
     NewFromContracts demo_digest contracts profiles demo_options = Inr p \<and>
     PlanIntent demo_digest p 1 demo_intent = Inr plan"
proof -
  obtain cs ps p phases where p: "LoadContracts demo_digest ''p'' demo_catalog = (cs, ps)"
    "NewFromContracts demo_digest cs ps demo_options = Inr p"
    "pn_definitions p = map (set_phase phases) (catalog_definitions demo_digest demo_catalog)"
    using demo_contract_planner .
  have "header_ok demo_intent" by (simp add: header_ok_def demo_intent_def)
  moreover have "changes_ok p demo_intent"
    by (simp add: changes_ok_def demo_intent_def demo_change_def p(3) catalog_definitions_def demo_catalog_def
        demo_service_def set_phase_def catalog_definition_environments)
  ultimately show ?thesis
    using contract_planner_plans_iff_wellformed[OF p(2), of 1 demo_intent] p by blast
qed

theorem catalog_phase_is_longest_chain_witness:
  "\<exists>contracts profiles p. LoadContracts demo_digest ''p'' demo_catalog = (contracts, profiles) \<and>
     NewFromContracts demo_digest contracts profiles demo_options = Inr p \<and>
     release_phase p ''a'' = 0 \<and> release_phase p ''b'' = 1"
proof -
  obtain cs ps p phases where p: "LoadContracts demo_digest ''p'' demo_catalog = (cs, ps)"
    "NewFromContracts demo_digest cs ps demo_options = Inr p"
    "pn_definitions p = map (set_phase phases) (catalog_definitions demo_digest demo_catalog)"
    using demo_contract_planner .
  obtain a b where d: "map_of (pn_definitions p) ''a'' = Some a" "map_of (pn_definitions p) ''b'' = Some b"
    by (simp add: p(3) catalog_definitions_def demo_catalog_def demo_service_def set_phase_def)
  have deps: "set (ordering_deps (pn_definitions p) (svc_Name s)) = set (svc_Dependencies s)" if "s \<in> set demo_catalog" for s
    using catalog_ordering_deps[of demo_catalog s demo_digest] demo_catalog_ok that
    by (simp add: p(3) ordering_deps_set_phase catalog_ok_def)
  have da: "set (ordering_deps (pn_definitions p) ''a'') = {}" and db: "set (ordering_deps (pn_definitions p) ''b'') = {''a''}"
    using deps[of "demo_service ''a'' []"] deps[of "demo_service ''b'' [''a'']"]
    by (simp_all add: demo_catalog_def demo_service_def)
  have "release_phase p ''a'' = 0"
    using catalog_phase_is_longest_chain[OF p(2) d(1)] d(1) da by (simp add: release_phase_def)
  moreover from this have "release_phase p ''b'' = 1"
    using catalog_phase_is_longest_chain[OF p(2) d(2)] d(2) db by (simp add: release_phase_def)
  ultimately show ?thesis using p by blast
qed

end
