(* ===== verification/Encoding.thy ===== *)
theory Encoding
  imports Go_Std
begin

text \<open>
  The byte encodings the program takes from the Go standard library: \<^verbatim>\<open>base64.RawURLEncoding\<close>, in which
  signatures travel, \<^verbatim>\<open>hex.DecodeString\<close> as a check on digests, and the years that the JSON form of
  a time can express.
\<close>

section \<open>base64.RawURLEncoding\<close>

definition b64_char :: "nat \<Rightarrow> char" where
  "b64_char n = char_of (if n < 26 then n + 65 else if n < 52 then n + 71 else if n < 62 then n - 4
     else if n = 62 then 45 else 95)"

definition b64_value :: "char \<Rightarrow> nat option" where
  "b64_value c = (let n = of_char c in
     if 65 \<le> n \<and> n < 91 then Some (n - 65)
     else if 97 \<le> n \<and> n < 123 then Some (n - 71)
     else if 48 \<le> n \<and> n < 58 then Some (n + 4)
     else if n = 45 then Some 62
     else if n = 95 then Some 63
     else None)"

fun encode_quads :: "nat list \<Rightarrow> nat list" where
  "encode_quads (a # b # c # r) =
     [a div 4, (a mod 4) * 16 + b div 16, (b mod 16) * 4 + c div 64, c mod 64] @ encode_quads r"
| "encode_quads [a, b] = [a div 4, (a mod 4) * 16 + b div 16, (b mod 16) * 4]"
| "encode_quads [a] = [a div 4, (a mod 4) * 16]"
| "encode_quads [] = []"

fun decode_quads :: "nat list \<Rightarrow> nat list option" where
  "decode_quads (w # x # y # z # r) = (case decode_quads r of
       None \<Rightarrow> None
     | Some bytes \<Rightarrow> Some ([w * 4 + x div 16, (x mod 16) * 16 + y div 4, (y mod 4) * 64 + z] @ bytes))"
| "decode_quads [w, x, y] = Some [w * 4 + x div 16, (x mod 16) * 16 + y div 4]"
| "decode_quads [w, x] = Some [w * 4 + x div 16]"
| "decode_quads [w] = None"
| "decode_quads [] = Some []"

definition EncodeToString :: "string \<Rightarrow> string" where
  "EncodeToString bytes = map b64_char (encode_quads (map of_char bytes))"

text \<open>The decoder skips line breaks and refuses every other character outside the alphabet.\<close>

definition DecodeString :: "string \<Rightarrow> string option" where
  "DecodeString s = (let text = filter (\<lambda>c. of_char c \<noteq> (10 :: nat) \<and> of_char c \<noteq> (13 :: nat)) s in
     if \<exists>c \<in> set text. b64_value c = None then None
     else map_option (map char_of) (decode_quads (map (\<lambda>c. the (b64_value c)) text)))"

lemma b64_value_char: "n < 64 \<Longrightarrow> b64_value (b64_char n) = Some n"
  by (auto simp: b64_value_def b64_char_def Let_def)

lemma b64_char_no_break:
  "n < 64 \<Longrightarrow> of_char (b64_char n) \<noteq> (10 :: nat)" "n < 64 \<Longrightarrow> of_char (b64_char n) \<noteq> (13 :: nat)"
  by (auto simp: b64_char_def)

lemma div_less: "(a :: nat) < m * n \<Longrightarrow> 0 < n \<Longrightarrow> a div n < m"
  by (simp add: less_mult_imp_div_less)

lemma encode_quads_bound:
  "\<forall>n \<in> set bytes. n < 256 \<Longrightarrow> m \<in> set (encode_quads bytes) \<Longrightarrow> m < 64"
proof (induction bytes rule: encode_quads.induct)
  case (1 a b c r)
  have "a div 4 < 64" "b div 16 < 16" "c div 64 < 4" using 1(2) by (auto intro: div_less)
  moreover have "a mod 4 < 4" "b mod 16 < 16" "c mod 64 < 64" by simp_all
  ultimately show ?case using 1 by auto
next
  case (2 a b)
  have "a div 4 < 64" "b div 16 < 16" using 2(1) by (auto intro: div_less)
  moreover have "a mod 4 < 4" "b mod 16 < 16" by simp_all
  ultimately show ?case using 2 by auto
next
  case (3 a)
  have "a div 4 < 64" using 3(1) by (auto intro: div_less)
  moreover have "a mod 4 < 4" by simp
  ultimately show ?case using 3 by auto
qed simp

lemma quads_roundtrip:
  "\<forall>n \<in> set bytes. n < 256 \<Longrightarrow> decode_quads (encode_quads bytes) = Some bytes"
proof (induction bytes rule: encode_quads.induct)
  case (1 a b c r)
  have "b div 16 < 16" "c div 64 < 4" using 1(2) by (auto intro: div_less)
  then have "((a mod 4) * 16 + b div 16) div 16 = a mod 4" "((a mod 4) * 16 + b div 16) mod 16 = b div 16"
    "((b mod 16) * 4 + c div 64) div 4 = b mod 16" "((b mod 16) * 4 + c div 64) mod 4 = c div 64"
    by simp_all
  then show ?case using 1 by simp
next
  case (2 a b)
  have "b div 16 < 16" using 2(1) by (auto intro: div_less)
  then have "((a mod 4) * 16 + b div 16) div 16 = a mod 4" "((a mod 4) * 16 + b div 16) mod 16 = b div 16"
    by simp_all
  then show ?case by simp
qed simp_all

lemma DecodeString_EncodeToString [simp]: "DecodeString (EncodeToString bytes) = Some bytes"
proof -
  let ?q = "encode_quads (map of_char bytes)"
  have small: "\<forall>n \<in> set (map of_char bytes). (n :: nat) < 256" by auto
  then have q: "n < 64" if "n \<in> set ?q" for n using encode_quads_bound that by blast
  then have "filter (\<lambda>c. of_char c \<noteq> (10 :: nat) \<and> of_char c \<noteq> (13 :: nat)) (map b64_char ?q) = map b64_char ?q"
    using b64_char_no_break by (auto simp: filter_id_conv)
  moreover have "map (\<lambda>c. the (b64_value c)) (map b64_char ?q) = ?q"
    using q b64_value_char by (simp add: map_idI)
  moreover have "\<not> (\<exists>c \<in> set (map b64_char ?q). b64_value c = None)"
    using q b64_value_char by auto
  ultimately show ?thesis
    using quads_roundtrip[OF small] by (simp add: DecodeString_def EncodeToString_def Let_def comp_def)
qed

lemma EncodeToString_empty_iff [simp]: "EncodeToString bytes = [] \<longleftrightarrow> bytes = []"
  by (cases "map of_char bytes :: nat list" rule: encode_quads.cases) (auto simp: EncodeToString_def)

section \<open>Digests\<close>

definition hex_char :: "char \<Rightarrow> bool" where
  "hex_char c = (let n = of_char c :: nat in
     48 \<le> n \<and> n < 58 \<or> 97 \<le> n \<and> n < 103 \<or> 65 \<le> n \<and> n < 71)"

text \<open>\<^verbatim>\<open>hex.DecodeString\<close> succeeds on an even number of hexadecimal digits.\<close>

definition hex_decodes :: "string \<Rightarrow> bool" where
  "hex_decodes s \<longleftrightarrow> even (length s) \<and> list_all hex_char s"

definition HasPrefix :: "string \<Rightarrow> string \<Rightarrow> bool" where
  "HasPrefix s p \<longleftrightarrow> take (length p) s = p"

definition sha256_digest :: "string \<Rightarrow> bool" where
  "sha256_digest s \<longleftrightarrow> HasPrefix s ''sha256:'' \<and> length s = 7 + 64 \<and> hex_decodes (drop 7 s)"

lemma sha256_digest_hashValue:
  "sha256_digest (hashValue digest v) \<longleftrightarrow> length (digest v) = 64 \<and> list_all hex_char (digest v)"
  by (auto simp: sha256_digest_def hashValue_def HasPrefix_def hex_decodes_def)

section \<open>Times in JSON\<close>

text \<open>\<^verbatim>\<open>time.Time.MarshalJSON\<close> fails outside the years 0 to 9999.\<close>

definition json_time :: "time \<Rightarrow> bool" where
  "json_time t \<longleftrightarrow> - 31622400000000000 \<le> t \<and> t < 315537897600000000000"

end
