(* ===== verification/Adapter.thy ===== *)
theory Adapter
  imports Domain Encoding
begin

text \<open>
  The public adapter SDK (\<^verbatim>\<open>pkg/adapter\<close>), the runner-local credential boundary (\<^verbatim>\<open>pkg/credentials\<close>) and
  the verification service (\<^verbatim>\<open>internal/verification\<close>).  Adapters and credential sources are parameters
  where the code takes them through an interface.
\<close>

section \<open>Adapter types\<close>

abbreviation ProviderGitHubActions :: string where "ProviderGitHubActions \<equiv> ''github-actions''"
abbreviation ProviderDatadog :: string where "ProviderDatadog \<equiv> ''datadog''"

record AdapterTarget =
  at_Service :: string
  at_Environment :: string

record AdapterDeployment =
  ad_ExternalExecutionID :: string
  ad_CorrelationID :: string
  ad_StartedAt :: time
  ad_FinishedAt :: time

definition no_deployment :: AdapterDeployment where
  "no_deployment = \<lparr>ad_ExternalExecutionID = [], ad_CorrelationID = [], ad_StartedAt = 0, ad_FinishedAt = 0\<rparr>"

datatype ReconcileStatus = ReconcileNotFound | ReconcilePending | ReconcileSucceeded | ReconcileFailed

record DeployRequest =
  dq_Target :: AdapterTarget
  dq_ArtifactDigest :: string
  dq_IdempotencyKey :: string

record RollbackRequest =
  rq2_Target :: AdapterTarget
  rq2_OriginalDeployment :: AdapterDeployment
  rq2_IdempotencyKey :: string

record ReconcileRequest =
  rc_IdempotencyKey :: string
  rc_DispatchedAt :: time

record ReconcileResult =
  rcr_Status :: ReconcileStatus
  rcr_Deployment :: AdapterDeployment

type_synonym ErrorClass = string

abbreviation ErrorRetryable :: ErrorClass where "ErrorRetryable \<equiv> ''RETRYABLE''"
abbreviation ErrorTerminal :: ErrorClass where "ErrorTerminal \<equiv> ''TERMINAL''"
abbreviation ErrorUnknown :: ErrorClass where "ErrorUnknown \<equiv> ''UNKNOWN_EXTERNAL_STATE''"

text \<open>The first classified error of the chain decides.\<close>

fun IsClass :: "error \<Rightarrow> ErrorClass \<Rightarrow> bool" where
  "IsClass (AdapterError c oper i e) cl \<longleftrightarrow> c = cl"
| "IsClass (ClassifiedError c oper e) cl \<longleftrightarrow> IsClass e cl"
| "IsClass (Wrapf m e) cl \<longleftrightarrow> IsClass e cl"
| "IsClass (ReasonError c f (Some e)) cl \<longleftrightarrow> IsClass e cl"
| "IsClass (ReasonError c f None) cl \<longleftrightarrow> False"
| "IsClass (Errorf m) cl \<longleftrightarrow> False"
| "IsClass (Sentinel m) cl \<longleftrightarrow> False"

definition validateDigest :: "string \<Rightarrow> error option" where
  "validateDigest s =
     (if \<not> HasPrefix s ''sha256:'' \<or> length s \<noteq> 7 + 64 then Some (Errorf ''artifact digest must be sha256'')
      else if \<not> hex_decodes (drop 7 s) then Some (Errorf ''artifact digest must be sha256'')
      else None)"

definition ValidateDeployRequest :: "DeployRequest \<Rightarrow> error option" where
  "ValidateDeployRequest request =
     (if TrimSpace (at_Service (dq_Target request)) = [] \<or> TrimSpace (at_Environment (dq_Target request)) = []
         \<or> TrimSpace (dq_IdempotencyKey request) = []
      then Some (Errorf ''target service, environment, and idempotency key are required'')
      else validateDigest (dq_ArtifactDigest request))"

definition ValidateRollbackRequest :: "RollbackRequest \<Rightarrow> error option" where
  "ValidateRollbackRequest request =
     (if TrimSpace (at_Service (rq2_Target request)) = [] \<or> TrimSpace (at_Environment (rq2_Target request)) = []
         \<or> TrimSpace (rq2_IdempotencyKey request) = []
         \<or> TrimSpace (ad_ExternalExecutionID (rq2_OriginalDeployment request)) = []
      then Some (Errorf ''target, original external execution ID, and idempotency key are required'')
      else None)"

text \<open>\<open>sha256_hex\<close> is the hexadecimal SHA-256 of a byte string.\<close>

definition CorrelationID :: "(string \<Rightarrow> string) \<Rightarrow> string \<Rightarrow> string" where
  "CorrelationID sha256_hex idempotencyKey = ''sha256:'' @ sha256_hex idempotencyKey"

section \<open>Evidence\<close>

type_synonym AdapterStatus = string

abbreviation AdapterPass :: AdapterStatus where "AdapterPass \<equiv> ''PASS''"
abbreviation AdapterFail :: AdapterStatus where "AdapterFail \<equiv> ''FAIL''"
abbreviation AdapterInconclusive :: AdapterStatus where "AdapterInconclusive \<equiv> ''INCONCLUSIVE''"
abbreviation AdapterMissing :: AdapterStatus where "AdapterMissing \<equiv> ''MISSING''"

definition Status_Valid :: "AdapterStatus \<Rightarrow> bool" where
  "Status_Valid s \<longleftrightarrow> s = AdapterPass \<or> s = AdapterFail \<or> s = AdapterInconclusive \<or> s = AdapterMissing"

record ObservationWindow =
  ow_From :: time
  ow_To :: time

record VerificationRequest =
  vr_Target :: AdapterTarget
  vr_Deployment :: AdapterDeployment
  vr_Window :: ObservationWindow

record AdapterEvidence =
  ae_Status :: AdapterStatus
  ae_ReasonCode :: string
  ae_Source :: string
  ae_QueryHash :: string
  ae_Window :: ObservationWindow
  ae_ObservedAt :: time
  ae_ObservedValue :: float_value
  ae_Threshold :: float_value
  ae_AdapterVersion :: string
  ae_EvidenceHash :: string

fun finite_value :: "float_value \<Rightarrow> bool" where
  "finite_value (Finite _) \<longleftrightarrow> True"
| "finite_value (Infinite _) \<longleftrightarrow> False"
| "finite_value NotANumber \<longleftrightarrow> False"

definition adapter_ValidateEvidence :: "AdapterEvidence \<Rightarrow> error option" where
  "adapter_ValidateEvidence e =
     (if \<not> Status_Valid (ae_Status e) \<or> TrimSpace (ae_ReasonCode e) = [] \<or> TrimSpace (ae_Source e) = []
         \<or> TrimSpace (ae_QueryHash e) = [] \<or> ow_From (ae_Window e) = 0 \<or> ow_To (ae_Window e) = 0
         \<or> \<not> ow_From (ae_Window e) < ow_To (ae_Window e) \<or> ae_ObservedAt e = 0
         \<or> TrimSpace (ae_AdapterVersion e) = [] \<or> TrimSpace (ae_EvidenceHash e) = []
      then Some (Errorf ''evidence is incomplete'')
      else if \<not> finite_value (ae_ObservedValue e) \<or> \<not> finite_value (ae_Threshold e)
      then Some (Errorf ''evidence contains non-finite values'')
      else None)"

text \<open>A zero value is left out of the JSON form; a non-finite one cannot be encoded.\<close>

fun jfloat_omit :: "string \<Rightarrow> float_value \<Rightarrow> (string \<times> json) list option" where
  "jfloat_omit name (Finite v) = Some (if v = 0 then [] else [(name, JFloat v)])"
| "jfloat_omit name _ = None"

definition window_json :: "ObservationWindow \<Rightarrow> json" where
  "window_json w = JObj [(''from'', JTime (ow_From w)), (''to'', JTime (ow_To w))]"

definition evidence_json :: "AdapterEvidence \<Rightarrow> json option" where
  "evidence_json e =
     (if \<not> json_time (ow_From (ae_Window e)) \<or> \<not> json_time (ow_To (ae_Window e)) \<or> \<not> json_time (ae_ObservedAt e) then None
      else case (jfloat_omit ''observed_value'' (ae_ObservedValue e), jfloat_omit ''threshold'' (ae_Threshold e)) of
        (Some observed, Some threshold) \<Rightarrow>
          Some (JObj (jstr ''status'' (ae_Status e) @ jstr ''reason_code'' (ae_ReasonCode e) @ jstr ''source'' (ae_Source e) @
            jstr ''query_hash'' (ae_QueryHash e) @ [(''window'', window_json (ae_Window e)), (''observed_at'', JTime (ae_ObservedAt e))] @
            observed @ threshold @ jstr ''adapter_version'' (ae_AdapterVersion e) @ jstr ''evidence_hash'' (ae_EvidenceHash e)))
      | _ \<Rightarrow> None)"

definition EvidenceHash :: "(json \<Rightarrow> string) \<Rightarrow> AdapterEvidence \<Rightarrow> (error, string) result" where
  "EvidenceHash digest e = (case evidence_json (e\<lparr>ae_EvidenceHash := []\<rparr>) of
       None \<Rightarrow> Inl (Errorf ''json: unsupported value'')
     | Some payload \<Rightarrow> Inr (hashValue digest payload))"

definition ValidateEvidence :: "(json \<Rightarrow> string) \<Rightarrow> AdapterEvidence \<Rightarrow> error option" where
  "ValidateEvidence digest e = (case adapter_ValidateEvidence e of
       Some err \<Rightarrow> Some err
     | None \<Rightarrow> (case EvidenceHash digest e of
           Inl err \<Rightarrow> Some err
         | Inr hash \<Rightarrow> if hash \<noteq> ae_EvidenceHash e then Some (Errorf ''evidence hash mismatch'') else None))"

section \<open>Credentials\<close>

type_synonym Purpose = string

abbreviation PurposeDeploy :: Purpose where "PurposeDeploy \<equiv> ''deploy''"
abbreviation PurposeRollback :: Purpose where "PurposeRollback \<equiv> ''rollback''"
abbreviation PurposeVerify :: Purpose where "PurposeVerify \<equiv> ''verify''"

record CredentialRequest =
  cq_Provider :: string
  cq_TenantID :: string
  cq_Service :: string
  cq_Environment :: string
  cq_Purpose :: Purpose

definition Request_Validate :: "CredentialRequest \<Rightarrow> error option" where
  "Request_Validate r =
     (if cq_Provider r = [] \<or> cq_TenantID r = [] \<or> cq_Service r = [] \<or> cq_Environment r = []
      then Some (Errorf ''provider, tenant, service, and environment are required'')
      else if cq_Purpose r = PurposeDeploy \<or> cq_Purpose r = PurposeRollback \<or> cq_Purpose r = PurposeVerify then None
      else Some (Errorf ''unsupported credential purpose %q''))"

record Credential =
  cr_values :: "(string \<times> string) list"
  cr_ExpiresAt :: time

definition Credential_Value :: "Credential \<Rightarrow> string \<Rightarrow> string" where
  "Credential_Value c name = (case map_of (cr_values c) name of None \<Rightarrow> [] | Some bytes \<Rightarrow> bytes)"

definition ValidAt :: "Credential \<Rightarrow> time \<Rightarrow> bool" where
  "ValidAt c now \<longleftrightarrow> cr_values c \<noteq> [] \<and> cr_ExpiresAt c \<noteq> 0 \<and> now < cr_ExpiresAt c"

type_synonym broker = "CredentialRequest \<Rightarrow> (error, Credential) result"

record CredentialTarget =
  ct_TenantID :: string
  ct_Service :: string
  ct_Environment :: string

definition target_of :: "CredentialRequest \<Rightarrow> CredentialTarget" where
  "target_of r = \<lparr>ct_TenantID = cq_TenantID r, ct_Service = cq_Service r, ct_Environment = cq_Environment r\<rparr>"

text \<open>
  The file a token source opens: its permission bits, its first JSON document, and whether anything
  follows that document.
\<close>

record 'd opened_file =
  of_perm :: "(error, nat) result"
  of_document :: "(error, 'd) result"
  of_trailing :: bool

definition read_private :: "string \<Rightarrow> (string \<Rightarrow> (error, 'd opened_file) result) \<Rightarrow> string \<Rightarrow> (error, 'd) result" where
  "read_private name os_Open path = (case os_Open path of
       Inl err \<Rightarrow> Inl (Wrapf (''open '' @ name @ '' file: %w'') err)
     | Inr f \<Rightarrow> (case of_perm f of
         Inl err \<Rightarrow> Inl (Wrapf (''stat '' @ name @ '' file: %w'') err)
       | Inr perm \<Rightarrow>
           if perm mod 64 \<noteq> 0 then Inl (Errorf (name @ '' file must not be group or world accessible''))
           else (case of_document f of
               Inl err \<Rightarrow> Inl (Wrapf (''decode '' @ name @ '' file: %w'') err)
             | Inr document \<Rightarrow>
                 if of_trailing f then Inl (Errorf (name @ '' file contains trailing JSON'')) else Inr document)))"

record github_document =
  gd_Token :: string
  gd_ExpiresAt :: time

definition GitHubTokenFileSource_Token :: "(string \<Rightarrow> (error, github_document opened_file) result) \<Rightarrow> string
    \<Rightarrow> (error, Credential) result" where
  "GitHubTokenFileSource_Token os_Open path =
     (if TrimSpace path = [] then Inl (Errorf ''github token file is required'')
      else case read_private ''github token'' os_Open path of
          Inl err \<Rightarrow> Inl err
        | Inr document \<Rightarrow>
            if TrimSpace (gd_Token document) = [] \<or> gd_ExpiresAt document = 0
            then Inl (Errorf ''github token and expiry are required'')
            else Inr \<lparr>cr_values = [(''token'', gd_Token document)], cr_ExpiresAt = gd_ExpiresAt document\<rparr>)"

record datadog_document =
  dd_APIKey :: string
  dd_AppKey :: string
  dd_ExpiresAt :: time

definition DatadogCredentialFileSource_Credential :: "(string \<Rightarrow> (error, datadog_document opened_file) result) \<Rightarrow> string
    \<Rightarrow> (error, Credential) result" where
  "DatadogCredentialFileSource_Credential os_Open path =
     (if TrimSpace path = [] then Inl (Errorf ''Datadog credential file is required'')
      else case read_private ''Datadog credential'' os_Open path of
          Inl err \<Rightarrow> Inl err
        | Inr document \<Rightarrow>
            if TrimSpace (dd_APIKey document) = [] \<or> TrimSpace (dd_AppKey document) = [] \<or> dd_ExpiresAt document = 0
            then Inl (Errorf ''Datadog API key, application key, and expiry are required'')
            else Inr \<lparr>cr_values = [(''api_key'', dd_APIKey document), (''app_key'', dd_AppKey document)],
                       cr_ExpiresAt = dd_ExpiresAt document\<rparr>)"

definition GitHubBroker_Acquire :: "(error, Credential) result option \<Rightarrow> CredentialTarget list \<Rightarrow> time \<Rightarrow> broker" where
  "GitHubBroker_Acquire source allowed now request = (case Request_Validate request of
       Some err \<Rightarrow> Inl err
     | None \<Rightarrow>
         if cq_Provider request \<noteq> ''github-actions'' \<or> (cq_Purpose request \<noteq> PurposeDeploy \<and> cq_Purpose request \<noteq> PurposeRollback)
         then Inl (Errorf ''github broker only serves deploy and rollback'')
         else if target_of request \<notin> set allowed then Inl (Errorf ''github credential target is not allow-listed'')
         else case source of
             None \<Rightarrow> Inl (Errorf ''github token source unavailable'')
           | Some (Inl err) \<Rightarrow> Inl err
           | Some (Inr credential) \<Rightarrow>
               if Credential_Value credential ''token'' = [] \<or> \<not> ValidAt credential (now + 30000000000)
               then Inl (Errorf ''github token is missing or too close to expiry'')
               else Inr credential)"

definition DatadogBroker_Acquire :: "(error, Credential) result option \<Rightarrow> CredentialTarget list \<Rightarrow> time \<Rightarrow> broker" where
  "DatadogBroker_Acquire source allowed now request = (case Request_Validate request of
       Some err \<Rightarrow> Inl err
     | None \<Rightarrow>
         if cq_Provider request \<noteq> ''datadog'' \<or> cq_Purpose request \<noteq> PurposeVerify
         then Inl (Errorf ''Datadog broker only serves verification'')
         else if target_of request \<notin> set allowed then Inl (Errorf ''Datadog credential target is not allow-listed'')
         else case source of
             None \<Rightarrow> Inl (Errorf ''Datadog credential source unavailable'')
           | Some (Inl err) \<Rightarrow> Inl err
           | Some (Inr credential) \<Rightarrow>
               if Credential_Value credential ''api_key'' = [] \<or> Credential_Value credential ''app_key'' = []
                  \<or> \<not> ValidAt credential (now + 30000000000)
               then Inl (Errorf ''Datadog credential is missing or too close to expiry'')
               else Inr credential)"

definition NewStaticDevelopmentBroker :: "(string \<times> string) list \<Rightarrow> time \<Rightarrow> time \<Rightarrow> (error, Credential) result" where
  "NewStaticDevelopmentBroker vs expiresAt now = (let credential = \<lparr>cr_values = vs, cr_ExpiresAt = expiresAt\<rparr> in
     if \<not> ValidAt credential now then Inl (Errorf ''development credential must be non-empty and unexpired'')
     else Inr credential)"

definition StaticDevelopmentBroker_Acquire :: "Credential \<Rightarrow> time \<Rightarrow> broker" where
  "StaticDevelopmentBroker_Acquire credential now request = (case Request_Validate request of
       Some err \<Rightarrow> Inl err
     | None \<Rightarrow> if \<not> ValidAt credential now then Inl (Errorf ''development credential expired'') else Inr credential)"

section \<open>Verification service\<close>

record VerificationService =
  vs_TenantID :: string
  vs_Adapter :: "(VerificationRequest \<Rightarrow> Credential \<Rightarrow> (error, AdapterEvidence) result) option"
  vs_Broker :: "broker option"

definition Service_Verify :: "(json \<Rightarrow> string) \<Rightarrow> VerificationService \<Rightarrow> VerificationRequest \<Rightarrow> (error, AdapterEvidence) result" where
  "Service_Verify digest s request = (case (vs_Adapter s, vs_Broker s) of
       (Some verify, Some acquire) \<Rightarrow>
         if vs_TenantID s = [] then Inl (Errorf ''verification service is not configured'')
         else (case acquire \<lparr>cq_Provider = ProviderDatadog, cq_TenantID = vs_TenantID s,
                  cq_Service = at_Service (vr_Target request), cq_Environment = at_Environment (vr_Target request),
                  cq_Purpose = PurposeVerify\<rparr> of
             Inl err \<Rightarrow> Inl err
           | Inr credential \<Rightarrow> (case verify request credential of
               Inl err \<Rightarrow> Inl err
             | Inr evidence \<Rightarrow> (case ValidateEvidence digest evidence of
                   Some err \<Rightarrow> Inl err
                 | None \<Rightarrow> Inr evidence)))
     | _ \<Rightarrow> Inl (Errorf ''verification service is not configured''))"

section \<open>Conformance\<close>

text \<open>A deploy adapter with its external state.\<close>

record 'x DeployAdapter =
  da_Deploy :: "'x \<Rightarrow> DeployRequest \<Rightarrow> Credential \<Rightarrow> 'x \<times> (error, AdapterDeployment) result"
  da_Rollback :: "'x \<Rightarrow> RollbackRequest \<Rightarrow> Credential \<Rightarrow> 'x \<times> (error, AdapterDeployment) result"
  da_Reconcile :: "'x \<Rightarrow> ReconcileRequest \<Rightarrow> Credential \<Rightarrow> 'x \<times> (error, ReconcileResult) result"

record ConformanceReport =
  cf_Deployment :: AdapterDeployment
  cf_Rollback :: AdapterDeployment
  cf_Reconciled :: ReconcileResult

definition conformance_rollback :: "'x DeployAdapter \<Rightarrow> Credential \<Rightarrow> DeployRequest \<Rightarrow> AdapterDeployment \<Rightarrow> ReconcileResult
    \<Rightarrow> 'x \<Rightarrow> 'x \<times> (error, ConformanceReport) result" where
  "conformance_rollback a credential request deployed reconciled x =
     (case da_Rollback a x \<lparr>rq2_Target = dq_Target request, rq2_OriginalDeployment = deployed,
             rq2_IdempotencyKey = dq_IdempotencyKey request @ ''/rollback''\<rparr> credential of
        (x', Inl err) \<Rightarrow> (x', Inl (Wrapf ''conformance rollback: %w'' err))
      | (x', Inr rolledBack) \<Rightarrow>
          if ad_ExternalExecutionID rolledBack = [] then (x', Inl (Errorf ''rollback adapter returned no external execution ID''))
          else (x', Inr \<lparr>cf_Deployment = deployed, cf_Rollback = rolledBack, cf_Reconciled = reconciled\<rparr>))"

text \<open>\<open>now\<close> and \<open>later\<close> are the two readings of the clock.\<close>

definition RunConformance :: "'x DeployAdapter option \<Rightarrow> Credential \<Rightarrow> DeployRequest \<Rightarrow> time \<Rightarrow> time \<Rightarrow> 'x
    \<Rightarrow> 'x \<times> (error, ConformanceReport) result" where
  "RunConformance maybe credential request now later x = (case maybe of
       None \<Rightarrow> (x, Inl (Errorf ''adapter and valid staging credential are required''))
     | Some a \<Rightarrow>
         if \<not> ValidAt credential now then (x, Inl (Errorf ''adapter and valid staging credential are required''))
         else (case ValidateDeployRequest request of
           Some err \<Rightarrow> (x, Inl err)
         | None \<Rightarrow> (case da_Deploy a x request credential of
             (x1, Inl err) \<Rightarrow> (x1, Inl (Wrapf ''conformance deploy: %w'' err))
           | (x1, Inr deployed) \<Rightarrow>
               if ad_ExternalExecutionID deployed = [] then (x1, Inl (Errorf ''deploy adapter returned no external execution ID''))
               else (case da_Reconcile a x1 \<lparr>rc_IdempotencyKey = dq_IdempotencyKey request, rc_DispatchedAt = later - 60000000000\<rparr> credential of
                   (x2, Inl err) \<Rightarrow> (x2, Inl (Wrapf ''conformance reconcile: status=%s err=%w'' err))
                 | (x2, Inr reconciled) \<Rightarrow>
                     if rcr_Status reconciled = ReconcileNotFound
                     then (x2, Inl (Errorf ''conformance reconcile: status=%s err=%w''))
                     else conformance_rollback a credential request deployed reconciled x2))))"

section \<open>Properties\<close>

lemma jfloat_omit_eq_iff:
  "jfloat_omit name a = Some xs \<Longrightarrow> jfloat_omit name b = Some xs \<Longrightarrow> a = b"
  by (cases a; cases b) (auto split: if_splits)

lemma jfloat_omit_keys: "jfloat_omit name a = Some xs \<Longrightarrow> xs = [] \<or> (\<exists>v. xs = [(name, v)])"
  by (cases a) (auto split: if_splits)

lemma evidence_json_inj:
  assumes "evidence_json a = Some j" "evidence_json b = Some j"
  shows "a = b"
proof -
  obtain oa ta where a: "jfloat_omit ''observed_value'' (ae_ObservedValue a) = Some oa" "jfloat_omit ''threshold'' (ae_Threshold a) = Some ta"
    using assms(1) by (auto simp: evidence_json_def split: if_splits option.splits)
  obtain ob tb where b: "jfloat_omit ''observed_value'' (ae_ObservedValue b) = Some ob" "jfloat_omit ''threshold'' (ae_Threshold b) = Some tb"
    using assms(2) by (auto simp: evidence_json_def split: if_splits option.splits)
  have "oa = ob \<and> ta = tb"
    using assms jfloat_omit_keys[OF a(1)] jfloat_omit_keys[OF b(1)] jfloat_omit_keys[OF a(2)] jfloat_omit_keys[OF b(2)]
    by (auto simp: evidence_json_def a b jstr_def split: if_splits)
  then have v: "ae_ObservedValue a = ae_ObservedValue b" "ae_Threshold a = ae_Threshold b"
    using jfloat_omit_eq_iff a b by blast+
  show ?thesis
    using assms v a b
    by (cases a; cases b; cases "ae_Window a"; cases "ae_Window b")
       (auto simp: evidence_json_def jstr_def window_json_def split: if_splits)
qed

lemma ValidateEvidence_hash:
  assumes "ValidateEvidence digest e = None"
  obtains j where "evidence_json (e\<lparr>ae_EvidenceHash := []\<rparr>) = Some j" "ae_EvidenceHash e = hashValue digest j"
  using assms by (auto simp: ValidateEvidence_def EvidenceHash_def split: option.splits if_splits)

text \<open>
  C29.  Evidence is tamper-evident: once a piece of evidence is accepted, no different evidence that
  carries the same hash is accepted, whatever field was changed, as long as the two canonical
  payloads do not collide under SHA-256.\<close>

theorem evidence_tampering_detected:
  assumes "ValidateEvidence digest e = None"
    and "e' \<noteq> e"
    and "ae_EvidenceHash e' = ae_EvidenceHash e"
    and "no_collision digest (the (evidence_json (e\<lparr>ae_EvidenceHash := []\<rparr>))) (the (evidence_json (e'\<lparr>ae_EvidenceHash := []\<rparr>)))"
  shows "ValidateEvidence digest e' \<noteq> None"
proof
  assume ok: "ValidateEvidence digest e' = None"
  obtain j where j: "evidence_json (e\<lparr>ae_EvidenceHash := []\<rparr>) = Some j" "ae_EvidenceHash e = hashValue digest j"
    using assms(1) by (rule ValidateEvidence_hash)
  obtain j' where j': "evidence_json (e'\<lparr>ae_EvidenceHash := []\<rparr>) = Some j'" "ae_EvidenceHash e' = hashValue digest j'"
    using ok by (rule ValidateEvidence_hash)
  have "j = j'" using assms(3,4) j j' hashValue_eq_iff[of digest j j'] by simp
  then have "e\<lparr>ae_EvidenceHash := []\<rparr> = e'\<lparr>ae_EvidenceHash := []\<rparr>" using j(1) j'(1) evidence_json_inj by blast
  then have "e' = e" using assms(3) by (cases e; cases e') simp
  then show False using assms(2) by simp
qed

definition demo_window :: ObservationWindow where
  "demo_window = \<lparr>ow_From = 1000, ow_To = 2000\<rparr>"

definition demo_evidence :: AdapterEvidence where
  "demo_evidence = \<lparr>ae_Status = AdapterPass, ae_ReasonCode = ''THRESHOLD_MET'', ae_Source = ''datadog'', ae_QueryHash = ''q'',
     ae_Window = demo_window, ae_ObservedAt = 2000, ae_ObservedValue = Finite 1, ae_Threshold = Finite 2,
     ae_AdapterVersion = ''datadog/v1'', ae_EvidenceHash = ''sha256:a''\<rparr>"

definition evidence_digest :: "json \<Rightarrow> string" where
  "evidence_digest j = (if Some j = evidence_json (demo_evidence\<lparr>ae_EvidenceHash := []\<rparr>) then ''a'' else ''b'')"

lemma demo_evidence_valid: "ValidateEvidence evidence_digest demo_evidence = None"
proof -
  have "TrimSpace ''THRESHOLD_MET'' \<noteq> []" "TrimSpace ''datadog'' \<noteq> []" "TrimSpace ''q'' \<noteq> []"
    "TrimSpace ''datadog/v1'' \<noteq> []" "TrimSpace ''sha256:a'' \<noteq> []"
    by (rule nonblank; simp)+
  then have "adapter_ValidateEvidence demo_evidence = None"
    by (simp add: adapter_ValidateEvidence_def demo_evidence_def demo_window_def Status_Valid_def)
  moreover have "EvidenceHash evidence_digest demo_evidence = Inr ''sha256:a''"
    by (simp add: EvidenceHash_def evidence_digest_def hashValue_def evidence_json_def demo_evidence_def demo_window_def json_time_def)
  ultimately show ?thesis by (simp add: ValidateEvidence_def demo_evidence_def)
qed

theorem evidence_tampering_detected_witness:
  "ValidateEvidence evidence_digest demo_evidence = None \<and>
   ValidateEvidence evidence_digest (demo_evidence\<lparr>ae_Threshold := Finite 3\<rparr>) \<noteq> None"
proof -
  have "no_collision evidence_digest (the (evidence_json (demo_evidence\<lparr>ae_EvidenceHash := []\<rparr>)))
      (the (evidence_json (demo_evidence\<lparr>ae_Threshold := Finite 3\<rparr>\<lparr>ae_EvidenceHash := []\<rparr>)))"
    by (simp add: no_collision_def evidence_digest_def evidence_json_def demo_evidence_def demo_window_def json_time_def)
  moreover have "demo_evidence\<lparr>ae_Threshold := Finite 3\<rparr> \<noteq> demo_evidence" by (simp add: demo_evidence_def)
  ultimately show ?thesis
    using evidence_tampering_detected[OF demo_evidence_valid, of "demo_evidence\<lparr>ae_Threshold := Finite 3\<rparr>"] demo_evidence_valid by simp
qed

text \<open>
  The verification service behind the Datadog broker: evidence it returns came from the adapter
  with a credential the broker issued for verification of exactly this tenant, service and
  environment, which is allow-listed, with both keys present and more than thirty seconds of
  validity left; and the evidence passed validation.\<close>

theorem verification_credential_scope:
  assumes "vs_Broker s = Some (DatadogBroker_Acquire source allowed now)"
    and "Service_Verify digest s request = Inr e"
  shows "\<exists>verify credential. vs_Adapter s = Some verify \<and> source = Some (Inr credential) \<and> verify request credential = Inr e \<and>
     \<lparr>ct_TenantID = vs_TenantID s, ct_Service = at_Service (vr_Target request), ct_Environment = at_Environment (vr_Target request)\<rparr> \<in> set allowed \<and>
     Credential_Value credential ''api_key'' \<noteq> [] \<and> Credential_Value credential ''app_key'' \<noteq> [] \<and>
     now + 30000000000 < cr_ExpiresAt credential \<and> ValidateEvidence digest e = None"
proof -
  obtain verify credential where 1: "vs_Adapter s = Some verify" "verify request credential = Inr e" "ValidateEvidence digest e = None"
      "DatadogBroker_Acquire source allowed now \<lparr>cq_Provider = ProviderDatadog, cq_TenantID = vs_TenantID s,
         cq_Service = at_Service (vr_Target request), cq_Environment = at_Environment (vr_Target request),
         cq_Purpose = PurposeVerify\<rparr> = Inr credential"
    using assms by (auto simp: Service_Verify_def split: option.splits sum.splits if_splits)
  from 1(4) show ?thesis
    using 1(1-3) by (auto simp: DatadogBroker_Acquire_def target_of_def ValidAt_def split: option.splits sum.splits if_splits)
qed

definition demo_credential :: Credential where
  "demo_credential = \<lparr>cr_values = [(''api_key'', ''k''), (''app_key'', ''l''), (''token'', ''t'')], cr_ExpiresAt = 90000000000\<rparr>"

definition demo_verification_service :: VerificationService where
  "demo_verification_service = \<lparr>vs_TenantID = ''acme'', vs_Adapter = Some (\<lambda>request credential. Inr demo_evidence),
     vs_Broker = Some (DatadogBroker_Acquire (Some (Inr demo_credential)) [\<lparr>ct_TenantID = ''acme'', ct_Service = ''pay'', ct_Environment = ''prod''\<rparr>] 2000)\<rparr>"

definition demo_verification :: VerificationRequest where
  "demo_verification = \<lparr>vr_Target = \<lparr>at_Service = ''pay'', at_Environment = ''prod''\<rparr>, vr_Deployment = no_deployment, vr_Window = demo_window\<rparr>"

theorem verification_credential_scope_witness:
  "Service_Verify evidence_digest demo_verification_service demo_verification = Inr demo_evidence \<and>
   ValidateEvidence evidence_digest demo_evidence = None"
proof -
  have ok: "Service_Verify evidence_digest demo_verification_service demo_verification = Inr demo_evidence"
    by (simp add: Service_Verify_def demo_verification_service_def demo_verification_def DatadogBroker_Acquire_def target_of_def
        Request_Validate_def demo_credential_def Credential_Value_def ValidAt_def demo_evidence_valid)
  have "vs_Broker demo_verification_service = Some (DatadogBroker_Acquire (Some (Inr demo_credential)) [\<lparr>ct_TenantID = ''acme'', ct_Service = ''pay'', ct_Environment = ''prod''\<rparr>] 2000)"
    by (simp add: demo_verification_service_def)
  from verification_credential_scope[OF this ok] ok show ?thesis by blast
qed

end
