(* ===== verification/Go_HTTP.thy ===== *)
theory Go_HTTP
  imports Encoding
begin

text \<open>
  What the provider adapters use of \<^verbatim>\<open>net/http\<close>, \<^verbatim>\<open>net/url\<close> and \<^verbatim>\<open>time\<close>: requests and responses as
  values, the escaping of path segments and query parameters, and RFC 3339 text.  A client is a
  function from a request and the state of the outside world to the next state and a response or a
  transport error.
\<close>

section \<open>Requests, responses and clients\<close>

abbreviation MethodGet :: string where "MethodGet \<equiv> ''GET''"
abbreviation MethodPost :: string where "MethodPost \<equiv> ''POST''"
abbreviation StatusOK :: int where "StatusOK \<equiv> 200"
abbreviation StatusTooManyRequests :: int where "StatusTooManyRequests \<equiv> 429"

text \<open>A body is the JSON tree it encodes, \<open>JNull\<close> where the request has none.\<close>

record HTTPRequest =
  hq_Method :: string
  hq_URL :: string
  hq_Header :: "(string \<times> string) list"
  hq_Body :: json

record HTTPResponse =
  hs_StatusCode :: int
  hs_Body :: string

type_synonym 'x HTTPDoer = "HTTPRequest \<Rightarrow> 'x \<Rightarrow> 'x \<times> (error, HTTPResponse) result"

text \<open>
  A client that notes each exchange next to the state of the world, oldest first.
\<close>

type_synonym exchange = "HTTPRequest \<times> (error, HTTPResponse) result"

definition noting_client :: "'x HTTPDoer \<Rightarrow> ('x \<times> exchange list) HTTPDoer" where
  "noting_client client request = (\<lambda>(x, exchanges). case client request x of
     (x', response) \<Rightarrow> ((x', exchanges @ [(request, response)]), response))"

section \<open>Escaping\<close>

definition unreserved :: "char \<Rightarrow> bool" where
  "unreserved c \<longleftrightarrow> (let n = of_char c :: nat in 48 \<le> n \<and> n < 58 \<or> 65 \<le> n \<and> n < 91 \<or> 97 \<le> n \<and> n < 123)
     \<or> c \<in> set ''-_.~''"

definition upper_hex :: "nat \<Rightarrow> char" where
  "upper_hex n = (if n < 10 then char_of (48 + n) else char_of (55 + n))"

definition percent :: "char \<Rightarrow> string" where
  "percent c = (let n = of_char c :: nat in [CHR ''%'', upper_hex (n div 16), upper_hex (n mod 16)])"

definition PathEscape :: "string \<Rightarrow> string" where
  "PathEscape s = concat (map (\<lambda>c. if unreserved c \<or> c \<in> set ''$&+:=@'' then [c] else percent c) s)"

definition QueryEscape :: "string \<Rightarrow> string" where
  "QueryEscape s = concat (map (\<lambda>c. if unreserved c then [c] else if c = CHR '' '' then ''+'' else percent c) s)"

text \<open>\<^verbatim>\<open>url.Values.Encode\<close> of parameters with one value each, listed by ascending key.\<close>

fun Values_Encode :: "(string \<times> string) list \<Rightarrow> string" where
  "Values_Encode [] = []"
| "Values_Encode [(k, v)] = QueryEscape k @ ''='' @ QueryEscape v"
| "Values_Encode ((k, v) # rest) = QueryEscape k @ ''='' @ QueryEscape v @ ''&'' @ Values_Encode rest"

lemma PathEscape_unreserved: "list_all unreserved s \<Longrightarrow> PathEscape s = s"
  by (induction s) (auto simp: PathEscape_def)

section \<open>Civil time\<close>

text \<open>
  Times count nanoseconds from the first of January of year 1.  The date is computed over eras of 400
  years that start in March.
\<close>

definition civil :: "int \<Rightarrow> int \<times> int \<times> int" where
  "civil days = (let z = days + 306; era = z div 146097; doe = z mod 146097;
     yoe = (doe - doe div 1460 + doe div 36524 - doe div 146096) div 365;
     doy = doe - (365 * yoe + yoe div 4 - yoe div 100);
     mp = (5 * doy + 2) div 153;
     m = (if mp < 10 then mp + 3 else mp - 9) in
     (yoe + era * 400 + (if m \<le> 2 then 1 else 0), m, doy - (153 * mp + 2) div 5 + 1))"

definition padded :: "nat \<Rightarrow> int \<Rightarrow> string" where
  "padded width i = (let digits = nat_text (nat \<bar>i\<bar>) in
     (if i < 0 then ''-'' else []) @ replicate (width - length digits) CHR ''0'' @ digits)"

definition FormatRFC3339 :: "time \<Rightarrow> string" where
  "FormatRFC3339 t = (let s = t div 1000000000; (y, m, d) = civil (s div 86400); r = s mod 86400 in
     padded 4 y @ ''-'' @ padded 2 m @ ''-'' @ padded 2 d @ ''T'' @
     padded 2 (r div 3600) @ '':'' @ padded 2 (r mod 3600 div 60) @ '':'' @ padded 2 (r mod 60) @ ''Z'')"

text \<open>Seconds since the Unix epoch, and the time of a number of milliseconds since it.\<close>

definition time_Seconds :: "time \<Rightarrow> int" where
  "time_Seconds t = t div 1000000000 - 62135596800"

definition UnixMilli :: "int \<Rightarrow> time" where
  "UnixMilli ms = (ms + 62135596800000) * 1000000"

text \<open>\<^verbatim>\<open>time.Time.Sub\<close> saturates at the ends of the 64-bit durations.\<close>

definition time_Sub :: "time \<Rightarrow> time \<Rightarrow> duration" where
  "time_Sub t u = max (- (2 ^ 63)) (min (2 ^ 63 - 1) (t - u))"

end
