(* ===== verification/GitHub_Actions.thy ===== *)
theory GitHub_Actions
  imports Adapter Go_HTTP
begin

text \<open>
  The GitHub Actions adapter (\<^verbatim>\<open>adapters/githubactions\<close>): its allow-list of targets, the dispatch of
  deploy and rollback workflows, and the search for the run of an idempotency key.  The HTTP client,
  the clock, the decoding of GitHub's two JSON answers and SHA-256 are parameters, fields of the
  adapter's record.
\<close>

section \<open>Configuration\<close>

abbreviation apiBaseURL :: string where "apiBaseURL \<equiv> ''https://api.github.com''"
abbreviation githubApiVersion :: string where "githubApiVersion \<equiv> ''2026-03-10''"

definition part_char :: "char \<Rightarrow> bool" where
  "part_char c \<longleftrightarrow> (let n = of_char c :: nat in 48 \<le> n \<and> n < 58 \<or> 65 \<le> n \<and> n < 91 \<or> 97 \<le> n \<and> n < 123)
     \<or> c \<in> set ''_.-''"

definition repositoryPart :: "string \<Rightarrow> bool" where
  "repositoryPart s \<longleftrightarrow> s \<noteq> [] \<and> list_all part_char s"

definition workflowFile :: "string \<Rightarrow> bool" where
  "workflowFile s \<longleftrightarrow> list_all part_char s \<and> (suffix ''.yml'' s \<and> 4 < length s \<or> suffix ''.yaml'' s \<and> 5 < length s)"

definition gitRef :: "string \<Rightarrow> bool" where
  "gitRef s \<longleftrightarrow> s \<noteq> [] \<and> list_all (\<lambda>c. part_char c \<or> c = CHR ''/'') s"

definition Contains :: "string \<Rightarrow> string \<Rightarrow> bool" where
  "Contains s p \<longleftrightarrow> list_ex (prefix p) (suffixes s)"

record TargetKey =
  tk_Service :: string
  tk_Environment :: string

record GitHubTarget =
  gt_Owner :: string
  gt_Repository :: string
  gt_DeployWorkflow :: string
  gt_RollbackWorkflow :: string
  gt_Ref :: string

type_synonym GitHubTargets = "(TargetKey \<times> GitHubTarget) list"

text \<open>Which error is reported depends on the order in which the map is walked; whether there is one does not.\<close>

definition target_error :: "TargetKey \<Rightarrow> GitHubTarget \<Rightarrow> error option" where
  "target_error key target =
     (if TrimSpace (tk_Service key) = [] \<or> TrimSpace (tk_Environment key) = []
      then Some (Errorf ''GitHub Actions target service and environment are required'')
      else if \<not> repositoryPart (gt_Owner target) \<or> \<not> repositoryPart (gt_Repository target)
      then Some (Errorf ''invalid GitHub repository for %s/%s'')
      else if \<not> workflowFile (gt_DeployWorkflow target) \<or> \<not> workflowFile (gt_RollbackWorkflow target)
      then Some (Errorf ''workflow must be a .yml or .yaml basename for %s/%s'')
      else if \<not> gitRef (gt_Ref target) \<or> Contains (gt_Ref target) ''..'' \<or> HasPrefix (gt_Ref target) ''/''
      then Some (Errorf ''invalid GitHub ref for %s/%s'')
      else None)"

fun first_error :: "error option list \<Rightarrow> error option" where
  "first_error [] = None"
| "first_error (Some e # es) = Some e"
| "first_error (None # es) = first_error es"

definition GitHubConfig_Validate :: "GitHubTargets \<Rightarrow> error option" where
  "GitHubConfig_Validate targets =
     (if targets = [] then Some (Errorf ''at least one GitHub Actions target is required'')
      else first_error (map (\<lambda>(key, target). target_error key target) targets))"

section \<open>The adapter\<close>

record workflow_run =
  gr_ID :: int
  gr_DisplayTitle :: string
  gr_Status :: string
  gr_Conclusion :: string
  gr_CreatedAt :: time
  gr_UpdatedAt :: time

text \<open>
  The decoders give the value of \<^verbatim>\<open>workflow_run_id\<close>, zero when it is absent, and the list of
  \<^verbatim>\<open>workflow_runs\<close>; \<open>None\<close> is a decoding error.  A reading of the clock is a step of the world.
\<close>

record 'x GitHubAdapter =
  gh_Targets :: GitHubTargets
  gh_client :: "'x HTTPDoer"
  gh_now :: "'x \<Rightarrow> 'x \<times> time"
  gh_sha256_hex :: "string \<Rightarrow> string"
  gh_decode_dispatch :: "string \<Rightarrow> int option"
  gh_decode_runs :: "string \<Rightarrow> workflow_run list option"

definition GitHub_New :: "'x GitHubAdapter \<Rightarrow> (error, 'x GitHubAdapter) result" where
  "GitHub_New a = (case GitHubConfig_Validate (gh_Targets a) of Some err \<Rightarrow> Inl err | None \<Rightarrow> Inr a)"

definition github_authorize :: "Credential \<Rightarrow> (string \<times> string) list" where
  "github_authorize credential = [(''Accept'', ''application/vnd.github+json''),
     (''Authorization'', ''Bearer '' @ Credential_Value credential ''token''),
     (''Content-Type'', ''application/json''), (''X-GitHub-Api-Version'', githubApiVersion)]"

text \<open>
  The request of a dispatch.  Strings always encode and an escaped path always parses, so the error
  returns after \<^verbatim>\<open>json.Marshal\<close> and \<^verbatim>\<open>http.NewRequestWithContext\<close> are not reached.
\<close>

abbreviation workflow_url :: "GitHubTarget \<Rightarrow> string \<Rightarrow> string" where
  "workflow_url target workflow \<equiv> apiBaseURL @ ''/repos/'' @ PathEscape (gt_Owner target) @ ''/'' @
     PathEscape (gt_Repository target) @ ''/actions/workflows/'' @ PathEscape workflow"

definition dispatch_request :: "GitHubTarget \<Rightarrow> string \<Rightarrow> (string \<times> string) list \<Rightarrow> Credential \<Rightarrow> HTTPRequest" where
  "dispatch_request target workflow inputs credential =
     \<lparr>hq_Method = MethodPost, hq_URL = workflow_url target workflow @ ''/dispatches'', hq_Header = github_authorize credential,
      hq_Body = JObj (jstr ''ref'' (gt_Ref target) @ [(''inputs'', jmap JStr inputs)])\<rparr>"

abbreviation ambiguous_status :: "int \<Rightarrow> bool" where
  "ambiguous_status code \<equiv> code = StatusTooManyRequests \<or> 500 \<le> code"

definition github_dispatch :: "'x GitHubAdapter \<Rightarrow> GitHubTarget \<Rightarrow> string \<Rightarrow> (string \<times> string) list \<Rightarrow> string \<Rightarrow> Credential
    \<Rightarrow> string \<Rightarrow> 'x \<Rightarrow> 'x \<times> (error, AdapterDeployment) result" where
  "github_dispatch a target workflow inputs correlation credential operation x = (case gh_now a x of (x1, now) \<Rightarrow>
     if \<not> ValidAt credential now \<or> Credential_Value credential ''token'' = []
     then (x1, Inl (AdapterError ErrorTerminal (operation @ ''.credential'') correlation (Errorf ''valid GitHub credential required'')))
     else case gh_now a x1 of (x2, started) \<Rightarrow>
       (case gh_client a (dispatch_request target workflow inputs credential) x2 of
          (x3, Inl err) \<Rightarrow>
            (x3, Inl (AdapterError ErrorUnknown (operation @ ''.dispatch'') correlation (Errorf ''GitHub dispatch response unavailable'')))
        | (x3, Inr response) \<Rightarrow>
            if hs_StatusCode response \<noteq> StatusOK
            then (x3, Inl (AdapterError (if ambiguous_status (hs_StatusCode response) then ErrorUnknown else ErrorTerminal)
                     (operation @ ''.dispatch'') correlation (Errorf ''GitHub returned HTTP %d'')))
            else (case gh_decode_dispatch a (take (2 ^ 20) (hs_Body response)) of
                Some runID \<Rightarrow>
                  if runID \<le> 0
                  then (x3, Inl (AdapterError ErrorUnknown (operation @ ''.dispatch'') correlation (Errorf ''GitHub returned no workflow run ID'')))
                  else (x3, Inr \<lparr>ad_ExternalExecutionID = int_text runID, ad_CorrelationID = correlation,
                                 ad_StartedAt = started, ad_FinishedAt = 0\<rparr>)
              | None \<Rightarrow>
                  (x3, Inl (AdapterError ErrorUnknown (operation @ ''.dispatch'') correlation (Errorf ''GitHub returned no workflow run ID''))))))"

abbreviation target_key :: "AdapterTarget \<Rightarrow> TargetKey" where
  "target_key target \<equiv> \<lparr>tk_Service = at_Service target, tk_Environment = at_Environment target\<rparr>"

abbreviation deploy_inputs :: "(string \<Rightarrow> string) \<Rightarrow> DeployRequest \<Rightarrow> (string \<times> string) list" where
  "deploy_inputs sha256_hex request \<equiv>
     [(''themisy_artifact_digest'', dq_ArtifactDigest request), (''themisy_environment'', at_Environment (dq_Target request)),
      (''themisy_idempotency_key'', CorrelationID sha256_hex (dq_IdempotencyKey request)),
      (''themisy_service'', at_Service (dq_Target request))]"

definition GitHub_Deploy :: "'x GitHubAdapter \<Rightarrow> 'x \<Rightarrow> DeployRequest \<Rightarrow> Credential \<Rightarrow> 'x \<times> (error, AdapterDeployment) result" where
  "GitHub_Deploy a x request credential = (case ValidateDeployRequest request of
       Some err \<Rightarrow> (x, Inl (AdapterError ErrorTerminal ''deploy.validate'' [] err))
     | None \<Rightarrow> (case map_of (gh_Targets a) (target_key (dq_Target request)) of
         None \<Rightarrow> (x, Inl (AdapterError ErrorTerminal ''deploy.target'' [] (Errorf ''target is not allow-listed'')))
       | Some target \<Rightarrow> github_dispatch a target (gt_DeployWorkflow target) (deploy_inputs (gh_sha256_hex a) request)
             (CorrelationID (gh_sha256_hex a) (dq_IdempotencyKey request)) credential ''deploy'' x))"

abbreviation rollback_inputs :: "(string \<Rightarrow> string) \<Rightarrow> RollbackRequest \<Rightarrow> (string \<times> string) list" where
  "rollback_inputs sha256_hex request \<equiv>
     [(''themisy_environment'', at_Environment (rq2_Target request)),
      (''themisy_idempotency_key'', CorrelationID sha256_hex (rq2_IdempotencyKey request)),
      (''themisy_original_execution_id'', ad_ExternalExecutionID (rq2_OriginalDeployment request)),
      (''themisy_service'', at_Service (rq2_Target request))]"

definition GitHub_Rollback :: "'x GitHubAdapter \<Rightarrow> 'x \<Rightarrow> RollbackRequest \<Rightarrow> Credential \<Rightarrow> 'x \<times> (error, AdapterDeployment) result" where
  "GitHub_Rollback a x request credential = (case ValidateRollbackRequest request of
       Some err \<Rightarrow> (x, Inl (AdapterError ErrorTerminal ''rollback.validate'' [] err))
     | None \<Rightarrow> (case map_of (gh_Targets a) (target_key (rq2_Target request)) of
         None \<Rightarrow> (x, Inl (AdapterError ErrorTerminal ''rollback.target'' [] (Errorf ''target is not allow-listed'')))
       | Some target \<Rightarrow> github_dispatch a target (gt_RollbackWorkflow target) (rollback_inputs (gh_sha256_hex a) request)
             (CorrelationID (gh_sha256_hex a) (rq2_IdempotencyKey request)) credential ''rollback'' x))"


section \<open>Reconciliation\<close>

abbreviation correlationRunNamePrefix :: string where "correlationRunNamePrefix \<equiv> ''themisy:''"

definition mapRunStatus :: "string \<Rightarrow> string \<Rightarrow> ReconcileStatus" where
  "mapRunStatus status conclusion =
     (if status \<noteq> ''completed'' then ReconcilePending
      else if conclusion = ''success'' then ReconcileSucceeded
      else ReconcileFailed)"

definition validRunTitle :: "string \<Rightarrow> string \<Rightarrow> bool" where
  "validRunTitle title correlation \<longleftrightarrow> TrimSpace title = correlationRunNamePrefix @ correlation"

definition list_request :: "GitHubTarget \<Rightarrow> string \<Rightarrow> time \<Rightarrow> Credential \<Rightarrow> HTTPRequest" where
  "list_request target workflow dispatchedAt credential =
     \<lparr>hq_Method = MethodGet,
      hq_URL = workflow_url target workflow @ ''/runs?'' @
        Values_Encode [(''created'', ''>='' @ FormatRFC3339 (dispatchedAt - 60000000000)), (''event'', ''workflow_dispatch''), (''per_page'', ''100'')],
      hq_Header = github_authorize credential, hq_Body = JNull\<rparr>"

definition matches :: "string \<Rightarrow> workflow_run \<Rightarrow> bool" where
  "matches correlation run \<longleftrightarrow> 0 < gr_ID run \<and> validRunTitle (gr_DisplayTitle run) correlation"

abbreviation run_result :: "string \<Rightarrow> workflow_run \<Rightarrow> ReconcileResult" where
  "run_result correlation run \<equiv> \<lparr>rcr_Status = mapRunStatus (gr_Status run) (gr_Conclusion run),
     rcr_Deployment = \<lparr>ad_ExternalExecutionID = int_text (gr_ID run), ad_CorrelationID = correlation,
       ad_StartedAt = gr_CreatedAt run, ad_FinishedAt = gr_UpdatedAt run\<rparr>\<rparr>"

definition findRun :: "'x GitHubAdapter \<Rightarrow> GitHubTarget \<Rightarrow> string \<Rightarrow> time \<Rightarrow> string \<Rightarrow> Credential \<Rightarrow> 'x
    \<Rightarrow> 'x \<times> (error, ReconcileResult option) result" where
  "findRun a target workflow dispatchedAt correlation credential x =
     (case gh_client a (list_request target workflow dispatchedAt credential) x of
        (x', Inl err) \<Rightarrow> (x', Inl (AdapterError ErrorRetryable ''reconcile.list'' correlation (Errorf ''GitHub workflow runs unavailable'')))
      | (x', Inr response) \<Rightarrow>
          if hs_StatusCode response \<noteq> StatusOK
          then (x', Inl (AdapterError (if ambiguous_status (hs_StatusCode response) then ErrorRetryable else ErrorTerminal)
                   ''reconcile.list'' correlation (Errorf ''GitHub returned HTTP %d'')))
          else (case gh_decode_runs a (take (2 ^ 22) (hs_Body response)) of
              None \<Rightarrow> (x', Inl (AdapterError ErrorRetryable ''reconcile.decode'' correlation (Errorf ''invalid GitHub workflow run response'')))
            | Some runs \<Rightarrow> (x', Inr (map_option (run_result correlation) (find (matches correlation) runs)))))"

text \<open>The loop over the targets by service and environment, each with its two workflows; \<open>seen\<close> holds the workflows asked so far.\<close>

definition workflow_identity :: "GitHubTarget \<Rightarrow> string \<Rightarrow> string" where
  "workflow_identity target workflow = gt_Owner target @ [CHR 0x00] @ gt_Repository target @ [CHR 0x00] @ workflow"

fun search :: "'x GitHubAdapter \<Rightarrow> time \<Rightarrow> string \<Rightarrow> Credential \<Rightarrow> string list \<Rightarrow> (GitHubTarget \<times> string) list \<Rightarrow> 'x
    \<Rightarrow> 'x \<times> (error, ReconcileResult) result" where
  "search a dispatchedAt correlation credential seen [] x = (x, Inr \<lparr>rcr_Status = ReconcileNotFound, rcr_Deployment = no_deployment\<rparr>)"
| "search a dispatchedAt correlation credential seen ((target, workflow) # rest) x =
     (if workflow_identity target workflow \<in> set seen then search a dispatchedAt correlation credential seen rest x
      else (case findRun a target workflow dispatchedAt correlation credential x of
          (x', Inl err) \<Rightarrow> (x', Inl err)
        | (x', Inr (Some result)) \<Rightarrow> (x', Inr result)
        | (x', Inr None) \<Rightarrow>
            search a dispatchedAt correlation credential (workflow_identity target workflow # seen) rest x'))"

definition workflows_of :: "GitHubTargets \<Rightarrow> (GitHubTarget \<times> string) list" where
  "workflows_of targets = concat (map (\<lambda>key. case map_of targets key of
       None \<Rightarrow> []
     | Some target \<Rightarrow> [(target, gt_DeployWorkflow target), (target, gt_RollbackWorkflow target)])
     (sort_key (\<lambda>key. (tk_Service key, tk_Environment key)) (remdups (map fst targets))))"

definition GitHub_Reconcile :: "'x GitHubAdapter \<Rightarrow> 'x \<Rightarrow> ReconcileRequest \<Rightarrow> Credential \<Rightarrow> 'x \<times> (error, ReconcileResult) result" where
  "GitHub_Reconcile a x request credential =
     (if rc_IdempotencyKey request = [] \<or> rc_DispatchedAt request = 0
      then (x, Inl (AdapterError ErrorTerminal ''reconcile.validate'' [] (Errorf ''idempotency key and dispatch time are required'')))
      else case gh_now a x of (x1, now) \<Rightarrow>
        if \<not> ValidAt credential now \<or> Credential_Value credential ''token'' = []
        then (x1, Inl (AdapterError ErrorTerminal ''reconcile.credential'' [] (Errorf ''valid GitHub credential required'')))
        else search a (rc_DispatchedAt request) (CorrelationID (gh_sha256_hex a) (rc_IdempotencyKey request)) credential []
               (workflows_of (gh_Targets a)) x1)"

definition github_adapter :: "'x GitHubAdapter \<Rightarrow> 'x DeployAdapter" where
  "github_adapter a = \<lparr>da_Deploy = GitHub_Deploy a, da_Rollback = GitHub_Rollback a, da_Reconcile = GitHub_Reconcile a\<rparr>"

end
