(* ===== verification/Protocol.thy ===== *)
theory Protocol
  imports Domain Encoding
begin

text \<open>
  The wire protocol between control plane and runner (\<^verbatim>\<open>pkg/protocol\<close>) and the signing and
  verification of action grants (\<^verbatim>\<open>internal/grant\<close>).  The Ed25519 primitives are parameters:
  \<open>ed25519_Sign key payload\<close> and \<open>ed25519_Verify key payload signature\<close>.  A payload is the value
  tree that \<^verbatim>\<open>json.Marshal\<close> writes.
\<close>

section \<open>Messages\<close>

abbreviation VersionV1Alpha1 :: string where "VersionV1Alpha1 \<equiv> ''themisy.protocol/v1alpha1''"

abbreviation ProtocolDeploy :: string where "ProtocolDeploy \<equiv> ''release.deploy''"
abbreviation ProtocolRollback :: string where "ProtocolRollback \<equiv> ''release.rollback''"

record Signature =
  sig_Algorithm :: string
  sig_KeyID :: string
  sig_Value :: string

definition no_signature :: Signature where
  "no_signature = \<lparr>sig_Algorithm = [], sig_KeyID = [], sig_Value = []\<rparr>"

record Action =
  act_Capability :: string
  act_ArtifactDigest :: string
  act_ExternalExecutionID :: string

record Target =
  tgt_Service :: string
  tgt_Environment :: string

record ActionGrant =
  ag_ProtocolVersion :: string
  ag_GrantID :: string
  ag_Issuer :: string
  ag_TenantID :: string
  ag_RunnerGroup :: string
  ag_RunID :: string
  ag_StepID :: string
  ag_SubjectType :: string
  ag_UserSubject :: string
  ag_UserIdentityProof :: string
  ag_AgentID :: string
  ag_DelegationRef :: string
  ag_Target :: Target
  ag_Action :: Action
  ag_Risk :: string
  ag_PlanHash :: string
  ag_ContractHash :: string
  ag_ProfileHash :: string
  ag_PolicyHash :: string
  ag_PolicyInputHash :: string
  ag_EvidenceHash :: string
  ag_ApprovalProofs :: "string list"
  ag_IdempotencyKey :: string
  ag_Nonce :: string
  ag_IssuedAt :: time
  ag_ExpiresAt :: time
  ag_Signature :: Signature

datatype ResultStatus = ResultSucceeded | ResultRejected | ResultUnknown | ResultReconciliation | ResultEmpty

record Result =
  rr_ProtocolVersion :: string
  rr_GrantID :: string
  rr_RunID :: string
  rr_StepID :: string
  rr_Status :: ResultStatus
  rr_ReasonCode :: string
  rr_ExternalExecutionID :: string
  rr_CompletedAt :: time
  rr_Signature :: Signature

definition SigningCopy :: "ActionGrant \<Rightarrow> ActionGrant" where
  "SigningCopy g = g\<lparr>ag_Signature := no_signature, ag_ApprovalProofs := sort (ag_ApprovalProofs g)\<rparr>"

section \<open>Shape of a grant\<close>

definition ValidateVersion :: "string \<Rightarrow> error option" where
  "ValidateVersion version =
     (if version \<noteq> VersionV1Alpha1 then Some (Errorf ''UNSUPPORTED_PROTOCOL_VERSION: %q'') else None)"

definition required_fields :: "ActionGrant \<Rightarrow> string list" where
  "required_fields g = [ag_GrantID g, ag_Issuer g, ag_TenantID g, ag_RunnerGroup g, ag_RunID g, ag_StepID g,
     ag_SubjectType g, ag_UserSubject g, ag_UserIdentityProof g, ag_AgentID g, ag_DelegationRef g,
     tgt_Service (ag_Target g), tgt_Environment (ag_Target g), act_Capability (ag_Action g),
     act_ArtifactDigest (ag_Action g), ag_Risk g, ag_PlanHash g, ag_ContractHash g, ag_ProfileHash g,
     ag_PolicyHash g, ag_PolicyInputHash g, ag_EvidenceHash g, ag_IdempotencyKey g, ag_Nonce g]"

definition digest_fields :: "ActionGrant \<Rightarrow> string list" where
  "digest_fields g = [act_ArtifactDigest (ag_Action g), ag_PlanHash g, ag_ContractHash g, ag_ProfileHash g,
     ag_PolicyHash g, ag_PolicyInputHash g, ag_EvidenceHash g]"

definition validateGrantShape :: "ActionGrant \<Rightarrow> error option" where
  "validateGrantShape g = (case ValidateVersion (ag_ProtocolVersion g) of
       Some err \<Rightarrow> Some err
     | None \<Rightarrow>
         if \<not> list_all (\<lambda>value. TrimSpace value \<noteq> []) (required_fields g)
         then Some (Errorf ''INVALID_ACTION_GRANT: %s is required'')
         else if ag_SubjectType g \<noteq> ''user'' \<and> ag_SubjectType g \<noteq> ''ci''
         then Some (Errorf ''INVALID_ACTION_GRANT: subject_type must be user or ci'')
         else if ag_IssuedAt g = 0 \<or> ag_ExpiresAt g = 0 \<or> \<not> ag_IssuedAt g < ag_ExpiresAt g
         then Some (Errorf ''INVALID_ACTION_GRANT: valid issued_at and expires_at are required'')
         else if \<not> list_all sha256_digest (digest_fields g)
         then Some (Errorf ''INVALID_ACTION_GRANT: %s must be a sha256 digest'')
         else if act_Capability (ag_Action g) = ProtocolDeploy then
           (if act_ExternalExecutionID (ag_Action g) \<noteq> []
            then Some (Errorf ''INVALID_ACTION_GRANT: deploy cannot name an external execution'') else None)
         else if act_Capability (ag_Action g) = ProtocolRollback then
           (if TrimSpace (act_ExternalExecutionID (ag_Action g)) = []
            then Some (Errorf ''INVALID_ACTION_GRANT: rollback requires external_execution_id'') else None)
         else Some (Errorf ''INVALID_ACTION_GRANT: unsupported capability %q''))"

section \<open>Canonical payload\<close>

definition signature_json :: "Signature \<Rightarrow> json" where
  "signature_json s = JObj (jstr ''algorithm'' (sig_Algorithm s) @ jstr ''key_id'' (sig_KeyID s) @
     jstr ''value'' (sig_Value s))"

definition target_json :: "Target \<Rightarrow> json" where
  "target_json t = JObj (jstr ''service'' (tgt_Service t) @ jstr ''environment'' (tgt_Environment t))"

definition action_json :: "Action \<Rightarrow> json" where
  "action_json a = JObj (jstr ''capability'' (act_Capability a) @ jstr ''artifact_digest'' (act_ArtifactDigest a) @
     jstr_omit ''external_execution_id'' (act_ExternalExecutionID a))"

definition grant_json :: "ActionGrant \<Rightarrow> json" where
  "grant_json g = JObj (jstr ''protocol_version'' (ag_ProtocolVersion g) @ jstr ''grant_id'' (ag_GrantID g) @
     jstr ''issuer'' (ag_Issuer g) @ jstr ''tenant_id'' (ag_TenantID g) @ jstr ''runner_group'' (ag_RunnerGroup g) @
     jstr ''run_id'' (ag_RunID g) @ jstr ''step_id'' (ag_StepID g) @ jstr ''subject_type'' (ag_SubjectType g) @
     jstr ''user_subject'' (ag_UserSubject g) @ jstr ''user_identity_proof'' (ag_UserIdentityProof g) @
     jstr ''agent_id'' (ag_AgentID g) @ jstr ''delegation_ref'' (ag_DelegationRef g) @
     [(''target'', target_json (ag_Target g)), (''action'', action_json (ag_Action g))] @
     jstr ''risk'' (ag_Risk g) @ jstr ''plan_hash'' (ag_PlanHash g) @ jstr ''contract_hash'' (ag_ContractHash g) @
     jstr ''profile_hash'' (ag_ProfileHash g) @ jstr ''policy_hash'' (ag_PolicyHash g) @
     jstr ''policy_input_hash'' (ag_PolicyInputHash g) @ jstr ''evidence_hash'' (ag_EvidenceHash g) @
     jarr ''approval_proofs'' JStr (ag_ApprovalProofs g) @ jstr ''idempotency_key'' (ag_IdempotencyKey g) @
     jstr ''nonce'' (ag_Nonce g) @
     [(''issued_at'', JTime (ag_IssuedAt g)), (''expires_at'', JTime (ag_ExpiresAt g)),
      (''signature'', signature_json (ag_Signature g))])"

definition CanonicalGrantPayload :: "ActionGrant \<Rightarrow> (error, json) result" where
  "CanonicalGrantPayload g = (let copy = SigningCopy g in
     case validateGrantShape copy of
       Some err \<Rightarrow> Inl err
     | None \<Rightarrow> if json_time (ag_IssuedAt copy) \<and> json_time (ag_ExpiresAt copy) then Inr (grant_json copy)
               else Inl (Errorf ''json: error calling MarshalJSON for type time.Time''))"

definition GrantHash :: "(json \<Rightarrow> string) \<Rightarrow> ActionGrant \<Rightarrow> (error, string) result" where
  "GrantHash digest g = (case CanonicalGrantPayload g of
       Inl err \<Rightarrow> Inl err
     | Inr payload \<Rightarrow> Inr (hashValue digest payload))"

definition EncodeActionGrant :: "ActionGrant \<Rightarrow> (error, json) result" where
  "EncodeActionGrant g = (case CanonicalGrantPayload g of
       Inl err \<Rightarrow> Inl err
     | Inr _ \<Rightarrow> Inr (grant_json g))"

section \<open>Signing\<close>

abbreviation AlgorithmEd25519 :: string where "AlgorithmEd25519 \<equiv> ''Ed25519''"

type_synonym signer = "json \<Rightarrow> (error, Signature) result"

record KMSSigner =
  kms_Client :: "(string \<Rightarrow> json \<Rightarrow> (error, string) result) option"
  kms_KeyID :: string
  kms_Algorithm :: string

definition KMSSigner_Sign :: "KMSSigner \<Rightarrow> signer" where
  "KMSSigner_Sign s payload = (case kms_Client s of
       None \<Rightarrow> Inl (Errorf ''KMS signer is not configured'')
     | Some client \<Rightarrow>
         if kms_KeyID s = [] \<or> kms_Algorithm s = [] then Inl (Errorf ''KMS signer is not configured'')
         else case client (kms_KeyID s) payload of
             Inl err \<Rightarrow> Inl (Wrapf ''KMS sign: %w'' err)
           | Inr bytes \<Rightarrow> Inr \<lparr>sig_Algorithm = kms_Algorithm s, sig_KeyID = kms_KeyID s,
                               sig_Value = EncodeToString bytes\<rparr>)"

record DevelopmentSigner =
  dev_keyID :: string
  dev_key :: string

text \<open>\<^verbatim>\<open>ed25519.GenerateKey\<close> is the parameter \<open>generated\<close>: the key pair it returns, public key first.\<close>

definition NewDevelopmentSigner :: "(error, string \<times> string) result \<Rightarrow> string
    \<Rightarrow> (error, DevelopmentSigner \<times> string) result" where
  "NewDevelopmentSigner generated keyID =
     (if keyID = [] then Inl (Errorf ''development key id is required'')
      else case generated of
          Inl err \<Rightarrow> Inl err
        | Inr (public, private) \<Rightarrow> Inr (\<lparr>dev_keyID = keyID, dev_key = private\<rparr>, public))"

definition DevelopmentSigner_Sign :: "(string \<Rightarrow> json \<Rightarrow> string) \<Rightarrow> DevelopmentSigner \<Rightarrow> signer" where
  "DevelopmentSigner_Sign ed25519_Sign s payload =
     (if length (dev_key s) \<noteq> 64 then Inl (Errorf ''development signer is not initialized'')
      else Inr \<lparr>sig_Algorithm = AlgorithmEd25519, sig_KeyID = dev_keyID s,
                sig_Value = EncodeToString (ed25519_Sign (dev_key s) payload)\<rparr>)"

definition SignActionGrant :: "signer \<Rightarrow> ActionGrant \<Rightarrow> (error, ActionGrant) result" where
  "SignActionGrant sign g = (case CanonicalGrantPayload g of
       Inl err \<Rightarrow> Inl err
     | Inr payload \<Rightarrow> (case sign payload of
           Inl err \<Rightarrow> Inl err
         | Inr signature \<Rightarrow> Inr (g\<lparr>ag_Signature := signature\<rparr>)))"

section \<open>Verification\<close>

abbreviation ErrInvalidProtocol :: error where "ErrInvalidProtocol \<equiv> Sentinel ''INVALID_PROTOCOL_VERSION''"
abbreviation ErrInvalidSignature :: error where "ErrInvalidSignature \<equiv> Sentinel ''INVALID_GRANT_SIGNATURE''"
abbreviation ErrInvalidIssuer :: error where "ErrInvalidIssuer \<equiv> Sentinel ''INVALID_GRANT_ISSUER''"
abbreviation ErrWrongAudience :: error where "ErrWrongAudience \<equiv> Sentinel ''WRONG_RUNNER_AUDIENCE''"
abbreviation ErrWrongTenant :: error where "ErrWrongTenant \<equiv> Sentinel ''WRONG_TENANT''"
abbreviation ErrExpired :: error where "ErrExpired \<equiv> Sentinel ''EXPIRED_GRANT''"

type_synonym key_resolver = "string \<Rightarrow> string \<Rightarrow> (error, string) result"

definition ResolveGrantKey :: "(string \<times> string) list \<Rightarrow> key_resolver" where
  "ResolveGrantKey keys issuer keyID = (case map_of keys (issuer @ [CHR 0x00] @ keyID) of
       None \<Rightarrow> Inl (Errorf ''unknown grant key'')
     | Some key \<Rightarrow> Inr key)"

record Verifier =
  ver_Issuer :: string
  ver_RunnerGroup :: string
  ver_TenantID :: string
  ver_Keys :: "key_resolver option"
  ver_ClockSkew :: duration

definition signature_valid :: "(string \<Rightarrow> json \<Rightarrow> string \<Rightarrow> bool) \<Rightarrow> string \<Rightarrow> json \<Rightarrow> string \<Rightarrow> bool" where
  "signature_valid ed25519_Verify key payload text = (case DecodeString text of
       None \<Rightarrow> False
     | Some bytes \<Rightarrow> ed25519_Verify key payload bytes)"

definition Verifier_Verify :: "(string \<Rightarrow> json \<Rightarrow> string \<Rightarrow> bool) \<Rightarrow> Verifier \<Rightarrow> time \<Rightarrow> ActionGrant \<Rightarrow> error option" where
  "Verifier_Verify ed25519_Verify v now g =
     (if ValidateVersion (ag_ProtocolVersion g) \<noteq> None then Some (Wrapf ''%w: %v'' ErrInvalidProtocol)
      else case CanonicalGrantPayload g of
        Inl _ \<Rightarrow> Some (Wrapf ''%w: %v'' ErrInvalidSignature)
      | Inr payload \<Rightarrow>
          if sig_Algorithm (ag_Signature g) \<noteq> AlgorithmEd25519 \<or> sig_KeyID (ag_Signature g) = []
             \<or> sig_Value (ag_Signature g) = [] then Some ErrInvalidSignature
          else if ag_Issuer g \<noteq> ver_Issuer v then Some ErrInvalidIssuer
          else if ag_RunnerGroup g \<noteq> ver_RunnerGroup v then Some ErrWrongAudience
          else if ver_TenantID v = [] \<or> ag_TenantID g \<noteq> ver_TenantID v then Some ErrWrongTenant
          else case ver_Keys v of
            None \<Rightarrow> Some (Wrapf ''%w: key resolver unavailable'' ErrInvalidSignature)
          | Some keys \<Rightarrow> (case keys (ag_Issuer g) (sig_KeyID (ag_Signature g)) of
              Inl _ \<Rightarrow> Some (Wrapf ''%w: %v'' ErrInvalidSignature)
            | Inr key \<Rightarrow>
                if \<not> signature_valid ed25519_Verify key payload (sig_Value (ag_Signature g)) then Some ErrInvalidSignature
                else if now + ver_ClockSkew v < ag_IssuedAt g \<or> \<not> now - ver_ClockSkew v < ag_ExpiresAt g
                then Some ErrExpired
                else None))"

section \<open>The payload determines the grant\<close>


lemma signature_json_eq_iff: "signature_json a = signature_json b \<longleftrightarrow> a = b"
  by (cases a; cases b) (simp add: signature_json_def jstr_def)

lemma target_json_eq_iff: "target_json a = target_json b \<longleftrightarrow> a = b"
  by (cases a; cases b) (simp add: target_json_def jstr_def)

lemma action_json_eq_iff: "action_json a = action_json b \<longleftrightarrow> a = b"
  by (cases a; cases b) (auto simp: action_json_def jstr_def jstr_omit_def)

lemmas message_json_eq_iff = signature_json_eq_iff target_json_eq_iff action_json_eq_iff

lemma grant_json_eq_iff: "grant_json a = grant_json b \<longleftrightarrow> a = b"
  by (cases a; cases b) (auto simp: grant_json_def jstr_def jarr_def message_json_eq_iff inj_map_eq_map)

lemma CanonicalGrantPayload_Inr:
  "CanonicalGrantPayload g = Inr payload \<longleftrightarrow>
     validateGrantShape (SigningCopy g) = None \<and> json_time (ag_IssuedAt g) \<and> json_time (ag_ExpiresAt g) \<and>
     payload = grant_json (SigningCopy g)"
  by (auto simp: CanonicalGrantPayload_def Let_def SigningCopy_def split: option.splits)

lemma CanonicalGrantPayload_signature [simp]:
  "CanonicalGrantPayload (g\<lparr>ag_Signature := s\<rparr>) = CanonicalGrantPayload g"
  by (simp add: CanonicalGrantPayload_def SigningCopy_def)

lemma CanonicalGrantPayload_version:
  "CanonicalGrantPayload g = Inr payload \<Longrightarrow> ValidateVersion (ag_ProtocolVersion g) = None"
  by (auto simp: CanonicalGrantPayload_Inr validateGrantShape_def SigningCopy_def split: option.splits)

lemma same_payload:
  assumes "CanonicalGrantPayload g = Inr payload" and "CanonicalGrantPayload g' = Inr payload"
  shows "SigningCopy g = SigningCopy g'"
  using assms by (simp add: CanonicalGrantPayload_Inr grant_json_eq_iff)

lemma verify_signed:
  assumes "SignActionGrant (DevelopmentSigner_Sign ed25519_Sign signer) g = Inr signed"
    and "\<forall>m. length (ed25519_Sign (dev_key signer) m) = 64 \<and> ed25519_Verify public m (ed25519_Sign (dev_key signer) m)"
    and "dev_keyID signer \<noteq> []"
    and "ver_Issuer v = ag_Issuer g" "ver_RunnerGroup v = ag_RunnerGroup g" "ver_TenantID v = ag_TenantID g"
    and "ver_Keys v = Some keys" "keys (ag_Issuer g) (dev_keyID signer) = Inr public"
  shows "Verifier_Verify ed25519_Verify v now signed =
           (if ag_IssuedAt g \<le> now + ver_ClockSkew v \<and> now - ver_ClockSkew v < ag_ExpiresAt g then None
            else Some ErrExpired)"
proof -
  obtain payload where p: "CanonicalGrantPayload g = Inr payload"
    and signed: "signed = g\<lparr>ag_Signature := \<lparr>sig_Algorithm = AlgorithmEd25519, sig_KeyID = dev_keyID signer,
                sig_Value = EncodeToString (ed25519_Sign (dev_key signer) payload)\<rparr>\<rparr>"
    using assms(1) by (auto simp: SignActionGrant_def DevelopmentSigner_Sign_def split: sum.splits if_splits)
  have "ag_TenantID g \<noteq> []"
  proof
    assume "ag_TenantID g = []"
    moreover have "TrimSpace (ag_TenantID g) \<noteq> []"
      using p by (auto simp: CanonicalGrantPayload_Inr validateGrantShape_def SigningCopy_def required_fields_def
          split: option.splits if_splits)
    moreover have "TrimSpace [] = []" by simp
    ultimately show False by simp
  qed
  moreover have "ed25519_Sign (dev_key signer) payload \<noteq> []"
    using assms(2) by (metis list.size(3) zero_neq_numeral)
  ultimately show ?thesis
    using assms(2-8) p CanonicalGrantPayload_version[OF p]
    by (auto simp: Verifier_Verify_def signed signature_valid_def)
qed

text \<open>
  Signing and verifying fit together: a grant signed with the development signer is accepted
  by a verifier that is set up for the grant's issuer, audience and tenant and knows the signer's
  public key, exactly while the clock, give or take the allowed skew, is within the validity of the
  grant; outside it the only error is \<^verbatim>\<open>EXPIRED_GRANT\<close>.  Of Ed25519 the statement uses that a
  signature of 64 bytes made with the private key verifies under the public key.
\<close>

theorem signed_grant_verifies:
  assumes "SignActionGrant (DevelopmentSigner_Sign ed25519_Sign signer) g = Inr signed"
    and "\<forall>m. length (ed25519_Sign (dev_key signer) m) = 64 \<and> ed25519_Verify public m (ed25519_Sign (dev_key signer) m)"
    and "dev_keyID signer \<noteq> []"
    and "ver_Issuer v = ag_Issuer g" "ver_RunnerGroup v = ag_RunnerGroup g" "ver_TenantID v = ag_TenantID g"
    and "ver_Keys v = Some keys" "keys (ag_Issuer g) (dev_keyID signer) = Inr public"
  shows "Verifier_Verify ed25519_Verify v now signed =
           (if ag_IssuedAt g \<le> now + ver_ClockSkew v \<and> now - ver_ClockSkew v < ag_ExpiresAt g then None
            else Some ErrExpired)"
  using assms by (rule verify_signed)

lemma verified_issued:
  assumes "Verifier_Verify ed25519_Verify v now g = None"
    and "ver_Keys v = Some keys" "keys (ag_Issuer g) (sig_KeyID (ag_Signature g)) = Inr public"
    and "\<forall>m s. ed25519_Verify public m s \<longrightarrow> (\<exists>i \<in> set issued. CanonicalGrantPayload i = Inr m)"
  shows "(\<exists>i \<in> set issued. g = i\<lparr>ag_ApprovalProofs := ag_ApprovalProofs g, ag_Signature := ag_Signature g\<rparr> \<and>
            mset (ag_ApprovalProofs g) = mset (ag_ApprovalProofs i)) \<and>
         ag_Issuer g = ver_Issuer v \<and> ag_RunnerGroup g = ver_RunnerGroup v \<and> ag_TenantID g = ver_TenantID v \<and>
         ag_IssuedAt g \<le> now + ver_ClockSkew v \<and> now - ver_ClockSkew v < ag_ExpiresAt g"
proof -
  obtain payload s where p: "CanonicalGrantPayload g = Inr payload" and s: "ed25519_Verify public payload s"
    and rest: "ag_Issuer g = ver_Issuer v" "ag_RunnerGroup g = ver_RunnerGroup v" "ag_TenantID g = ver_TenantID v"
      "ag_IssuedAt g \<le> now + ver_ClockSkew v" "now - ver_ClockSkew v < ag_ExpiresAt g"
    using assms(1-3)
    by (auto simp: Verifier_Verify_def signature_valid_def split: sum.splits if_splits option.splits)
  obtain i where i: "i \<in> set issued" "CanonicalGrantPayload i = Inr payload" using assms(4) s by blast
  have "SigningCopy g = SigningCopy i" by (rule same_payload[OF p i(2)])
  then have "g = i\<lparr>ag_ApprovalProofs := ag_ApprovalProofs g, ag_Signature := ag_Signature g\<rparr>"
    and "sort (ag_ApprovalProofs g) = sort (ag_ApprovalProofs i)"
    by (cases g; cases i; simp add: SigningCopy_def)+
  then show ?thesis using i(1) rest by (metis mset_sort)
qed

text \<open>
  C10.  A grant that verifies is one that was issued: assume that under the resolved key only
  payloads verify which the issuer signed.  Then the accepted grant agrees with an issued grant in
  every field apart from the signature and the order of the approval proofs, it names the
  verifier's issuer, runner group and tenant, and the clock is within its validity.
\<close>

theorem verified_grant_was_issued:
  assumes "Verifier_Verify ed25519_Verify v now g = None"
    and "ver_Keys v = Some keys" "keys (ag_Issuer g) (sig_KeyID (ag_Signature g)) = Inr public"
    and "\<forall>m s. ed25519_Verify public m s \<longrightarrow> (\<exists>i \<in> set issued. CanonicalGrantPayload i = Inr m)"
  shows "(\<exists>i \<in> set issued. g = i\<lparr>ag_ApprovalProofs := ag_ApprovalProofs g, ag_Signature := ag_Signature g\<rparr> \<and>
            mset (ag_ApprovalProofs g) = mset (ag_ApprovalProofs i)) \<and>
         ag_Issuer g = ver_Issuer v \<and> ag_RunnerGroup g = ver_RunnerGroup v \<and> ag_TenantID g = ver_TenantID v \<and>
         ag_IssuedAt g \<le> now + ver_ClockSkew v \<and> now - ver_ClockSkew v < ag_ExpiresAt g"
  using assms by (rule verified_issued)

section \<open>A concrete grant\<close>

definition zero_digest :: string where
  "zero_digest = ''sha256:'' @ replicate 64 CHR ''0''"

definition demo_grant :: ActionGrant where
  "demo_grant = \<lparr>ag_ProtocolVersion = VersionV1Alpha1, ag_GrantID = ''grant'', ag_Issuer = ''issuer'',
     ag_TenantID = ''tenant'', ag_RunnerGroup = ''group'', ag_RunID = ''run'', ag_StepID = ''api'',
     ag_SubjectType = ''user'', ag_UserSubject = ''alice'', ag_UserIdentityProof = ''aA.cA.cw'', ag_AgentID = ''bot'',
     ag_DelegationRef = ''delegation'', ag_Target = \<lparr>tgt_Service = ''api'', tgt_Environment = ''staging''\<rparr>,
     ag_Action = \<lparr>act_Capability = ProtocolDeploy, act_ArtifactDigest = zero_digest, act_ExternalExecutionID = []\<rparr>,
     ag_Risk = ''low'', ag_PlanHash = zero_digest, ag_ContractHash = zero_digest, ag_ProfileHash = zero_digest,
     ag_PolicyHash = zero_digest, ag_PolicyInputHash = zero_digest, ag_EvidenceHash = zero_digest,
     ag_ApprovalProofs = [''q'', ''p''], ag_IdempotencyKey = ''key'', ag_Nonce = ''nonce'', ag_IssuedAt = 10,
     ag_ExpiresAt = 20, ag_Signature = no_signature\<rparr>"

lemma zero_digest_ok: "sha256_digest zero_digest" "TrimSpace zero_digest \<noteq> []"
proof -
  show "sha256_digest zero_digest"
    using sha256_digest_hashValue[of "\<lambda>_. replicate 64 CHR ''0''" JNull]
    by (simp add: hashValue_def zero_digest_def list_all_iff hex_char_def)
  show "TrimSpace zero_digest \<noteq> []"
    by (rule TrimSpace_graphic[of "CHR ''s''"]) (simp_all add: zero_digest_def)
qed

lemma demo_grant_shape: "validateGrantShape (SigningCopy demo_grant) = None"
proof -
  have "TrimSpace ''grant'' \<noteq> []" "TrimSpace ''issuer'' \<noteq> []" "TrimSpace ''tenant'' \<noteq> []" "TrimSpace ''group'' \<noteq> []"
    "TrimSpace ''run'' \<noteq> []" "TrimSpace ''api'' \<noteq> []" "TrimSpace ''user'' \<noteq> []" "TrimSpace ''alice'' \<noteq> []"
    "TrimSpace ''aA.cA.cw'' \<noteq> []" "TrimSpace ''bot'' \<noteq> []" "TrimSpace ''delegation'' \<noteq> []" "TrimSpace ''staging'' \<noteq> []"
    "TrimSpace ''release.deploy'' \<noteq> []" "TrimSpace ''low'' \<noteq> []" "TrimSpace ''key'' \<noteq> []" "TrimSpace ''nonce'' \<noteq> []"
    by (rule nonblank; simp)+
  then show ?thesis
    using zero_digest_ok by (simp add: validateGrantShape_def ValidateVersion_def SigningCopy_def demo_grant_def
        required_fields_def digest_fields_def)
qed

lemma demo_grant_payload: "CanonicalGrantPayload demo_grant = Inr (grant_json (SigningCopy demo_grant))"
  using demo_grant_shape by (simp add: CanonicalGrantPayload_Inr demo_grant_def json_time_def)

definition demo_Sign :: "string \<Rightarrow> json \<Rightarrow> string" where
  "demo_Sign key payload = replicate 64 CHR ''s''"

definition demo_Verify :: "string \<Rightarrow> json \<Rightarrow> string \<Rightarrow> bool" where
  "demo_Verify key payload s \<longleftrightarrow> s = replicate 64 CHR ''s''"

definition demo_signer :: DevelopmentSigner where
  "demo_signer = \<lparr>dev_keyID = ''k'', dev_key = replicate 64 CHR ''p''\<rparr>"

definition demo_verifier :: Verifier where
  "demo_verifier = \<lparr>ver_Issuer = ''issuer'', ver_RunnerGroup = ''group'', ver_TenantID = ''tenant'',
     ver_Keys = Some (\<lambda>issuer keyID. Inr ''public''), ver_ClockSkew = 1\<rparr>"

definition demo_signed :: ActionGrant where
  "demo_signed = demo_grant\<lparr>ag_Signature := \<lparr>sig_Algorithm = AlgorithmEd25519, sig_KeyID = ''k'',
     sig_Value = EncodeToString (replicate 64 CHR ''s'')\<rparr>\<rparr>"

lemma demo_SignActionGrant: "SignActionGrant (DevelopmentSigner_Sign demo_Sign demo_signer) demo_grant = Inr demo_signed"
  by (simp add: SignActionGrant_def demo_grant_payload DevelopmentSigner_Sign_def demo_signer_def demo_Sign_def demo_signed_def)

lemmas demo_grant_sel = demo_grant_def demo_verifier_def demo_signer_def

theorem signed_grant_verifies_witness:
  "SignActionGrant (DevelopmentSigner_Sign demo_Sign demo_signer) demo_grant = Inr demo_signed \<and>
   Verifier_Verify demo_Verify demo_verifier 15 demo_signed = None \<and>
   Verifier_Verify demo_Verify demo_verifier 21 demo_signed = Some ErrExpired"
  using demo_SignActionGrant
    signed_grant_verifies[OF demo_SignActionGrant, of demo_Verify "''public''" demo_verifier "\<lambda>issuer keyID. Inr ''public''"]
  by (simp add: demo_Sign_def demo_Verify_def demo_grant_sel)

definition demo_unforgeable :: "string \<Rightarrow> json \<Rightarrow> string \<Rightarrow> bool" where
  "demo_unforgeable key payload s \<longleftrightarrow> payload = grant_json (SigningCopy demo_grant)"

theorem verified_grant_was_issued_witness:
  "Verifier_Verify demo_unforgeable demo_verifier 15 (demo_signed\<lparr>ag_ApprovalProofs := [''p'', ''q'']\<rparr>) = None \<and>
   (\<exists>i \<in> set [demo_grant]. demo_signed\<lparr>ag_ApprovalProofs := [''p'', ''q'']\<rparr> =
      i\<lparr>ag_ApprovalProofs := [''p'', ''q''], ag_Signature := ag_Signature demo_signed\<rparr> \<and>
      mset [''p'', ''q''] = mset (ag_ApprovalProofs i))"
proof -
  let ?g = "demo_signed\<lparr>ag_ApprovalProofs := [''p'', ''q'']\<rparr>"
  have "SigningCopy ?g = SigningCopy demo_grant"
    by (simp add: SigningCopy_def demo_signed_def demo_grant_def)
  then have p: "CanonicalGrantPayload ?g = Inr (grant_json (SigningCopy demo_grant))"
    using demo_grant_payload by (simp add: CanonicalGrantPayload_def Let_def)
  have sel: "ag_ProtocolVersion ?g = VersionV1Alpha1" "ag_Issuer ?g = ''issuer''" "ag_RunnerGroup ?g = ''group''"
    "ag_TenantID ?g = ''tenant''" "ag_IssuedAt ?g = 10" "ag_ExpiresAt ?g = 20"
    "sig_Algorithm (ag_Signature ?g) = AlgorithmEd25519" "sig_KeyID (ag_Signature ?g) = ''k''"
    "sig_Value (ag_Signature ?g) = EncodeToString (replicate 64 CHR ''s'')"
    by (simp_all add: demo_signed_def demo_grant_def)
  have "signature_valid demo_unforgeable key (grant_json (SigningCopy demo_grant)) (sig_Value (ag_Signature ?g))" for key
    unfolding sel by (simp add: signature_valid_def demo_unforgeable_def)
  then have v: "Verifier_Verify demo_unforgeable demo_verifier 15 ?g = None"
    unfolding Verifier_Verify_def p sel by (simp add: sel ValidateVersion_def demo_verifier_def)
  from verified_grant_was_issued[OF v, of "\<lambda>issuer keyID. Inr ''public''" "''public''" "[demo_grant]"] v
  show ?thesis by (simp add: demo_verifier_def demo_unforgeable_def demo_grant_payload)
qed

end
