(* ===== verification/Path_Match.thy ===== *)
theory Path_Match
  imports Prelude
begin

text \<open>
  \<^verbatim>\<open>path.Match\<close> of the Go standard library, which decides whether a delegation's service selector
  covers a service: chunks between stars, character classes, escapes and UTF-8 decoding.  A syntax
  error of the pattern is the outer \<^const>\<open>None\<close>.  The lemmas characterise the selectors in use:
  a literal matches only itself, and a literal followed by a star matches the names that extend it
  without a slash.
\<close>

section \<open>UTF-8\<close>

definition continuation :: "nat \<Rightarrow> bool" where
  "continuation b \<longleftrightarrow> 128 \<le> b \<and> b < 192"

definition second_byte :: "nat \<Rightarrow> nat \<Rightarrow> bool" where
  "second_byte b0 b1 \<longleftrightarrow> continuation b1 \<and> (b0 = 224 \<longrightarrow> 160 \<le> b1) \<and> (b0 = 237 \<longrightarrow> b1 < 160) \<and>
     (b0 = 240 \<longrightarrow> 144 \<le> b1) \<and> (b0 = 244 \<longrightarrow> b1 < 144)"

text \<open>The first rune of a string and its width; an invalid sequence is the replacement rune of width 1.\<close>

definition DecodeRune :: "string \<Rightarrow> nat \<times> nat" where
  "DecodeRune s = (case map of_char (take 4 s) of
       [] \<Rightarrow> (65533, 0)
     | b0 # bs \<Rightarrow>
         if b0 < 128 then (b0, 1)
         else if 194 \<le> b0 \<and> b0 < 224 \<and> 1 \<le> length bs \<and> continuation (bs ! 0)
         then ((b0 mod 32) * 64 + bs ! 0 mod 64, 2)
         else if 224 \<le> b0 \<and> b0 < 240 \<and> 2 \<le> length bs \<and> second_byte b0 (bs ! 0) \<and> continuation (bs ! 1)
         then ((b0 mod 16) * 4096 + (bs ! 0 mod 64) * 64 + bs ! 1 mod 64, 3)
         else if 240 \<le> b0 \<and> b0 < 245 \<and> 3 \<le> length bs \<and> second_byte b0 (bs ! 0) \<and> continuation (bs ! 1)
           \<and> continuation (bs ! 2)
         then ((b0 mod 8) * 262144 + (bs ! 0 mod 64) * 4096 + (bs ! 1 mod 64) * 64 + bs ! 2 mod 64, 4)
         else (65533, 1))"

lemma DecodeRune_width: "s \<noteq> [] \<Longrightarrow> 1 \<le> snd (DecodeRune s)"
  by (cases s) (auto simp: DecodeRune_def)

section \<open>Chunks\<close>

definition getEsc :: "string \<Rightarrow> (nat \<times> string) option" where
  "getEsc chunk =
     (if chunk = [] \<or> hd chunk = CHR ''-'' \<or> hd chunk = CHR '']'' then None
      else let body = (if hd chunk = CHR 0x5C then tl chunk else chunk) in
        if body = [] then None
        else let (r, n) = DecodeRune body in
          if r = 65533 \<and> n = 1 \<or> drop n body = [] then None else Some (r, drop n body))"

lemma getEsc_shorter: "getEsc chunk = Some (r, rest) \<Longrightarrow> length rest < length chunk"
proof -
  assume a: "getEsc chunk = Some (r, rest)"
  define body where "body = (if hd chunk = CHR 0x5C then tl chunk else chunk)"
  have b: "chunk \<noteq> []" "body \<noteq> []" "rest = drop (snd (DecodeRune body)) body"
    using a by (auto simp: getEsc_def body_def Let_def split: if_splits prod.splits)
  moreover have "length body \<le> length chunk" by (simp add: body_def)
  moreover have "length (drop (snd (DecodeRune body)) body) < length body"
    using DecodeRune_width[OF b(2)] b(2) by (simp add: diff_less)
  ultimately show ?thesis by simp
qed

text \<open>The ranges of a character class: whether one contains the rune, and the chunk behind the bracket.\<close>

function class_ranges :: "nat \<Rightarrow> bool \<Rightarrow> bool \<Rightarrow> string \<Rightarrow> (bool \<times> string) option" where
  "class_ranges r first found chunk =
     (if chunk \<noteq> [] \<and> hd chunk = CHR '']'' \<and> \<not> first then Some (found, tl chunk)
      else case getEsc chunk of
          None \<Rightarrow> None
        | Some (lo, rest) \<Rightarrow>
            if hd rest = CHR ''-'' then
              (case getEsc (tl rest) of
                 None \<Rightarrow> None
               | Some (hi, rest') \<Rightarrow> class_ranges r False (found \<or> lo \<le> r \<and> r \<le> hi) rest')
            else class_ranges r False (found \<or> r = lo) rest)"
  by pat_completeness auto
termination
proof (relation "measure (\<lambda>(_, _, _, chunk). length chunk)", goal_cases)
  case (2 r first found chunk p lo rest q hi rest')
  then have "length rest < length chunk" "length rest' < length (tl rest)" by (auto dest: getEsc_shorter)
  then show ?case by simp
next
  case (3 r first found chunk p lo rest)
  then show ?case by (auto dest: getEsc_shorter)
qed simp

declare class_ranges.simps [simp del]

lemma class_ranges_shorter: "class_ranges r first found chunk = Some (m, rest) \<Longrightarrow> length rest < length chunk"
proof (induction r first found chunk rule: class_ranges.induct)
  case (1 r first found chunk)
  show ?case
  proof (cases "chunk \<noteq> [] \<and> hd chunk = CHR '']'' \<and> \<not> first")
    case True
    then have "class_ranges r first found chunk = Some (found, tl chunk)" by (subst class_ranges.simps) simp
    then show ?thesis using 1(3) True by auto
  next
    case False
    then obtain lo rest1 where g: "getEsc chunk = Some (lo, rest1)"
      using 1(3) by (auto simp: class_ranges.simps[of r first found chunk] split: option.splits)
    note s1 = getEsc_shorter[OF g]
    show ?thesis
    proof (cases "hd rest1 = CHR ''-''")
      case True
      then obtain hi rest2 where h: "getEsc (tl rest1) = Some (hi, rest2)"
        using 1(3) False g by (auto simp: class_ranges.simps[of r first found chunk] split: option.splits)
      then have "length rest < length rest2"
        using 1(1)[OF False g refl True h refl] 1(3) False g True by (simp add: class_ranges.simps[of r first found chunk])
      then show ?thesis using s1 getEsc_shorter[OF h] by simp
    next
      case dash: False
      then have "length rest < length rest1"
        using 1(2)[OF False g refl dash] 1(3) False g by (simp add: class_ranges.simps[of r first found chunk])
      then show ?thesis using s1 by simp
    qed
  qed
qed

text \<open>
  \<open>matchChunk failed chunk s\<close>: after a failure the rest of the chunk is still checked for syntax.
  The result is \<^const>\<open>None\<close> for a bad pattern, \<open>Some None\<close> for no match, and the rest of the string otherwise.
\<close>

function matchChunk :: "bool \<Rightarrow> string \<Rightarrow> string \<Rightarrow> string option option" where
  "matchChunk failed chunk s =
     (if chunk = [] then Some (if failed then None else Some s)
      else let failed = (failed \<or> s = []); c = hd chunk in
        if c = CHR ''['' then
          (let r = (if failed then 0 else fst (DecodeRune s));
               s = (if failed then s else drop (snd (DecodeRune s)) s);
               body = tl chunk;
               negated = (body \<noteq> [] \<and> hd body = CHR ''^'');
               body = (if negated then tl body else body)
           in case class_ranges r True False body of
                None \<Rightarrow> None
              | Some (found, rest) \<Rightarrow> matchChunk (failed \<or> found = negated) rest s)
        else if c = CHR ''?'' then
          (if failed then matchChunk True (tl chunk) s
           else matchChunk (hd s = CHR 0x2F) (tl chunk) (drop (snd (DecodeRune s)) s))
        else if c = CHR 0x5C then
          (if tl chunk = [] then None
           else if failed then matchChunk True (tl (tl chunk)) s
           else matchChunk (hd (tl chunk) \<noteq> hd s) (tl (tl chunk)) (tl s))
        else if failed then matchChunk True (tl chunk) s
        else matchChunk (c \<noteq> hd s) (tl chunk) (tl s))"
  by pat_completeness auto
termination
  by (relation "measure (\<lambda>(_, chunk, _). length chunk)") (auto dest!: class_ranges_shorter split: if_splits)

declare matchChunk.simps [simp del]

section \<open>Patterns\<close>

fun scan :: "bool \<Rightarrow> string \<Rightarrow> string \<times> string" where
  "scan inrange [] = ([], [])"
| "scan inrange (c # cs) =
     (if c = CHR 0x5C then
        (case cs of
           [] \<Rightarrow> ([c], [])
         | d # ds \<Rightarrow> (let (chunk, rest) = scan inrange ds in (c # d # chunk, rest)))
      else if c = CHR ''*'' \<and> \<not> inrange then ([], c # cs)
      else let (chunk, rest) = scan (c = CHR ''['' \<or> inrange \<and> c \<noteq> CHR '']'') cs in (c # chunk, rest))"

definition scanChunk :: "string \<Rightarrow> bool \<times> string \<times> string" where
  "scanChunk pattern = (let body = dropWhile (\<lambda>c. c = CHR ''*'') pattern in (body \<noteq> pattern, scan False body))"

lemma scan_append: "scan r p = (chunk, rest) \<Longrightarrow> p = chunk @ rest"
  by (induction r p arbitrary: chunk rest rule: scan.induct) (auto split: if_splits list.splits prod.splits)

lemma scanChunk_shorter:
  assumes "scanChunk pattern = (star, chunk, rest)" and "pattern \<noteq> []"
  shows "length rest < length pattern"
proof -
  let ?body = "dropWhile (\<lambda>c. c = CHR ''*'') pattern"
  have s: "scan False ?body = (chunk, rest)" and star: "star = (?body \<noteq> pattern)"
    using assms(1) by (auto simp: scanChunk_def Let_def)
  have le: "length ?body \<le> length pattern" by (rule length_dropWhile_le)
  show ?thesis
  proof (cases "?body = pattern")
    case False
    then have "length ?body < length pattern"
      using le by (metis le_neq_implies_less length_append add_eq_self_zero length_0_conv append_Nil takeWhile_dropWhile_id add.commute)
    then show ?thesis using scan_append[OF s] by simp
  next
    case True
    then obtain c cs where p: "pattern = c # cs" "c \<noteq> CHR ''*''"
      using assms(2) length_dropWhile_le[of "\<lambda>c. c = CHR ''*''" "tl pattern"]
      by (cases pattern) (auto split: if_splits)
    then have "chunk \<noteq> []" using s True by (auto split: if_splits list.splits prod.splits)
    then show ?thesis using scan_append[OF s] True by (metis length_append length_greater_0_conv less_add_same_cancel2)
  qed
qed

text \<open>Matching a chunk behind a star: skip ever more bytes, none of them a slash.\<close>

fun skip_match :: "bool \<Rightarrow> string \<Rightarrow> string \<Rightarrow> string option option" where
  "skip_match final chunk [] = Some None"
| "skip_match final chunk (c # name) =
     (if c = CHR 0x2F then Some None
      else case matchChunk False chunk name of
          Some (Some t) \<Rightarrow> if final \<and> t \<noteq> [] then skip_match final chunk name else Some (Some t)
        | Some None \<Rightarrow> skip_match final chunk name
        | None \<Rightarrow> None)"

function valid_rest :: "string \<Rightarrow> bool" where
  "valid_rest pattern =
     (if pattern = [] then True
      else case scanChunk pattern of (_, chunk, rest) \<Rightarrow>
        if matchChunk False chunk [] = None then False else valid_rest rest)"
  by pat_completeness auto
termination
  by (relation "measure length") (auto dest: scanChunk_shorter[OF sym])

declare valid_rest.simps [simp del]

function path_Match :: "string \<Rightarrow> string \<Rightarrow> bool option" where
  "path_Match pattern name =
     (if pattern = [] then Some (name = [])
      else case scanChunk pattern of (star, chunk, rest) \<Rightarrow>
        if star \<and> chunk = [] then Some (CHR 0x2F \<notin> set name)
        else
          (let failure = (if valid_rest rest then Some False else None);
               skip = (if star then
                  (case skip_match (rest = []) chunk name of
                     None \<Rightarrow> None
                   | Some (Some t) \<Rightarrow> path_Match rest t
                   | Some None \<Rightarrow> failure)
                 else failure)
           in case matchChunk False chunk name of
                None \<Rightarrow> None
              | Some (Some t) \<Rightarrow> if t = [] \<or> rest \<noteq> [] then path_Match rest t else skip
              | Some None \<Rightarrow> skip))"
  by pat_completeness auto
termination
  by (relation "measure (\<lambda>(pattern, _). length pattern)") (auto dest: scanChunk_shorter[OF sym])

declare path_Match.simps [simp del]

section \<open>Literals and prefixes\<close>

definition literal :: "string \<Rightarrow> bool" where
  "literal p \<longleftrightarrow> list_all (\<lambda>c. c \<noteq> CHR ''*'' \<and> c \<noteq> CHR ''?'' \<and> c \<noteq> CHR ''['' \<and> c \<noteq> CHR 0x5C) p"

lemma literal_simps [simp]:
  "literal []"
  "literal (c # p) \<longleftrightarrow> c \<noteq> CHR ''*'' \<and> c \<noteq> CHR ''?'' \<and> c \<noteq> CHR ''['' \<and> c \<noteq> CHR 0x5C \<and> literal p"
  by (auto simp: literal_def)

lemma scan_literal:
  "literal p \<Longrightarrow> scan False p = (p, [])"
  "literal p \<Longrightarrow> scan False (p @ CHR ''*'' # rest) = (p, CHR ''*'' # rest)"
  by (induction p) simp_all

lemma matchChunk_failed: "literal p \<Longrightarrow> matchChunk True p s = Some None"
  by (induction p) (simp_all add: matchChunk.simps)

lemma matchChunk_literal:
  "literal p \<Longrightarrow> matchChunk False p s = Some (if take (length p) s = p then Some (drop (length p) s) else None)"
proof (induction p arbitrary: s)
  case Nil
  then show ?case by (simp add: matchChunk.simps)
next
  case (Cons c p)
  note IH = Cons.IH and lit = Cons.prems
  from lit have step: "matchChunk False (c # p) (d # s) = matchChunk (c \<noteq> d) p s"
    "matchChunk False (c # p) [] = Some None" for d s
    by (simp_all add: matchChunk.simps[of False "c # p"] matchChunk_failed)
  show ?case
  proof (cases s)
    case (Cons d s')
    then show ?thesis using step IH lit by (cases "c = d") (simp_all add: matchChunk_failed)
  qed (simp add: step)
qed

lemma scanChunk_literal:
  "literal p \<Longrightarrow> scanChunk p = (False, p, [])"
  "literal p \<Longrightarrow> p \<noteq> [] \<Longrightarrow> scanChunk (p @ ''*'') = (False, p, ''*'')"
  by (cases p; simp add: scanChunk_def scan_literal)+

lemma valid_rest_simps [simp]: "valid_rest []" "valid_rest ''*''"
proof -
  show nil: "valid_rest []" by (simp add: valid_rest.simps)
  show "valid_rest ''*''"
    by (subst valid_rest.simps) (simp add: scanChunk_def matchChunk.simps nil)
qed

lemma path_Match_nil [simp]: "path_Match [] name = Some (name = [])"
  by (simp add: path_Match.simps)

lemma path_Match_star [simp]: "path_Match ''*'' name = Some (CHR 0x2F \<notin> set name)"
  by (subst path_Match.simps) (simp add: scanChunk_def)

lemma path_Match_literal:
  assumes "literal p"
  shows "path_Match p name = Some (name = p)"
proof (cases "p = []")
  case False
  have eq: "take (length p) name = p \<and> drop (length p) name = [] \<longleftrightarrow> name = p"
    by (metis append.right_neutral append_take_drop_id drop_all order_refl take_all)
  then show ?thesis
    using False assms by (subst path_Match.simps) (auto simp: scanChunk_literal matchChunk_literal Let_def)
qed simp

lemma path_Match_prefix:
  assumes "literal p"
  shows "path_Match (p @ ''*'') name = Some (take (length p) name = p \<and> CHR 0x2F \<notin> set (drop (length p) name))"
proof (cases "p = []")
  case False
  then show ?thesis
    using assms by (subst path_Match.simps) (auto simp: scanChunk_literal matchChunk_literal Let_def)
qed simp

end
