(* ===== verification/Identity.thy ===== *)
theory Identity
  imports Protocol Path_Match
begin

text \<open>
  \<^verbatim>\<open>internal/identity\<close>: verification of an OIDC identity proof and of the delegation from a user to
  an agent.  Parsing of JSON bytes and the public-key primitives are parameters.
\<close>

section \<open>Subjects and delegations\<close>

record Subject =
  sub_Issuer :: string
  sub_ID :: string
  sub_Audience :: "string list"
  sub_ExpiresAt :: time
  sub_IssuedAt :: time
  sub_Claims :: "(string \<times> json) list"

record Delegation =
  del_ID :: string
  del_Issuer :: string
  del_UserSubject :: string
  del_AgentID :: string
  del_Actions :: "string list"
  del_ServiceSelectors :: "string list"
  del_Environments :: "string list"
  del_MaximumRisk :: string
  del_ExpiresAt :: time

type_synonym delegation_resolver = "string \<Rightarrow> (error, Delegation) result"

definition ResolveDelegation :: "(string \<times> Delegation) list \<Rightarrow> delegation_resolver" where
  "ResolveDelegation delegations reference = (case map_of delegations reference of
       None \<Rightarrow> Inl (Errorf ''delegation not found'')
     | Some delegation \<Rightarrow> Inr delegation)"

record DelegationRequest =
  dr_Reference :: string
  dr_Subject :: Subject
  dr_AgentID :: string
  dr_Capability :: string
  dr_Service :: string
  dr_Environment :: string
  dr_Risk :: string

abbreviation ErrDelegationDenied :: error where "ErrDelegationDenied \<equiv> Sentinel ''AGENT_DELEGATION_DENIED''"

fun stringAllowed :: "string list \<Rightarrow> string \<Rightarrow> bool" where
  "stringAllowed [] expected \<longleftrightarrow> False"
| "stringAllowed (w # vs) expected \<longleftrightarrow> (if w = expected then True else stringAllowed vs expected)"

fun capabilityAllowed :: "string list \<Rightarrow> string \<Rightarrow> bool" where
  "capabilityAllowed [] expected \<longleftrightarrow> False"
| "capabilityAllowed (w # vs) expected \<longleftrightarrow> (if w = expected then True else capabilityAllowed vs expected)"

fun serviceAllowed :: "string list \<Rightarrow> string \<Rightarrow> bool" where
  "serviceAllowed [] service \<longleftrightarrow> False"
| "serviceAllowed (selector # selectors) service \<longleftrightarrow>
     (if path_Match selector service = Some True then True else serviceAllowed selectors service)"

definition riskLevel :: "string \<Rightarrow> int" where
  "riskLevel risk = (if risk = ''low'' then 1 else if risk = ''medium'' then 2 else if risk = ''high'' then 3 else 0)"

definition DelegationVerifier_Verify :: "delegation_resolver option \<Rightarrow> time \<Rightarrow> DelegationRequest
    \<Rightarrow> (error, Delegation) result" where
  "DelegationVerifier_Verify resolver now request = (case resolver of
       None \<Rightarrow> Inl ErrDelegationDenied
     | Some resolve \<Rightarrow>
         if dr_Reference request = [] then Inl ErrDelegationDenied
         else case resolve (dr_Reference request) of
             Inl _ \<Rightarrow> Inl (Wrapf ''%w: %v'' ErrDelegationDenied)
           | Inr delegation \<Rightarrow>
               if del_ID delegation \<noteq> dr_Reference request \<or> del_UserSubject delegation \<noteq> sub_ID (dr_Subject request)
                  \<or> del_Issuer delegation \<noteq> sub_Issuer (dr_Subject request) \<or> del_AgentID delegation \<noteq> dr_AgentID request
                  \<or> \<not> now < del_ExpiresAt delegation then Inl ErrDelegationDenied
               else let requestedRisk = riskLevel (dr_Risk request); maximumRisk = riskLevel (del_MaximumRisk delegation) in
                 if requestedRisk = 0 \<or> maximumRisk = 0 \<or> \<not> capabilityAllowed (del_Actions delegation) (dr_Capability request)
                    \<or> \<not> stringAllowed (del_Environments delegation) (dr_Environment request)
                    \<or> \<not> serviceAllowed (del_ServiceSelectors delegation) (dr_Service request)
                    \<or> maximumRisk < requestedRisk then Inl ErrDelegationDenied
                 else Inr delegation)"

section \<open>Identity proofs\<close>

abbreviation ErrInvalidIdentityProof :: error where
  "ErrInvalidIdentityProof \<equiv> Sentinel ''INVALID_USER_IDENTITY_PROOF''"

record jwtHeader =
  jh_Algorithm :: string
  jh_KeyID :: string
  jh_Type :: string

record jwtClaims =
  jc_Issuer :: string
  jc_Subject :: string
  jc_Audience :: "string list"
  jc_ExpiresAt :: int
  jc_IssuedAt :: int

datatype PublicKey = Ed25519Key string | RSAKey "int option" int | OtherKey

text \<open>The parts of the libraries that a token passes through: JSON parsing and signature checks.\<close>

record jwt_library =
  lib_header :: "string \<Rightarrow> jwtHeader option"
  lib_claims :: "string \<Rightarrow> jwtClaims option"
  lib_all_claims :: "string \<Rightarrow> (string \<times> json) list option"
  lib_ed25519_Verify :: "string \<Rightarrow> string \<Rightarrow> string \<Rightarrow> bool"
  lib_VerifyPKCS1v15 :: "int \<Rightarrow> int \<Rightarrow> string \<Rightarrow> string \<Rightarrow> bool"
  lib_sha256 :: "string \<Rightarrow> string"

type_synonym oidc_resolver = "string \<Rightarrow> string \<Rightarrow> (error, PublicKey) result"

definition ResolveOIDCKey :: "(string \<times> PublicKey) list \<Rightarrow> oidc_resolver" where
  "ResolveOIDCKey keys issuer keyID = (case map_of keys (issuer @ [CHR 0x00] @ keyID) of
       None \<Rightarrow> Inl (Errorf ''unknown OIDC key'')
     | Some key \<Rightarrow> Inr key)"

record OIDCVerifier =
  oidc_Issuer :: string
  oidc_Audience :: string
  oidc_Keys :: "oidc_resolver option"
  oidc_ClockSkew :: duration

text \<open>\<^verbatim>\<open>strings.Split(token, ".")\<close>\<close>

fun split_dot :: "string \<Rightarrow> string list" where
  "split_dot [] = [[]]"
| "split_dot (c # s) = (if c = CHR ''.'' then [] # split_dot s
     else case split_dot s of [] \<Rightarrow> [[c]] | p # ps \<Rightarrow> (c # p) # ps)"

text \<open>\<^verbatim>\<open>time.Unix(sec, 0)\<close>: the seconds since the epoch become 64-bit seconds since year 1, with wrap-around.\<close>

definition wrap64 :: "int \<Rightarrow> int" where
  "wrap64 n = (n + 2 ^ 63) mod 2 ^ 64 - 2 ^ 63"

definition time_Unix :: "int \<Rightarrow> time" where
  "time_Unix sec = wrap64 (sec + 62135596800) * 1000000000"

definition verifyJWTSignature :: "jwt_library \<Rightarrow> string \<Rightarrow> PublicKey \<Rightarrow> string \<Rightarrow> string \<Rightarrow> bool" where
  "verifyJWTSignature lib algorithm key input signature =
     (if algorithm = ''EdDSA'' then (case key of Ed25519Key public \<Rightarrow> lib_ed25519_Verify lib public input signature | _ \<Rightarrow> False)
      else if algorithm = ''RS256'' then
        (case key of
           RSAKey (Some n) e \<Rightarrow> (if n \<le> 0 then False else lib_VerifyPKCS1v15 lib n e (lib_sha256 lib input) signature)
         | _ \<Rightarrow> False)
      else False)"

fun contains :: "string list \<Rightarrow> string \<Rightarrow> bool" where
  "contains [] expected \<longleftrightarrow> False"
| "contains (w # vs) expected \<longleftrightarrow> (if w = expected then True else contains vs expected)"

definition check_claims :: "OIDCVerifier \<Rightarrow> time \<Rightarrow> jwtClaims \<Rightarrow> bool" where
  "check_claims v now claims \<longleftrightarrow>
     \<not> (jc_Issuer claims \<noteq> oidc_Issuer v \<or> jc_Subject claims = [] \<or> \<not> contains (jc_Audience claims) (oidc_Audience v)
        \<or> jc_ExpiresAt claims = 0 \<or> \<not> now - oidc_ClockSkew v < time_Unix (jc_ExpiresAt claims)) \<and>
     \<not> (jc_IssuedAt claims \<noteq> 0 \<and> now + oidc_ClockSkew v < time_Unix (jc_IssuedAt claims))"

definition OIDCVerifier_Verify :: "jwt_library \<Rightarrow> OIDCVerifier \<Rightarrow> time \<Rightarrow> string \<Rightarrow> (error, Subject) result" where
  "OIDCVerifier_Verify lib v now token = (case (split_dot token, oidc_Keys v) of
       ([part0, part1, part2], Some keys) \<Rightarrow>
         if oidc_Issuer v = [] \<or> oidc_Audience v = [] then Inl ErrInvalidIdentityProof
         else (case (DecodeString part0, DecodeString part1, DecodeString part2) of
             (Some headerBytes, Some payload, Some signature) \<Rightarrow>
               (case lib_header lib headerBytes of
                  None \<Rightarrow> Inl ErrInvalidIdentityProof
                | Some header \<Rightarrow>
                    if jh_KeyID header = [] \<or> (jh_Algorithm header \<noteq> ''EdDSA'' \<and> jh_Algorithm header \<noteq> ''RS256'')
                    then Inl ErrInvalidIdentityProof
                    else case keys (oidc_Issuer v) (jh_KeyID header) of
                        Inl _ \<Rightarrow> Inl (Wrapf ''%w: %v'' ErrInvalidIdentityProof)
                      | Inr key \<Rightarrow>
                          if \<not> verifyJWTSignature lib (jh_Algorithm header) key (part0 @ ''.'' @ part1) signature
                          then Inl ErrInvalidIdentityProof
                          else (case (lib_claims lib payload, lib_all_claims lib payload) of
                              (Some claims, Some allClaims) \<Rightarrow>
                                if \<not> check_claims v now claims then Inl ErrInvalidIdentityProof
                                else Inr \<lparr>sub_Issuer = jc_Issuer claims, sub_ID = jc_Subject claims,
                                  sub_Audience = jc_Audience claims, sub_ExpiresAt = time_Unix (jc_ExpiresAt claims),
                                  sub_IssuedAt = time_Unix (jc_IssuedAt claims), sub_Claims = allClaims\<rparr>
                            | _ \<Rightarrow> Inl ErrInvalidIdentityProof))
           | _ \<Rightarrow> Inl ErrInvalidIdentityProof)
     | _ \<Rightarrow> Inl ErrInvalidIdentityProof)"

section \<open>Scope of a delegation\<close>

lemma stringAllowed_iff [simp]: "stringAllowed vs expected \<longleftrightarrow> expected \<in> set vs"
  by (induction vs) auto

lemma capabilityAllowed_iff [simp]: "capabilityAllowed vs expected \<longleftrightarrow> expected \<in> set vs"
  by (induction vs) auto

lemma contains_iff [simp]: "contains vs expected \<longleftrightarrow> expected \<in> set vs"
  by (induction vs) auto

lemma serviceAllowed_iff: "serviceAllowed selectors service \<longleftrightarrow> (\<exists>s \<in> set selectors. path_Match s service = Some True)"
  by (induction selectors) auto

lemma serviceAllowed_literals:
  assumes "list_all literal names" and "list_all literal stems"
  shows "serviceAllowed (names @ map (\<lambda>p. p @ ''*'') stems) service \<longleftrightarrow>
           service \<in> set names \<or> (\<exists>p \<in> set stems. \<exists>r. service = p @ r \<and> CHR 0x2F \<notin> set r)"
proof -
  have "take (length p) service = p \<and> CHR 0x2F \<notin> set (drop (length p) service) \<longleftrightarrow>
      (\<exists>r. service = p @ r \<and> CHR 0x2F \<notin> set r)" for p
    by (metis append_eq_conv_conj append_take_drop_id)
  moreover have "(\<exists>s \<in> set names. path_Match s service = Some True) \<longleftrightarrow> service \<in> set names"
    using assms(1) by (auto simp: list_all_iff path_Match_literal)
  moreover have "(\<exists>p \<in> set stems. path_Match (p @ ''*'') service = Some True) \<longleftrightarrow>
      (\<exists>p \<in> set stems. take (length p) service = p \<and> CHR 0x2F \<notin> set (drop (length p) service))"
    using assms(2) by (auto simp: list_all_iff path_Match_prefix)
  ultimately show ?thesis by (simp add: serviceAllowed_iff bex_Un)
qed

text \<open>
  C26.  What a delegation allows: for selectors that are literal names or literal stems with a
  star, a request is accepted exactly when the resolved delegation carries the requested
  reference, user, issuer and agent, is not expired, lists the action and the environment, covers
  the service by name or by a prefix that it extends without a slash, and both risks are known and
  the requested one does not exceed the maximum.
\<close>

theorem delegation_scope:
  assumes "resolve (dr_Reference request) = Inr d"
    and "del_ServiceSelectors d = names @ map (\<lambda>p. p @ ''*'') stems"
    and "list_all literal names" "list_all literal stems"
  shows "DelegationVerifier_Verify (Some resolve) now request = Inr d \<longleftrightarrow>
           dr_Reference request \<noteq> [] \<and> del_ID d = dr_Reference request \<and>
           del_UserSubject d = sub_ID (dr_Subject request) \<and> del_Issuer d = sub_Issuer (dr_Subject request) \<and>
           del_AgentID d = dr_AgentID request \<and> now < del_ExpiresAt d \<and>
           dr_Capability request \<in> set (del_Actions d) \<and> dr_Environment request \<in> set (del_Environments d) \<and>
           (dr_Service request \<in> set names \<or>
            (\<exists>p \<in> set stems. \<exists>r. dr_Service request = p @ r \<and> CHR 0x2F \<notin> set r)) \<and>
           0 < riskLevel (dr_Risk request) \<and> riskLevel (dr_Risk request) \<le> riskLevel (del_MaximumRisk d)"
proof -
  have "riskLevel x = 0 \<or> 0 < riskLevel x" for x by (simp add: riskLevel_def)
  then have risk: "\<not> (riskLevel r = 0 \<or> riskLevel m = 0 \<or> riskLevel m < riskLevel r) \<longleftrightarrow>
      0 < riskLevel r \<and> riskLevel r \<le> riskLevel m" for r m by fastforce
  show ?thesis
    using risk[of "dr_Risk request" "del_MaximumRisk d"]
    by (auto simp: DelegationVerifier_Verify_def assms(1,2) serviceAllowed_literals[OF assms(3,4)] Let_def split: if_splits)
qed

lemma split_dot_nonempty: "split_dot s \<noteq> []"
  by (cases s) (auto split: list.splits)

lemma split_dot_three:
  "split_dot s = [a, b, c] \<Longrightarrow> s = a @ ''.'' @ b @ ''.'' @ c \<and> CHR ''.'' \<notin> set a \<and> CHR ''.'' \<notin> set b \<and> CHR ''.'' \<notin> set c"
proof -
  have one: "split_dot s = [c] \<Longrightarrow> s = c \<and> CHR ''.'' \<notin> set c" for s c
    by (induction s arbitrary: c) (auto simp: split_dot_nonempty split: if_splits list.splits)
  have two: "split_dot s = [b, c] \<Longrightarrow> s = b @ ''.'' @ c \<and> CHR ''.'' \<notin> set b \<and> CHR ''.'' \<notin> set c" for s b c
    by (induction s arbitrary: b c) (auto dest: one split: if_splits list.splits)
  show "split_dot s = [a, b, c] \<Longrightarrow> s = a @ ''.'' @ b @ ''.'' @ c \<and> CHR ''.'' \<notin> set a \<and> CHR ''.'' \<notin> set b \<and> CHR ''.'' \<notin> set c"
    by (induction s arbitrary: a b c) (auto dest: two split: if_splits list.splits)
qed

text \<open>
  C25.  A subject is only returned for a token of exactly three segments whose first two segments,
  with the dot between them, carry a valid EdDSA or RS256 signature under the key resolved for the
  configured issuer; the claims returned are those of the signed payload, they name the configured
  issuer and audience and a non-empty subject, and the clock is within their validity.
\<close>

theorem subject_only_from_signed_token:
  assumes "OIDCVerifier_Verify lib v now token = Inr subject"
  shows "\<exists>h p s header key claims signature keys.
           token = h @ ''.'' @ p @ ''.'' @ s \<and> CHR ''.'' \<notin> set h \<and> CHR ''.'' \<notin> set p \<and> CHR ''.'' \<notin> set s \<and>
           Option.bind (DecodeString h) (lib_header lib) = Some header \<and>
           jh_Algorithm header \<in> {''EdDSA'', ''RS256''} \<and>
           oidc_Keys v = Some keys \<and> keys (oidc_Issuer v) (jh_KeyID header) = Inr key \<and>
           DecodeString s = Some signature \<and>
           verifyJWTSignature lib (jh_Algorithm header) key (h @ ''.'' @ p) signature \<and>
           Option.bind (DecodeString p) (lib_claims lib) = Some claims \<and>
           sub_Issuer subject = oidc_Issuer v \<and> sub_ID subject = jc_Subject claims \<and> sub_ID subject \<noteq> [] \<and>
           oidc_Audience v \<in> set (sub_Audience subject) \<and>
           now - oidc_ClockSkew v < sub_ExpiresAt subject"
proof -
  obtain h p s keys where t: "split_dot token = [h, p, s]" "oidc_Keys v = Some keys"
    using assms by (auto simp: OIDCVerifier_Verify_def split: list.splits option.splits)
  obtain headerBytes payload signature where d: "DecodeString h = Some headerBytes" "DecodeString p = Some payload"
    "DecodeString s = Some signature"
    using assms t by (auto simp: OIDCVerifier_Verify_def split: option.splits if_splits)
  obtain header key where k: "lib_header lib headerBytes = Some header" "jh_Algorithm header \<in> {''EdDSA'', ''RS256''}"
    "keys (oidc_Issuer v) (jh_KeyID header) = Inr key"
    "verifyJWTSignature lib (jh_Algorithm header) key (h @ ''.'' @ p) signature"
    using assms t d by (auto simp: OIDCVerifier_Verify_def split: option.splits sum.splits if_splits)
  obtain claims where c: "lib_claims lib payload = Some claims" "check_claims v now claims"
    "sub_Issuer subject = jc_Issuer claims" "sub_ID subject = jc_Subject claims" "sub_Audience subject = jc_Audience claims"
    "sub_ExpiresAt subject = time_Unix (jc_ExpiresAt claims)"
    using assms t d k by (auto simp: OIDCVerifier_Verify_def split: option.splits if_splits)
  from split_dot_three[OF t(1)] t(2) d k c show ?thesis
    by (intro exI[of _ h] exI[of _ p] exI[of _ s] exI[of _ header] exI[of _ key] exI[of _ claims]
        exI[of _ signature] exI[of _ keys]) (simp add: check_claims_def)
qed

section \<open>A concrete delegation and token\<close>

definition demo_subject :: Subject where
  "demo_subject = \<lparr>sub_Issuer = ''oidc'', sub_ID = ''alice'', sub_Audience = [''themisy''], sub_ExpiresAt = time_Unix 100,
     sub_IssuedAt = time_Unix 0, sub_Claims = []\<rparr>"

definition demo_delegation :: Delegation where
  "demo_delegation = \<lparr>del_ID = ''delegation'', del_Issuer = ''oidc'', del_UserSubject = ''alice'', del_AgentID = ''bot'',
     del_Actions = [ProtocolDeploy], del_ServiceSelectors = [''billing'', ''api*''], del_Environments = [''staging''],
     del_MaximumRisk = ''medium'', del_ExpiresAt = 100\<rparr>"

definition demo_request :: "string \<Rightarrow> DelegationRequest" where
  "demo_request service = \<lparr>dr_Reference = ''delegation'', dr_Subject = demo_subject, dr_AgentID = ''bot'',
     dr_Capability = ProtocolDeploy, dr_Service = service, dr_Environment = ''staging'', dr_Risk = ''low''\<rparr>"

definition demo_delegations :: delegation_resolver where
  "demo_delegations = ResolveDelegation [(''delegation'', demo_delegation)]"

theorem delegation_scope_witness:
  "DelegationVerifier_Verify (Some demo_delegations) 50 (demo_request ''api-v2'') = Inr demo_delegation \<and>
   DelegationVerifier_Verify (Some demo_delegations) 50 (demo_request ''web'') \<noteq> Inr demo_delegation"
proof -
  have r: "demo_delegations (dr_Reference (demo_request s)) = Inr demo_delegation" for s
    by (simp add: demo_delegations_def ResolveDelegation_def demo_request_def)
  have "del_ServiceSelectors demo_delegation = [''billing''] @ map (\<lambda>p. p @ ''*'') [''api'']"
    by (simp add: demo_delegation_def)
  then have "(DelegationVerifier_Verify (Some demo_delegations) 50 (demo_request s) = Inr demo_delegation) =
      (s = ''billing'' \<or> (\<exists>r. s = ''api'' @ r \<and> CHR 0x2F \<notin> set r))" for s
    using delegation_scope[of demo_delegations "demo_request s" demo_delegation "[''billing'']" "[''api'']" 50] r[of s]
    by (simp add: demo_delegation_def demo_request_def demo_subject_def riskLevel_def)
  then show ?thesis by simp
qed

definition demo_library :: jwt_library where
  "demo_library = \<lparr>lib_header = (\<lambda>_. Some \<lparr>jh_Algorithm = ''EdDSA'', jh_KeyID = ''k'', jh_Type = ''JWT''\<rparr>),
     lib_claims = (\<lambda>_. Some \<lparr>jc_Issuer = ''oidc'', jc_Subject = ''alice'', jc_Audience = [''themisy''], jc_ExpiresAt = 100,
       jc_IssuedAt = 0\<rparr>),
     lib_all_claims = (\<lambda>_. Some []), lib_ed25519_Verify = (\<lambda>key input signature. signature = ''s''),
     lib_VerifyPKCS1v15 = (\<lambda>_ _ _ _. False), lib_sha256 = (\<lambda>_. [])\<rparr>"

definition demo_oidc :: OIDCVerifier where
  "demo_oidc = \<lparr>oidc_Issuer = ''oidc'', oidc_Audience = ''themisy'',
     oidc_Keys = Some (ResolveOIDCKey [(''oidc'' @ [CHR 0x00] @ ''k'', Ed25519Key ''public'')]), oidc_ClockSkew = 0\<rparr>"

lemma demo_segments: "EncodeToString ''h'' = ''aA''" "EncodeToString ''p'' = ''cA''" "EncodeToString ''s'' = ''cw''"
  by (simp_all add: EncodeToString_def b64_char_def char_of_eq_iff)

lemma demo_token_verifies: "OIDCVerifier_Verify demo_library demo_oidc 50 ''aA.cA.cw'' = Inr demo_subject"
proof -
  have "DecodeString ''aA'' = Some ''h''" "DecodeString ''cA'' = Some ''p''" "DecodeString ''cw'' = Some ''s''"
    using DecodeString_EncodeToString[of "''h''"] DecodeString_EncodeToString[of "''p''"]
      DecodeString_EncodeToString[of "''s''"] unfolding demo_segments by simp_all
  then show ?thesis
    by (simp add: OIDCVerifier_Verify_def demo_oidc_def demo_library_def ResolveOIDCKey_def verifyJWTSignature_def
        check_claims_def time_Unix_def wrap64_def demo_subject_def)
qed

theorem subject_only_from_signed_token_witness:
  "OIDCVerifier_Verify demo_library demo_oidc 50 ''aA.cA.cw'' = Inr demo_subject \<and>
   (\<exists>h p s. ''aA.cA.cw'' = h @ ''.'' @ p @ ''.'' @ s \<and> CHR ''.'' \<notin> set h \<and> CHR ''.'' \<notin> set p \<and> CHR ''.'' \<notin> set s) \<and>
   oidc_Audience demo_oidc \<in> set (sub_Audience demo_subject)"
  using subject_only_from_signed_token[OF demo_token_verifies] demo_token_verifies by blast

end
