(* ===== verification/Policy.thy ===== *)
theory Policy
  imports Protocol
begin

text \<open>
  \<^verbatim>\<open>internal/policy\<close>: the canonical policy input, the builtin evaluator, the OPA evaluator with the
  embedded baseline policy of \<^verbatim>\<open>policies/baseline/main.rego\<close>, the engine in front of them, and signed
  policy bundles.  Evaluation of an arbitrary Rego query is a parameter \<open>eval\<close>: the value tree of the
  input to the results, each a list of expression values.
\<close>

section \<open>Input\<close>

abbreviation InputVersionV1Alpha1 :: string where "InputVersionV1Alpha1 \<equiv> ''themisy.policy.input/v1alpha1''"

record Input =
  pi_Version :: string
  pi_TenantID :: string
  pi_RunnerGroup :: string
  pi_SubjectType :: string
  pi_UserID :: string
  pi_UserIssuer :: string
  pi_AgentID :: string
  pi_DelegationRef :: string
  pi_AgentScopes :: "string list"
  pi_Environment :: Environment
  pi_Service :: string
  pi_Capability :: string
  pi_ArtifactDigest :: string
  pi_Risk :: string
  pi_PlanHash :: string
  pi_ContractHash :: string
  pi_ProfileHash :: string
  pi_PolicyHash :: string
  pi_EvidenceHash :: string
  pi_ApprovalProofs :: "string list"
  pi_CISuccess :: bool
  pi_DependenciesHealthy :: bool
  pi_DestructiveMigration :: bool

definition NormalizeInput :: "Input \<Rightarrow> Input" where
  "NormalizeInput input =
     input\<lparr>pi_Version := (if pi_Version input = [] then InputVersionV1Alpha1 else pi_Version input),
           pi_ApprovalProofs := sort (pi_ApprovalProofs input)\<rparr>"

text \<open>The JSON form: empty optional fields are left out, scopes and the migration flag never appear.\<close>

definition input_json :: "Input \<Rightarrow> json" where
  "input_json i = JObj (jstr_omit ''version'' (pi_Version i) @ jstr_omit ''tenant_id'' (pi_TenantID i) @
     jstr_omit ''runner_group'' (pi_RunnerGroup i) @ jstr_omit ''subject_type'' (pi_SubjectType i) @
     jstr ''user_id'' (pi_UserID i) @ jstr_omit ''user_issuer'' (pi_UserIssuer i) @ jstr ''agent_id'' (pi_AgentID i) @
     jstr_omit ''delegation_ref'' (pi_DelegationRef i) @ jstr ''environment'' (pi_Environment i) @
     jstr ''service'' (pi_Service i) @ jstr_omit ''capability'' (pi_Capability i) @
     jstr_omit ''artifact_digest'' (pi_ArtifactDigest i) @ jstr ''risk'' (pi_Risk i) @
     jstr_omit ''plan_hash'' (pi_PlanHash i) @ jstr_omit ''contract_hash'' (pi_ContractHash i) @
     jstr_omit ''profile_hash'' (pi_ProfileHash i) @ jstr_omit ''policy_hash'' (pi_PolicyHash i) @
     jstr_omit ''evidence_hash'' (pi_EvidenceHash i) @ jarr_omit ''approval_proofs'' JStr (pi_ApprovalProofs i) @
     [(''ci_success'', JBool (pi_CISuccess i)), (''dependencies_healthy'', JBool (pi_DependenciesHealthy i))])"

definition CanonicalInput :: "Input \<Rightarrow> json" where
  "CanonicalInput input = input_json (NormalizeInput input)"

definition InputHash :: "(json \<Rightarrow> string) \<Rightarrow> Input \<Rightarrow> string" where
  "InputHash digest input = hashValue digest (CanonicalInput input)"

text \<open>The planned step of a service: the first in its phase, the last phase that has one.\<close>

fun planned_hashes :: "PlanPhase list \<Rightarrow> string \<Rightarrow> string \<times> string \<Rightarrow> string \<times> string" where
  "planned_hashes [] service acc = acc"
| "planned_hashes (phase # phases) service acc =
     planned_hashes phases service
       (case find (\<lambda>planned. ps_Service planned = service) (pp_Steps phase) of
          None \<Rightarrow> acc
        | Some planned \<Rightarrow> (ps_ContractHash planned, ps_ProfileHash planned))"

definition InputForRelease :: "ReleaseRun \<Rightarrow> ReleaseStep \<Rightarrow> Input" where
  "InputForRelease run step = (let (contractHash, profileHash) = planned_hashes (pl_Phases (run_Plan run)) (rs_Service step) ([], []) in
     NormalizeInput
      \<lparr>pi_Version = InputVersionV1Alpha1, pi_TenantID = run_TenantID run, pi_RunnerGroup = run_RunnerGroup run,
       pi_SubjectType = run_SubjectType run, pi_UserID = run_RequestedBy run, pi_UserIssuer = run_SubjectIssuer run,
       pi_AgentID = agent_ID (run_Agent run), pi_DelegationRef = run_DelegationRef run,
       pi_AgentScopes = agent_Scopes (run_Agent run), pi_Environment = run_Environment run, pi_Service = rs_Service step,
       pi_Capability = ProtocolDeploy, pi_ArtifactDigest = ch_DesiredVersion (rs_Change step), pi_Risk = ch_Risk (rs_Change step),
       pi_PlanHash = pl_Hash (run_Plan run), pi_ContractHash = contractHash, pi_ProfileHash = profileHash,
       pi_PolicyHash = pl_PolicyHash (run_Plan run), pi_EvidenceHash = pl_EvidenceHash (run_Plan run),
       pi_ApprovalProofs = (case rs_Approval step of
           None \<Rightarrow> [] | Some approval \<Rightarrow> if ap_Status approval = ApprovalApproved then [ap_ID approval] else []),
       pi_CISuccess = ch_CISuccess (rs_Change step), pi_DependenciesHealthy = ch_DependenciesHealthy (rs_Change step),
       pi_DestructiveMigration = ch_DestructiveMigration (rs_Change step)\<rparr>)"

definition InputForGrant :: "ActionGrant \<Rightarrow> string \<Rightarrow> string \<Rightarrow> string \<Rightarrow> string \<Rightarrow> Input" where
  "InputForGrant g userIssuer verifiedUser verifiedAgent verifiedDelegation = NormalizeInput
     \<lparr>pi_Version = InputVersionV1Alpha1, pi_TenantID = ag_TenantID g, pi_RunnerGroup = ag_RunnerGroup g,
      pi_SubjectType = ag_SubjectType g, pi_UserID = verifiedUser, pi_UserIssuer = userIssuer, pi_AgentID = verifiedAgent,
      pi_DelegationRef = verifiedDelegation, pi_AgentScopes = [], pi_Environment = tgt_Environment (ag_Target g),
      pi_Service = tgt_Service (ag_Target g), pi_Capability = act_Capability (ag_Action g),
      pi_ArtifactDigest = act_ArtifactDigest (ag_Action g), pi_Risk = ag_Risk g, pi_PlanHash = ag_PlanHash g,
      pi_ContractHash = ag_ContractHash g, pi_ProfileHash = ag_ProfileHash g, pi_PolicyHash = ag_PolicyHash g,
      pi_EvidenceHash = ag_EvidenceHash g, pi_ApprovalProofs = ag_ApprovalProofs g, pi_CISuccess = True,
      pi_DependenciesHealthy = True, pi_DestructiveMigration = False\<rparr>"

section \<open>Evaluators\<close>

record Evaluation =
  pe_Decision :: Decision
  pe_Reasons :: "string list"
  pe_RequiredRoles :: "string list"
  pe_InputHash :: string
  pe_PolicyVersion :: string
  pe_PolicyHash :: string

type_synonym evaluator = "Input \<Rightarrow> (error, Evaluation) result"

fun containsString :: "string list \<Rightarrow> string \<Rightarrow> bool" where
  "containsString [] expected \<longleftrightarrow> False"
| "containsString (w # vs) expected \<longleftrightarrow> (if w = expected then True else containsString vs expected)"

definition builtin_Evaluate :: "(json \<Rightarrow> string) \<Rightarrow> evaluator" where
  "builtin_Evaluate digest input = (let
     (decision, reasons, requiredRoles) =
       (if pi_UserID input = [] \<or> pi_AgentID input = [] then (DecisionDeny, [''MISSING_SUBJECT''], [])
        else if \<not> containsString (pi_AgentScopes input) ''release:deploy''
        then (DecisionDeny, [''MISSING_DELEGATED_SCOPE''], [])
        else if pi_Environment input = EnvironmentProduction \<and> \<not> containsString (pi_AgentScopes input) ''release:production''
        then (DecisionDeny, [''MISSING_PRODUCTION_SCOPE''], [])
        else if \<not> pi_CISuccess input then (DecisionDeny, [''CI_NOT_SUCCESSFUL''], [])
        else if \<not> pi_DependenciesHealthy input then (DecisionDeny, [''DEPENDENCIES_UNHEALTHY''], [])
        else if pi_DestructiveMigration input
        then (DecisionRequireApproval, [''DESTRUCTIVE_DB_MIGRATION''], [''service-owner'', ''sre''])
        else if pi_Risk input = ''high'' then (DecisionRequireApproval, [''HIGH_BLAST_RADIUS''], [''service-owner''])
        else (DecisionAllow, [''POLICY_ALLOW''], []))
     in Inr \<lparr>pe_Decision = decision, pe_Reasons = reasons, pe_RequiredRoles = requiredRoles,
             pe_InputHash = InputHash digest input, pe_PolicyVersion = ''builtin-v1'', pe_PolicyHash = []\<rparr>)"

text \<open>A missing engine or evaluator is \<^const>\<open>None\<close>.\<close>

definition EvaluateContext :: "evaluator option \<Rightarrow> evaluator" where
  "EvaluateContext engine input = (case engine of
       None \<Rightarrow> Inl (Errorf ''POLICY_UNAVAILABLE'')
     | Some evaluate \<Rightarrow> evaluate (NormalizeInput input))"

fun join :: "string \<Rightarrow> string list \<Rightarrow> string" where
  "join sep [] = []"
| "join sep [s] = s"
| "join sep (s # t # r) = s @ sep @ join sep (t # r)"

text \<open>The text of an error, up to the arguments of its format.\<close>

fun error_text :: "error \<Rightarrow> string" where
  "error_text (Errorf m) = m"
| "error_text (Sentinel m) = m"
| "error_text (Wrapf m e) = m @ '': '' @ error_text e"
| "error_text (ReasonError c f w) = f"
| "error_text (AdapterError c oper i e) = c @ '' '' @ oper @ (if i = [] then [] else '' correlation='' @ i) @ '': '' @ error_text e"
| "error_text (ClassifiedError c oper e) = c @ '' '' @ oper @ '': '' @ error_text e"
| "error_text (ApplicationError m k e) = m @ '' (type: '' @ k @ '', retryable: false): '' @ error_text e"

definition Engine_Evaluate :: "(json \<Rightarrow> string) \<Rightarrow> evaluator option \<Rightarrow> time \<Rightarrow> Input \<Rightarrow> PolicyDecision" where
  "Engine_Evaluate digest engine createdAt input = (case EvaluateContext engine input of
       Inl err \<Rightarrow> \<lparr>pd_Decision = DecisionDeny, pd_PolicyVersion = ''unavailable'', pd_ReasonCode = ''POLICY_UNAVAILABLE'',
         pd_ReasonDetail = error_text err, pd_RequiredRoles = [], pd_InputHash = InputHash digest input, pd_CreatedAt = createdAt\<rparr>
     | Inr evaluation \<Rightarrow> \<lparr>pd_Decision = pe_Decision evaluation, pd_PolicyVersion = pe_PolicyVersion evaluation,
         pd_ReasonCode = (if pe_Reasons evaluation = [] then ''POLICY_ALLOW'' else hd (pe_Reasons evaluation)),
         pd_ReasonDetail = join '', '' (pe_Reasons evaluation), pd_RequiredRoles = pe_RequiredRoles evaluation,
         pd_InputHash = pe_InputHash evaluation, pd_CreatedAt = createdAt\<rparr>)"

section \<open>OPA\<close>

text \<open>The pattern \<^verbatim>\<open>^[A-Z][A-Z0-9_]{2,63}$\<close>\<close>

definition upper :: "char \<Rightarrow> bool" where
  "upper c = (let n = of_char c :: nat in 65 \<le> n \<and> n < 91)"

definition code_char :: "char \<Rightarrow> bool" where
  "code_char c = (let n = of_char c :: nat in 65 \<le> n \<and> n < 91 \<or> 48 \<le> n \<and> n < 58 \<or> n = 95)"

definition stableReasonCode :: "string \<Rightarrow> bool" where
  "stableReasonCode s = (case s of [] \<Rightarrow> False | c # r \<Rightarrow> upper c \<and> list_all code_char r \<and> 2 \<le> length r \<and> length r \<le> 63)"

fun reason_strings :: "json list \<Rightarrow> (error, string list) result" where
  "reason_strings [] = Inr []"
| "reason_strings (v # vs) = (case v of
       JStr text \<Rightarrow> if \<not> stableReasonCode text then Inl (Errorf ''POLICY_UNAVAILABLE: reason is invalid'')
         else (case reason_strings vs of Inl err \<Rightarrow> Inl err | Inr rest \<Rightarrow> Inr (text # rest))
     | _ \<Rightarrow> Inl (Errorf ''POLICY_UNAVAILABLE: reason is invalid''))"

definition stringSlice :: "json option \<Rightarrow> (error, string list) result" where
  "stringSlice v = (case v of
       Some (JArr vs) \<Rightarrow> reason_strings vs
     | _ \<Rightarrow> Inl (Errorf ''POLICY_UNAVAILABLE: reasons are invalid''))"

fun role_strings :: "json list \<Rightarrow> (error, string list) result" where
  "role_strings [] = Inr []"
| "role_strings (v # vs) = (case v of
       JStr text \<Rightarrow> if text = [] then Inl (Errorf ''POLICY_UNAVAILABLE: required role is invalid'')
         else (case role_strings vs of Inl err \<Rightarrow> Inl err | Inr rest \<Rightarrow> Inr (text # rest))
     | _ \<Rightarrow> Inl (Errorf ''POLICY_UNAVAILABLE: required role is invalid''))"

definition optionalStringSlice :: "json option \<Rightarrow> (error, string list) result" where
  "optionalStringSlice v = (case v of
       None \<Rightarrow> Inr []
     | Some JNull \<Rightarrow> Inr []
     | Some (JArr vs) \<Rightarrow> (case role_strings vs of Inl err \<Rightarrow> Inl err | Inr roles \<Rightarrow> Inr (sort roles))
     | _ \<Rightarrow> Inl (Errorf ''POLICY_UNAVAILABLE: required roles are invalid''))"

record OPA =
  opa_query :: "json \<Rightarrow> (error, json list list) result"
  opa_bundleVersion :: string
  opa_bundleHash :: string

definition opa_result :: "(json \<Rightarrow> string) \<Rightarrow> OPA \<Rightarrow> Input \<Rightarrow> (string \<times> json) list \<Rightarrow> (error, Evaluation) result" where
  "opa_result digest opa input obj = (case map_of obj ''allow'' of
       Some (JBool allowed) \<Rightarrow>
         (case stringSlice (map_of obj ''reasons'') of
            Inl err \<Rightarrow> Inl err
          | Inr unsorted \<Rightarrow>
              (let sorted = sort unsorted;
                   requireApproval = (map_of obj ''require_approval'' = Some (JBool True));
                   decision = (if allowed then DecisionAllow else if requireApproval then DecisionRequireApproval else DecisionDeny);
                   reasons = (if allowed \<and> sorted = [] then [''POLICY_ALLOW''] else sorted)
               in case optionalStringSlice (map_of obj ''required_roles'') of
                    Inl err \<Rightarrow> Inl err
                  | Inr roles \<Rightarrow> Inr \<lparr>pe_Decision = decision, pe_Reasons = reasons,
                      pe_RequiredRoles = (if decision \<noteq> DecisionRequireApproval then [] else roles),
                      pe_InputHash = InputHash digest input, pe_PolicyVersion = opa_bundleVersion opa,
                      pe_PolicyHash = opa_bundleHash opa\<rparr>))
     | _ \<Rightarrow> Inl (Errorf ''POLICY_UNAVAILABLE: allow is missing''))"

definition OPA_Evaluate :: "(json \<Rightarrow> string) \<Rightarrow> OPA option \<Rightarrow> evaluator" where
  "OPA_Evaluate digest maybe raw = (case maybe of
       None \<Rightarrow> Inl (Errorf ''POLICY_UNAVAILABLE'')
     | Some opa \<Rightarrow> (let input = NormalizeInput raw in
         case opa_query opa (input_json input) of
           Inr [[JObj obj]] \<Rightarrow> opa_result digest opa input obj
         | Inr [[_]] \<Rightarrow> Inl (Errorf ''POLICY_UNAVAILABLE: result is not an object'')
         | Inr _ \<Rightarrow> Inl (Errorf ''POLICY_UNAVAILABLE: invalid OPA result: %w'')
         | Inl err \<Rightarrow> Inl (Wrapf ''POLICY_UNAVAILABLE: invalid OPA result: %w'' err)))"

section \<open>The embedded baseline policy\<close>

text \<open>
  A reference to a missing field is undefined and makes the rule body fail; \<^verbatim>\<open>object.get\<close> has a
  default.
\<close>

definition field_is :: "(string \<times> json) list \<Rightarrow> string \<Rightarrow> string \<Rightarrow> bool" where
  "field_is input name s \<longleftrightarrow> map_of input name = Some (JStr s)"

definition field_is_not :: "(string \<times> json) list \<Rightarrow> string \<Rightarrow> string \<Rightarrow> bool" where
  "field_is_not input name s \<longleftrightarrow> map_of input name \<noteq> None \<and> map_of input name \<noteq> Some (JStr s)"

definition object_get :: "(string \<times> json) list \<Rightarrow> string \<Rightarrow> json \<Rightarrow> json" where
  "object_get input name fallback = (case map_of input name of None \<Rightarrow> fallback | Some v \<Rightarrow> v)"

definition startswith :: "json \<Rightarrow> string \<Rightarrow> bool" where
  "startswith v p = (case v of JStr s \<Rightarrow> HasPrefix s p | _ \<Rightarrow> False)"

fun rego_count :: "json \<Rightarrow> nat option" where
  "rego_count (JArr vs) = Some (length vs)"
| "rego_count (JStr s) = Some (length s)"
| "rego_count (JObj fs) = Some (length fs)"
| "rego_count _ = None"

definition valid_subject_type :: "(string \<times> json) list \<Rightarrow> bool" where
  "valid_subject_type input \<longleftrightarrow> field_is input ''subject_type'' ''user'' \<or> field_is input ''subject_type'' ''ci''"

definition baseline_deny :: "(string \<times> json) list \<Rightarrow> string list" where
  "baseline_deny input =
     (if field_is input ''user_id'' [] then [''MISSING_SUBJECT''] else []) @
     (if field_is input ''agent_id'' [] then [''MISSING_AGENT''] else []) @
     (if field_is input ''environment'' ''production'' \<and> \<not> valid_subject_type input then [''INVALID_SUBJECT_TYPE''] else []) @
     (if field_is input ''environment'' ''production'' \<and> field_is input ''delegation_ref'' [] then [''MISSING_DELEGATION''] else []) @
     (if field_is_not input ''version'' ''themisy.policy.input/v1alpha1'' then [''UNSUPPORTED_POLICY_INPUT''] else []) @
     (if field_is input ''environment'' ''production'' \<and>
         list_ex (\<lambda>name. \<not> startswith (object_get input name (JStr [])) ''sha256:'')
           [''plan_hash'', ''contract_hash'', ''profile_hash'', ''policy_hash'', ''evidence_hash'']
      then [''MISSING_PINNED_CONTEXT''] else [])"

definition baseline_approval_required :: "(string \<times> json) list \<Rightarrow> string list" where
  "baseline_approval_required input =
     (if field_is input ''risk'' ''high'' \<and> rego_count (object_get input ''approval_proofs'' (JArr [])) = Some 0
      then [''MISSING_APPROVAL_PROOF''] else [])"

definition baseline_decision :: "(string \<times> json) list \<Rightarrow> json" where
  "baseline_decision input = (let deny = baseline_deny input; approval = baseline_approval_required input in
     JObj [(''allow'', JBool (deny = [] \<and> approval = [])),
           (''require_approval'', JBool (deny = [] \<and> approval \<noteq> [])),
           (''reasons'', JArr (map JStr (sort (deny @ approval)))),
           (''required_roles'', JArr [JStr ''service-owner''])])"

section \<open>Bundles\<close>

type_synonym Layer = string

abbreviation LayerPlatform :: Layer where "LayerPlatform \<equiv> ''platform_mandatory''"
abbreviation LayerEnvironment :: Layer where "LayerEnvironment \<equiv> ''environment''"
abbreviation LayerTeam :: Layer where "LayerTeam \<equiv> ''team''"
abbreviation LayerService :: Layer where "LayerService \<equiv> ''service''"

record Module =
  mod_Name :: string
  mod_Layer :: Layer
  mod_Source :: string

record Bundle =
  bn_Version :: string
  bn_Issuer :: string
  bn_Compatibility :: "string list"
  bn_IssuedAt :: time
  bn_ExpiresAt :: time
  bn_Modules :: "Module list"
  bn_Hash :: string
  bn_Signature :: Signature

abbreviation ErrInvalidBundle :: error where "ErrInvalidBundle \<equiv> Sentinel ''INVALID_POLICY_BUNDLE''"

definition ResolvePolicyKey :: "(string \<times> string) list \<Rightarrow> key_resolver" where
  "ResolvePolicyKey keys issuer keyID = (case map_of keys (issuer @ [CHR 0x00] @ keyID) of
       None \<Rightarrow> Inl (Errorf ''unknown policy bundle key'')
     | Some key \<Rightarrow> Inr key)"

text \<open>Modules are sorted by layer and name; the order among equal ones is that of the input.\<close>

definition module_key :: "Module \<Rightarrow> string \<times> string" where
  "module_key m = (mod_Layer m, mod_Name m)"

definition normalizedBundle :: "Bundle \<Rightarrow> Bundle" where
  "normalizedBundle b = b\<lparr>bn_Compatibility := sort (bn_Compatibility b), bn_Modules := sort_key module_key (bn_Modules b)\<rparr>"

definition module_json :: "Module \<Rightarrow> json" where
  "module_json m = JObj (jstr ''name'' (mod_Name m) @ jstr ''layer'' (mod_Layer m) @ jstr ''source'' (mod_Source m))"

definition bundle_json :: "Bundle \<Rightarrow> json" where
  "bundle_json b = JObj (jstr ''version'' (bn_Version b) @ jstr ''issuer'' (bn_Issuer b) @
     jarr ''compatibility'' JStr (bn_Compatibility b) @
     [(''issued_at'', JTime (bn_IssuedAt b)), (''expires_at'', JTime (bn_ExpiresAt b))] @
     jarr ''modules'' module_json (bn_Modules b) @ jstr ''hash'' (bn_Hash b) @
     [(''signature'', signature_json (bn_Signature b))])"

definition marshal_bundle :: "Bundle \<Rightarrow> (error, json) result" where
  "marshal_bundle b = (if json_time (bn_IssuedAt b) \<and> json_time (bn_ExpiresAt b) then Inr (bundle_json b)
     else Inl (Errorf ''json: error calling MarshalJSON for type time.Time''))"

definition CalculateBundleHash :: "(json \<Rightarrow> string) \<Rightarrow> Bundle \<Rightarrow> (error, string) result" where
  "CalculateBundleHash digest b =
     (case marshal_bundle ((normalizedBundle b)\<lparr>bn_Hash := [], bn_Signature := no_signature\<rparr>) of
        Inl err \<Rightarrow> Inl err
      | Inr data \<Rightarrow> Inr (hashValue digest data))"

definition CanonicalBundlePayload :: "Bundle \<Rightarrow> (error, json) result" where
  "CanonicalBundlePayload b = (let copy = (normalizedBundle b)\<lparr>bn_Signature := no_signature\<rparr> in
     if bn_Version copy = [] \<or> bn_Issuer copy = [] \<or> bn_Hash copy = [] \<or> bn_IssuedAt copy = 0
        \<or> \<not> bn_IssuedAt copy < bn_ExpiresAt copy \<or> bn_Modules copy = [] then Inl ErrInvalidBundle
     else marshal_bundle copy)"

definition SignBundle :: "(json \<Rightarrow> string) \<Rightarrow> signer \<Rightarrow> Bundle \<Rightarrow> (error, Bundle) result" where
  "SignBundle digest sign b = (case CalculateBundleHash digest b of
       Inl err \<Rightarrow> Inl err
     | Inr hash \<Rightarrow> (let bundle = b\<lparr>bn_Hash := hash\<rparr> in
         case CanonicalBundlePayload bundle of
           Inl err \<Rightarrow> Inl err
         | Inr payload \<Rightarrow> (case sign payload of
               Inl err \<Rightarrow> Inl err
             | Inr signature \<Rightarrow> Inr (bundle\<lparr>bn_Signature := signature\<rparr>))))"

definition known_layer :: "Layer \<Rightarrow> bool" where
  "known_layer l \<longleftrightarrow> l = LayerPlatform \<or> l = LayerEnvironment \<or> l = LayerTeam \<or> l = LayerService"

fun valid_layers_from :: "bool \<Rightarrow> Module list \<Rightarrow> bool" where
  "valid_layers_from hasPlatform [] \<longleftrightarrow> hasPlatform"
| "valid_layers_from hasPlatform (m # ms) \<longleftrightarrow>
     (if \<not> known_layer (mod_Layer m) then False
      else if mod_Name m = [] \<or> mod_Source m = [] then False
      else valid_layers_from (hasPlatform \<or> mod_Layer m = LayerPlatform) ms)"

definition validLayers :: "Module list \<Rightarrow> bool" where
  "validLayers ms = valid_layers_from False ms"

definition VerifyBundle :: "(json \<Rightarrow> string) \<Rightarrow> (string \<Rightarrow> json \<Rightarrow> string \<Rightarrow> bool) \<Rightarrow> Bundle \<Rightarrow> string
    \<Rightarrow> key_resolver option \<Rightarrow> time \<Rightarrow> error option" where
  "VerifyBundle digest ed25519_Verify b issuer maybe now = (case maybe of
       None \<Rightarrow> Some ErrInvalidBundle
     | Some keys \<Rightarrow>
         if bn_Issuer b \<noteq> issuer \<or> sig_Algorithm (bn_Signature b) \<noteq> AlgorithmEd25519
            \<or> \<not> containsString (bn_Compatibility b) InputVersionV1Alpha1 \<or> now < bn_IssuedAt b
            \<or> \<not> now < bn_ExpiresAt b \<or> \<not> validLayers (bn_Modules b) then Some ErrInvalidBundle
         else if CalculateBundleHash digest b \<noteq> Inr (bn_Hash b) then Some ErrInvalidBundle
         else (case CanonicalBundlePayload b of
             Inl _ \<Rightarrow> Some ErrInvalidBundle
           | Inr payload \<Rightarrow> (case keys issuer (sig_KeyID (bn_Signature b)) of
               Inl _ \<Rightarrow> Some ErrInvalidBundle
             | Inr key \<Rightarrow> if \<not> signature_valid ed25519_Verify key payload (sig_Value (bn_Signature b))
                 then Some ErrInvalidBundle else None)))"

text \<open>
  Compiling the modules is the parameter \<open>prepare\<close>: module names and sources to a query.
\<close>

type_synonym rego_compiler = "(string \<times> string) list \<Rightarrow> (error, json \<Rightarrow> (error, json list list) result) result"

definition module_files :: "Module list \<Rightarrow> (string \<times> string) list" where
  "module_files ms = map (\<lambda>m. (mod_Layer m @ ''/'' @ mod_Name m, mod_Source m)) ms"

definition newOPA :: "rego_compiler \<Rightarrow> Bundle \<Rightarrow> (error, OPA) result" where
  "newOPA prepare b = (let ms = bn_Modules (normalizedBundle b) in
     if list_ex (\<lambda>m. mod_Name m = [] \<or> mod_Source m = []) ms then Inl (Errorf ''INVALID_POLICY_BUNDLE: empty module'')
     else if \<not> list_ex (\<lambda>m. mod_Layer m = LayerPlatform) ms
     then Inl (Errorf ''INVALID_POLICY_BUNDLE: platform mandatory layer is required'')
     else case prepare (module_files ms) of
         Inl err \<Rightarrow> Inl (Wrapf ''compile policy bundle: %w'' err)
       | Inr query \<Rightarrow> Inr \<lparr>opa_query = query, opa_bundleVersion = bn_Version b, opa_bundleHash = bn_Hash b\<rparr>)"

definition NewVerifiedOPA :: "(json \<Rightarrow> string) \<Rightarrow> (string \<Rightarrow> json \<Rightarrow> string \<Rightarrow> bool) \<Rightarrow> rego_compiler \<Rightarrow> Bundle \<Rightarrow> string
    \<Rightarrow> key_resolver option \<Rightarrow> time \<Rightarrow> (error, OPA) result" where
  "NewVerifiedOPA digest ed25519_Verify prepare b issuer keys now =
     (case VerifyBundle digest ed25519_Verify b issuer keys now of
        Some err \<Rightarrow> Inl err
      | None \<Rightarrow> newOPA prepare b)"

text \<open>The embedded bundle, issued on 1 August 2026 and valid until the end of 9999, with the text of the baseline.\<close>

definition embedded_bundle :: "string \<Rightarrow> Bundle" where
  "embedded_bundle baseline = \<lparr>bn_Version = ''embedded-baseline-v1'', bn_Issuer = ''embedded://themisy'',
     bn_Compatibility = [InputVersionV1Alpha1], bn_IssuedAt = 63921139200000000000, bn_ExpiresAt = 315537811200000000000,
     bn_Modules = [\<lparr>mod_Name = ''main.rego'', mod_Layer = LayerPlatform, mod_Source = baseline\<rparr>], bn_Hash = [],
     bn_Signature = no_signature\<rparr>"

definition NewMandatoryEngine :: "(json \<Rightarrow> string) \<Rightarrow> rego_compiler \<Rightarrow> string \<Rightarrow> (error, evaluator option) result" where
  "NewMandatoryEngine digest prepare baseline = (let b = embedded_bundle baseline in
     case CalculateBundleHash digest b of
       Inl err \<Rightarrow> Inl err
     | Inr hash \<Rightarrow> (case newOPA prepare (b\<lparr>bn_Hash := hash\<rparr>) of
           Inl err \<Rightarrow> Inl err
         | Inr opa \<Rightarrow> Inr (Some (OPA_Evaluate digest (Some opa)))))"

section \<open>Normalisation\<close>

lemma NormalizeInput_idem [simp]: "NormalizeInput (NormalizeInput input) = NormalizeInput input"
  by (simp add: NormalizeInput_def sort_idem)

lemma InputHash_Normalize [simp]: "InputHash digest (NormalizeInput input) = InputHash digest input"
  by (simp add: InputHash_def CanonicalInput_def)

lemma containsString_iff [simp]: "containsString vs expected \<longleftrightarrow> expected \<in> set vs"
  by (induction vs) auto

text \<open>Fields of the JSON form of an input, as the policy reads them.\<close>

lemma input_json_fields:
  shows "map_of (obj_fields (input_json i)) ''user_id'' = Some (JStr (pi_UserID i))"
    and "map_of (obj_fields (input_json i)) ''agent_id'' = Some (JStr (pi_AgentID i))"
    and "map_of (obj_fields (input_json i)) ''environment'' = Some (JStr (pi_Environment i))"
    and "map_of (obj_fields (input_json i)) ''risk'' = Some (JStr (pi_Risk i))"
    and "map_of (obj_fields (input_json i)) ''version'' = (if pi_Version i = [] then None else Some (JStr (pi_Version i)))"
    and "map_of (obj_fields (input_json i)) ''subject_type'' = (if pi_SubjectType i = [] then None else Some (JStr (pi_SubjectType i)))"
    and "map_of (obj_fields (input_json i)) ''delegation_ref'' = (if pi_DelegationRef i = [] then None else Some (JStr (pi_DelegationRef i)))"
    and "map_of (obj_fields (input_json i)) ''plan_hash'' = (if pi_PlanHash i = [] then None else Some (JStr (pi_PlanHash i)))"
    and "map_of (obj_fields (input_json i)) ''contract_hash'' = (if pi_ContractHash i = [] then None else Some (JStr (pi_ContractHash i)))"
    and "map_of (obj_fields (input_json i)) ''profile_hash'' = (if pi_ProfileHash i = [] then None else Some (JStr (pi_ProfileHash i)))"
    and "map_of (obj_fields (input_json i)) ''policy_hash'' = (if pi_PolicyHash i = [] then None else Some (JStr (pi_PolicyHash i)))"
    and "map_of (obj_fields (input_json i)) ''evidence_hash'' = (if pi_EvidenceHash i = [] then None else Some (JStr (pi_EvidenceHash i)))"
    and "map_of (obj_fields (input_json i)) ''approval_proofs'' =
      (if pi_ApprovalProofs i = [] then None else Some (JArr (map JStr (pi_ApprovalProofs i))))"
  by (simp_all add: input_json_def map_add_def)

definition pinned :: "Input \<Rightarrow> bool" where
  "pinned i \<longleftrightarrow> list_all (\<lambda>h. HasPrefix h ''sha256:'')
     [pi_PlanHash i, pi_ContractHash i, pi_ProfileHash i, pi_PolicyHash i, pi_EvidenceHash i]"

definition baseline_ok :: "Input \<Rightarrow> bool" where
  "baseline_ok i \<longleftrightarrow> pi_UserID i \<noteq> [] \<and> pi_AgentID i \<noteq> [] \<and> pi_Version i \<in> {[], InputVersionV1Alpha1} \<and>
     (pi_Environment i = EnvironmentProduction \<longrightarrow> pi_SubjectType i \<in> {''user'', ''ci''} \<and> pinned i)"

definition approval_missing :: "Input \<Rightarrow> bool" where
  "approval_missing i \<longleftrightarrow> pi_Risk i = ''high'' \<and> pi_ApprovalProofs i = []"

lemma startswith_get:
  "startswith (object_get fs name (JStr [])) ''sha256:'' \<longleftrightarrow> HasPrefix h ''sha256:''"
  if "map_of fs name = (if h = [] then None else Some (JStr h))"
  using that by (auto simp: object_get_def startswith_def HasPrefix_def)

lemma baseline_deny_empty: "baseline_deny (obj_fields (input_json i)) = [] \<longleftrightarrow> baseline_ok i"
proof -
  have "list_ex (\<lambda>name. \<not> startswith (object_get (obj_fields (input_json i)) name (JStr [])) ''sha256:'')
      [''plan_hash'', ''contract_hash'', ''profile_hash'', ''policy_hash'', ''evidence_hash''] \<longleftrightarrow> \<not> pinned i"
    using startswith_get[OF input_json_fields(8)] startswith_get[OF input_json_fields(9)]
      startswith_get[OF input_json_fields(10)] startswith_get[OF input_json_fields(11)]
      startswith_get[OF input_json_fields(12)]
    by (simp add: pinned_def)
  then show ?thesis
    by (auto simp: baseline_deny_def baseline_ok_def field_is_def field_is_not_def valid_subject_type_def input_json_fields)
qed

lemma baseline_approval_empty: "baseline_approval_required (obj_fields (input_json i)) = [] \<longleftrightarrow> \<not> approval_missing i"
  by (simp add: baseline_approval_required_def approval_missing_def field_is_def object_get_def input_json_fields)

lemma baseline_reasons_stable:
  "r \<in> set (baseline_deny fs @ baseline_approval_required fs) \<Longrightarrow> stableReasonCode r"
proof -
  have "list_all stableReasonCode [''MISSING_SUBJECT'', ''MISSING_AGENT'', ''INVALID_SUBJECT_TYPE'', ''MISSING_DELEGATION'',
      ''UNSUPPORTED_POLICY_INPUT'', ''MISSING_PINNED_CONTEXT'', ''MISSING_APPROVAL_PROOF'']"
    by (simp add: stableReasonCode_def upper_def code_char_def)
  moreover assume "r \<in> set (baseline_deny fs @ baseline_approval_required fs)"
  then have "r \<in> {''MISSING_SUBJECT'', ''MISSING_AGENT'', ''INVALID_SUBJECT_TYPE'', ''MISSING_DELEGATION'',
      ''UNSUPPORTED_POLICY_INPUT'', ''MISSING_PINNED_CONTEXT'', ''MISSING_APPROVAL_PROOF''}"
    by (auto simp: baseline_deny_def baseline_approval_required_def split: if_splits)
  ultimately show "stableReasonCode r" by (auto simp: list_all_iff)
qed

lemma reason_strings_Inr:
  "reason_strings vs = Inr rs \<longleftrightarrow> vs = map JStr rs \<and> list_all stableReasonCode rs"
proof (induction vs arbitrary: rs)
  case (Cons v vs)
  then show ?case by (cases v; cases rs; cases "reason_strings vs") auto
qed auto

lemma role_strings_Inr: "role_strings vs = Inr rs \<longleftrightarrow> vs = map JStr rs \<and> [] \<notin> set rs"
proof (induction vs arbitrary: rs)
  case (Cons v vs)
  then show ?case by (cases v; cases rs; cases "role_strings vs") auto
qed auto

section \<open>What the mandatory policy decides\<close>

lemma sort_Nil_iff [simp]: "sort_key f xs = [] \<longleftrightarrow> xs = []"
  by (metis length_0_conv length_sort)

lemma baseline_Normalize [simp]:
  "baseline_ok (NormalizeInput i) \<longleftrightarrow> baseline_ok i" "approval_missing (NormalizeInput i) \<longleftrightarrow> approval_missing i"
  by (auto simp: baseline_ok_def approval_missing_def NormalizeInput_def pinned_def)

definition baseline_verdict :: "Input \<Rightarrow> Decision" where
  "baseline_verdict i = (if \<not> baseline_ok i then DecisionDeny
     else if approval_missing i then DecisionRequireApproval else DecisionAllow)"

lemma opa_result_baseline:
  assumes "baseline_decision (obj_fields (input_json i)) = JObj obj"
  obtains ev where "opa_result digest opa i obj = Inr ev" and "pe_Decision ev = baseline_verdict i"
    and "pe_InputHash ev = InputHash digest i"
proof -
  let ?fs = "obj_fields (input_json i)"
  let ?reasons = "sort (baseline_deny ?fs @ baseline_approval_required ?fs)"
  have obj: "map_of obj ''allow'' = Some (JBool (baseline_ok i \<and> \<not> approval_missing i))"
    "map_of obj ''require_approval'' = Some (JBool (baseline_ok i \<and> approval_missing i))"
    "map_of obj ''reasons'' = Some (JArr (map JStr ?reasons))"
    "map_of obj ''required_roles'' = Some (JArr [JStr ''service-owner''])"
    using assms by (auto simp: baseline_decision_def Let_def baseline_deny_empty baseline_approval_empty)
  have "list_all stableReasonCode ?reasons" using baseline_reasons_stable[of _ ?fs] by (simp add: list_all_iff)
  then have "stringSlice (map_of obj ''reasons'') = Inr ?reasons"
    unfolding obj stringSlice_def by (simp add: reason_strings_Inr)
  moreover have "optionalStringSlice (map_of obj ''required_roles'') = Inr [''service-owner'']"
    by (simp add: obj optionalStringSlice_def)
  ultimately show thesis
    using that obj(1,2) by (simp add: opa_result_def Let_def baseline_verdict_def)
qed

lemma mandatory_evaluates:
  assumes "NewMandatoryEngine digest prepare baseline = Inr engine"
    and "prepare [(''platform_mandatory/main.rego'', baseline)] = Inr (\<lambda>i. Inr [[baseline_decision (obj_fields i)]])"
  obtains ev where "EvaluateContext engine input = Inr ev" and "pe_Decision ev = baseline_verdict input"
    and "pe_InputHash ev = InputHash digest input"
proof -
  obtain hash where e: "engine = Some (OPA_Evaluate digest (Some \<lparr>opa_query = (\<lambda>i. Inr [[baseline_decision (obj_fields i)]]),
      opa_bundleVersion = ''embedded-baseline-v1'', opa_bundleHash = hash\<rparr>))"
    using assms by (auto simp: NewMandatoryEngine_def newOPA_def Let_def embedded_bundle_def normalizedBundle_def
        module_files_def split: sum.splits if_splits)
  obtain obj where obj: "baseline_decision (obj_fields (input_json (NormalizeInput input))) = JObj obj"
    unfolding baseline_decision_def Let_def by blast
  obtain ev where ev: "opa_result digest \<lparr>opa_query = (\<lambda>i. Inr [[baseline_decision (obj_fields i)]]),
      opa_bundleVersion = ''embedded-baseline-v1'', opa_bundleHash = hash\<rparr> (NormalizeInput input) obj = Inr ev"
    "pe_Decision ev = baseline_verdict (NormalizeInput input)" "pe_InputHash ev = InputHash digest (NormalizeInput input)"
    by (rule opa_result_baseline[OF obj])
  have "EvaluateContext engine input = Inr ev"
    using ev(1) obj by (simp add: EvaluateContext_def e OPA_Evaluate_def Let_def)
  moreover have "pe_Decision ev = baseline_verdict input" using ev(2) by (simp add: baseline_verdict_def)
  ultimately show thesis using that ev(3) by simp
qed

lemma mandatory_policy_hash:
  assumes "NewMandatoryEngine digest prepare baseline = Inr engine" "EvaluateContext engine input = Inr ev"
  shows "CalculateBundleHash digest (embedded_bundle baseline) = Inr (pe_PolicyHash ev)"
proof -
  obtain opa hash where h: "CalculateBundleHash digest (embedded_bundle baseline) = Inr hash"
    "newOPA prepare (embedded_bundle baseline\<lparr>bn_Hash := hash\<rparr>) = Inr opa" "engine = Some (OPA_Evaluate digest (Some opa))"
    using assms(1) by (auto simp: NewMandatoryEngine_def Let_def split: sum.splits)
  moreover have "opa_bundleHash opa = hash" using h(2) by (auto simp: newOPA_def Let_def split: sum.splits if_splits)
  moreover have "pe_PolicyHash ev = opa_bundleHash opa" if "opa_result digest opa i obj = Inr ev" for i obj
    using that by (auto simp: opa_result_def Let_def split: option.splits json.splits sum.splits)
  ultimately show ?thesis
    using assms(2) by (auto simp: EvaluateContext_def OPA_Evaluate_def Let_def split: sum.splits list.splits json.splits)
qed

text \<open>
  C23.  The mandatory policy is total and its decision is known: with the embedded baseline, every
  input gets an evaluation, bound to the hash of the canonical input.  It denies exactly when the
  user or the agent is missing, the input version is foreign, or a production input lacks a valid
  subject type or one of the five pinned hashes; otherwise it requires an approval exactly for high
  risk without approval proofs, and allows the rest.  Of the Rego compiler the statement uses that
  it compiles the baseline to the rules of \<^verbatim>\<open>main.rego\<close>.
\<close>

theorem mandatory_policy_decision:
  assumes "NewMandatoryEngine digest prepare baseline = Inr engine"
    and "prepare [(''platform_mandatory/main.rego'', baseline)] = Inr (\<lambda>i. Inr [[baseline_decision (obj_fields i)]])"
  shows "\<exists>evaluation. EvaluateContext engine input = Inr evaluation \<and> pe_InputHash evaluation = InputHash digest input \<and>
    pe_Decision evaluation =
      (if pi_UserID input = [] \<or> pi_AgentID input = [] \<or> pi_Version input \<notin> {[], InputVersionV1Alpha1} \<or>
          pi_Environment input = EnvironmentProduction \<and>
            (pi_SubjectType input \<notin> {''user'', ''ci''} \<or>
             (\<exists>h \<in> {pi_PlanHash input, pi_ContractHash input, pi_ProfileHash input, pi_PolicyHash input, pi_EvidenceHash input}.
                \<not> HasPrefix h ''sha256:''))
       then DecisionDeny
       else if pi_Risk input = ''high'' \<and> pi_ApprovalProofs input = [] then DecisionRequireApproval
       else DecisionAllow)"
proof -
  obtain ev where ev: "EvaluateContext engine input = Inr ev" "pe_Decision ev = baseline_verdict input"
    "pe_InputHash ev = InputHash digest input"
    by (rule mandatory_evaluates[OF assms])
  then show ?thesis
    by (intro exI[of _ ev]) (auto simp: baseline_verdict_def baseline_ok_def pinned_def approval_missing_def)
qed


lemma stringSlice_Inr:
  "stringSlice v = Inr rs \<longleftrightarrow> v = Some (JArr (map JStr rs)) \<and> list_all stableReasonCode rs"
  by (auto simp: stringSlice_def reason_strings_Inr split: option.splits json.splits)

lemma optionalStringSlice_Inr:
  "(\<exists>rs. optionalStringSlice v = Inr rs) \<longleftrightarrow>
     v \<in> {None, Some JNull} \<or> (\<exists>roles. v = Some (JArr (map JStr roles)) \<and> [] \<notin> set roles)"
proof (cases "\<exists>vs. v = Some (JArr vs)")
  case True
  then obtain vs where v: "v = Some (JArr vs)" by blast
  then show ?thesis by (cases "role_strings vs") (auto simp: optionalStringSlice_def role_strings_Inr[symmetric])
next
  case False
  then show ?thesis by (auto simp: optionalStringSlice_def split: option.splits json.splits)
qed

lemma opa_result_allow:
  "(\<exists>ev. opa_result digest opa i obj = Inr ev \<and> pe_Decision ev = DecisionAllow) \<longleftrightarrow>
     map_of obj ''allow'' = Some (JBool True) \<and> (\<exists>rs. stringSlice (map_of obj ''reasons'') = Inr rs) \<and>
     (\<exists>rs. optionalStringSlice (map_of obj ''required_roles'') = Inr rs)"
proof (cases "\<exists>b. map_of obj ''allow'' = Some (JBool b)")
  case True
  then obtain b where "map_of obj ''allow'' = Some (JBool b)" by blast
  then show ?thesis
    by (cases "stringSlice (map_of obj ''reasons'')"; cases "optionalStringSlice (map_of obj ''required_roles'')"; cases b)
       (simp_all add: opa_result_def Let_def)
next
  case False
  then have "\<not> (\<exists>ev. opa_result digest opa i obj = Inr ev)"
    by (auto simp: opa_result_def split: option.splits json.splits)
  with False show ?thesis by auto
qed

lemma OPA_Evaluate_allow:
  "(\<exists>ev. OPA_Evaluate digest (Some opa) (NormalizeInput input) = Inr ev \<and> pe_Decision ev = DecisionAllow) \<longleftrightarrow>
     (\<exists>obj. opa_query opa (CanonicalInput input) = Inr [[JObj obj]] \<and>
        (\<exists>ev. opa_result digest opa (NormalizeInput input) obj = Inr ev \<and> pe_Decision ev = DecisionAllow))"
proof (cases "\<exists>obj. opa_query opa (CanonicalInput input) = Inr [[JObj obj]]")
  case True
  then show ?thesis by (auto simp: OPA_Evaluate_def Let_def CanonicalInput_def)
next
  case False
  then have "\<not> (\<exists>ev. OPA_Evaluate digest (Some opa) (NormalizeInput input) = Inr ev)"
    by (auto simp: OPA_Evaluate_def Let_def CanonicalInput_def split: sum.splits list.splits json.splits)
  with False show ?thesis by blast
qed

text \<open>
  Policy evaluation fails closed: whatever the policy engine returns, the recorded decision is
  to allow only if the query gave exactly one result with one expression, an object whose allow
  flag is true, whose reasons are stable reason codes, and whose required roles, if any, are
  non-empty strings.  Errors and malformed results are recorded as denials.
\<close>

theorem policy_fails_closed:
  "pd_Decision (Engine_Evaluate digest (Some (OPA_Evaluate digest (Some opa))) now input) = DecisionAllow \<longleftrightarrow>
     (\<exists>obj reasons. opa_query opa (CanonicalInput input) = Inr [[JObj obj]] \<and> map_of obj ''allow'' = Some (JBool True) \<and>
        map_of obj ''reasons'' = Some (JArr (map JStr reasons)) \<and> list_all stableReasonCode reasons \<and>
        (map_of obj ''required_roles'' \<in> {None, Some JNull} \<or>
         (\<exists>roles. map_of obj ''required_roles'' = Some (JArr (map JStr roles)) \<and> [] \<notin> set roles)))"
  (is "?allowed \<longleftrightarrow> ?wellformed")
proof -
  let ?i = "NormalizeInput input"
  let ?r = "OPA_Evaluate digest (Some opa) ?i"
  have "?allowed \<longleftrightarrow> (\<exists>ev. ?r = Inr ev \<and> pe_Decision ev = DecisionAllow)"
    by (cases ?r) (simp_all add: Engine_Evaluate_def EvaluateContext_def)
  also have "\<dots> \<longleftrightarrow> (\<exists>obj. opa_query opa (CanonicalInput input) = Inr [[JObj obj]] \<and>
      map_of obj ''allow'' = Some (JBool True) \<and> (\<exists>rs. stringSlice (map_of obj ''reasons'') = Inr rs) \<and>
      (\<exists>rs. optionalStringSlice (map_of obj ''required_roles'') = Inr rs))"
    unfolding OPA_Evaluate_allow opa_result_allow ..
  also have "\<dots> \<longleftrightarrow> ?wellformed"
    unfolding stringSlice_Inr optionalStringSlice_Inr by blast
  finally show ?thesis .
qed

section \<open>Control plane and runner evaluate the same input\<close>

lemma planned_hashes_unique:
  assumes "\<forall>s \<in> set (concat (map pp_Steps phases)). ps_Service s = service \<longrightarrow> s = planned"
    and "planned \<in> set (concat (map pp_Steps phases)) \<or> acc = (ps_ContractHash planned, ps_ProfileHash planned)"
    and "ps_Service planned = service"
  shows "planned_hashes phases service acc = (ps_ContractHash planned, ps_ProfileHash planned)"
  using assms(1,2)
proof (induction phases arbitrary: acc)
  case (Cons phase phases)
  show ?case
  proof (cases "find (\<lambda>s. ps_Service s = service) (pp_Steps phase)")
    case None
    then have "planned \<notin> set (pp_Steps phase)" using assms(3) by (auto simp: find_None_iff)
    then show ?thesis using Cons None by simp
  next
    case (Some s)
    then have "s = planned" using Cons.prems(1) by (auto simp: find_Some_iff)
    then show ?thesis using Cons Some by simp
  qed
qed simp


section \<open>Signed bundles\<close>

lemma validLayers_iff:
  "validLayers ms \<longleftrightarrow> (\<forall>m \<in> set ms. known_layer (mod_Layer m) \<and> mod_Name m \<noteq> [] \<and> mod_Source m \<noteq> []) \<and>
     (\<exists>m \<in> set ms. mod_Layer m = LayerPlatform)"
proof -
  have "valid_layers_from p ms \<longleftrightarrow> (\<forall>m \<in> set ms. known_layer (mod_Layer m) \<and> mod_Name m \<noteq> [] \<and> mod_Source m \<noteq> []) \<and>
     (p \<or> (\<exists>m \<in> set ms. mod_Layer m = LayerPlatform))" for p
    by (induction ms arbitrary: p) auto
  then show ?thesis by (simp add: validLayers_def)
qed

lemma bundle_signature_ignored [simp]:
  "CanonicalBundlePayload (b\<lparr>bn_Signature := s\<rparr>) = CanonicalBundlePayload b"
  "CalculateBundleHash digest (b\<lparr>bn_Signature := s\<rparr>) = CalculateBundleHash digest b"
  "CalculateBundleHash digest (b\<lparr>bn_Hash := h\<rparr>) = CalculateBundleHash digest b"
  by (simp_all add: CanonicalBundlePayload_def CalculateBundleHash_def normalizedBundle_def)

text \<open>
  A signed bundle verifies: a policy bundle signed with the development signer is accepted
  under its issuer and the signer's public key exactly when it is compatible with the input
  version, the clock is within its validity, every module has a known layer, a name and a source,
  and the platform layer is present.
\<close>

theorem signed_bundle_verifies:
  assumes "SignBundle digest (DevelopmentSigner_Sign ed25519_Sign signer) b = Inr signed"
    and "\<forall>m. ed25519_Verify public m (ed25519_Sign (dev_key signer) m)"
    and "keys (bn_Issuer b) (dev_keyID signer) = Inr public"
  shows "VerifyBundle digest ed25519_Verify signed (bn_Issuer b) (Some keys) now = None \<longleftrightarrow>
           InputVersionV1Alpha1 \<in> set (bn_Compatibility b) \<and> bn_IssuedAt b \<le> now \<and> now < bn_ExpiresAt b \<and>
           (\<forall>m \<in> set (bn_Modules b). known_layer (mod_Layer m) \<and> mod_Name m \<noteq> [] \<and> mod_Source m \<noteq> []) \<and>
           (\<exists>m \<in> set (bn_Modules b). mod_Layer m = LayerPlatform)"
proof -
  obtain hash payload where h: "CalculateBundleHash digest b = Inr hash"
    and p: "CanonicalBundlePayload (b\<lparr>bn_Hash := hash\<rparr>) = Inr payload"
    and s: "signed = b\<lparr>bn_Hash := hash, bn_Signature := \<lparr>sig_Algorithm = AlgorithmEd25519, sig_KeyID = dev_keyID signer,
                sig_Value = EncodeToString (ed25519_Sign (dev_key signer) payload)\<rparr>\<rparr>"
    using assms(1) by (auto simp: SignBundle_def DevelopmentSigner_Sign_def Let_def split: sum.splits if_splits)
  have "signature_valid ed25519_Verify public payload (EncodeToString (ed25519_Sign (dev_key signer) payload))"
    using assms(2) by (simp add: signature_valid_def)
  then show ?thesis
    using assms(3) h p by (auto simp: VerifyBundle_def s validLayers_iff split: if_splits)
qed

section \<open>Concrete evaluations\<close>

definition demo_hash :: "json \<Rightarrow> string" where
  "demo_hash v = replicate 64 CHR ''0''"

definition demo_prepare :: rego_compiler where
  "demo_prepare files = Inr (\<lambda>i. Inr [[baseline_decision (obj_fields i)]])"

definition demo_input :: Input where
  "demo_input = \<lparr>pi_Version = [], pi_TenantID = ''tenant'', pi_RunnerGroup = ''group'', pi_SubjectType = ''user'',
     pi_UserID = ''alice'', pi_UserIssuer = ''oidc'', pi_AgentID = ''bot'', pi_DelegationRef = ''delegation'',
     pi_AgentScopes = [], pi_Environment = EnvironmentProduction, pi_Service = ''api'', pi_Capability = ProtocolDeploy,
     pi_ArtifactDigest = zero_digest, pi_Risk = ''low'', pi_PlanHash = zero_digest, pi_ContractHash = zero_digest,
     pi_ProfileHash = zero_digest, pi_PolicyHash = zero_digest, pi_EvidenceHash = zero_digest, pi_ApprovalProofs = [],
     pi_CISuccess = True, pi_DependenciesHealthy = True, pi_DestructiveMigration = False\<rparr>"

lemma demo_engine: "\<exists>engine. NewMandatoryEngine demo_hash demo_prepare ''baseline'' = Inr engine"
  by (simp add: NewMandatoryEngine_def embedded_bundle_def Let_def CalculateBundleHash_def marshal_bundle_def
      normalizedBundle_def json_time_def newOPA_def demo_prepare_def)

lemma demo_pinned: "HasPrefix zero_digest ''sha256:''"
  by (simp add: HasPrefix_def zero_digest_def)

theorem mandatory_policy_decision_witness:
  "\<exists>engine evaluation. NewMandatoryEngine demo_hash demo_prepare ''baseline'' = Inr engine \<and>
     EvaluateContext engine demo_input = Inr evaluation \<and> pe_Decision evaluation = DecisionAllow"
proof -
  obtain engine where e: "NewMandatoryEngine demo_hash demo_prepare ''baseline'' = Inr engine" using demo_engine by blast
  have p: "demo_prepare [(''platform_mandatory/main.rego'', ''baseline'')] =
      Inr (\<lambda>i. Inr [[baseline_decision (obj_fields i)]])" by (simp add: demo_prepare_def)
  have sel: "pi_UserID demo_input = ''alice''" "pi_AgentID demo_input = ''bot''" "pi_Version demo_input = []"
    "pi_SubjectType demo_input = ''user''" "pi_Risk demo_input = ''low''" "pi_PlanHash demo_input = zero_digest"
    "pi_ContractHash demo_input = zero_digest" "pi_ProfileHash demo_input = zero_digest"
    "pi_PolicyHash demo_input = zero_digest" "pi_EvidenceHash demo_input = zero_digest"
    by (simp_all add: demo_input_def)
  have "\<exists>evaluation. EvaluateContext engine demo_input = Inr evaluation \<and> pe_Decision evaluation = DecisionAllow"
    using mandatory_policy_decision[OF e p, of demo_input] demo_pinned unfolding sel by auto
  with e show ?thesis by blast
qed


definition demo_change_of :: "string \<Rightarrow> Change" where
  "demo_change_of name = \<lparr>ch_Service = name, ch_DesiredVersion = zero_digest, ch_CISuccess = True,
     ch_DependenciesHealthy = True, ch_DestructiveMigration = False, ch_Risk = ''low''\<rparr>"

definition demo_planned :: PlanStep where
  "demo_planned = \<lparr>ps_Service = ''api'', ps_DesiredVersion = zero_digest, ps_Phase = 0, ps_Profile = ''p'', ps_Dependencies = [],
     ps_RequiredCapabilities = [], ps_ContractHash = zero_digest, ps_ProfileHash = zero_digest, ps_ChangeHash = zero_digest,
     ps_VerificationRequired = True, ps_ObservationWindow = ''1m'', ps_RollbackMode = RollbackAutomatic,
     ps_Scheduling = \<lparr>sc_TenantID = ''tenant'', sc_Environment = EnvironmentStaging, sc_Region = ''r'', sc_Cluster = ''c'',
       sc_Team = ''t'', sc_RiskTier = ''low'', sc_RunnerGroup = ''group'', sc_FailureDomains = []\<rparr>\<rparr>"

definition demo_release_plan :: ReleasePlan where
  "demo_release_plan = \<lparr>pl_APIVersion = ''v2'', pl_ID = ''plan'', pl_ReleaseVersion = ''v2'', pl_Environment = EnvironmentStaging,
     pl_Phases = [\<lparr>pp_Number = 0, pp_Steps = [demo_planned]\<rparr>], pl_Hash = zero_digest, pl_PlanHash = zero_digest,
     pl_ContractHashes = [], pl_ProfileHashes = [], pl_ContextSnapshotRef = [], pl_PolicyHash = zero_digest,
     pl_EvidenceHash = zero_digest, pl_CreatedAt = 1, pl_ExpiresAt = 100\<rparr>"

definition demo_approval :: Approval where
  "demo_approval = \<lparr>ap_ID = ''p'', ap_RequiredRoles = [], ap_Status = ApprovalApproved, ap_PlanHash = zero_digest,
     ap_RequestedAt = 1, ap_ExpiresAt = 100, ap_DecidedBy = ''carol'', ap_DecidedAt = Some 2\<rparr>"

definition demo_release_step :: ReleaseStep where
  "demo_release_step = \<lparr>rs_Service = ''api'', rs_Phase = 0, rs_Wave = 0, rs_Status = StepPending,
     rs_Change = demo_change_of ''api'', rs_Policy = None, rs_Approval = Some demo_approval, rs_Execution = None,
     rs_Verification = None, rs_VerificationRequired = True, rs_ObservationWindow = ''1m'', rs_RollbackMode = RollbackAutomatic,
     rs_RollbackExecution = None, rs_RollbackVerification = None, rs_Failure = []\<rparr>"

definition demo_run :: ReleaseRun where
  "demo_run = \<lparr>run_ID = ''run'', run_RequestID = ''request'', run_ReleaseVersion = ''v2'', run_Environment = EnvironmentStaging,
     run_RequestedBy = ''alice'', run_SubjectType = ''user'', run_SubjectIssuer = ''oidc'', run_UserIdentityProof = ''token'',
     run_TenantID = ''tenant'', run_Region = ''r'', run_Cluster = ''c'', run_RunnerGroup = ''group'',
     run_DelegationRef = ''delegation'', run_Agent = \<lparr>agent_ID = ''bot'', agent_Scopes = []\<rparr>, run_Plan = demo_release_plan,
     run_Status = RunPending, run_PausedFrom = None, run_Steps = [demo_release_step], run_StateVersion = 1,
     run_WorkflowID = [], run_TemporalRunID = [], run_CreatedAt = 1, run_UpdatedAt = 1\<rparr>"


definition demo_bundle :: Bundle where
  "demo_bundle = (embedded_bundle ''baseline'')\<lparr>bn_Issuer := ''issuer'', bn_IssuedAt := 10, bn_ExpiresAt := 20\<rparr>"

theorem signed_bundle_verifies_witness:
  "\<exists>signed. SignBundle demo_hash (DevelopmentSigner_Sign demo_Sign demo_signer) demo_bundle = Inr signed \<and>
     VerifyBundle demo_hash demo_Verify signed ''issuer'' (Some (\<lambda>issuer keyID. Inr ''public'')) 15 = None \<and>
     VerifyBundle demo_hash demo_Verify signed ''issuer'' (Some (\<lambda>issuer keyID. Inr ''public'')) 20 \<noteq> None"
proof -
  obtain signed where s: "SignBundle demo_hash (DevelopmentSigner_Sign demo_Sign demo_signer) demo_bundle = Inr signed"
    by (simp add: SignBundle_def demo_bundle_def embedded_bundle_def Let_def CalculateBundleHash_def marshal_bundle_def
        normalizedBundle_def json_time_def CanonicalBundlePayload_def hashValue_def DevelopmentSigner_Sign_def demo_signer_def)
  have i: "bn_Issuer demo_bundle = ''issuer''" by (simp add: demo_bundle_def)
  have v: "VerifyBundle demo_hash demo_Verify signed ''issuer'' (Some (\<lambda>issuer keyID. Inr ''public'')) now = None \<longleftrightarrow>
      10 \<le> now \<and> now < 20" for now
    unfolding i[symmetric]
    by (subst signed_bundle_verifies[OF s, of demo_Verify "''public''"])
      (simp_all add: demo_Verify_def demo_Sign_def, simp add: demo_bundle_def embedded_bundle_def known_layer_def)
  show ?thesis using s v[of 15] v[of 20] by auto
qed

end
