(* ===== verification/Store.thy ===== *)
theory Store
  imports Protocol "HOL-Library.AList"
begin

text \<open>
  \<^verbatim>\<open>internal/store\<close>: the records of the durable store and its in-memory implementation.  A Go map is
  an association list with distinct keys, updated in place; iteration over a map takes the list
  order.  Values are immutable here, so the copies that \<^verbatim>\<open>cloneRun\<close>, \<^verbatim>\<open>cloneExecution\<close> and \<^verbatim>\<open>clonePlan\<close>
  make are the values themselves.  Every operation holds the store's lock from start to end and is
  one atomic step.
\<close>

section \<open>Records\<close>

abbreviation ErrNotFound :: error where "ErrNotFound \<equiv> Sentinel ''resource not found''"
abbreviation ErrConflict :: error where "ErrConflict \<equiv> Sentinel ''release run state version conflict''"

datatype ExecutionStatus = ExecutionReserved | ExecutionSucceeded | ExecutionFailed | ExecutionUnknown

record ExecutionRecord =
  er_ID :: string
  er_RunID :: string
  er_Service :: string
  er_Adapter :: string
  er_IdempotencyKey :: string
  er_Status :: ExecutionStatus
  er_ExternalExecutionID :: string
  er_Payload :: "(string \<times> AnyValue) list"
  er_StateVersion :: int
  er_CreatedAt :: time
  er_UpdatedAt :: time

datatype RunnerActionStatus = RunnerActionReserved | RunnerActionSucceeded | RunnerActionUnknown | RunnerActionRejected

record RunnerActionRecord =
  ra_GrantID :: string
  ra_RunID :: string
  ra_StepID :: string
  ra_TenantID :: string
  ra_RunnerGroup :: string
  ra_Nonce :: string
  ra_IdempotencyKey :: string
  ra_RequestHash :: string
  ra_Target :: Target
  ra_Action :: Action
  ra_Status :: RunnerActionStatus
  ra_Result :: Result
  ra_StateVersion :: int
  ra_CreatedAt :: time
  ra_UpdatedAt :: time

record Memory =
  m_runs :: "(string \<times> ReleaseRun) list"
  m_plans :: "(string \<times> ReleasePlan) list"
  m_runByRequestID :: "(string \<times> string) list"
  m_audit :: "string \<Rightarrow> AuditEvent list"
  m_executions :: "(string \<times> ExecutionRecord) list"
  m_outbox :: "OutboxEvent list"
  m_projections :: "(string \<times> ReleaseRun) list"
  m_runnerActions :: "(string \<times> RunnerActionRecord) list"
  m_runnerByKey :: "(string \<times> string) list"
  m_journalError :: "error option"

definition NewMemory :: Memory where
  "NewMemory = \<lparr>m_runs = [], m_plans = [], m_runByRequestID = [], m_audit = (\<lambda>_. []), m_executions = [], m_outbox = [],
     m_projections = [], m_runnerActions = [], m_runnerByKey = [], m_journalError = None\<rparr>"

section \<open>Keys and events\<close>

definition executionKey :: "string \<Rightarrow> string \<Rightarrow> string" where
  "executionKey adapter idempotencyKey = adapter @ [CHR 0x00] @ idempotencyKey"

definition runnerNonceKey :: "string \<Rightarrow> string \<Rightarrow> string \<Rightarrow> string" where
  "runnerNonceKey tenant runnerGroup nonce = tenant @ [CHR 0x00] @ runnerGroup @ [CHR 0x00] @ nonce"

definition runnerIdempotencyKey :: "string \<Rightarrow> string \<Rightarrow> string \<Rightarrow> string" where
  "runnerIdempotencyKey tenant runnerGroup key = tenant @ [CHR 0x00] @ runnerGroup @ [CHR 0x00] @ key"

definition append_event :: "AuditEvent \<Rightarrow> (string \<Rightarrow> AuditEvent list) \<Rightarrow> (string \<Rightarrow> AuditEvent list)" where
  "append_event event audit = audit(au_CorrelationID event := audit (au_CorrelationID event) @ [event])"

definition appendAtomic :: "Memory \<Rightarrow> AuditEvent list \<Rightarrow> OutboxEvent list \<Rightarrow> Memory" where
  "appendAtomic m audit outbox = m\<lparr>m_audit := fold append_event audit (m_audit m), m_outbox := m_outbox m @ outbox\<rparr>"

definition appendProjection :: "OutboxEvent list \<Rightarrow> ReleaseRun \<Rightarrow> OutboxEvent list" where
  "appendProjection events run = events @ [\<lparr>ob_ID = ''projection/'' @ run_ID run @ ''/'' @ int_text (run_StateVersion run),
     ob_AggregateType = ''release_run'', ob_AggregateID = run_ID run, ob_EventType = ''release.run.project'',
     ob_Payload = [(''run'', AnyRun run)], ob_CreatedAt = run_UpdatedAt run, ob_AvailableAt = run_UpdatedAt run,
     ob_PublishedAt = None, ob_Attempts = 0\<rparr>]"

section \<open>Plans and runs\<close>

definition SavePlan :: "Memory \<Rightarrow> ReleasePlan \<Rightarrow> Memory" where
  "SavePlan m plan = m\<lparr>m_plans := AList.update (pl_ID plan) plan (m_plans m)\<rparr>"

definition store_GetPlan :: "Memory \<Rightarrow> string \<Rightarrow> (error, ReleasePlan) result" where
  "store_GetPlan m i = (case map_of (m_plans m) i of None \<Rightarrow> Inl ErrNotFound | Some plan \<Rightarrow> Inr plan)"

definition SetRunnerJournalError :: "Memory \<Rightarrow> error option \<Rightarrow> Memory" where
  "SetRunnerJournalError m err = m\<lparr>m_journalError := err\<rparr>"

text \<open>
  The result of a creation is the stored run and whether it was created.  The run of a known
  request is looked up without a check, so a dangling identifier would be a nil dereference; it is
  \<^const>\<open>None\<close> here and does not occur.
\<close>

definition CreateRunAtomic :: "Memory \<Rightarrow> ReleaseRun \<Rightarrow> AuditEvent list \<Rightarrow> OutboxEvent list
    \<Rightarrow> Memory \<times> (error, ReleaseRun option \<times> bool) result" where
  "CreateRunAtomic m run audit outbox = (case map_of (m_runByRequestID m) (run_RequestID run) of
       Some existingID \<Rightarrow> (m, Inr (map_of (m_runs m) existingID, False))
     | None \<Rightarrow>
         if map_of (m_runs m) (run_ID run) \<noteq> None then (m, Inl (Errorf ''duplicate run id %q''))
         else (appendAtomic (m\<lparr>m_runs := AList.update (run_ID run) run (m_runs m),
                 m_projections := AList.update (run_ID run) run (m_projections m),
                 m_runByRequestID := AList.update (run_RequestID run) (run_ID run) (m_runByRequestID m)\<rparr>)
                audit (appendProjection outbox run),
               Inr (Some run, True)))"

definition CreateRun :: "Memory \<Rightarrow> ReleaseRun \<Rightarrow> Memory \<times> (error, ReleaseRun option \<times> bool) result" where
  "CreateRun m run = CreateRunAtomic m run [] []"

definition GetRun :: "Memory \<Rightarrow> string \<Rightarrow> (error, ReleaseRun) result" where
  "GetRun m i = (case map_of (m_runs m) i of None \<Rightarrow> Inl ErrNotFound | Some run \<Rightarrow> Inr run)"

text \<open>Newest first, equal times by identifier.\<close>

definition ListRuns :: "Memory \<Rightarrow> ReleaseRun list" where
  "ListRuns m = sort_key (\<lambda>run. (- run_CreatedAt run, run_ID run)) (map snd (m_runs m))"

text \<open>A successful update also writes the new version into the caller's run: the result is that run.\<close>

definition UpdateRunAtomic :: "Memory \<Rightarrow> ReleaseRun \<Rightarrow> int \<Rightarrow> AuditEvent list \<Rightarrow> OutboxEvent list
    \<Rightarrow> Memory \<times> (error, ReleaseRun) result" where
  "UpdateRunAtomic m run expectedVersion audit outbox = (case map_of (m_runs m) (run_ID run) of
       None \<Rightarrow> (m, Inl ErrNotFound)
     | Some current \<Rightarrow>
         if run_StateVersion current \<noteq> expectedVersion then (m, Inl ErrConflict)
         else (let updated = run\<lparr>run_StateVersion := expectedVersion + 1\<rparr> in
           (appendAtomic (m\<lparr>m_runs := AList.update (run_ID run) updated (m_runs m),
              m_projections := AList.update (run_ID run) updated (m_projections m)\<rparr>)
             audit (appendProjection outbox updated), Inr updated)))"

definition UpdateRun :: "Memory \<Rightarrow> ReleaseRun \<Rightarrow> int \<Rightarrow> Memory \<times> (error, ReleaseRun) result" where
  "UpdateRun m run expectedVersion = UpdateRunAtomic m run expectedVersion [] []"

definition AppendAudit :: "Memory \<Rightarrow> AuditEvent \<Rightarrow> Memory \<times> error option" where
  "AppendAudit m event = (m\<lparr>m_audit := append_event event (m_audit m)\<rparr>, None)"

definition AuditEvents :: "Memory \<Rightarrow> string \<Rightarrow> AuditEvent list" where
  "AuditEvents m correlationID = m_audit m correlationID"

definition RebuildProjection :: "Memory \<Rightarrow> string \<Rightarrow> Memory \<times> error option" where
  "RebuildProjection m runID = (case map_of (m_projections m) runID of
       None \<Rightarrow> (m, Some ErrNotFound)
     | Some projection \<Rightarrow> (m\<lparr>m_runs := AList.update runID projection (m_runs m)\<rparr>, None))"

section \<open>Executions and outbox\<close>

definition ReserveExecution :: "Memory \<Rightarrow> ExecutionRecord \<Rightarrow> AuditEvent \<Rightarrow> OutboxEvent
    \<Rightarrow> Memory \<times> ExecutionRecord \<times> bool" where
  "ReserveExecution m rec audit outbox = (let key = executionKey (er_Adapter rec) (er_IdempotencyKey rec) in
     case map_of (m_executions m) key of
       Some existing \<Rightarrow> (m, existing, False)
     | None \<Rightarrow> (let stored = rec\<lparr>er_StateVersion := 1, er_Status := ExecutionReserved\<rparr> in
         (appendAtomic (m\<lparr>m_executions := AList.update key stored (m_executions m)\<rparr>) [audit] [outbox], stored, True)))"

definition CompleteExecution :: "Memory \<Rightarrow> ExecutionRecord \<Rightarrow> int \<Rightarrow> AuditEvent \<Rightarrow> OutboxEvent
    \<Rightarrow> Memory \<times> error option" where
  "CompleteExecution m rec expectedVersion audit outbox =
     (let key = executionKey (er_Adapter rec) (er_IdempotencyKey rec) in
     case map_of (m_executions m) key of
       None \<Rightarrow> (m, Some ErrNotFound)
     | Some current \<Rightarrow>
         if er_StateVersion current \<noteq> expectedVersion then (m, Some ErrConflict)
         else (appendAtomic (m\<lparr>m_executions :=
                  AList.update key (rec\<lparr>er_StateVersion := expectedVersion + 1\<rparr>) (m_executions m)\<rparr>) [audit] [outbox],
               None))"

definition GetExecution :: "Memory \<Rightarrow> string \<Rightarrow> string \<Rightarrow> (error, ExecutionRecord) result" where
  "GetExecution m adapter idempotencyKey = (case map_of (m_executions m) (executionKey adapter idempotencyKey) of
       None \<Rightarrow> Inl ErrNotFound
     | Some rec \<Rightarrow> Inr rec)"

definition pendingOutbox :: "Memory \<Rightarrow> string \<Rightarrow> int \<Rightarrow> OutboxEvent list" where
  "pendingOutbox m eventType limit = (let
     n = (if limit \<le> 0 \<or> int (length (m_outbox m)) < limit then length (m_outbox m) else nat limit) in
     take n (filter (\<lambda>event. ob_PublishedAt event = None \<and> (eventType = [] \<or> ob_EventType event = eventType)) (m_outbox m)))"

definition PendingOutbox :: "Memory \<Rightarrow> int \<Rightarrow> OutboxEvent list" where
  "PendingOutbox m limit = pendingOutbox m [] limit"

definition PendingOutboxByType :: "Memory \<Rightarrow> string \<Rightarrow> int \<Rightarrow> OutboxEvent list" where
  "PendingOutboxByType m eventType limit = pendingOutbox m eventType limit"

fun mark_published :: "string \<Rightarrow> time \<Rightarrow> OutboxEvent list \<Rightarrow> OutboxEvent list option" where
  "mark_published i published [] = None"
| "mark_published i published (event # events) =
     (if ob_ID event = i then Some (event\<lparr>ob_PublishedAt := Some published\<rparr> # events)
      else map_option ((#) event) (mark_published i published events))"

definition MarkOutboxPublished :: "Memory \<Rightarrow> string \<Rightarrow> time \<Rightarrow> Memory \<times> error option" where
  "MarkOutboxPublished m i publishedAt = (case mark_published i publishedAt (m_outbox m) of
       None \<Rightarrow> (m, Some ErrNotFound)
     | Some outbox \<Rightarrow> (m\<lparr>m_outbox := outbox\<rparr>, None))"

section \<open>The runner's journal\<close>

definition GetRunnerAction :: "Memory \<Rightarrow> string \<Rightarrow> string \<Rightarrow> string \<Rightarrow> (error, RunnerActionRecord) result" where
  "GetRunnerAction m tenantID runnerGroup nonce = (case m_journalError m of
       Some err \<Rightarrow> Inl err
     | None \<Rightarrow> (case map_of (m_runnerActions m) (runnerNonceKey tenantID runnerGroup nonce) of
           None \<Rightarrow> Inl ErrNotFound
         | Some rec \<Rightarrow> Inr rec))"

definition ReserveRunnerAction :: "Memory \<Rightarrow> RunnerActionRecord \<Rightarrow> AuditEvent
    \<Rightarrow> Memory \<times> (error, RunnerActionRecord option \<times> bool) result" where
  "ReserveRunnerAction m rec audit = (case m_journalError m of
       Some err \<Rightarrow> (m, Inl err)
     | None \<Rightarrow> (let nonceKey = runnerNonceKey (ra_TenantID rec) (ra_RunnerGroup rec) (ra_Nonce rec);
                   idempotencyKey = runnerIdempotencyKey (ra_TenantID rec) (ra_RunnerGroup rec) (ra_IdempotencyKey rec) in
         case map_of (m_runnerActions m) nonceKey of
           Some existing \<Rightarrow> (m, Inr (Some existing, False))
         | None \<Rightarrow> (case map_of (m_runnerByKey m) idempotencyKey of
             Some existingNonce \<Rightarrow> (m, Inr (map_of (m_runnerActions m) existingNonce, False))
           | None \<Rightarrow> (let stored = rec\<lparr>ra_Status := RunnerActionReserved, ra_StateVersion := 1\<rparr> in
               (m\<lparr>m_runnerActions := AList.update nonceKey stored (m_runnerActions m),
                  m_runnerByKey := AList.update idempotencyKey nonceKey (m_runnerByKey m),
                  m_audit := append_event audit (m_audit m)\<rparr>,
                Inr (Some stored, True))))))"

definition CompleteRunnerAction :: "Memory \<Rightarrow> RunnerActionRecord \<Rightarrow> int \<Rightarrow> AuditEvent \<Rightarrow> Memory \<times> error option" where
  "CompleteRunnerAction m rec expected audit = (case m_journalError m of
       Some err \<Rightarrow> (m, Some err)
     | None \<Rightarrow> (let key = runnerNonceKey (ra_TenantID rec) (ra_RunnerGroup rec) (ra_Nonce rec) in
         case map_of (m_runnerActions m) key of
           None \<Rightarrow> (m, Some ErrNotFound)
         | Some current \<Rightarrow>
             if ra_StateVersion current \<noteq> expected then (m, Some ErrConflict)
             else (m\<lparr>m_runnerActions := AList.update key (rec\<lparr>ra_StateVersion := expected + 1\<rparr>) (m_runnerActions m),
                     m_audit := append_event audit (m_audit m)\<rparr>, None)))"

definition PendingRunnerActions :: "Memory \<Rightarrow> string \<Rightarrow> string \<Rightarrow> int \<Rightarrow> (error, RunnerActionRecord list) result" where
  "PendingRunnerActions m tenantID runnerGroup limit = (case m_journalError m of
       Some err \<Rightarrow> Inl err
     | None \<Rightarrow> (let pending = filter (\<lambda>rec. ra_TenantID rec = tenantID \<and> ra_RunnerGroup rec = runnerGroup
             \<and> (ra_Status rec = RunnerActionReserved \<or> ra_Status rec = RunnerActionUnknown)) (map snd (m_runnerActions m)) in
         Inr (if 0 < limit then take (nat limit) pending else pending)))"

section \<open>The durable store as an interface\<close>

text \<open>The operations of \<^verbatim>\<open>DurableStore\<close> that the control plane calls, on stores of any type; and their in-memory implementation.\<close>

record 's DurableStore =
  ds_SavePlan :: "'s \<Rightarrow> ReleasePlan \<Rightarrow> 's \<times> error option"
  ds_GetPlan :: "'s \<Rightarrow> string \<Rightarrow> (error, ReleasePlan) result"
  ds_CreateRunAtomic :: "'s \<Rightarrow> ReleaseRun \<Rightarrow> AuditEvent list \<Rightarrow> OutboxEvent list \<Rightarrow> 's \<times> (error, ReleaseRun option \<times> bool) result"
  ds_GetRun :: "'s \<Rightarrow> string \<Rightarrow> (error, ReleaseRun) result"
  ds_ListRuns :: "'s \<Rightarrow> (error, ReleaseRun list) result"
  ds_UpdateRunAtomic :: "'s \<Rightarrow> ReleaseRun \<Rightarrow> int \<Rightarrow> AuditEvent list \<Rightarrow> OutboxEvent list \<Rightarrow> 's \<times> (error, ReleaseRun) result"
  ds_AuditEvents :: "'s \<Rightarrow> string \<Rightarrow> (error, AuditEvent list) result"
  ds_ReserveExecution :: "'s \<Rightarrow> ExecutionRecord \<Rightarrow> AuditEvent \<Rightarrow> OutboxEvent \<Rightarrow> 's \<times> (error, ExecutionRecord \<times> bool) result"
  ds_CompleteExecution :: "'s \<Rightarrow> ExecutionRecord \<Rightarrow> int \<Rightarrow> AuditEvent \<Rightarrow> OutboxEvent \<Rightarrow> 's \<times> error option"
  ds_PendingOutboxByType :: "'s \<Rightarrow> string \<Rightarrow> int \<Rightarrow> (error, OutboxEvent list) result"
  ds_MarkOutboxPublished :: "'s \<Rightarrow> string \<Rightarrow> time \<Rightarrow> 's \<times> error option"

definition memory_durable :: "Memory DurableStore" where
  "memory_durable = \<lparr>ds_SavePlan = (\<lambda>m plan. (SavePlan m plan, None)), ds_GetPlan = store_GetPlan, ds_CreateRunAtomic = CreateRunAtomic,
     ds_GetRun = GetRun, ds_ListRuns = (\<lambda>m. Inr (ListRuns m)), ds_UpdateRunAtomic = UpdateRunAtomic,
     ds_AuditEvents = (\<lambda>m i. Inr (AuditEvents m i)),
     ds_ReserveExecution = (\<lambda>m rec audit outbox. case ReserveExecution m rec audit outbox of (m', stored, created) \<Rightarrow> (m', Inr (stored, created))),
     ds_CompleteExecution = CompleteExecution, ds_PendingOutboxByType = (\<lambda>m eventType limit. Inr (PendingOutboxByType m eventType limit)),
     ds_MarkOutboxPublished = MarkOutboxPublished\<rparr>"

lemma memory_durable_sel [simp]:
  "ds_SavePlan memory_durable = (\<lambda>m plan. (SavePlan m plan, None))" "ds_GetPlan memory_durable = store_GetPlan"
  "ds_CreateRunAtomic memory_durable = CreateRunAtomic" "ds_GetRun memory_durable = GetRun"
  "ds_ListRuns memory_durable = (\<lambda>m. Inr (ListRuns m))" "ds_UpdateRunAtomic memory_durable = UpdateRunAtomic"
  "ds_AuditEvents memory_durable = (\<lambda>m i. Inr (AuditEvents m i))"
  "ds_ReserveExecution memory_durable = (\<lambda>m rec audit outbox. case ReserveExecution m rec audit outbox of (m', stored, created) \<Rightarrow> (m', Inr (stored, created)))"
  "ds_CompleteExecution memory_durable = CompleteExecution"
  "ds_PendingOutboxByType memory_durable = (\<lambda>m eventType limit. Inr (PendingOutboxByType m eventType limit))"
  "ds_MarkOutboxPublished memory_durable = MarkOutboxPublished"
  by (simp_all add: memory_durable_def)

section \<open>Histories of operations\<close>

datatype store_op =
    OpSavePlan ReleasePlan
  | OpCreate ReleaseRun "AuditEvent list" "OutboxEvent list"
  | OpUpdate ReleaseRun int "AuditEvent list" "OutboxEvent list"
  | OpAudit AuditEvent
  | OpRebuild string
  | OpReserveExecution ExecutionRecord AuditEvent OutboxEvent
  | OpCompleteExecution ExecutionRecord int AuditEvent OutboxEvent
  | OpPublish string time
  | OpJournalError "error option"
  | OpReserveAction RunnerActionRecord AuditEvent
  | OpCompleteAction RunnerActionRecord int AuditEvent

fun memory_step :: "store_op \<Rightarrow> Memory \<Rightarrow> Memory" where
  "memory_step (OpSavePlan plan) m = SavePlan m plan"
| "memory_step (OpCreate run audit outbox) m = fst (CreateRunAtomic m run audit outbox)"
| "memory_step (OpUpdate run v audit outbox) m = fst (UpdateRunAtomic m run v audit outbox)"
| "memory_step (OpAudit event) m = fst (AppendAudit m event)"
| "memory_step (OpRebuild i) m = fst (RebuildProjection m i)"
| "memory_step (OpReserveExecution rec audit outbox) m = fst (ReserveExecution m rec audit outbox)"
| "memory_step (OpCompleteExecution rec v audit outbox) m = fst (CompleteExecution m rec v audit outbox)"
| "memory_step (OpPublish i t) m = fst (MarkOutboxPublished m i t)"
| "memory_step (OpJournalError err) m = SetRunnerJournalError m err"
| "memory_step (OpReserveAction rec audit) m = fst (ReserveRunnerAction m rec audit)"
| "memory_step (OpCompleteAction rec v audit) m = fst (CompleteRunnerAction m rec v audit)"

lemmas run_ops_defs = CreateRunAtomic_def UpdateRunAtomic_def RebuildProjection_def appendAtomic_def Let_def
lemmas side_ops_defs = SavePlan_def AppendAudit_def MarkOutboxPublished_def SetRunnerJournalError_def
  ReserveExecution_def CompleteExecution_def appendAtomic_def Let_def
lemmas journal_ops_defs = ReserveRunnerAction_def CompleteRunnerAction_def Let_def

definition memory_inv :: "Memory \<Rightarrow> bool" where
  "memory_inv m \<longleftrightarrow> map_of (m_projections m) = map_of (m_runs m) \<and>
     (\<forall>r i. map_of (m_runByRequestID m) r = Some i \<longrightarrow> map_of (m_runs m) i \<noteq> None) \<and>
     (\<forall>k n. map_of (m_runnerByKey m) k = Some n \<longrightarrow> map_of (m_runnerActions m) n \<noteq> None)"

lemma memory_inv_New: "memory_inv NewMemory"
  by (simp add: memory_inv_def NewMemory_def)

lemma memory_inv_step: "memory_inv m \<Longrightarrow> memory_inv (memory_step op m)"
proof (cases op)
  case (OpCreate run audit outbox)
  assume "memory_inv m"
  then show ?thesis using OpCreate by (auto simp: memory_inv_def run_ops_defs update_conv' split: option.splits)
next
  case (OpUpdate run v audit outbox)
  assume "memory_inv m"
  then show ?thesis using OpUpdate by (auto simp: memory_inv_def run_ops_defs update_conv' split: option.splits)
next
  case (OpRebuild i)
  assume "memory_inv m"
  then show ?thesis using OpRebuild by (auto simp: memory_inv_def run_ops_defs update_conv' split: option.splits)
next
  case (OpReserveAction rec audit)
  assume "memory_inv m"
  then show ?thesis using OpReserveAction
    by (auto simp: memory_inv_def journal_ops_defs update_conv' split: option.splits)
next
  case (OpCompleteAction rec v audit)
  assume "memory_inv m"
  then show ?thesis using OpCompleteAction
    by (auto simp: memory_inv_def journal_ops_defs update_conv' split: option.splits)
qed (auto simp: memory_inv_def side_ops_defs split: option.splits)

lemma memory_inv_fold: "memory_inv m \<Longrightarrow> memory_inv (fold memory_step ops m)"
  by (induction ops arbitrary: m) (simp_all add: memory_inv_step)

section \<open>Optimistic concurrency\<close>

definition version_of :: "Memory \<Rightarrow> string \<Rightarrow> int option" where
  "version_of m i = map_option run_StateVersion (map_of (m_runs m) i)"

text \<open>How many updates of a run with a given expected version a history accepts.\<close>

fun accepts :: "string \<Rightarrow> int \<Rightarrow> store_op \<Rightarrow> Memory \<Rightarrow> bool" where
  "accepts i v (OpUpdate run w audit outbox) m \<longleftrightarrow>
     run_ID run = i \<and> w = v \<and> (\<exists>updated. snd (UpdateRunAtomic m run w audit outbox) = Inr updated)"
| "accepts i v _ m \<longleftrightarrow> False"

fun accepted_updates :: "string \<Rightarrow> int \<Rightarrow> store_op list \<Rightarrow> Memory \<Rightarrow> nat" where
  "accepted_updates i v [] m = 0"
| "accepted_updates i v (op # ops) m =
     (if accepts i v op m then 1 else 0) + accepted_updates i v ops (memory_step op m)"

lemma version_step:
  assumes "memory_inv m"
  shows "accepts i v op m \<Longrightarrow> version_of m i = Some v \<and> version_of (memory_step op m) i = Some (v + 1)"
    and "version_of m i = Some w \<Longrightarrow> \<exists>w' \<ge> w. version_of (memory_step op m) i = Some w'"
proof -
  show "version_of m i = Some v \<and> version_of (memory_step op m) i = Some (v + 1)" if "accepts i v op m"
    using that by (cases op) (auto simp: version_of_def run_ops_defs update_conv' split: option.splits if_splits)
  assume v: "version_of m i = Some w"
  show "\<exists>w' \<ge> w. version_of (memory_step op m) i = Some w'"
  proof (cases op)
    case (OpCreate run audit outbox)
    then show ?thesis using v by (auto simp: version_of_def run_ops_defs update_conv' split: option.splits)
  next
    case (OpUpdate run u audit outbox)
    then show ?thesis using v by (auto simp: version_of_def run_ops_defs update_conv' split: option.splits)
  next
    case (OpRebuild j)
    then show ?thesis using v assms
      by (auto simp: version_of_def memory_inv_def run_ops_defs update_conv' split: option.splits)
  next
    case (OpReserveAction rec audit)
    then show ?thesis using v by (auto simp: version_of_def journal_ops_defs split: option.splits)
  next
    case (OpCompleteAction rec u audit)
    then show ?thesis using v by (auto simp: version_of_def journal_ops_defs split: option.splits)
  qed (use v in \<open>auto simp: version_of_def side_ops_defs split: option.splits\<close>)
qed

lemma accepted_after:
  "memory_inv m \<Longrightarrow> version_of m i = Some w \<Longrightarrow> v < w \<Longrightarrow> accepted_updates i v ops m = 0"
proof (induction ops arbitrary: m w)
  case (Cons op ops)
  have "\<not> accepts i v op m" using version_step(1)[OF Cons.prems(1)] Cons.prems(2,3) by fastforce
  moreover obtain w' where "w \<le> w'" "version_of (memory_step op m) i = Some w'"
    using version_step(2)[OF Cons.prems(1,2)] by blast
  ultimately show ?case using Cons.IH memory_inv_step Cons.prems by simp
qed simp

lemma accepted_once: "memory_inv m \<Longrightarrow> accepted_updates i v ops m \<le> 1"
proof (induction ops arbitrary: m)
  case (Cons op ops)
  show ?case
  proof (cases "accepts i v op m")
    case True
    then have "version_of (memory_step op m) i = Some (v + 1)" using version_step(1)[OF Cons.prems] by blast
    then show ?thesis using accepted_after[of "memory_step op m" i "v + 1" v] memory_inv_step[OF Cons.prems] by simp
  qed (use Cons memory_inv_step in simp)
qed simp

text \<open>
  C12.  No lost updates: in every history of store operations from the empty store, at most one
  update of a run succeeds for each expected state version, whatever else happens in between,
  including rebuilt projections.  Of two writers that read the same version one gets a conflict.
\<close>

theorem one_update_per_version:
  "accepted_updates i v ops NewMemory \<le> 1"
  by (rule accepted_once[OF memory_inv_New])

text \<open>
  C31.  The store never dangles and its projection is exact: in every state that a history of
  operations reaches, rebuilding a projection changes no run, a creation that finds the request
  known returns a stored run, and a reservation that finds its nonce or idempotency key taken
  returns the stored action.
\<close>

theorem store_references_resolve:
  "GetRun (fst (RebuildProjection (fold memory_step ops NewMemory) i)) j = GetRun (fold memory_step ops NewMemory) j \<and>
   snd (CreateRunAtomic (fold memory_step ops NewMemory) run audit outbox) \<noteq> Inr (None, created) \<and>
   snd (ReserveRunnerAction (fold memory_step ops NewMemory) rec event) \<noteq> Inr (None, reserved)"
proof -
  let ?m = "fold memory_step ops NewMemory"
  have inv: "memory_inv ?m" by (rule memory_inv_fold[OF memory_inv_New])
  have "GetRun (fst (RebuildProjection ?m i)) j = GetRun ?m j"
    using inv by (auto simp: GetRun_def RebuildProjection_def memory_inv_def update_conv' split: option.splits)
  moreover have "snd (CreateRunAtomic ?m run audit outbox) \<noteq> Inr (None, created)"
    using inv by (auto simp: CreateRunAtomic_def memory_inv_def split: option.splits if_splits)
  moreover have "snd (ReserveRunnerAction ?m rec event) \<noteq> Inr (None, reserved)"
    using inv by (auto simp: ReserveRunnerAction_def memory_inv_def Let_def split: option.splits if_splits)
  ultimately show ?thesis by blast
qed

end
