(* ===== verification/Runner.thy ===== *)
theory Runner
  imports Identity Policy Store Adapter
begin

text \<open>
  \<^verbatim>\<open>internal/runner\<close>: the customer-side runner that checks an action grant, reserves it in the journal,
  acquires a local credential and calls the typed adapter; reconciliation of reserved actions; and
  the bridge to the adapter SDK.  The collaborators of \<^verbatim>\<open>Runner\<close> are fields of its record, absent when
  nil.  The journal has a state \<open>'s\<close>, the external system a state \<open>'x\<close>.
\<close>

section \<open>Types\<close>

type_synonym Reason = string

abbreviation ReasonDisconnected :: Reason where "ReasonDisconnected \<equiv> ''CONTROL_PLANE_DISCONNECTED''"
abbreviation ReasonTenant :: Reason where "ReasonTenant \<equiv> ''WRONG_TENANT''"
abbreviation ReasonReplay :: Reason where "ReasonReplay \<equiv> ''NONCE_REPLAY''"
abbreviation ReasonIdentity :: Reason where "ReasonIdentity \<equiv> ''IDENTITY_INVALID''"
abbreviation ReasonDelegation :: Reason where "ReasonDelegation \<equiv> ''DELEGATION_SCOPE_DENIED''"
abbreviation ReasonHashMismatch :: Reason where "ReasonHashMismatch \<equiv> ''HASH_MISMATCH''"
abbreviation ReasonApproval :: Reason where "ReasonApproval \<equiv> ''APPROVAL_PROOF_MISSING''"
abbreviation ReasonCapability :: Reason where "ReasonCapability \<equiv> ''UNSUPPORTED_CAPABILITY''"
abbreviation ReasonPolicyDeny :: Reason where "ReasonPolicyDeny \<equiv> ''RUNNER_POLICY_DENY''"
abbreviation ReasonPolicyMismatch :: Reason where "ReasonPolicyMismatch \<equiv> ''POLICY_MISMATCH''"
abbreviation ReasonJournalUnavailable :: Reason where "ReasonJournalUnavailable \<equiv> ''AUDIT_JOURNAL_UNAVAILABLE''"
abbreviation ReasonCredential :: Reason where "ReasonCredential \<equiv> ''CREDENTIAL_UNAVAILABLE''"
abbreviation ReasonExternalUnknown :: Reason where "ReasonExternalUnknown \<equiv> ''EXTERNAL_STATE_UNKNOWN''"

datatype Rejection = Rejection (rj_Reason: Reason) (rj_Err: "error option")

type_synonym outcome = "Result \<times> Rejection option"

record PinnedContext =
  pc_PlanHash :: string
  pc_ContractHash :: string
  pc_ProfileHash :: string
  pc_PolicyHash :: string
  pc_EvidenceHash :: string
  pc_ApprovalRequired :: bool
  pc_Target :: Target
  pc_Action :: Action

type_synonym CapabilitySet = "string list"

definition NewCapabilitySet :: "string list \<Rightarrow> CapabilitySet" where
  "NewCapabilitySet vs = fold List.insert vs []"

definition Allows :: "CapabilitySet \<Rightarrow> string \<Rightarrow> bool" where
  "Allows s capability \<longleftrightarrow> capability \<in> set s"

record AdapterRequest =
  aq_GrantID :: string
  aq_RunID :: string
  aq_StepID :: string
  aq_Target :: Target
  aq_Action :: Action
  aq_IdempotencyKey :: string
  aq_DispatchedAt :: time

record AdapterResult =
  ar_ExternalExecutionID :: string
  ar_CompletedAt :: time

text \<open>The provider name is present when the adapter or reconciler has a \<^verbatim>\<open>CredentialProvider\<close> method.\<close>

record 'x TypedAdapter =
  ta_CredentialProvider :: "string option"
  ta_Execute :: "'x \<Rightarrow> AdapterRequest \<Rightarrow> Credential \<Rightarrow> 'x \<times> (error, AdapterResult) result"

record 'x Reconciler =
  re_CredentialProvider :: "string option"
  re_Reconcile :: "'x \<Rightarrow> AdapterRequest \<Rightarrow> Credential \<Rightarrow> 'x \<times> (error, AdapterResult \<times> bool) result"

text \<open>The operations of \<^verbatim>\<open>store.RunnerJournal\<close>.\<close>

record 's RunnerJournal =
  jo_GetRunnerAction :: "'s \<Rightarrow> string \<Rightarrow> string \<Rightarrow> string \<Rightarrow> (error, RunnerActionRecord) result"
  jo_ReserveRunnerAction :: "'s \<Rightarrow> RunnerActionRecord \<Rightarrow> AuditEvent \<Rightarrow> 's \<times> (error, RunnerActionRecord option \<times> bool) result"
  jo_CompleteRunnerAction :: "'s \<Rightarrow> RunnerActionRecord \<Rightarrow> int \<Rightarrow> AuditEvent \<Rightarrow> 's \<times> error option"
  jo_PendingRunnerActions :: "'s \<Rightarrow> string \<Rightarrow> string \<Rightarrow> int \<Rightarrow> (error, RunnerActionRecord list) result"

record ('s, 'x) Runner =
  ru_TenantID :: string
  ru_RunnerGroup :: string
  ru_Grants :: "(ActionGrant \<Rightarrow> error option) option"
  ru_Subjects :: "(string \<Rightarrow> (error, Subject) result) option"
  ru_Delegations :: "(DelegationRequest \<Rightarrow> (error, Delegation) result) option"
  ru_Contexts :: "(string \<Rightarrow> string \<Rightarrow> (error, PinnedContext) result) option"
  ru_Approvals :: "(ActionGrant \<Rightarrow> Subject \<Rightarrow> error option) option"
  ru_Capabilities :: CapabilitySet
  ru_Policy :: "evaluator option"
  ru_Journal :: "'s RunnerJournal option"
  ru_Credentials :: "broker option"
  ru_Adapter :: "'x TypedAdapter option"
  ru_Connectivity :: "bool option"

section \<open>Journal events\<close>

definition journalAudit :: "string \<Rightarrow> string \<Rightarrow> string \<Rightarrow> string \<Rightarrow> time \<Rightarrow> (string \<times> AnyValue) list \<Rightarrow> AuditEvent" where
  "journalAudit i correlationID action result at_time details =
     \<lparr>au_ID = i, au_CorrelationID = correlationID, au_ActorType = ''runner'', au_ActorID = ''customer-runner'', au_DelegatedBy = [],
      au_Action = action, au_ResourceType = ''action_grant'', au_ResourceID = correlationID, au_Result = result,
      au_Details = details, au_Timestamp = at_time\<rparr>"

definition auditID :: "string \<Rightarrow> string \<Rightarrow> int \<Rightarrow> string" where
  "auditID grantID action version = ''runner/'' @ grantID @ ''/'' @ action @ ''/'' @ int_text version"

section \<open>Results\<close>

definition grant_result :: "ActionGrant \<Rightarrow> ResultStatus \<Rightarrow> Reason \<Rightarrow> string \<Rightarrow> time \<Rightarrow> Result" where
  "grant_result g status reason externalID completedAt =
     \<lparr>rr_ProtocolVersion = VersionV1Alpha1, rr_GrantID = ag_GrantID g, rr_RunID = ag_RunID g, rr_StepID = ag_StepID g,
      rr_Status = status, rr_ReasonCode = reason, rr_ExternalExecutionID = externalID, rr_CompletedAt = completedAt,
      rr_Signature = no_signature\<rparr>"

definition no_result :: Result where
  "no_result = \<lparr>rr_ProtocolVersion = [], rr_GrantID = [], rr_RunID = [], rr_StepID = [], rr_Status = ResultEmpty, rr_ReasonCode = [],
     rr_ExternalExecutionID = [], rr_CompletedAt = 0, rr_Signature = no_signature\<rparr>"

definition reject :: "ActionGrant \<Rightarrow> Reason \<Rightarrow> error option \<Rightarrow> time \<Rightarrow> outcome" where
  "reject g reason err now = (grant_result g ResultRejected reason [] now, Some (Rejection reason err))"

definition matchingHashes :: "ActionGrant \<Rightarrow> PinnedContext \<Rightarrow> bool" where
  "matchingHashes g pin \<longleftrightarrow> ag_PlanHash g = pc_PlanHash pin \<and> ag_ContractHash g = pc_ContractHash pin \<and>
     ag_ProfileHash g = pc_ProfileHash pin \<and> ag_PolicyHash g = pc_PolicyHash pin \<and>
     ag_EvidenceHash g = pc_EvidenceHash pin \<and> ag_Target g = pc_Target pin \<and> ag_Action g = pc_Action pin"

definition replay_rejected :: outcome where
  "replay_rejected = (\<lparr>rr_ProtocolVersion = [], rr_GrantID = [], rr_RunID = [], rr_StepID = [], rr_Status = ResultRejected,
     rr_ReasonCode = ReasonReplay, rr_ExternalExecutionID = [], rr_CompletedAt = 0, rr_Signature = no_signature\<rparr>,
     Some (Rejection ReasonReplay None))"

text \<open>A missing record is the zero record in Go: its empty request hash differs from every hash.\<close>

definition replayResult :: "ActionGrant \<Rightarrow> RunnerActionRecord option \<Rightarrow> string \<Rightarrow> outcome" where
  "replayResult g maybe requestHash = (case maybe of
       None \<Rightarrow> replay_rejected
     | Some rec \<Rightarrow>
         if ra_RequestHash rec \<noteq> requestHash then replay_rejected
         else if ra_Status rec = RunnerActionSucceeded then (ra_Result rec, None)
         else (grant_result g ResultReconciliation ReasonReplay [] 0, Some (Rejection ReasonReplay None)))"

definition reasonForGrant :: "error \<Rightarrow> Reason" where
  "reasonForGrant err =
     (if errors_Is err ErrExpired then ''EXPIRED_GRANT''
      else if errors_Is err ErrWrongAudience then ''WRONG_RUNNER_AUDIENCE''
      else if errors_Is err ErrWrongTenant then ReasonTenant
      else ReasonIdentity)"

section \<open>Execute\<close>

text \<open>
  \<^verbatim>\<open>Execute\<close> in the phases between its effects: the checks up to the journal lookup, the checks
  after it, the reservation, the credential and adapter call, and the completion.  A phase ends in an
  outcome (\<^const>\<open>Inl\<close>) or hands its result to the next one (\<^const>\<open>Inr\<close>).  \<open>now\<close> numbers the
  readings of the clock within one call.
\<close>

definition check_grant :: "(json \<Rightarrow> string) \<Rightarrow> ('s, 'x) Runner \<Rightarrow> time \<Rightarrow> ActionGrant \<Rightarrow> outcome + (string \<times> 's RunnerJournal)" where
  "check_grant digest r now g = (case ru_Grants r of
       None \<Rightarrow> Inl (reject g ReasonIdentity (Some (Errorf ''grant verifier unavailable'')) now)
     | Some verify \<Rightarrow> (case verify g of
         Some err \<Rightarrow> Inl (reject g (reasonForGrant err) (Some err) now)
       | None \<Rightarrow>
           if ru_TenantID r = [] \<or> ag_TenantID g \<noteq> ru_TenantID r then Inl (reject g ReasonTenant None now)
           else if ru_RunnerGroup r = [] \<or> ag_RunnerGroup g \<noteq> ru_RunnerGroup r
           then Inl (reject g ''WRONG_RUNNER_AUDIENCE'' None now)
           else (case GrantHash digest g of
               Inl err \<Rightarrow> Inl (reject g ReasonHashMismatch (Some err) now)
             | Inr requestHash \<Rightarrow> (case ru_Journal r of
                 None \<Rightarrow> Inl (reject g ReasonJournalUnavailable None now)
               | Some journal \<Rightarrow> Inr (requestHash, journal)))))"

definition check_journal :: "'s RunnerJournal \<Rightarrow> 's \<Rightarrow> time \<Rightarrow> ActionGrant \<Rightarrow> string \<Rightarrow> outcome + unit" where
  "check_journal journal s now g requestHash =
     (case jo_GetRunnerAction journal s (ag_TenantID g) (ag_RunnerGroup g) (ag_Nonce g) of
        Inr existing \<Rightarrow> Inl (replayResult g (Some existing) requestHash)
      | Inl err \<Rightarrow> if \<not> errors_Is err ErrNotFound then Inl (reject g ReasonJournalUnavailable (Some err) now) else Inr ())"

definition grant_delegation :: "ActionGrant \<Rightarrow> Subject \<Rightarrow> DelegationRequest" where
  "grant_delegation g subject = \<lparr>dr_Reference = ag_DelegationRef g, dr_Subject = subject, dr_AgentID = ag_AgentID g,
     dr_Capability = act_Capability (ag_Action g), dr_Service = tgt_Service (ag_Target g),
     dr_Environment = tgt_Environment (ag_Target g), dr_Risk = ag_Risk g\<rparr>"

definition check_identity :: "('s, 'x) Runner \<Rightarrow> time \<Rightarrow> ActionGrant \<Rightarrow> outcome + (Subject \<times> Delegation)" where
  "check_identity r now g =
     (if ru_Connectivity r \<noteq> Some True then Inl (reject g ReasonDisconnected None now)
      else case ru_Subjects r of
        None \<Rightarrow> Inl (reject g ReasonIdentity None now)
      | Some verify \<Rightarrow>
          if ag_UserIdentityProof g = [] then Inl (reject g ReasonIdentity None now)
          else (case verify (ag_UserIdentityProof g) of
              Inl err \<Rightarrow> Inl (reject g ReasonIdentity (Some err) now)
            | Inr subject \<Rightarrow>
                if sub_ID subject \<noteq> ag_UserSubject g then Inl (reject g ReasonIdentity None now)
                else (case ru_Delegations r of
                    None \<Rightarrow> Inl (reject g ReasonDelegation None now)
                  | Some authorize \<Rightarrow> (case authorize (grant_delegation g subject) of
                        Inl err \<Rightarrow> Inl (reject g ReasonDelegation (Some err) now)
                      | Inr delegation \<Rightarrow> Inr (subject, delegation)))))"

definition check_context :: "('s, 'x) Runner \<Rightarrow> time \<Rightarrow> ActionGrant \<Rightarrow> Subject \<Rightarrow> outcome + unit" where
  "check_context r now g subject = (case ru_Contexts r of
       None \<Rightarrow> Inl (reject g ReasonHashMismatch None now)
     | Some resolve \<Rightarrow> (case resolve (ag_RunID g) (ag_StepID g) of
         Inl err \<Rightarrow> Inl (reject g ReasonHashMismatch (Some err) now)
       | Inr pin \<Rightarrow>
           if \<not> matchingHashes g pin then Inl (reject g ReasonHashMismatch None now)
           else if pc_ApprovalRequired pin \<and> ag_ApprovalProofs g = [] then Inl (reject g ReasonApproval None now)
           else if ag_ApprovalProofs g \<noteq> [] \<and>
               (case ru_Approvals r of None \<Rightarrow> True | Some verify \<Rightarrow> verify g subject \<noteq> None)
           then Inl (reject g ReasonApproval None now)
           else if \<not> Allows (ru_Capabilities r) (act_Capability (ag_Action g)) then Inl (reject g ReasonCapability None now)
           else Inr ()))"

definition check_policy :: "('s, 'x) Runner \<Rightarrow> time \<Rightarrow> ActionGrant \<Rightarrow> Subject \<Rightarrow> Delegation \<Rightarrow> outcome + unit" where
  "check_policy r now g subject delegation = (case ru_Policy r of
       None \<Rightarrow> Inl (reject g ReasonPolicyDeny (Some (Errorf ''local OPA unavailable'')) now)
     | Some evaluate \<Rightarrow> (case evaluate (InputForGrant g (sub_Issuer subject) (sub_ID subject) (del_AgentID delegation) (del_ID delegation)) of
         Inl err \<Rightarrow> Inl (reject g ReasonPolicyDeny (Some err) now)
       | Inr evaluation \<Rightarrow>
           if pe_Decision evaluation \<noteq> DecisionAllow then Inl (reject g ReasonPolicyDeny None now)
           else if pe_InputHash evaluation \<noteq> ag_PolicyInputHash g \<or> pe_PolicyHash evaluation \<noteq> ag_PolicyHash g
           then Inl (reject g ReasonPolicyMismatch None now)
           else Inr ()))"

definition authorize :: "(json \<Rightarrow> string) \<Rightarrow> ('s, 'x) Runner \<Rightarrow> 's \<Rightarrow> time \<Rightarrow> ActionGrant \<Rightarrow> outcome + (string \<times> 's RunnerJournal)" where
  "authorize digest r s now g = (case check_grant digest r now g of
       Inl rejected \<Rightarrow> Inl rejected
     | Inr (requestHash, journal) \<Rightarrow> (case check_journal journal s now g requestHash of
         Inl replayed \<Rightarrow> Inl replayed
       | Inr _ \<Rightarrow> (case check_identity r now g of
           Inl rejected \<Rightarrow> Inl rejected
         | Inr (subject, delegation) \<Rightarrow> (case check_context r now g subject of
             Inl rejected \<Rightarrow> Inl rejected
           | Inr _ \<Rightarrow> (case check_policy r now g subject delegation of
               Inl rejected \<Rightarrow> Inl rejected
             | Inr _ \<Rightarrow> Inr (requestHash, journal))))))"

definition action_record :: "ActionGrant \<Rightarrow> string \<Rightarrow> time \<Rightarrow> RunnerActionRecord" where
  "action_record g requestHash now =
     \<lparr>ra_GrantID = ag_GrantID g, ra_RunID = ag_RunID g, ra_StepID = ag_StepID g, ra_TenantID = ag_TenantID g,
      ra_RunnerGroup = ag_RunnerGroup g, ra_Nonce = ag_Nonce g, ra_IdempotencyKey = ag_IdempotencyKey g,
      ra_RequestHash = requestHash, ra_Target = ag_Target g, ra_Action = ag_Action g, ra_Status = RunnerActionReserved,
      ra_Result = no_result, ra_StateVersion = 0, ra_CreatedAt = now, ra_UpdatedAt = now\<rparr>"

text \<open>
  The journal sets the status of a new record.  A creation without a record does not occur: the code
  returns the two together.
\<close>

definition reserve_action :: "'s RunnerJournal \<Rightarrow> 's \<Rightarrow> (nat \<Rightarrow> time) \<Rightarrow> ActionGrant \<Rightarrow> string \<Rightarrow> 's \<times> (outcome + RunnerActionRecord)" where
  "reserve_action journal s now g requestHash =
     (case jo_ReserveRunnerAction journal s (action_record g requestHash (now 0))
             (journalAudit (auditID (ag_GrantID g) ''reserve'' 1) (ag_GrantID g)
                ''runner.action.reserve'' ''AUTHORIZED'' (now 0) [(''request_hash'', AnyString requestHash)]) of
        (s', Inl err) \<Rightarrow> (s', Inl (reject g ReasonJournalUnavailable (Some err) (now 1)))
      | (s', Inr (found, False)) \<Rightarrow> (s', Inl (replayResult g found requestHash))
      | (s', Inr (None, True)) \<Rightarrow> (s', Inl (reject g ReasonJournalUnavailable None (now 1)))
      | (s', Inr (Some reserved, True)) \<Rightarrow> (s', Inr reserved))"

definition purpose_of :: "Action \<Rightarrow> Purpose" where
  "purpose_of action = (if act_Capability action = ProtocolRollback then PurposeRollback else PurposeDeploy)"

definition provider_of :: "string option \<Rightarrow> string" where
  "provider_of configured = (case configured of None \<Rightarrow> ''typed-adapter'' | Some provider \<Rightarrow> provider)"

definition adapter_request :: "ActionGrant \<Rightarrow> time \<Rightarrow> AdapterRequest" where
  "adapter_request g now = \<lparr>aq_GrantID = ag_GrantID g, aq_RunID = ag_RunID g, aq_StepID = ag_StepID g, aq_Target = ag_Target g,
     aq_Action = ag_Action g, aq_IdempotencyKey = ag_IdempotencyKey g, aq_DispatchedAt = now\<rparr>"

text \<open>
  The credential and the adapter call: the external state after it, whether the adapter was called,
  and its result or the reason of failure.
\<close>

definition act :: "('s, 'x) Runner \<Rightarrow> 'x \<Rightarrow> time \<Rightarrow> ActionGrant \<Rightarrow> 'x \<times> bool \<times> ((Reason \<times> error) + AdapterResult)" where
  "act r x now g = (case (ru_Credentials r, ru_Adapter r) of
       (Some acquire, Some adapter) \<Rightarrow>
         (case acquire \<lparr>cq_Provider = provider_of (ta_CredentialProvider adapter), cq_TenantID = ag_TenantID g,
                 cq_Service = tgt_Service (ag_Target g), cq_Environment = tgt_Environment (ag_Target g),
                 cq_Purpose = purpose_of (ag_Action g)\<rparr> of
            Inl err \<Rightarrow> (x, False, Inl (ReasonCredential, err))
          | Inr credential \<Rightarrow> (case ta_Execute adapter x (adapter_request g now) credential of
                (x', Inl err) \<Rightarrow> (x', True, Inl (ReasonExternalUnknown, err))
              | (x', Inr result) \<Rightarrow> (x', True, Inr result)))
     | _ \<Rightarrow> (x, False, Inl (ReasonCredential, Errorf ''credential or adapter unavailable'')))"

definition failReserved :: "'s RunnerJournal \<Rightarrow> 's \<Rightarrow> (nat \<Rightarrow> time) \<Rightarrow> RunnerActionRecord \<Rightarrow> ActionGrant \<Rightarrow> Reason \<Rightarrow> error \<Rightarrow> 's \<times> outcome" where
  "failReserved journal s now rec g reason cause =
     (let result = grant_result g ResultUnknown reason [] (now 1);
          rec' = rec\<lparr>ra_Status := RunnerActionUnknown, ra_Result := result, ra_UpdatedAt := now 2\<rparr> in
      (fst (jo_CompleteRunnerAction journal s rec' (ra_StateVersion rec')
          (journalAudit (auditID (ag_GrantID g) ''unknown'' (ra_StateVersion rec' + 1)) (ag_GrantID g) ''runner.action.complete'' ''UNKNOWN''
             (ra_UpdatedAt rec') [(''reason_code'', AnyString reason)])),
       result, Some (Rejection reason (Some cause))))"

definition finish :: "'s RunnerJournal \<Rightarrow> 's \<Rightarrow> (nat \<Rightarrow> time) \<Rightarrow> RunnerActionRecord \<Rightarrow> ActionGrant \<Rightarrow> (Reason \<times> error) + AdapterResult \<Rightarrow> 's \<times> outcome" where
  "finish journal s now rec g acted = (case acted of
       Inl (reason, cause) \<Rightarrow> failReserved journal s now rec g reason cause
     | Inr adapterResult \<Rightarrow>
         (let result = grant_result g ResultSucceeded [] (ar_ExternalExecutionID adapterResult) (ar_CompletedAt adapterResult);
              rec' = rec\<lparr>ra_Status := RunnerActionSucceeded, ra_Result := result, ra_UpdatedAt := now 1\<rparr> in
          case jo_CompleteRunnerAction journal s rec' (ra_StateVersion rec')
              (journalAudit (auditID (ag_GrantID g) ''complete'' (ra_StateVersion rec' + 1)) (ag_GrantID g) ''runner.action.complete'' ''SUCCEEDED''
                 (ra_UpdatedAt rec') [(''external_execution_id'', AnyString (rr_ExternalExecutionID result))]) of
            (s', Some err) \<Rightarrow> (s', reject g ReasonExternalUnknown (Some err) (now 2))
          | (s', None) \<Rightarrow> (s', result, None)))"

definition Runner_Execute :: "(json \<Rightarrow> string) \<Rightarrow> ('s, 'x) Runner \<Rightarrow> (nat \<Rightarrow> time) \<Rightarrow> ActionGrant \<Rightarrow> 's \<times> 'x \<Rightarrow> ('s \<times> 'x) \<times> bool \<times> outcome" where
  "Runner_Execute digest r now g = (\<lambda>(s, x).
     case authorize digest r s (now 0) g of
       Inl early \<Rightarrow> ((s, x), False, early)
     | Inr (requestHash, journal) \<Rightarrow>
         (case reserve_action journal s now g requestHash of
            (s1, Inl early) \<Rightarrow> ((s1, x), False, early)
          | (s1, Inr reserved) \<Rightarrow>
              (case act r x (now 0) g of
                 (x', called, acted) \<Rightarrow>
                   (case finish journal s1 now reserved g acted of (s2, result) \<Rightarrow> ((s2, x'), called, result)))))"

section \<open>Reconcile\<close>

definition record_request :: "RunnerActionRecord \<Rightarrow> AdapterRequest" where
  "record_request rec = \<lparr>aq_GrantID = ra_GrantID rec, aq_RunID = ra_RunID rec, aq_StepID = ra_StepID rec, aq_Target = ra_Target rec,
     aq_Action = ra_Action rec, aq_IdempotencyKey = ra_IdempotencyKey rec, aq_DispatchedAt = ra_CreatedAt rec\<rparr>"

definition reconciled :: "RunnerActionRecord \<Rightarrow> AdapterResult \<Rightarrow> time \<Rightarrow> RunnerActionRecord" where
  "reconciled rec result now = rec\<lparr>ra_Status := RunnerActionSucceeded,
     ra_Result := \<lparr>rr_ProtocolVersion = VersionV1Alpha1, rr_GrantID = ra_GrantID rec, rr_RunID = ra_RunID rec, rr_StepID = ra_StepID rec,
       rr_Status = ResultSucceeded, rr_ReasonCode = [], rr_ExternalExecutionID = ar_ExternalExecutionID result,
       rr_CompletedAt = ar_CompletedAt result, rr_Signature = no_signature\<rparr>,
     ra_UpdatedAt := now\<rparr>"

text \<open>The loop over the pending records; a record is skipped unless the reconciler found its execution.\<close>

fun reconcile_records :: "broker option \<Rightarrow> 's RunnerJournal \<Rightarrow> 'x Reconciler \<Rightarrow> (nat \<Rightarrow> time) \<Rightarrow> RunnerActionRecord list
    \<Rightarrow> 's \<times> 'x \<Rightarrow> ('s \<times> 'x) \<times> error option" where
  "reconcile_records credentials journal reconciler now [] (s, x) = ((s, x), None)"
| "reconcile_records credentials journal reconciler now (rec # records) (s, x) = (case credentials of
       None \<Rightarrow> ((s, x), Some (Errorf ''reconciliation credential unavailable''))
     | Some acquire \<Rightarrow>
         (case acquire \<lparr>cq_Provider = provider_of (re_CredentialProvider reconciler), cq_TenantID = ra_TenantID rec,
                 cq_Service = tgt_Service (ra_Target rec), cq_Environment = tgt_Environment (ra_Target rec),
                 cq_Purpose = purpose_of (ra_Action rec)\<rparr> of
            Inl err \<Rightarrow> reconcile_records credentials journal reconciler now records (s, x)
          | Inr credential \<Rightarrow> (case re_Reconcile reconciler x (record_request rec) credential of
              (x', Inl err) \<Rightarrow> reconcile_records credentials journal reconciler now records (s, x')
            | (x', Inr (result, False)) \<Rightarrow> reconcile_records credentials journal reconciler now records (s, x')
            | (x', Inr (result, True)) \<Rightarrow>
                (case jo_CompleteRunnerAction journal s (reconciled rec result (now 0)) (ra_StateVersion rec)
                    (journalAudit (auditID (ra_GrantID rec) ''reconcile'' (ra_StateVersion rec + 1)) (ra_GrantID rec)
                       ''runner.action.reconcile'' ''SUCCEEDED'' (now 0) []) of
                   (s', Some err) \<Rightarrow> ((s', x'), Some err)
                 | (s', None) \<Rightarrow> reconcile_records credentials journal reconciler (\<lambda>i. now (Suc i)) records (s', x')))))"

definition Runner_Reconcile :: "('s, 'x) Runner \<Rightarrow> 'x Reconciler option \<Rightarrow> (nat \<Rightarrow> time) \<Rightarrow> int \<Rightarrow> 's \<times> 'x \<Rightarrow> ('s \<times> 'x) \<times> error option" where
  "Runner_Reconcile r maybe now limit = (\<lambda>(s, x). case (ru_Journal r, maybe) of
       (Some journal, Some reconciler) \<Rightarrow>
         if ru_TenantID r = [] \<or> ru_RunnerGroup r = [] then ((s, x), Some (Errorf ''runner identity unavailable''))
         else (case jo_PendingRunnerActions journal s (ru_TenantID r) (ru_RunnerGroup r) limit of
             Inl err \<Rightarrow> ((s, x), Some err)
           | Inr records \<Rightarrow> reconcile_records (ru_Credentials r) journal reconciler now records (s, x))
     | _ \<Rightarrow> ((s, x), Some (Errorf ''reconciliation unavailable'')))"

section \<open>The static collaborators and the SDK bridge\<close>

definition StaticContexts_ResolveContext :: "(string \<times> PinnedContext) list \<Rightarrow> string \<Rightarrow> string \<Rightarrow> (error, PinnedContext) result" where
  "StaticContexts_ResolveContext contexts runID stepID = (case map_of contexts (runID @ [CHR 0x00] @ stepID) of
       None \<Rightarrow> Inl (Errorf ''pinned context not found'')
     | Some pin \<Rightarrow> Inr pin)"

definition ProofReferences_VerifyApprovals :: "string list \<Rightarrow> ActionGrant \<Rightarrow> Subject \<Rightarrow> error option" where
  "ProofReferences_VerifyApprovals trusted g subject =
     (if list_all (\<lambda>reference. reference \<in> set trusted) (ag_ApprovalProofs g) then None else Some (Errorf ''untrusted approval proof''))"

definition sdk_target :: "AdapterRequest \<Rightarrow> AdapterTarget" where
  "sdk_target request = \<lparr>at_Service = tgt_Service (aq_Target request), at_Environment = tgt_Environment (aq_Target request)\<rparr>"

definition SDKDispatcher_Execute :: "'x DeployAdapter option \<Rightarrow> time \<Rightarrow> 'x \<Rightarrow> AdapterRequest \<Rightarrow> Credential
    \<Rightarrow> 'x \<times> (error, AdapterResult) result" where
  "SDKDispatcher_Execute maybe now x request credential = (case maybe of
       None \<Rightarrow> (x, Inl (Errorf ''deploy adapter unavailable''))
     | Some adapter \<Rightarrow>
         (let executed =
            (if act_Capability (aq_Action request) = ProtocolDeploy
             then da_Deploy adapter x \<lparr>dq_Target = sdk_target request, dq_ArtifactDigest = act_ArtifactDigest (aq_Action request),
                    dq_IdempotencyKey = aq_IdempotencyKey request\<rparr> credential
             else if act_Capability (aq_Action request) = ProtocolRollback
             then da_Rollback adapter x \<lparr>rq2_Target = sdk_target request,
                    rq2_OriginalDeployment = no_deployment\<lparr>ad_ExternalExecutionID := act_ExternalExecutionID (aq_Action request)\<rparr>,
                    rq2_IdempotencyKey = aq_IdempotencyKey request\<rparr> credential
             else (x, Inl (Errorf ''unsupported typed action %q''))) in
          case executed of
            (x', Inl err) \<Rightarrow> (x', Inl err)
          | (x', Inr deployment) \<Rightarrow> (x', Inr \<lparr>ar_ExternalExecutionID = ad_ExternalExecutionID deployment,
                ar_CompletedAt = (if ad_FinishedAt deployment = 0 then now else ad_FinishedAt deployment)\<rparr>)))"

definition no_adapter_result :: AdapterResult where
  "no_adapter_result = \<lparr>ar_ExternalExecutionID = [], ar_CompletedAt = 0\<rparr>"

definition SDKDispatcher_Reconcile :: "'x DeployAdapter option \<Rightarrow> time \<Rightarrow> 'x \<Rightarrow> AdapterRequest \<Rightarrow> Credential
    \<Rightarrow> 'x \<times> (error, AdapterResult \<times> bool) result" where
  "SDKDispatcher_Reconcile maybe now x request credential = (case maybe of
       None \<Rightarrow> (x, Inl (Errorf ''deploy adapter unavailable''))
     | Some adapter \<Rightarrow>
         (let dispatchedAt = (if aq_DispatchedAt request = 0 then now - 86400000000000 else aq_DispatchedAt request) in
          case da_Reconcile adapter x \<lparr>rc_IdempotencyKey = aq_IdempotencyKey request, rc_DispatchedAt = dispatchedAt\<rparr> credential of
            (x', Inl err) \<Rightarrow> (x', Inl err)
          | (x', Inr result) \<Rightarrow>
              if rcr_Status result = ReconcileNotFound \<or> rcr_Status result = ReconcilePending then (x', Inr (no_adapter_result, False))
              else if rcr_Status result = ReconcileFailed then (x', Inl (Errorf ''external execution failed during reconciliation''))
              else (x', Inr (\<lparr>ar_ExternalExecutionID = ad_ExternalExecutionID (rcr_Deployment result),
                              ar_CompletedAt = ad_FinishedAt (rcr_Deployment result)\<rparr>, True))))"

definition SDKDispatcher :: "'x DeployAdapter option \<Rightarrow> time \<Rightarrow> 'x TypedAdapter" where
  "SDKDispatcher maybe now = \<lparr>ta_CredentialProvider = Some ProviderGitHubActions, ta_Execute = SDKDispatcher_Execute maybe now\<rparr>"

definition SDKReconciler :: "'x DeployAdapter option \<Rightarrow> time \<Rightarrow> 'x Reconciler" where
  "SDKReconciler maybe now = \<lparr>re_CredentialProvider = Some ProviderGitHubActions, re_Reconcile = SDKDispatcher_Reconcile maybe now\<rparr>"

section \<open>What an authorized grant satisfies\<close>

lemma check_grant_Inr:
  "check_grant digest r now g = Inr (h, journal) \<longleftrightarrow>
     (\<exists>verify. ru_Grants r = Some verify \<and> verify g = None) \<and> ru_TenantID r \<noteq> [] \<and> ag_TenantID g = ru_TenantID r \<and>
     ru_RunnerGroup r \<noteq> [] \<and> ag_RunnerGroup g = ru_RunnerGroup r \<and> GrantHash digest g = Inr h \<and> ru_Journal r = Some journal"
  by (auto simp: check_grant_def split: option.splits sum.splits)

lemma check_journal_Inr:
  "check_journal journal s now g h = Inr u \<longleftrightarrow>
     (\<exists>err. jo_GetRunnerAction journal s (ag_TenantID g) (ag_RunnerGroup g) (ag_Nonce g) = Inl err \<and> errors_Is err ErrNotFound)"
  by (auto simp: check_journal_def split: sum.splits)

lemma check_identity_Inr:
  "check_identity r now g = Inr (subject, delegation) \<longleftrightarrow>
     ru_Connectivity r = Some True \<and> ag_UserIdentityProof g \<noteq> [] \<and>
     (\<exists>verify. ru_Subjects r = Some verify \<and> verify (ag_UserIdentityProof g) = Inr subject) \<and> sub_ID subject = ag_UserSubject g \<and>
     (\<exists>verify. ru_Delegations r = Some verify \<and> verify (grant_delegation g subject) = Inr delegation)"
  by (auto simp: check_identity_def split: option.splits sum.splits if_splits)

lemma check_context_Inr:
  "check_context r now g subject = Inr u \<longleftrightarrow>
     (\<exists>resolve pin. ru_Contexts r = Some resolve \<and> resolve (ag_RunID g) (ag_StepID g) = Inr pin \<and> matchingHashes g pin \<and>
        (pc_ApprovalRequired pin \<longrightarrow> ag_ApprovalProofs g \<noteq> [])) \<and>
     (ag_ApprovalProofs g \<noteq> [] \<longrightarrow> (\<exists>verify. ru_Approvals r = Some verify \<and> verify g subject = None)) \<and>
     act_Capability (ag_Action g) \<in> set (ru_Capabilities r)"
  by (auto simp: check_context_def Allows_def split: option.splits sum.splits if_splits)

lemma check_policy_Inr:
  "check_policy r now g subject delegation = Inr u \<longleftrightarrow>
     (\<exists>evaluate e. ru_Policy r = Some evaluate \<and>
        evaluate (InputForGrant g (sub_Issuer subject) (sub_ID subject) (del_AgentID delegation) (del_ID delegation)) = Inr e \<and>
        pe_Decision e = DecisionAllow \<and> pe_InputHash e = ag_PolicyInputHash g \<and> pe_PolicyHash e = ag_PolicyHash g)"
  by (auto simp: check_policy_def split: option.splits sum.splits if_splits)

lemma authorize_Inr:
  "authorize digest r s now g = Inr (h, journal) \<longleftrightarrow>
     check_grant digest r now g = Inr (h, journal) \<and> check_journal journal s now g h = Inr () \<and>
     (\<exists>subject delegation. check_identity r now g = Inr (subject, delegation) \<and> check_context r now g subject = Inr () \<and>
        check_policy r now g subject delegation = Inr ())"
  by (auto simp: authorize_def split: sum.splits prod.splits)

lemmas check_Inr = check_grant_Inr check_journal_Inr check_identity_Inr check_context_Inr check_policy_Inr

lemma authorize_now:
  "authorize digest r s now g = Inr hj \<longleftrightarrow> authorize digest r s now' g = Inr hj"
  by (cases hj) (simp add: authorize_Inr check_Inr)

section \<open>The journal the runner relies on\<close>

text \<open>
  The contract of a journal: a reservation is created only when neither the nonce nor the
  idempotency key is in use, it takes both, and nothing frees them again.
\<close>

locale runner_journal =
  fixes journal :: "'s RunnerJournal"
    and nonce_used key_used :: "'s \<Rightarrow> string \<Rightarrow> string \<Rightarrow> string \<Rightarrow> bool"
  assumes reserve_created: "jo_ReserveRunnerAction journal s rec audit = (s', Inr (found, True)) \<Longrightarrow>
      \<not> nonce_used s (ra_TenantID rec) (ra_RunnerGroup rec) (ra_Nonce rec) \<and>
      \<not> key_used s (ra_TenantID rec) (ra_RunnerGroup rec) (ra_IdempotencyKey rec) \<and>
      nonce_used s' (ra_TenantID rec) (ra_RunnerGroup rec) (ra_Nonce rec) \<and>
      key_used s' (ra_TenantID rec) (ra_RunnerGroup rec) (ra_IdempotencyKey rec)"
    and reserve_keeps: "nonce_used s t gr n \<Longrightarrow> nonce_used (fst (jo_ReserveRunnerAction journal s rec audit)) t gr n"
      "key_used s t gr n \<Longrightarrow> key_used (fst (jo_ReserveRunnerAction journal s rec audit)) t gr n"
    and complete_keeps: "nonce_used s t gr n \<Longrightarrow> nonce_used (fst (jo_CompleteRunnerAction journal s rec v audit)) t gr n"
      "key_used s t gr n \<Longrightarrow> key_used (fst (jo_CompleteRunnerAction journal s rec v audit)) t gr n"

text \<open>A recording journal also returns what was reserved and completed.\<close>

locale recording_journal = runner_journal +
  assumes reserve_created_record: "jo_ReserveRunnerAction journal s rec audit = (s', Inr (found, True)) \<Longrightarrow>
      found = Some (rec\<lparr>ra_Status := RunnerActionReserved, ra_StateVersion := 1\<rparr>)"
    and reserve_found: "jo_ReserveRunnerAction journal s rec audit = (s', Inr (found, False)) \<Longrightarrow>
      s' = s \<and> jo_ReserveRunnerAction journal s (rec\<lparr>ra_CreatedAt := c, ra_UpdatedAt := u\<rparr>) audit' = (s, Inr (found, False))"
    and complete_get: "jo_CompleteRunnerAction journal s rec v audit = (s', None) \<Longrightarrow>
      jo_GetRunnerAction journal s' (ra_TenantID rec) (ra_RunnerGroup rec) (ra_Nonce rec) = Inr (rec\<lparr>ra_StateVersion := v + 1\<rparr>)"

definition memory_journal :: "Memory RunnerJournal" where
  "memory_journal = \<lparr>jo_GetRunnerAction = GetRunnerAction, jo_ReserveRunnerAction = ReserveRunnerAction,
     jo_CompleteRunnerAction = CompleteRunnerAction, jo_PendingRunnerActions = PendingRunnerActions\<rparr>"

definition memory_nonce_used :: "Memory \<Rightarrow> string \<Rightarrow> string \<Rightarrow> string \<Rightarrow> bool" where
  "memory_nonce_used m tenant runnerGroup nonce \<longleftrightarrow> map_of (m_runnerActions m) (runnerNonceKey tenant runnerGroup nonce) \<noteq> None"

definition memory_key_used :: "Memory \<Rightarrow> string \<Rightarrow> string \<Rightarrow> string \<Rightarrow> bool" where
  "memory_key_used m tenant runnerGroup key \<longleftrightarrow> map_of (m_runnerByKey m) (runnerIdempotencyKey tenant runnerGroup key) \<noteq> None"

interpretation mj: recording_journal memory_journal memory_nonce_used memory_key_used
proof unfold_locales
  fix s s' :: Memory and rec audit found
  assume "jo_ReserveRunnerAction memory_journal s rec audit = (s', Inr (found, True))"
  then show "\<not> memory_nonce_used s (ra_TenantID rec) (ra_RunnerGroup rec) (ra_Nonce rec) \<and>
      \<not> memory_key_used s (ra_TenantID rec) (ra_RunnerGroup rec) (ra_IdempotencyKey rec) \<and>
      memory_nonce_used s' (ra_TenantID rec) (ra_RunnerGroup rec) (ra_Nonce rec) \<and>
      memory_key_used s' (ra_TenantID rec) (ra_RunnerGroup rec) (ra_IdempotencyKey rec)"
    and "found = Some (rec\<lparr>ra_Status := RunnerActionReserved, ra_StateVersion := 1\<rparr>)"
    by (auto simp: memory_journal_def ReserveRunnerAction_def memory_nonce_used_def memory_key_used_def update_conv' Let_def
        split: option.splits)
next
  fix s s' :: Memory and rec audit audit' found c u
  assume "jo_ReserveRunnerAction memory_journal s rec audit = (s', Inr (found, False))"
  then show "s' = s \<and> jo_ReserveRunnerAction memory_journal s (rec\<lparr>ra_CreatedAt := c, ra_UpdatedAt := u\<rparr>) audit' = (s, Inr (found, False))"
    by (auto simp: memory_journal_def ReserveRunnerAction_def Let_def split: option.splits) metis
qed (auto simp: memory_journal_def ReserveRunnerAction_def CompleteRunnerAction_def GetRunnerAction_def
      memory_nonce_used_def memory_key_used_def update_conv' Let_def split: option.splits if_splits)

section \<open>Concurrent runners on one journal\<close>

text \<open>
  Any number of calls of \<^verbatim>\<open>Execute\<close>, on any of a set of runners that share the journal, interleaved
  between their effects; completions by reconciliation and changes of the external system happen at
  any time.  \<open>sy_calls\<close> lists the grants for which the adapter has been called, latest first.
\<close>

datatype ('s, 'x) call =
    Idle
  | Checking "('s, 'x) Runner" "nat \<Rightarrow> time" ActionGrant
  | Authorized "('s, 'x) Runner" "nat \<Rightarrow> time" ActionGrant string
  | Holding "('s, 'x) Runner" "nat \<Rightarrow> time" ActionGrant RunnerActionRecord
  | Completing "nat \<Rightarrow> time" ActionGrant RunnerActionRecord "(Reason \<times> error) + AdapterResult"
  | Returned outcome

record ('s, 'x) runner_system =
  sy_journal :: 's
  sy_external :: 'x
  sy_calls :: "ActionGrant list"
  sy_threads :: "nat \<Rightarrow> ('s, 'x) call"

definition goto :: "('s, 'x) runner_system \<Rightarrow> nat \<Rightarrow> ('s, 'x) call \<Rightarrow> ('s, 'x) runner_system" where
  "goto y i c = y\<lparr>sy_threads := (sy_threads y)(i := c)\<rparr>"

lemma goto_simps [simp]:
  "sy_journal (goto y i c) = sy_journal y" "sy_external (goto y i c) = sy_external y" "sy_calls (goto y i c) = sy_calls y"
  "sy_threads (goto y i c) = (sy_threads y)(i := c)"
  by (simp_all add: goto_def)

inductive system_step :: "(json \<Rightarrow> string) \<Rightarrow> 's RunnerJournal \<Rightarrow> ('s, 'x) Runner set \<Rightarrow> ('s, 'x) runner_system \<Rightarrow> ('s, 'x) runner_system \<Rightarrow> bool"
  for digest journal runners where
  receive: "sy_threads y i = Idle \<Longrightarrow> r \<in> runners \<Longrightarrow> ru_Journal r = Some journal \<Longrightarrow>
    system_step digest journal runners y (goto y i (Checking r now g))"
| refuse: "sy_threads y i = Checking r now g \<Longrightarrow> authorize digest r (sy_journal y) (now 0) g = Inl early \<Longrightarrow>
    system_step digest journal runners y (goto y i (Returned early))"
| admit: "sy_threads y i = Checking r now g \<Longrightarrow> authorize digest r (sy_journal y) (now 0) g = Inr (h, j) \<Longrightarrow>
    system_step digest journal runners y (goto y i (Authorized r now g h))"
| replay: "sy_threads y i = Authorized r now g h \<Longrightarrow> reserve_action journal (sy_journal y) now g h = (s', Inl early) \<Longrightarrow>
    system_step digest journal runners y (goto (y\<lparr>sy_journal := s'\<rparr>) i (Returned early))"
| hold: "sy_threads y i = Authorized r now g h \<Longrightarrow> reserve_action journal (sy_journal y) now g h = (s', Inr rec) \<Longrightarrow>
    system_step digest journal runners y (goto (y\<lparr>sy_journal := s'\<rparr>) i (Holding r now g rec))"
| dispatch: "sy_threads y i = Holding r now g rec \<Longrightarrow> act r (sy_external y) (now 0) g = (x', called, acted) \<Longrightarrow>
    system_step digest journal runners y
      (goto (y\<lparr>sy_external := x', sy_calls := (if called then [g] else []) @ sy_calls y\<rparr>) i (Completing now g rec acted))"
| complete: "sy_threads y i = Completing now g rec acted \<Longrightarrow> finish journal (sy_journal y) now rec g acted = (s', result) \<Longrightarrow>
    system_step digest journal runners y (goto (y\<lparr>sy_journal := s'\<rparr>) i (Returned result))"
| reconcile: "jo_CompleteRunnerAction journal (sy_journal y) rec v audit = (s', e) \<Longrightarrow>
    system_step digest journal runners y (y\<lparr>sy_journal := s'\<rparr>)"
| external: "system_step digest journal runners y (y\<lparr>sy_external := x'\<rparr>)"

inductive system_reach :: "(json \<Rightarrow> string) \<Rightarrow> 's RunnerJournal \<Rightarrow> ('s, 'x) Runner set \<Rightarrow> ('s, 'x) runner_system \<Rightarrow> bool"
  for digest journal runners where
  start: "system_reach digest journal runners \<lparr>sy_journal = s, sy_external = x, sy_calls = [], sy_threads = (\<lambda>_. Idle)\<rparr>"
| step: "system_reach digest journal runners y \<Longrightarrow> system_step digest journal runners y y' \<Longrightarrow> system_reach digest journal runners y'"

definition nonce_of :: "ActionGrant \<Rightarrow> string \<times> string \<times> string" where
  "nonce_of g = (ag_TenantID g, ag_RunnerGroup g, ag_Nonce g)"

definition key_of :: "ActionGrant \<Rightarrow> string \<times> string \<times> string" where
  "key_of g = (ag_TenantID g, ag_RunnerGroup g, ag_IdempotencyKey g)"

text \<open>Some runner of the set authorized the grant in some state of the journal.\<close>

definition was_authorized :: "(json \<Rightarrow> string) \<Rightarrow> ('s, 'x) Runner set \<Rightarrow> ActionGrant \<Rightarrow> bool" where
  "was_authorized digest runners g \<longleftrightarrow> (\<exists>r \<in> runners. \<exists>s now h j. authorize digest r s now g = Inr (h, j))"

definition holds :: "('s, 'x) runner_system \<Rightarrow> nat \<Rightarrow> ActionGrant \<Rightarrow> bool" where
  "holds y i g \<longleftrightarrow> (\<exists>r now rec. sy_threads y i = Holding r now g rec)"

lemma holds_goto [simp]:
  "holds (goto y i (Holding r now g rec)) k g' \<longleftrightarrow> (if k = i then g' = g else holds y k g')"
  "holds (goto y i (Checking r now g)) k g' \<longleftrightarrow> k \<noteq> i \<and> holds y k g'"
  "holds (goto y i (Authorized r now g h)) k g' \<longleftrightarrow> k \<noteq> i \<and> holds y k g'"
  "holds (goto y i (Completing now g rec acted)) k g' \<longleftrightarrow> k \<noteq> i \<and> holds y k g'"
  "holds (goto y i (Returned early)) k g' \<longleftrightarrow> k \<noteq> i \<and> holds y k g'"
  "holds (goto y i Idle) k g' \<longleftrightarrow> k \<noteq> i \<and> holds y k g'"
  by (auto simp: holds_def)

lemma holds_update [simp]:
  "holds (y\<lparr>sy_journal := s\<rparr>) k g \<longleftrightarrow> holds y k g" "holds (y\<lparr>sy_external := x\<rparr>) k g \<longleftrightarrow> holds y k g"
  "holds (y\<lparr>sy_external := x, sy_calls := c\<rparr>) k g \<longleftrightarrow> holds y k g"
  by (simp_all add: holds_def)

text \<open>The phases carry what the grant has passed.\<close>

fun cleared :: "(json \<Rightarrow> string) \<Rightarrow> ('s, 'x) Runner set \<Rightarrow> ('s, 'x) call \<Rightarrow> bool" where
  "cleared digest runners (Checking r now g) \<longleftrightarrow> r \<in> runners"
| "cleared digest runners (Authorized r now g h) \<longleftrightarrow> was_authorized digest runners g"
| "cleared digest runners (Holding r now g rec) \<longleftrightarrow> was_authorized digest runners g"
| "cleared digest runners _ \<longleftrightarrow> True"

lemma calls_authorized:
  assumes "system_reach digest journal runners y"
  shows "(\<forall>i. cleared digest runners (sy_threads y i)) \<and> list_all (was_authorized digest runners) (sy_calls y)"
  using assms
proof induction
  case (step y y')
  from step.hyps(2) step.IH show ?case
  proof cases
    case (admit i r now g h j)
    with step.IH have "r \<in> runners" by (metis cleared.simps(1))
    with admit have "was_authorized digest runners g" unfolding was_authorized_def by blast
    with admit step.IH show ?thesis by simp
  next
    case (hold i r now g h s' rec)
    with step.IH have "was_authorized digest runners g" by (metis cleared.simps(2))
    with hold step.IH show ?thesis by simp
  next
    case (dispatch i r now g rec x' called acted)
    with step.IH have "was_authorized digest runners g" by (metis cleared.simps(3))
    with dispatch step.IH show ?thesis by simp
  qed simp_all
qed simp

lemma action_record_sel [simp]:
  "ra_TenantID (action_record g h now) = ag_TenantID g" "ra_RunnerGroup (action_record g h now) = ag_RunnerGroup g"
  "ra_Nonce (action_record g h now) = ag_Nonce g" "ra_IdempotencyKey (action_record g h now) = ag_IdempotencyKey g"
  "ra_RequestHash (action_record g h now) = h"
  by (simp_all add: action_record_def)

lemma action_record_time: "action_record g h now' = (action_record g h now)\<lparr>ra_CreatedAt := now', ra_UpdatedAt := now'\<rparr>"
  by (simp add: action_record_def)

lemma reserve_action_created:
  assumes "reserve_action journal s now g h = (s', Inr rec)"
  obtains audit where "jo_ReserveRunnerAction journal s (action_record g h (now 0)) audit = (s', Inr (Some rec, True))"
  using assms by (auto simp: reserve_action_def split: prod.splits sum.splits bool.splits option.splits)

lemma reserve_action_state:
  assumes "reserve_action journal s now g h = (s', result)"
  obtains rec audit where "s' = fst (jo_ReserveRunnerAction journal s rec audit)"
  using assms by (auto simp: reserve_action_def split: prod.splits sum.splits bool.splits option.splits) (metis fst_conv)+

lemma reserve_action_early_result:
  assumes "reserve_action journal s now g h = (s', Inl (result, None))"
  obtains found audit where "jo_ReserveRunnerAction journal s (action_record g h (now 0)) audit = (s', Inr (found, False))"
    "replayResult g found h = (result, None)"
  using assms by (auto simp: reserve_action_def reject_def split: prod.splits sum.splits bool.splits option.splits)

lemma finish_state:
  assumes "finish journal s now rec g acted = (s', result)"
  obtains rec' v audit where "s' = fst (jo_CompleteRunnerAction journal s rec' v audit)"
  using assms by (auto simp: finish_def failReserved_def Let_def split: prod.splits sum.splits option.splits) (metis fst_conv)+

context runner_journal
begin

definition taken :: "'s \<Rightarrow> ActionGrant \<Rightarrow> bool" where
  "taken s g \<longleftrightarrow> nonce_used s (ag_TenantID g) (ag_RunnerGroup g) (ag_Nonce g) \<and>
                  key_used s (ag_TenantID g) (ag_RunnerGroup g) (ag_IdempotencyKey g)"

lemma taken_reserve: "reserve_action journal s now g h = (s', result) \<Longrightarrow> taken s g' \<Longrightarrow> taken s' g'"
  by (erule reserve_action_state) (simp add: taken_def reserve_keeps)

lemma taken_finish: "finish journal s now rec g acted = (s', result) \<Longrightarrow> taken s g' \<Longrightarrow> taken s' g'"
  by (erule finish_state) (simp add: taken_def complete_keeps)

lemma taken_complete: "jo_CompleteRunnerAction journal s rec v audit = (s', e) \<Longrightarrow> taken s g' \<Longrightarrow> taken s' g'"
  using complete_keeps[of s _ _ _ rec v audit] by (simp add: taken_def)

lemma taken_created:
  assumes "reserve_action journal s now g h = (s', Inr rec)"
  shows "taken s' g" and "taken s g' \<Longrightarrow> nonce_of g' \<noteq> nonce_of g \<and> key_of g' \<noteq> key_of g"
proof -
  from assms obtain audit where r: "jo_ReserveRunnerAction journal s (action_record g h (now 0)) audit = (s', Inr (Some rec, True))"
    by (rule reserve_action_created)
  show "taken s' g" using reserve_created[OF r] by (simp add: taken_def)
  show "taken s g' \<Longrightarrow> nonce_of g' \<noteq> nonce_of g \<and> key_of g' \<noteq> key_of g"
    using reserve_created[OF r] by (auto simp: taken_def nonce_of_def key_of_def)
qed

text \<open>Held and called grants are taken, and no two of them share a nonce or a key.\<close>

definition exclusive :: "('s, 'x) runner_system \<Rightarrow> bool" where
  "exclusive y \<longleftrightarrow>
     (\<forall>i g. holds y i g \<longrightarrow> taken (sy_journal y) g \<and> nonce_of g \<notin> nonce_of ` set (sy_calls y) \<and> key_of g \<notin> key_of ` set (sy_calls y)) \<and>
     (\<forall>i k g g'. holds y i g \<and> holds y k g' \<and> i \<noteq> k \<longrightarrow> nonce_of g \<noteq> nonce_of g' \<and> key_of g \<noteq> key_of g') \<and>
     (\<forall>g \<in> set (sy_calls y). taken (sy_journal y) g) \<and>
     distinct (map nonce_of (sy_calls y)) \<and> distinct (map key_of (sy_calls y))"

lemma exclusive_journal:
  assumes "exclusive y" "\<And>g. taken (sy_journal y) g \<Longrightarrow> taken s' g"
  shows "exclusive (y\<lparr>sy_journal := s'\<rparr>)"
  using assms by (simp add: exclusive_def)

lemma exclusive_leave:
  assumes "exclusive y" "\<And>k g'. holds (goto y i c) k g' \<Longrightarrow> holds y k g'"
  shows "exclusive (goto y i c)"
  unfolding exclusive_def goto_simps
proof (intro conjI allI impI)
  show "\<forall>g \<in> set (sy_calls y). taken (sy_journal y) g" "distinct (map nonce_of (sy_calls y))" "distinct (map key_of (sy_calls y))"
    using assms(1) by (simp_all add: exclusive_def)
next
  fix k g assume "holds (goto y i c) k g"
  then have "holds y k g" by (rule assms(2))
  then show "taken (sy_journal y) g" "nonce_of g \<notin> nonce_of ` set (sy_calls y)" "key_of g \<notin> key_of ` set (sy_calls y)"
    using assms(1) unfolding exclusive_def by blast+
next
  fix k l g g' assume "holds (goto y i c) k g \<and> holds (goto y i c) l g' \<and> k \<noteq> l"
  then have "holds y k g \<and> holds y l g' \<and> k \<noteq> l" using assms(2) by blast
  then show "nonce_of g \<noteq> nonce_of g'" "key_of g \<noteq> key_of g'" using assms(1) unfolding exclusive_def by blast+
qed

lemma exclusive_hold:
  assumes "exclusive y" and r: "reserve_action journal (sy_journal y) now g h = (s', Inr rec)"
  shows "exclusive (goto (y\<lparr>sy_journal := s'\<rparr>) i (Holding r now g rec))"
proof -
  note new = taken_created(1)[OF r] and keep = taken_reserve[OF r]
  have held: "taken (sy_journal y) g'" if "holds y k g'" for k g' using assms(1) that unfolding exclusive_def by blast
  have called: "taken (sy_journal y) g'" if "g' \<in> set (sy_calls y)" for g' using assms(1) that unfolding exclusive_def by blast
  have other: "nonce_of g' \<noteq> nonce_of g" "key_of g' \<noteq> key_of g" if "holds y k g' \<or> g' \<in> set (sy_calls y)" for k g'
    using taken_created(2)[OF r] held called that by blast+
  show ?thesis
    using assms(1) new keep held called other unfolding exclusive_def
    by (simp split: if_splits) (smt (verit, best) image_iff)
qed

lemma exclusive_dispatch:
  assumes "exclusive y" "holds y i g" "set c \<subseteq> {g}" "distinct c"
  shows "exclusive (goto (y\<lparr>sy_external := x', sy_calls := c @ sy_calls y\<rparr>) i (Completing now g rec acted))"
proof -
  have "c = [] \<or> c = [g]" using assms(3,4) by (cases c) (auto simp: subset_singleton_iff)
  moreover have "nonce_of g \<notin> nonce_of ` set (sy_calls y)" "key_of g \<notin> key_of ` set (sy_calls y)"
    using assms(1,2) unfolding exclusive_def by blast+
  moreover have "taken (sy_journal y) g" using assms(1,2) unfolding exclusive_def by blast
  ultimately show ?thesis using assms(1,2) unfolding exclusive_def by (elim disjE) auto
qed

lemma exclusive_step:
  assumes "system_step digest journal runners y y'" "exclusive y"
  shows "exclusive y'"
  using assms(1)
proof cases
  case (replay i r now g h s' early)
  then show ?thesis using assms(2) taken_reserve by (auto intro!: exclusive_leave exclusive_journal)
next
  case (hold i r now g h s' rec)
  then show ?thesis using assms(2) exclusive_hold by blast
next
  case (dispatch i r now g rec x' called acted)
  have "set (if called then [g] else []) \<subseteq> {g}" "distinct (if called then [g] else [])" by (cases called; simp)+
  moreover have "holds y i g" using dispatch(2) by (auto simp: holds_def)
  ultimately show ?thesis unfolding dispatch(1) using assms(2) by (intro exclusive_dispatch)
next
  case (complete i now g rec acted s' result)
  from complete(1) show ?thesis using assms(2) taken_finish[OF complete(3)] by (auto intro!: exclusive_leave exclusive_journal)
next
  case (reconcile rec v audit s' e)
  then show ?thesis using assms(2) taken_complete by (auto intro!: exclusive_journal)
next
  case (external x')
  then show ?thesis using assms(2) by (simp add: exclusive_def)
qed (use assms(2) in \<open>auto intro!: exclusive_leave\<close>)

lemma reach_exclusive: "system_reach digest journal runners y \<Longrightarrow> exclusive y"
proof (induction rule: system_reach.induct)
  case (start s x)
  show ?case by (simp add: exclusive_def holds_def)
next
  case (step y y')
  then show ?case using exclusive_step by blast
qed

lemma calls_distinct:
  "system_reach digest journal runners y \<Longrightarrow> distinct (map nonce_of (sy_calls y)) \<and> distinct (map key_of (sy_calls y))"
  using reach_exclusive by (auto simp: exclusive_def)

end

lemma authorize_replay:
  assumes "check_grant digest r now g = Inr (h, journal)"
    and "jo_GetRunnerAction journal s (ag_TenantID g) (ag_RunnerGroup g) (ag_Nonce g) = Inr rec"
  shows "authorize digest r s now g = Inl (replayResult g (Some rec) h)"
  using assms by (simp add: authorize_def check_journal_def)

lemma check_grant_now: "check_grant digest r now g = Inr hj \<longleftrightarrow> check_grant digest r now' g = Inr hj"
  by (cases hj) (simp add: check_grant_Inr)

lemma replay_rejected_error [simp]: "snd replay_rejected \<noteq> None"
  by (simp add: replay_rejected_def)

text \<open>An outcome without an error before the reservation is the recorded result of the same grant.\<close>

lemma authorize_early_result:
  assumes "authorize digest r s now g = Inl (result, None)"
  obtains h journal rec where "check_grant digest r now g = Inr (h, journal)"
    "jo_GetRunnerAction journal s (ag_TenantID g) (ag_RunnerGroup g) (ag_Nonce g) = Inr rec" "replayResult g (Some rec) h = (result, None)"
proof -
  have "check_identity r now g \<noteq> Inl (result, None)" "check_context r now g subject \<noteq> Inl (result, None)"
      "check_policy r now g subject delegation \<noteq> Inl (result, None)" "check_grant digest r now g \<noteq> Inl (result, None)" for subject delegation
    by (auto simp: check_identity_def check_context_def check_policy_def check_grant_def reject_def split: option.splits sum.splits if_splits)
  with assms obtain h journal where "check_grant digest r now g = Inr (h, journal)" "check_journal journal s now g h = Inl (result, None)"
    by (auto simp: authorize_def split: sum.splits prod.splits)
  then show thesis using that by (auto simp: check_journal_def reject_def split: sum.splits if_splits)
qed

lemma finish_success:
  assumes "finish journal s now rec g acted = (s', result, None)"
  obtains rec' v audit where "jo_CompleteRunnerAction journal s rec' v audit = (s', None)" "ra_Status rec' = RunnerActionSucceeded"
    "ra_Result rec' = result" "ra_RequestHash rec' = ra_RequestHash rec" "ra_TenantID rec' = ra_TenantID rec"
    "ra_RunnerGroup rec' = ra_RunnerGroup rec" "ra_Nonce rec' = ra_Nonce rec"
  using assms by (auto simp: finish_def failReserved_def reject_def Let_def split: sum.splits prod.splits option.splits)

context recording_journal
begin

lemma early_reservation_repeats:
  assumes "reserve_action journal s now g h = (s', Inl (result, None))"
  shows "s' = s" and "reserve_action journal s now' g h = (s, Inl (result, None))"
proof -
  from assms obtain found audit where f: "jo_ReserveRunnerAction journal s (action_record g h (now 0)) audit = (s', Inr (found, False))"
    "replayResult g found h = (result, None)" by (rule reserve_action_early_result)
  show "s' = s" using reserve_found[OF f(1)] by simp
  have "jo_ReserveRunnerAction journal s (action_record g h (now' 0)) audit' = (s, Inr (found, False))" for audit'
    using reserve_found[OF f(1)] unfolding action_record_time[of g h "now' 0" "now 0"] by simp
  then show "reserve_action journal s now' g h = (s, Inl (result, None))" using f(2) by (cases found) (simp_all add: reserve_action_def)
qed

lemma finished_action_recorded:
  assumes "reserve_action journal s now g h = (s1, Inr rec)" "finish journal s1 now rec g acted = (s', result, None)"
  obtains rec' where "jo_GetRunnerAction journal s' (ag_TenantID g) (ag_RunnerGroup g) (ag_Nonce g) = Inr rec'"
    "replayResult g (Some rec') h = (result, None)"
proof -
  from assms(1) obtain audit where "jo_ReserveRunnerAction journal s (action_record g h (now 0)) audit = (s1, Inr (Some rec, True))"
    by (rule reserve_action_created)
  then have rec: "rec = (action_record g h (now 0))\<lparr>ra_Status := RunnerActionReserved, ra_StateVersion := 1\<rparr>"
    using reserve_created_record by blast
  from assms(2) obtain rec' v audit where c: "jo_CompleteRunnerAction journal s1 rec' v audit = (s', None)" "ra_Status rec' = RunnerActionSucceeded"
    "ra_Result rec' = result" "ra_RequestHash rec' = ra_RequestHash rec" "ra_TenantID rec' = ra_TenantID rec"
    "ra_RunnerGroup rec' = ra_RunnerGroup rec" "ra_Nonce rec' = ra_Nonce rec" by (rule finish_success)
  show thesis
    using that[of "rec'\<lparr>ra_StateVersion := v + 1\<rparr>"] complete_get[OF c(1)] c(2-) by (simp add: rec replayResult_def)
qed

lemma execute_replays:
  assumes r: "ru_Journal r = Some journal"
    and first: "Runner_Execute digest r now g (s, x) = ((s', x'), called, result, None)"
  shows "Runner_Execute digest r now' g (s', x'') = ((s', x''), False, result, None)"
proof (cases "authorize digest r s (now 0) g")
  case (Inl early)
  then have e: "authorize digest r s (now 0) g = Inl (result, None)" "s' = s" using first by (auto simp: Runner_Execute_def)
  from e(1) obtain h j rec where c: "check_grant digest r (now 0) g = Inr (h, j)"
      "jo_GetRunnerAction j s (ag_TenantID g) (ag_RunnerGroup g) (ag_Nonce g) = Inr rec" "replayResult g (Some rec) h = (result, None)"
    by (rule authorize_early_result)
  have "check_grant digest r (now' 0) g = Inr (h, j)" using c(1) check_grant_now by blast
  then have "authorize digest r s' (now' 0) g = Inl (result, None)" using authorize_replay c(2,3) e(2) by metis
  then show ?thesis by (simp add: Runner_Execute_def)
next
  case (Inr hj)
  then obtain h where a: "authorize digest r s (now 0) g = Inr (h, journal)" and c: "check_grant digest r (now' 0) g = Inr (h, journal)"
    using r by (cases hj) (auto simp: authorize_Inr check_grant_Inr)
  obtain s1 reserved where res: "reserve_action journal s now g h = (s1, reserved)" by fastforce
  show ?thesis
  proof (cases reserved)
    case (Inl early)
    then have e: "reserve_action journal s now g h = (s', Inl (result, None))" using first a res by (simp add: Runner_Execute_def)
    have "authorize digest r s (now' 0) g = Inr (h, journal)" by (rule authorize_now[THEN iffD1, OF a])
    then show ?thesis using early_reservation_repeats[OF e] by (simp add: Runner_Execute_def)
  next
    case (Inr rec)
    with first a res obtain acted where "finish journal s1 now rec g acted = (s', result, None)"
      by (auto simp: Runner_Execute_def split: prod.splits)
    with res Inr obtain rec' where "jo_GetRunnerAction journal s' (ag_TenantID g) (ag_RunnerGroup g) (ag_Nonce g) = Inr rec'"
        "replayResult g (Some rec') h = (result, None)" using finished_action_recorded by blast
    then have "authorize digest r s' (now' 0) g = Inl (result, None)" using authorize_replay[OF c] by simp
    then show ?thesis by (simp add: Runner_Execute_def)
  qed
qed

end

end
