(* ===== verification/Runner_Safety.thy ===== *)
theory Runner_Safety
  imports Runner
begin

text \<open>
  What the runner guarantees: the adapter is called only for grants that passed every check, at most
  once per nonce and per idempotency key under any interleaving, a repeated delivery returns the
  recorded result, and reconciliation only confirms what the external system reports.
\<close>

section \<open>One call at a time\<close>

text \<open>A sequential \<^verbatim>\<open>Execute\<close> is one of the interleavings.\<close>

lemma execute_reaches:
  assumes "system_reach digest journal runners y" "sy_threads y i = Idle" "r \<in> runners" "ru_Journal r = Some journal"
    and "Runner_Execute digest r now g (sy_journal y, sy_external y) = ((s', x'), called, result)"
  shows "\<exists>y'. system_reach digest journal runners y' \<and> sy_journal y' = s' \<and> sy_external y' = x' \<and>
           sy_calls y' = (if called then [g] else []) @ sy_calls y \<and> sy_threads y' = (sy_threads y)(i := Returned result)"
proof -
  let ?y1 = "goto y i (Checking r now g)"
  have y1: "system_reach digest journal runners ?y1" using assms(1-4) by (blast intro: system_reach.step receive)
  have t1: "sy_threads ?y1 i = Checking r now g" by simp
  show ?thesis
  proof (cases "authorize digest r (sy_journal y) (now 0) g")
    case (Inl early)
    then have e: "s' = sy_journal y" "x' = sy_external y" "\<not> called" "result = early" using assms(5) by (auto simp: Runner_Execute_def)
    have "system_step digest journal runners ?y1 (goto ?y1 i (Returned early))"
      using Inl by (intro system_step.refuse[OF t1]) simp
    with y1 have "system_reach digest journal runners (goto ?y1 i (Returned early))" by (rule system_reach.step)
    then show ?thesis using e by (intro exI[of _ "goto ?y1 i (Returned early)"]) simp
  next
    case (Inr hj)
    then obtain h where a: "authorize digest r (sy_journal y) (now 0) g = Inr (h, journal)"
      using assms(4) by (cases hj) (auto simp: authorize_Inr check_grant_Inr)
    let ?y2 = "goto ?y1 i (Authorized r now g h)"
    have "system_step digest journal runners ?y1 ?y2" using a by (intro system_step.admit[OF t1]) simp
    with y1 have y2: "system_reach digest journal runners ?y2" by (rule system_reach.step)
    have t2: "sy_threads ?y2 i = Authorized r now g h" by simp
    obtain s1 reserved where res: "reserve_action journal (sy_journal y) now g h = (s1, reserved)" by fastforce
    show ?thesis
    proof (cases reserved)
      case (Inl early)
      then have e: "s' = s1" "x' = sy_external y" "\<not> called" "result = early" using assms(5) a res by (auto simp: Runner_Execute_def)
      let ?z = "goto (?y2\<lparr>sy_journal := s1\<rparr>) i (Returned early)"
      have "system_step digest journal runners ?y2 ?z" using res Inl by (intro system_step.replay[OF t2]) simp
      with y2 have "system_reach digest journal runners ?z" by (rule system_reach.step)
      then show ?thesis using e by (intro exI[of _ ?z]) simp
    next
      case (Inr rec)
      let ?y3 = "goto (?y2\<lparr>sy_journal := s1\<rparr>) i (Holding r now g rec)"
      have "system_step digest journal runners ?y2 ?y3" using res Inr by (intro system_step.hold[OF t2]) simp
      with y2 have y3: "system_reach digest journal runners ?y3" by (rule system_reach.step)
      have t3: "sy_threads ?y3 i = Holding r now g rec" by simp
      obtain c acted where act: "act r (sy_external y) (now 0) g = (x', c, acted)"
        and fin: "finish journal s1 now rec g acted = (s', result)" and c: "c = called"
        using assms(5) a res Inr by (auto simp: Runner_Execute_def split: prod.splits)
      let ?y4 = "goto (?y3\<lparr>sy_external := x', sy_calls := (if c then [g] else []) @ sy_calls ?y3\<rparr>) i (Completing now g rec acted)"
      have "system_step digest journal runners ?y3 ?y4" using act by (intro system_step.dispatch[OF t3]) (simp add: goto_def)
      with y3 have y4: "system_reach digest journal runners ?y4" by (rule system_reach.step)
      have t4: "sy_threads ?y4 i = Completing now g rec acted" by simp
      let ?y5 = "goto (?y4\<lparr>sy_journal := s'\<rparr>) i (Returned result)"
      have "system_step digest journal runners ?y4 ?y5" using fin by (intro system_step.complete[OF t4]) (simp add: goto_def)
      with y4 have "system_reach digest journal runners ?y5" by (rule system_reach.step)
      then show ?thesis using c by (intro exI[of _ ?y5]) (simp add: goto_def)
    qed
  qed
qed

section \<open>Reconciliation\<close>

definition confirmed :: "'x Reconciler \<Rightarrow> RunnerActionRecord list \<Rightarrow> string \<Rightarrow> RunnerActionRecord \<Rightarrow> bool" where
  "confirmed reconciler pending key rec' \<longleftrightarrow> (\<exists>rec \<in> set pending. \<exists>x1 x2 credential result t.
     key = runnerNonceKey (ra_TenantID rec) (ra_RunnerGroup rec) (ra_Nonce rec) \<and>
     re_Reconcile reconciler x1 (record_request rec) credential = (x2, Inr (result, True)) \<and>
     rec' = (reconciled rec result t)\<lparr>ra_StateVersion := ra_StateVersion rec + 1\<rparr>)"

lemma confirmed_mono: "confirmed reconciler pending key rec \<Longrightarrow> set pending \<subseteq> set pending' \<Longrightarrow> confirmed reconciler pending' key rec"
  unfolding confirmed_def by blast

lemma complete_entry:
  assumes "CompleteRunnerAction m rec v audit = (m', e)"
  shows "map_of (m_runnerActions m') key = map_of (m_runnerActions m) key \<or>
    key = runnerNonceKey (ra_TenantID rec) (ra_RunnerGroup rec) (ra_Nonce rec) \<and>
    map_of (m_runnerActions m') key = Some (rec\<lparr>ra_StateVersion := v + 1\<rparr>)"
  using assms by (auto simp: CompleteRunnerAction_def Let_def update_conv' split: option.splits if_splits)

lemma reconciled_key:
  "runnerNonceKey (ra_TenantID (reconciled rec result t)) (ra_RunnerGroup (reconciled rec result t)) (ra_Nonce (reconciled rec result t)) =
   runnerNonceKey (ra_TenantID rec) (ra_RunnerGroup rec) (ra_Nonce rec)"
  by (simp add: reconciled_def)

lemma reconcile_records_entries:
  "reconcile_records credentials memory_journal reconciler now records (m, x) = ((m', x'), e) \<Longrightarrow>
   map_of (m_runnerActions m') key = map_of (m_runnerActions m) key \<or>
   (\<exists>rec'. map_of (m_runnerActions m') key = Some rec' \<and> confirmed reconciler records key rec')"
proof (induction records arbitrary: now m x)
  case (Cons rec records)
  have skip: ?case if "reconcile_records credentials memory_journal reconciler now records (m, x1) = ((m', x'), e)" for x1
    using Cons.IH[OF that] confirmed_mono[of reconciler records key _ "rec # records"] by fastforce
  show ?case
  proof (cases "\<exists>acquire credential x1 result. credentials = Some acquire \<and>
      acquire \<lparr>cq_Provider = provider_of (re_CredentialProvider reconciler), cq_TenantID = ra_TenantID rec,
        cq_Service = tgt_Service (ra_Target rec), cq_Environment = tgt_Environment (ra_Target rec),
        cq_Purpose = purpose_of (ra_Action rec)\<rparr> = Inr credential \<and>
      re_Reconcile reconciler x (record_request rec) credential = (x1, Inr (result, True))")
    case False
    then show ?thesis using Cons.prems skip
      by (auto split: option.splits sum.splits prod.splits bool.splits)
  next
    case True
    then obtain acquire credential x1 result where found: "credentials = Some acquire"
      "acquire \<lparr>cq_Provider = provider_of (re_CredentialProvider reconciler), cq_TenantID = ra_TenantID rec,
        cq_Service = tgt_Service (ra_Target rec), cq_Environment = tgt_Environment (ra_Target rec),
        cq_Purpose = purpose_of (ra_Action rec)\<rparr> = Inr credential"
      "re_Reconcile reconciler x (record_request rec) credential = (x1, Inr (result, True))" by blast
    obtain audit m1 e1 where c: "CompleteRunnerAction m (reconciled rec result (now 0)) (ra_StateVersion rec) audit = (m1, e1)"
      and rest: "e1 = None \<and> reconcile_records credentials memory_journal reconciler (\<lambda>i. now (Suc i)) records (m1, x1) = ((m', x'), e)
         \<or> e1 \<noteq> None \<and> m' = m1"
      using Cons.prems found by (auto simp: memory_journal_def split: prod.splits option.splits)
    have one: "map_of (m_runnerActions m1) key = map_of (m_runnerActions m) key \<or>
        (\<exists>rec'. map_of (m_runnerActions m1) key = Some rec' \<and> confirmed reconciler (rec # records) key rec')"
      using complete_entry[OF c, of key] found(3) unfolding reconciled_key confirmed_def by fastforce
    from rest show ?thesis
    proof
      assume "e1 = None \<and> reconcile_records credentials memory_journal reconciler (\<lambda>i. now (Suc i)) records (m1, x1) = ((m', x'), e)"
      then have "map_of (m_runnerActions m') key = map_of (m_runnerActions m1) key \<or>
          (\<exists>rec'. map_of (m_runnerActions m') key = Some rec' \<and> confirmed reconciler records key rec')" using Cons.IH by blast
      then show ?thesis using one confirmed_mono[of reconciler records key _ "rec # records"] by fastforce
    qed (use one in simp)
  qed
qed simp

text \<open>
  C33.  Reconciliation only confirms: whatever the reconciler and the external system do, after
  \<^verbatim>\<open>Reconcile\<close> every entry of the journal is either unchanged or the successor of a pending action of
  this runner, reserved or unknown before, for which the reconciler reported an execution; it is then
  recorded as succeeded with the reported execution identifier, under its own nonce and one version
  later.
\<close>

theorem reconcile_only_confirms:
  "map_of (m_runnerActions (fst (fst (Runner_Reconcile (r\<lparr>ru_Journal := Some memory_journal\<rparr>) reconciler now limit (m, x))))) key =
     map_of (m_runnerActions m) key \<or>
   (\<exists>rc rec x1 x2 credential result t. reconciler = Some rc \<and> rec \<in> snd ` set (m_runnerActions m) \<and>
      ra_TenantID rec = ru_TenantID r \<and> ra_RunnerGroup rec = ru_RunnerGroup r \<and>
      ra_Status rec \<in> {RunnerActionReserved, RunnerActionUnknown} \<and>
      key = runnerNonceKey (ra_TenantID rec) (ra_RunnerGroup rec) (ra_Nonce rec) \<and>
      re_Reconcile rc x1 (record_request rec) credential = (x2, Inr (result, True)) \<and>
      map_of (m_runnerActions (fst (fst (Runner_Reconcile (r\<lparr>ru_Journal := Some memory_journal\<rparr>) reconciler now limit (m, x))))) key =
        Some ((reconciled rec result t)\<lparr>ra_StateVersion := ra_StateVersion rec + 1\<rparr>))"
proof -
  obtain m' x' e where run: "Runner_Reconcile (r\<lparr>ru_Journal := Some memory_journal\<rparr>) reconciler now limit (m, x) = ((m', x'), e)"
    by (metis surj_pair)
  show ?thesis
  proof (cases "m' = m")
    case False
    then obtain rc pending where rc: "reconciler = Some rc" "PendingRunnerActions m (ru_TenantID r) (ru_RunnerGroup r) limit = Inr pending"
      "reconcile_records (ru_Credentials r) memory_journal rc now pending (m, x) = ((m', x'), e)"
      using run by (auto simp: Runner_Reconcile_def memory_journal_def split: option.splits sum.splits if_splits)
    have "rec \<in> snd ` set (m_runnerActions m) \<and> ra_TenantID rec = ru_TenantID r \<and> ra_RunnerGroup rec = ru_RunnerGroup r \<and>
        ra_Status rec \<in> {RunnerActionReserved, RunnerActionUnknown}" if "rec \<in> set pending" for rec
      using rc(2) that by (auto simp: PendingRunnerActions_def Let_def dest: in_set_takeD split: option.splits if_splits)
    then show ?thesis
      using reconcile_records_entries[OF rc(3), of key] rc(1) unfolding run confirmed_def by fastforce
  qed (simp add: run)
qed

text \<open>
  C36.  An execution that failed is never settled: when the adapter reports failure for every pending
  action, reconciliation through the adapter bridge returns no error and leaves the journal as it is,
  so the actions stay pending and the next round finds them again.
\<close>

theorem failed_executions_stay_pending:
  assumes "\<forall>y request credential. \<exists>y' d. da_Reconcile adapter y request credential = (y', Inr \<lparr>rcr_Status = ReconcileFailed, rcr_Deployment = d\<rparr>)"
    and "ru_Journal r = Some memory_journal" "ru_Credentials r \<noteq> None" "ru_TenantID r \<noteq> []" "ru_RunnerGroup r \<noteq> []"
    and "m_journalError m = None"
  shows "\<exists>x'. Runner_Reconcile r (Some (SDKReconciler (Some adapter) t)) now limit (m, x) = ((m, x'), None)"
proof -
  have skip: "\<exists>y' err. SDKDispatcher_Reconcile (Some adapter) t y request credential = (y', Inl err)" for y request credential
  proof -
    let ?q = "\<lparr>rc_IdempotencyKey = aq_IdempotencyKey request,
        rc_DispatchedAt = (if aq_DispatchedAt request = 0 then t - 86400000000000 else aq_DispatchedAt request)\<rparr>"
    obtain y' d where "da_Reconcile adapter y ?q credential = (y', Inr \<lparr>rcr_Status = ReconcileFailed, rcr_Deployment = d\<rparr>)"
      using assms(1) by blast
    then show ?thesis by (simp add: SDKDispatcher_Reconcile_def Let_def)
  qed
  obtain acquire where a: "ru_Credentials r = Some acquire" using assms(3) by blast
  have "\<exists>x'. reconcile_records (Some acquire) memory_journal (SDKReconciler (Some adapter) t) now records (m, x) = ((m, x'), None)" for records
  proof (induction records arbitrary: x)
    case (Cons rec records)
    obtain res where "acquire \<lparr>cq_Provider = provider_of (Some ProviderGitHubActions), cq_TenantID = ra_TenantID rec,
        cq_Service = tgt_Service (ra_Target rec), cq_Environment = tgt_Environment (ra_Target rec),
        cq_Purpose = purpose_of (ra_Action rec)\<rparr> = res" by blast
    then show ?case
    proof (cases res)
      case (Inr credential)
      obtain y' err where "SDKDispatcher_Reconcile (Some adapter) t x (record_request rec) credential = (y', Inl err)" using skip by blast
      with \<open>acquire _ = res\<close> Inr Cons[of y'] show ?thesis by (simp add: SDKReconciler_def)
    qed (use Cons[of x] in \<open>simp add: SDKReconciler_def\<close>)
  qed simp
  then show ?thesis
    using assms(2,4-6) a by (simp add: Runner_Reconcile_def memory_journal_def PendingRunnerActions_def Let_def)
qed

section \<open>A configured runner\<close>

definition demo_engine_of :: evaluator where
  "demo_engine_of = EvaluateContext (case NewMandatoryEngine demo_hash demo_prepare ''baseline'' of Inr engine \<Rightarrow> engine | Inl err \<Rightarrow> None)"

definition demo_pin :: PinnedContext where
  "demo_pin = \<lparr>pc_PlanHash = zero_digest, pc_ContractHash = zero_digest, pc_ProfileHash = zero_digest, pc_PolicyHash = zero_digest,
     pc_EvidenceHash = zero_digest, pc_ApprovalRequired = True, pc_Target = ag_Target demo_grant, pc_Action = ag_Action demo_grant\<rparr>"

definition counting_adapter :: "nat TypedAdapter" where
  "counting_adapter = \<lparr>ta_CredentialProvider = None,
     ta_Execute = (\<lambda>n request credential. (Suc n, Inr \<lparr>ar_ExternalExecutionID = ''ext'', ar_CompletedAt = 60\<rparr>))\<rparr>"

definition demo_runner :: "(Memory, nat) Runner" where
  "demo_runner = \<lparr>ru_TenantID = ''tenant'', ru_RunnerGroup = ''group'',
     ru_Grants = Some (Verifier_Verify demo_unforgeable demo_verifier 15),
     ru_Subjects = Some (OIDCVerifier_Verify demo_library demo_oidc 50),
     ru_Delegations = Some (DelegationVerifier_Verify (Some demo_delegations) 50),
     ru_Contexts = Some (StaticContexts_ResolveContext [(''run'' @ [CHR 0x00] @ ''api'', demo_pin)]),
     ru_Approvals = Some (ProofReferences_VerifyApprovals [''p'', ''q'']),
     ru_Capabilities = NewCapabilitySet [ProtocolDeploy, ProtocolRollback],
     ru_Policy = Some demo_engine_of, ru_Journal = Some memory_journal,
     ru_Credentials = Some (StaticDevelopmentBroker_Acquire demo_credential 50),
     ru_Adapter = Some counting_adapter, ru_Connectivity = Some True\<rparr>"

lemma demo_runner_sel [simp]:
  "ru_TenantID demo_runner = ''tenant''" "ru_RunnerGroup demo_runner = ''group''"
  "ru_Grants demo_runner = Some (Verifier_Verify demo_unforgeable demo_verifier 15)"
  "ru_Subjects demo_runner = Some (OIDCVerifier_Verify demo_library demo_oidc 50)"
  "ru_Delegations demo_runner = Some (DelegationVerifier_Verify (Some demo_delegations) 50)"
  "ru_Contexts demo_runner = Some (StaticContexts_ResolveContext [(''run'' @ [CHR 0x00] @ ''api'', demo_pin)])"
  "ru_Approvals demo_runner = Some (ProofReferences_VerifyApprovals [''p'', ''q''])"
  "ru_Capabilities demo_runner = NewCapabilitySet [ProtocolDeploy, ProtocolRollback]"
  "ru_Policy demo_runner = Some demo_engine_of" "ru_Journal demo_runner = Some memory_journal"
  "ru_Credentials demo_runner = Some (StaticDevelopmentBroker_Acquire demo_credential 50)"
  "ru_Adapter demo_runner = Some counting_adapter" "ru_Connectivity demo_runner = Some True"
  by (simp_all add: demo_runner_def)

lemma demo_signed_sel:
  "ag_ProtocolVersion demo_signed = VersionV1Alpha1" "ag_Issuer demo_signed = ''issuer''" "ag_RunnerGroup demo_signed = ''group''"
  "ag_TenantID demo_signed = ''tenant''" "ag_IssuedAt demo_signed = 10" "ag_ExpiresAt demo_signed = 20"
  "sig_Algorithm (ag_Signature demo_signed) = AlgorithmEd25519" "sig_KeyID (ag_Signature demo_signed) = ''k''"
  "sig_Value (ag_Signature demo_signed) = EncodeToString (replicate 64 CHR ''s'')"
  "ag_UserIdentityProof demo_signed = ''aA.cA.cw''" "ag_UserSubject demo_signed = ''alice''" "ag_Nonce demo_signed = ''nonce''"
  "ag_RunID demo_signed = ''run''" "ag_StepID demo_signed = ''api''" "ag_ApprovalProofs demo_signed = [''q'', ''p'']"
  "ag_Target demo_signed = ag_Target demo_grant" "ag_Action demo_signed = ag_Action demo_grant" "ag_Risk demo_signed = ''low''"
  "act_Capability (ag_Action demo_grant) = ProtocolDeploy" "tgt_Service (ag_Target demo_grant) = ''api''"
  "tgt_Environment (ag_Target demo_grant) = ''staging''" "ag_AgentID demo_signed = ''bot''" "ag_DelegationRef demo_signed = ''delegation''"
  "ag_PlanHash demo_signed = zero_digest" "ag_ContractHash demo_signed = zero_digest" "ag_ProfileHash demo_signed = zero_digest"
  "ag_PolicyHash demo_signed = zero_digest" "ag_EvidenceHash demo_signed = zero_digest" "ag_PolicyInputHash demo_signed = zero_digest"
  by (simp_all add: demo_signed_def demo_grant_def)

lemma demo_signed_payload: "CanonicalGrantPayload demo_signed = Inr (grant_json (SigningCopy demo_grant))"
  using demo_grant_payload by (simp add: demo_signed_def)

lemma demo_signed_verifies: "Verifier_Verify demo_unforgeable demo_verifier 15 demo_signed = None"
proof -
  have "signature_valid demo_unforgeable key (grant_json (SigningCopy demo_grant)) (sig_Value (ag_Signature demo_signed))" for key
    unfolding demo_signed_sel by (simp add: signature_valid_def demo_unforgeable_def)
  then show ?thesis
    unfolding Verifier_Verify_def demo_signed_payload demo_signed_sel by (simp add: demo_signed_sel ValidateVersion_def demo_verifier_def)
qed

lemma demo_signed_delegated:
  "DelegationVerifier_Verify (Some demo_delegations) 50 (grant_delegation demo_signed demo_subject) = Inr demo_delegation"
proof -
  have "list_all literal [''billing'']" "list_all literal [''api'']" by (simp_all add: literal_def)
  then have "serviceAllowed [''billing'', ''api*''] ''api'' \<longleftrightarrow> True"
    using serviceAllowed_literals[of "[''billing'']" "[''api'']" "''api''"] by simp
  then show ?thesis
    by (simp add: DelegationVerifier_Verify_def grant_delegation_def demo_signed_sel demo_delegations_def ResolveDelegation_def
        demo_delegation_def demo_subject_def riskLevel_def)
qed

lemma demo_signed_policy:
  "check_policy demo_runner now demo_signed demo_subject demo_delegation = Inr ()"
proof -
  let ?i = "InputForGrant demo_signed (sub_Issuer demo_subject) (sub_ID demo_subject) (del_AgentID demo_delegation) (del_ID demo_delegation)"
  obtain engine where e: "NewMandatoryEngine demo_hash demo_prepare ''baseline'' = Inr engine" using demo_engine by blast
  have p: "demo_prepare [(''platform_mandatory/main.rego'', ''baseline'')] = Inr (\<lambda>i. Inr [[baseline_decision (obj_fields i)]])"
    by (simp add: demo_prepare_def)
  obtain ev where ev: "EvaluateContext engine ?i = Inr ev" "pe_Decision ev = baseline_verdict ?i" "pe_InputHash ev = InputHash demo_hash ?i"
    by (rule mandatory_evaluates[OF e p])
  have "CalculateBundleHash demo_hash (embedded_bundle ''baseline'') = Inr zero_digest"
    by (simp add: CalculateBundleHash_def marshal_bundle_def embedded_bundle_def normalizedBundle_def json_time_def
        hashValue_def demo_hash_def zero_digest_def)
  then have "pe_PolicyHash ev = zero_digest" using mandatory_policy_hash[OF e ev(1)] by simp
  moreover have "pe_InputHash ev = zero_digest" using ev(3) by (simp add: InputHash_def hashValue_def demo_hash_def zero_digest_def)
  moreover have "baseline_verdict ?i = DecisionAllow"
    by (simp add: baseline_verdict_def baseline_ok_def approval_missing_def InputForGrant_def NormalizeInput_def demo_signed_sel
        demo_subject_def demo_delegation_def)
  ultimately show ?thesis
    using ev(1,2) e by (simp add: check_policy_Inr demo_engine_of_def demo_signed_sel)
qed

lemma demo_signed_authorized: "authorize demo_hash demo_runner NewMemory now demo_signed = Inr (zero_digest, memory_journal)"
proof -
  have "GrantHash demo_hash demo_signed = Inr zero_digest"
    by (simp add: GrantHash_def demo_signed_payload hashValue_def demo_hash_def zero_digest_def)
  then have "check_grant demo_hash demo_runner now demo_signed = Inr (zero_digest, memory_journal)"
    by (simp add: check_grant_Inr demo_signed_verifies demo_signed_sel)
  moreover have "check_journal memory_journal NewMemory now demo_signed zero_digest = Inr ()"
    by (simp add: check_journal_def memory_journal_def GetRunnerAction_def NewMemory_def)
  moreover have "check_identity demo_runner now demo_signed = Inr (demo_subject, demo_delegation)"
    using demo_token_verifies demo_signed_delegated by (simp add: check_identity_Inr demo_signed_sel demo_subject_def)
  moreover have "check_context demo_runner now demo_signed demo_subject = Inr ()"
    by (simp add: check_context_Inr demo_signed_sel StaticContexts_ResolveContext_def matchingHashes_def demo_pin_def
        ProofReferences_VerifyApprovals_def NewCapabilitySet_def)
  ultimately show ?thesis using demo_signed_policy by (auto simp: authorize_Inr)
qed

lemma demo_execute:
  "\<exists>m. Runner_Execute demo_hash demo_runner (\<lambda>i. 100) demo_signed (NewMemory, 0) =
     ((m, 1), True, grant_result demo_signed ResultSucceeded [] ''ext'' 60, None)"
proof -
  have "StaticDevelopmentBroker_Acquire demo_credential 50 \<lparr>cq_Provider = ''typed-adapter'', cq_TenantID = ''tenant'', cq_Service = ''api'',
      cq_Environment = ''staging'', cq_Purpose = PurposeDeploy\<rparr> = Inr demo_credential"
    by (simp add: StaticDevelopmentBroker_Acquire_def Request_Validate_def ValidAt_def demo_credential_def)
  then have act: "act demo_runner 0 100 demo_signed = (1, True, Inr \<lparr>ar_ExternalExecutionID = ''ext'', ar_CompletedAt = 60\<rparr>)"
    by (simp add: act_def demo_signed_sel purpose_of_def provider_of_def counting_adapter_def)
  have new: "m_journalError NewMemory = None" "m_runnerActions NewMemory = []" "m_runnerByKey NewMemory = []" by (simp_all add: NewMemory_def)
  show ?thesis
    by (simp add: Runner_Execute_def demo_signed_authorized act reserve_action_def memory_journal_def ReserveRunnerAction_def new
        finish_def Let_def CompleteRunnerAction_def update_conv')
qed

section \<open>Guarantees\<close>

text \<open>
  C2.  At most one write: for any number of runners that share the in-memory journal, any grants and any
  interleaving of their calls of \<^verbatim>\<open>Execute\<close>, with completions by reconciliation and changes of the external
  system in between, the adapter is called at most once for each nonce and at most once for each
  idempotency key of a tenant and runner group.
\<close>

theorem adapter_called_at_most_once:
  assumes "system_reach digest memory_journal runners y"
  shows "distinct (map (\<lambda>g. (ag_TenantID g, ag_RunnerGroup g, ag_Nonce g)) (sy_calls y)) \<and>
         distinct (map (\<lambda>g. (ag_TenantID g, ag_RunnerGroup g, ag_IdempotencyKey g)) (sy_calls y))"
  using mj.calls_distinct[OF assms] by (simp add: nonce_of_def[abs_def] key_of_def[abs_def])

lemma demo_reach:
  "\<exists>y. system_reach demo_hash memory_journal {demo_runner} y \<and> sy_calls y = [demo_signed]"
proof -
  let ?y = "\<lparr>sy_journal = NewMemory, sy_external = 0 :: nat, sy_calls = [], sy_threads = (\<lambda>_. Idle)\<rparr> :: (Memory, nat) runner_system"
  obtain m where "Runner_Execute demo_hash demo_runner (\<lambda>i. 100) demo_signed (sy_journal ?y, sy_external ?y) =
     ((m, 1), True, grant_result demo_signed ResultSucceeded [] ''ext'' 60, None)" using demo_execute by auto
  moreover have "system_reach demo_hash memory_journal {demo_runner} ?y" by (rule system_reach.start)
  ultimately show ?thesis using execute_reaches[of demo_hash memory_journal "{demo_runner}" ?y 0 demo_runner] by fastforce
qed

theorem adapter_called_at_most_once_witness:
  "\<exists>y. system_reach demo_hash memory_journal {demo_runner} y \<and> sy_calls y = [demo_signed] \<and>
     distinct (map (\<lambda>g. (ag_TenantID g, ag_RunnerGroup g, ag_Nonce g)) (sy_calls y))"
  using demo_reach adapter_called_at_most_once by blast



text \<open>
  C3.  Every write was authorized end to end.  Take runners that verify grants against the control
  plane's keys, delegations against a resolver, and policy with the mandatory engine, at whatever
  times.  Under any interleaving, each grant for which the adapter was called agrees with a grant the
  control plane issued; it names the runner's tenant and group; the user's delegation to the agent
  covers its capability and environment; its hashes, target and action are the pinned ones of its run
  and step; a high-risk action carries approval proofs; and the runner has the capability enabled.
\<close>

theorem dispatched_writes_are_authorized:
  assumes reach: "system_reach digest memory_journal runners y" and g: "g \<in> set (sy_calls y)"
    and config: "\<forall>r \<in> runners. \<exists>t u. ru_Grants r = Some (Verifier_Verify ed25519_Verify v t) \<and>
        ru_Delegations r = Some (DelegationVerifier_Verify (Some resolve) u) \<and>
        ru_Policy r = Some (EvaluateContext engine)"
    and keys: "ver_Keys v = Some keys"
      "\<forall>issuer keyID public m s. keys issuer keyID = Inr public \<and> ed25519_Verify public m s \<longrightarrow>
         (\<exists>i \<in> set issued. CanonicalGrantPayload i = Inr m)"
    and engine: "NewMandatoryEngine digest prepare baseline = Inr engine"
      "prepare [(''platform_mandatory/main.rego'', baseline)] = Inr (\<lambda>i. Inr [[baseline_decision (obj_fields i)]])"
  shows "\<exists>r \<in> runners. \<exists>i \<in> set issued. \<exists>d contexts pin.
     g = i\<lparr>ag_ApprovalProofs := ag_ApprovalProofs g, ag_Signature := ag_Signature g\<rparr> \<and>
     ag_TenantID g = ru_TenantID r \<and> ag_RunnerGroup g = ru_RunnerGroup r \<and>
     resolve (ag_DelegationRef g) = Inr d \<and> del_UserSubject d = ag_UserSubject g \<and> del_AgentID d = ag_AgentID g \<and>
     act_Capability (ag_Action g) \<in> set (del_Actions d) \<and> tgt_Environment (ag_Target g) \<in> set (del_Environments d) \<and>
     ru_Contexts r = Some contexts \<and> contexts (ag_RunID g) (ag_StepID g) = Inr pin \<and> matchingHashes g pin \<and>
     (pc_ApprovalRequired pin \<or> ag_Risk g = ''high'' \<longrightarrow> ag_ApprovalProofs g \<noteq> []) \<and>
     act_Capability (ag_Action g) \<in> set (ru_Capabilities r)"
proof -
  have "was_authorized digest runners g" using calls_authorized[OF reach] g by (simp add: list_all_iff)
  then obtain r s now h j subject d where r: "r \<in> runners" "check_grant digest r now g = Inr (h, j)"
      "check_identity r now g = Inr (subject, d)" "check_context r now g subject = Inr ()" "check_policy r now g subject d = Inr ()"
    unfolding was_authorized_def authorize_Inr by blast
  obtain t u where c: "ru_Grants r = Some (Verifier_Verify ed25519_Verify v t)"
      "ru_Delegations r = Some (DelegationVerifier_Verify (Some resolve) u)" "ru_Policy r = Some (EvaluateContext engine)"
    using config r(1) by blast
  have v: "Verifier_Verify ed25519_Verify v t g = None" "ag_TenantID g = ru_TenantID r" "ag_RunnerGroup g = ru_RunnerGroup r"
    using r(2) c(1) by (auto simp: check_grant_Inr)
  obtain public where public: "keys (ag_Issuer g) (sig_KeyID (ag_Signature g)) = Inr public"
    using v(1) keys(1) by (auto simp: Verifier_Verify_def split: sum.splits if_splits option.splits)
  have "\<forall>m s. ed25519_Verify public m s \<longrightarrow> (\<exists>i \<in> set issued. CanonicalGrantPayload i = Inr m)" using keys(2) public by blast
  from verified_issued[OF v(1) keys(1) public this] obtain i where i: "i \<in> set issued"
    "g = i\<lparr>ag_ApprovalProofs := ag_ApprovalProofs g, ag_Signature := ag_Signature g\<rparr>" by blast
  have s: "sub_ID subject = ag_UserSubject g" and del: "DelegationVerifier_Verify (Some resolve) u (grant_delegation g subject) = Inr d"
    using r(3) c(2) by (auto simp: check_identity_Inr)
  have d: "resolve (ag_DelegationRef g) = Inr d" "del_UserSubject d = ag_UserSubject g" "del_AgentID d = ag_AgentID g"
      "act_Capability (ag_Action g) \<in> set (del_Actions d)" "tgt_Environment (ag_Target g) \<in> set (del_Environments d)"
    using del s by (auto simp: DelegationVerifier_Verify_def grant_delegation_def Let_def split: sum.splits if_splits)
  have ctx: "\<exists>contexts pin. ru_Contexts r = Some contexts \<and> contexts (ag_RunID g) (ag_StepID g) = Inr pin \<and> matchingHashes g pin \<and>
      (pc_ApprovalRequired pin \<longrightarrow> ag_ApprovalProofs g \<noteq> [])" and cap: "act_Capability (ag_Action g) \<in> set (ru_Capabilities r)"
    using r(4) by (auto simp: check_context_Inr)
  let ?input = "InputForGrant g (sub_Issuer subject) (sub_ID subject) (del_AgentID d) (del_ID d)"
  obtain ev where "EvaluateContext engine ?input = Inr ev" "pe_Decision ev = baseline_verdict ?input"
    by (rule mandatory_evaluates[OF engine])
  then have "baseline_verdict ?input = DecisionAllow" using r(5) c(3) by (auto simp: check_policy_Inr)
  then have "\<not> approval_missing ?input" by (auto simp: baseline_verdict_def split: if_splits)
  then have "ag_Risk g = ''high'' \<longrightarrow> ag_ApprovalProofs g \<noteq> []"
    by (auto simp: approval_missing_def InputForGrant_def NormalizeInput_def)
  then show ?thesis using r(1) i v d ctx cap by blast
qed

theorem dispatched_writes_are_authorized_witness:
  "\<exists>y r i d. system_reach demo_hash memory_journal {demo_runner} y \<and> sy_calls y = [demo_signed] \<and>
     r \<in> {demo_runner} \<and> i \<in> set [demo_grant] \<and>
     demo_signed = i\<lparr>ag_ApprovalProofs := ag_ApprovalProofs demo_signed, ag_Signature := ag_Signature demo_signed\<rparr> \<and>
     demo_delegations (ag_DelegationRef demo_signed) = Inr d \<and> del_AgentID d = ag_AgentID demo_signed"
proof -
  obtain y where y: "system_reach demo_hash memory_journal {demo_runner} y" "sy_calls y = [demo_signed]" using demo_reach by blast
  obtain engine where e: "NewMandatoryEngine demo_hash demo_prepare ''baseline'' = Inr engine" using demo_engine by blast
  have p: "demo_prepare [(''platform_mandatory/main.rego'', ''baseline'')] = Inr (\<lambda>i. Inr [[baseline_decision (obj_fields i)]])"
    by (simp add: demo_prepare_def)
  have g: "demo_signed \<in> set (sy_calls y)" using y(2) by simp
  have c: "\<forall>r \<in> {demo_runner}. \<exists>t u. ru_Grants r = Some (Verifier_Verify demo_unforgeable demo_verifier t) \<and>
        ru_Delegations r = Some (DelegationVerifier_Verify (Some demo_delegations) u) \<and> ru_Policy r = Some (EvaluateContext engine)"
    using e by (auto simp: demo_engine_of_def)
  have k: "ver_Keys demo_verifier = Some (\<lambda>issuer keyID. Inr ''public'')" by (simp add: demo_verifier_def)
  have u: "\<forall>issuer keyID public m s. (\<lambda>issuer keyID. Inr ''public'' :: (error, string) result) issuer keyID = Inr public \<and> demo_unforgeable public m s \<longrightarrow>
      (\<exists>i \<in> set [demo_grant]. CanonicalGrantPayload i = Inr m)" for issuer keyID :: string
    by (simp add: demo_unforgeable_def demo_grant_payload)
  from dispatched_writes_are_authorized[OF y(1) g c k u e p] y show ?thesis by blast
qed

definition failing_adapter :: "nat DeployAdapter" where
  "failing_adapter = \<lparr>da_Deploy = (\<lambda>n request credential. (n, Inl (Errorf ''failed''))), da_Rollback = (\<lambda>n request credential. (n, Inl (Errorf ''failed''))),
     da_Reconcile = (\<lambda>n request credential. (n, Inr \<lparr>rcr_Status = ReconcileFailed, rcr_Deployment = no_deployment\<rparr>))\<rparr>"

definition demo_pending :: Memory where
  "demo_pending = fst (ReserveRunnerAction NewMemory (action_record demo_signed zero_digest 100) (journalAudit [] [] [] [] 100 []))"

theorem failed_executions_stay_pending_witness:
  "PendingRunnerActions demo_pending ''tenant'' ''group'' 0 \<noteq> Inr [] \<and>
   (\<exists>x'. Runner_Reconcile demo_runner (Some (SDKReconciler (Some failing_adapter) 100)) (\<lambda>i. 100) 0 (demo_pending, 0) = ((demo_pending, x'), None))"
proof -
  have m: "m_journalError demo_pending = None" by (simp add: demo_pending_def ReserveRunnerAction_def NewMemory_def Let_def)
  have "PendingRunnerActions demo_pending ''tenant'' ''group'' 0 \<noteq> Inr []"
    by (simp add: PendingRunnerActions_def demo_pending_def ReserveRunnerAction_def NewMemory_def Let_def demo_signed_sel)
  moreover have "\<forall>y request credential. \<exists>y' d. da_Reconcile failing_adapter y request credential =
      (y', Inr \<lparr>rcr_Status = ReconcileFailed, rcr_Deployment = d\<rparr>)" by (simp add: failing_adapter_def)
  ultimately show ?thesis
    using failed_executions_stay_pending[of failing_adapter demo_runner demo_pending 100 "\<lambda>i. 100" 0 0] m by simp
qed

end
