(* ===== verification/GitHub_Safety.thy ===== *)
theory GitHub_Safety
  imports GitHub_Actions Runner_Safety
begin

text \<open>
  What the GitHub Actions adapter guarantees, read off the HTTP exchanges it makes: a call of Deploy or
  Rollback sends at most one request, to a workflow of the allow-list; a doubtful answer is reported as
  an unknown external state; reconciliation only reads, and reports what the listings show.  Behind a
  runner, over any sequence of deliveries and reconciliation rounds, a workflow is dispatched at most
  once for an idempotency key.
\<close>

section \<open>Noting the exchanges\<close>

definition noting_github :: "'x GitHubAdapter \<Rightarrow> ('x \<times> exchange list) GitHubAdapter" where
  "noting_github a = \<lparr>gh_Targets = gh_Targets a, gh_client = noting_client (gh_client a),
     gh_now = (\<lambda>(x, exchanges). case gh_now a x of (x', t) \<Rightarrow> ((x', exchanges), t)),
     gh_sha256_hex = gh_sha256_hex a, gh_decode_dispatch = gh_decode_dispatch a, gh_decode_runs = gh_decode_runs a\<rparr>"

lemma noting_github_sel [simp]:
  "gh_Targets (noting_github a) = gh_Targets a" "gh_sha256_hex (noting_github a) = gh_sha256_hex a"
  "gh_decode_dispatch (noting_github a) = gh_decode_dispatch a" "gh_decode_runs (noting_github a) = gh_decode_runs a"
  by (simp_all add: noting_github_def)

lemma noting_now: "gh_now (noting_github a) (x, l) = ((fst (gh_now a x), l), snd (gh_now a x))"
  by (simp add: noting_github_def split: prod.splits)

lemma noting_do: "gh_client (noting_github a) q (x, l) = ((fst (gh_client a q x), l @ [(q, snd (gh_client a q x))]), snd (gh_client a q x))"
  by (simp add: noting_github_def noting_client_def split: prod.splits)

section \<open>Dispatch\<close>

text \<open>What a call may report, given the exchanges it made.\<close>

definition reported :: "(string \<Rightarrow> int option) \<Rightarrow> string \<Rightarrow> exchange list \<Rightarrow> (error, AdapterDeployment) result \<Rightarrow> bool" where
  "reported decode correlation exchanges outcome \<longleftrightarrow> (case outcome of
       Inr d \<Rightarrow> ad_CorrelationID d = correlation \<and>
         (\<exists>q response n. exchanges = [(q, Inr response)] \<and> hs_StatusCode response = StatusOK \<and>
            decode (take (2 ^ 20) (hs_Body response)) = Some n \<and> 0 < n \<and> ad_ExternalExecutionID d = int_text n)
     | Inl e \<Rightarrow> IsClass e ErrorUnknown \<or> IsClass e ErrorTerminal \<and>
         (exchanges = [] \<or> (\<exists>q response. exchanges = [(q, Inr response)] \<and> hs_StatusCode response \<noteq> StatusOK \<and>
            hs_StatusCode response \<noteq> StatusTooManyRequests \<and> hs_StatusCode response < 500)))"

lemma dispatch_noted:
  assumes "github_dispatch (noting_github a) target workflow inputs correlation credential operation (x, l) = ((x', l'), outcome)"
  shows "\<exists>exchanges. l' = l @ exchanges \<and> reported (gh_decode_dispatch a) correlation exchanges outcome \<and>
     (exchanges = [] \<or> (\<exists>response. exchanges = [(dispatch_request target workflow inputs credential, response)]))"
proof -
  let ?q = "dispatch_request target workflow inputs credential"
  obtain x1 now where n1: "gh_now a x = (x1, now)" by fastforce
  obtain x2 started where n2: "gh_now a x1 = (x2, started)" by fastforce
  obtain x3 response where d: "gh_client a ?q x2 = (x3, response)" by fastforce
  note eval = assms[unfolded github_dispatch_def noting_now n1 prod.case fst_conv snd_conv n2 noting_do d noting_github_sel]
  show ?thesis
  proof (cases "\<not> ValidAt credential now \<or> Credential_Value credential ''token'' = []")
    case True
    then show ?thesis using eval by (auto simp: reported_def)
  next
    case False
    then have "l' = l @ [(?q, response)] \<and> reported (gh_decode_dispatch a) correlation [(?q, response)] outcome"
      using eval by (cases response) (auto simp: reported_def split: if_splits option.splits)
    then show ?thesis by blast
  qed
qed

text \<open>The dispatch requests that a deploy or a rollback of a target may send.\<close>

definition deploy_request :: "'x GitHubAdapter \<Rightarrow> DeployRequest \<Rightarrow> HTTPRequest \<Rightarrow> bool" where
  "deploy_request a request q \<longleftrightarrow> ValidateDeployRequest request = None \<and>
     (\<exists>target credential. map_of (gh_Targets a) (target_key (dq_Target request)) = Some target \<and>
        q = dispatch_request target (gt_DeployWorkflow target) (deploy_inputs (gh_sha256_hex a) request) credential)"

definition rollback_request :: "'x GitHubAdapter \<Rightarrow> RollbackRequest \<Rightarrow> HTTPRequest \<Rightarrow> bool" where
  "rollback_request a request q \<longleftrightarrow> ValidateRollbackRequest request = None \<and>
     (\<exists>target credential. map_of (gh_Targets a) (target_key (rq2_Target request)) = Some target \<and>
        q = dispatch_request target (gt_RollbackWorkflow target) (rollback_inputs (gh_sha256_hex a) request) credential)"

lemma deploy_noted:
  assumes "GitHub_Deploy (noting_github a) (x, l) request credential = ((x', l'), outcome)"
  shows "\<exists>exchanges. l' = l @ exchanges \<and>
     reported (gh_decode_dispatch a) (CorrelationID (gh_sha256_hex a) (dq_IdempotencyKey request)) exchanges outcome \<and>
     (exchanges = [] \<or> (\<exists>q response. exchanges = [(q, response)] \<and> deploy_request a request q))"
proof (cases "ValidateDeployRequest request = None \<and> map_of (gh_Targets a) (target_key (dq_Target request)) \<noteq> None")
  case False
  then show ?thesis using assms by (auto simp: GitHub_Deploy_def reported_def split: option.splits)
next
  case True
  then obtain target where t: "map_of (gh_Targets a) (target_key (dq_Target request)) = Some target" by blast
  then have "github_dispatch (noting_github a) target (gt_DeployWorkflow target) (deploy_inputs (gh_sha256_hex a) request)
       (CorrelationID (gh_sha256_hex a) (dq_IdempotencyKey request)) credential ''deploy'' (x, l) = ((x', l'), outcome)"
    using assms True by (simp add: GitHub_Deploy_def)
  from dispatch_noted[OF this] show ?thesis using True t unfolding deploy_request_def by blast
qed

lemma rollback_noted:
  assumes "GitHub_Rollback (noting_github a) (x, l) request credential = ((x', l'), outcome)"
  shows "\<exists>exchanges. l' = l @ exchanges \<and>
     reported (gh_decode_dispatch a) (CorrelationID (gh_sha256_hex a) (rq2_IdempotencyKey request)) exchanges outcome \<and>
     (exchanges = [] \<or> (\<exists>q response. exchanges = [(q, response)] \<and> rollback_request a request q))"
proof (cases "ValidateRollbackRequest request = None \<and> map_of (gh_Targets a) (target_key (rq2_Target request)) \<noteq> None")
  case False
  then show ?thesis using assms by (auto simp: GitHub_Rollback_def reported_def split: option.splits)
next
  case True
  then obtain target where t: "map_of (gh_Targets a) (target_key (rq2_Target request)) = Some target" by blast
  then have "github_dispatch (noting_github a) target (gt_RollbackWorkflow target) (rollback_inputs (gh_sha256_hex a) request)
       (CorrelationID (gh_sha256_hex a) (rq2_IdempotencyKey request)) credential ''rollback'' (x, l) = ((x', l'), outcome)"
    using assms True by (simp add: GitHub_Rollback_def)
  from dispatch_noted[OF this] show ?thesis using True t unfolding rollback_request_def by blast
qed

section \<open>Search\<close>

lemma find_SomeD: "find P xs = Some x \<Longrightarrow> x \<in> set xs \<and> P x"
  by (auto simp: find_Some_iff)

text \<open>A listing of a workflow, and one that shows no run of the correlation.\<close>

definition listed :: "'x GitHubAdapter \<Rightarrow> (error, HTTPResponse) result \<Rightarrow> workflow_run list \<Rightarrow> bool" where
  "listed a answer runs \<longleftrightarrow> (\<exists>response. answer = Inr response \<and> hs_StatusCode response = StatusOK \<and>
     gh_decode_runs a (take (2 ^ 22) (hs_Body response)) = Some runs)"

definition shows_none :: "'x GitHubAdapter \<Rightarrow> string \<Rightarrow> (error, HTTPResponse) result \<Rightarrow> bool" where
  "shows_none a correlation answer \<longleftrightarrow> (\<exists>runs. listed a answer runs \<and> \<not> list_ex (matches correlation) runs)"

lemma findRun_noted:
  assumes "findRun (noting_github a) target workflow t correlation credential (x, l) = ((x', l'), found)"
  shows "\<exists>answer. l' = l @ [(list_request target workflow t credential, answer)] \<and>
     (found = Inr None \<longrightarrow> shows_none a correlation answer) \<and>
     (\<forall>result. found = Inr (Some result) \<longrightarrow>
        (\<exists>runs run. listed a answer runs \<and> run \<in> set runs \<and> matches correlation run \<and> result = run_result correlation run))"
proof -
  let ?q = "list_request target workflow t credential"
  obtain y answer where d: "gh_client a ?q x = (y, answer)" by fastforce
  note eval = assms[unfolded findRun_def noting_do d prod.case fst_conv snd_conv noting_github_sel]
  have "(found = Inr None \<longrightarrow> shows_none a correlation answer) \<and> (\<forall>result. found = Inr (Some result) \<longrightarrow>
        (\<exists>runs run. listed a answer runs \<and> run \<in> set runs \<and> matches correlation run \<and> result = run_result correlation run))"
  proof (cases answer)
    case (Inr response)
    then show ?thesis
      using eval by (auto simp: shows_none_def listed_def find_None_iff list_ex_iff split: if_splits option.splits
          dest: find_SomeD)
  qed (use eval in auto)
  moreover have "l' = l @ [(?q, answer)]" using eval by (auto split: sum.splits if_splits option.splits)
  ultimately show ?thesis by blast
qed

text \<open>
  How a search that met no error ends: at a match in one of the listings, or with every workflow either
  seen before or listed without a match.
\<close>

definition hit :: "'x GitHubAdapter \<Rightarrow> time \<Rightarrow> string \<Rightarrow> Credential \<Rightarrow> (GitHubTarget \<times> string) list \<Rightarrow> exchange list \<Rightarrow> ReconcileResult \<Rightarrow> bool" where
  "hit a t correlation credential workflows exchanges result \<longleftrightarrow>
     (\<exists>target w answer runs run. (target, w) \<in> set workflows \<and> (list_request target w t credential, answer) \<in> set exchanges \<and>
        listed a answer runs \<and> run \<in> set runs \<and> matches correlation run \<and> result = run_result correlation run)"

definition cleared_of :: "'x GitHubAdapter \<Rightarrow> time \<Rightarrow> string \<Rightarrow> Credential \<Rightarrow> (GitHubTarget \<times> string) list \<Rightarrow> exchange list \<Rightarrow> string \<Rightarrow> bool" where
  "cleared_of a t correlation credential workflows exchanges identity \<longleftrightarrow>
     (\<exists>target w answer. (target, w) \<in> set workflows \<and> workflow_identity target w = identity \<and>
        (list_request target w t credential, answer) \<in> set exchanges \<and> shows_none a correlation answer)"

definition swept :: "'x GitHubAdapter \<Rightarrow> time \<Rightarrow> string \<Rightarrow> Credential \<Rightarrow> string list \<Rightarrow> (GitHubTarget \<times> string) list \<Rightarrow> exchange list \<Rightarrow> bool" where
  "swept a t correlation credential seen workflows exchanges \<longleftrightarrow>
     (\<forall>target w. (target, w) \<in> set workflows \<longrightarrow>
        workflow_identity target w \<in> set seen \<or> cleared_of a t correlation credential workflows exchanges (workflow_identity target w))"

lemma hit_mono:
  "hit a t c cred ws es result \<Longrightarrow> set ws \<subseteq> set ws' \<Longrightarrow> set es \<subseteq> set es' \<Longrightarrow> hit a t c cred ws' es' result"
  unfolding hit_def by blast

lemma cleared_mono:
  "cleared_of a t c cred ws es i \<Longrightarrow> set ws \<subseteq> set ws' \<Longrightarrow> set es \<subseteq> set es' \<Longrightarrow> cleared_of a t c cred ws' es' i"
  unfolding cleared_of_def by blast

lemma swept_seen:
  assumes "swept a t c cred seen ws es" "workflow_identity target w \<in> set seen"
  shows "swept a t c cred seen ((target, w) # ws) es"
proof -
  have "cleared_of a t c cred ws es i \<Longrightarrow> cleared_of a t c cred ((target, w) # ws) es i" for i
    by (erule cleared_mono) auto
  then show ?thesis using assms by (auto simp: swept_def)
qed

lemma swept_listed:
  assumes "swept a t c cred (workflow_identity target w # seen) ws es" "shows_none a c answer"
  shows "swept a t c cred seen ((target, w) # ws) ((list_request target w t cred, answer) # es)"
proof -
  let ?es = "(list_request target w t cred, answer) # es"
  have "cleared_of a t c cred ws es i \<Longrightarrow> cleared_of a t c cred ((target, w) # ws) ?es i" for i
    by (erule cleared_mono) auto
  moreover have "cleared_of a t c cred ((target, w) # ws) ?es (workflow_identity target w)"
    using assms(2) by (auto simp: cleared_of_def)
  ultimately show ?thesis using assms(1) unfolding swept_def by (metis Pair_inject set_ConsD)
qed

abbreviation not_found :: ReconcileResult where
  "not_found \<equiv> \<lparr>rcr_Status = ReconcileNotFound, rcr_Deployment = no_deployment\<rparr>"

lemma search_noted:
  "search (noting_github a) t correlation credential seen workflows (x, l) = ((x', l'), outcome) \<Longrightarrow>
   \<exists>exchanges. l' = l @ exchanges \<and>
     list_all (\<lambda>(q, answer). hq_Method q = MethodGet) exchanges \<and>
     (\<forall>result. outcome = Inr result \<longrightarrow>
        result = not_found \<and> swept a t correlation credential seen workflows exchanges \<or>
        hit a t correlation credential workflows exchanges result)"
proof (induction workflows arbitrary: seen x l)
  case Nil
  then show ?case by (auto simp: swept_def)
next
  case (Cons tw workflows)
  obtain target w where tw: "tw = (target, w)" by fastforce
  let ?q = "list_request target w t credential"
  have get: "hq_Method ?q = MethodGet" by (simp add: list_request_def)
  show ?case
  proof (cases "workflow_identity target w \<in> set seen")
    case True
    then have "search (noting_github a) t correlation credential seen workflows (x, l) = ((x', l'), outcome)"
      using Cons.prems tw by simp
    from Cons.IH[OF this] obtain es where "l' = l @ es" "list_all (\<lambda>(q, answer). hq_Method q = MethodGet) es"
      "\<And>result. outcome = Inr result \<Longrightarrow> result = not_found \<and> swept a t correlation credential seen workflows es \<or>
        hit a t correlation credential workflows es result" by blast
    moreover have "hit a t correlation credential (tw # workflows) es result" if "hit a t correlation credential workflows es result" for result
      using that by (rule hit_mono) auto
    ultimately show ?thesis using swept_seen[OF _ True] tw by (intro exI[of _ es]) blast
  next
    case False
    obtain x1 l1 found where f: "findRun (noting_github a) target w t correlation credential (x, l) = ((x1, l1), found)"
      by (metis surj_pair)
    from findRun_noted[OF f] obtain answer where n: "l1 = l @ [(?q, answer)]" "found = Inr None \<Longrightarrow> shows_none a correlation answer"
      "\<And>result. found = Inr (Some result) \<Longrightarrow>
        (\<exists>runs run. listed a answer runs \<and> run \<in> set runs \<and> matches correlation run \<and> result = run_result correlation run)" by blast
    show ?thesis
    proof (cases "found = Inr None")
      case nothing: False
      then have stop: "l' = l1" "\<And>result. outcome = Inr result \<Longrightarrow> found = Inr (Some result)"
        using Cons.prems tw False f by (auto split: sum.splits option.splits)
      have "hit a t correlation credential (tw # workflows) [(?q, answer)] result" if "outcome = Inr result" for result
        using n(3)[OF stop(2)[OF that]] tw unfolding hit_def by fastforce
      then show ?thesis using stop(1) n(1) get by auto
    next
      case True
      then have "search (noting_github a) t correlation credential (workflow_identity target w # seen) workflows
          (x1, l @ [(?q, answer)]) = ((x', l'), outcome)" using Cons.prems tw False f n(1) by simp
      from Cons.IH[OF this] obtain es where e: "l' = (l @ [(?q, answer)]) @ es" "list_all (\<lambda>(q, answer). hq_Method q = MethodGet) es"
        "\<And>result. outcome = Inr result \<Longrightarrow>
          result = not_found \<and> swept a t correlation credential (workflow_identity target w # seen) workflows es \<or>
          hit a t correlation credential workflows es result" by blast
      have "result = not_found \<and> swept a t correlation credential seen (tw # workflows) ((?q, answer) # es) \<or>
          hit a t correlation credential (tw # workflows) ((?q, answer) # es) result" if "outcome = Inr result" for result
        using e(3)[OF that] swept_listed[OF _ n(2)[OF True]] tw
          hit_mono[of a t correlation credential workflows es result "tw # workflows" "(?q, answer) # es"] by auto
      then show ?thesis using e(1,2) get by (intro exI[of _ "(?q, answer) # es"]) simp
    qed
  qed
qed

section \<open>The allow-list separates workflows\<close>

lemma part_char_nul: "\<not> part_char (CHR 0x00)"
  by (simp add: part_char_def)

lemma split_at:
  assumes "u @ [z] @ v = u' @ [z] @ v'" "z \<notin> set u" "z \<notin> set u'"
  shows "u = u' \<and> v = v'"
  using assms
proof (induction u arbitrary: u')
  case Nil
  then show ?case by (cases u') auto
next
  case (Cons c u)
  then show ?case by (cases u') auto
qed

lemma workflow_identity_inject:
  assumes "workflow_identity target w = workflow_identity target' w'"
    and "repositoryPart (gt_Owner target)" "repositoryPart (gt_Owner target')"
    and "repositoryPart (gt_Repository target)" "repositoryPart (gt_Repository target')"
  shows "gt_Owner target = gt_Owner target' \<and> gt_Repository target = gt_Repository target' \<and> w = w'"
proof -
  have "CHR 0x00 \<notin> set s" if "repositoryPart s" for s
    using that part_char_nul unfolding repositoryPart_def list_all_iff by metis
  then show ?thesis using assms unfolding workflow_identity_def by (metis split_at)
qed

lemma first_error_None: "first_error es = None \<longleftrightarrow> (\<forall>e \<in> set es. e = None)"
  by (induction es rule: first_error.induct) auto

lemma GitHubConfig_Validate_None:
  "GitHubConfig_Validate targets = None \<longleftrightarrow> targets \<noteq> [] \<and> (\<forall>(key, target) \<in> set targets. target_error key target = None)"
  by (auto simp: GitHubConfig_Validate_def first_error_None)

lemma configured_parts:
  assumes "GitHubConfig_Validate targets = None" "map_of targets key = Some target"
  shows "repositoryPart (gt_Owner target) \<and> repositoryPart (gt_Repository target)"
proof -
  have "target_error key target = None" using assms map_of_SomeD[OF assms(2)] by (auto simp: GitHubConfig_Validate_None)
  then show ?thesis by (auto simp: target_error_def split: if_splits)
qed

lemma workflows_of_iff:
  "(target, w) \<in> set (workflows_of targets) \<longleftrightarrow>
     (\<exists>key. map_of targets key = Some target \<and> (w = gt_DeployWorkflow target \<or> w = gt_RollbackWorkflow target))"
proof -
  have "key \<in> fst ` set targets" if "map_of targets key = Some target" for key
    using map_of_SomeD[OF that] by force
  moreover have "(target, w) \<in> set (workflows_of targets) \<longleftrightarrow>
      (\<exists>key \<in> fst ` set targets. map_of targets key = Some target \<and> (w = gt_DeployWorkflow target \<or> w = gt_RollbackWorkflow target))"
  proof -
    have "(target, w) \<in> set (case map_of targets key of None \<Rightarrow> [] | Some target \<Rightarrow> [(target, gt_DeployWorkflow target), (target, gt_RollbackWorkflow target)])
        \<longleftrightarrow> map_of targets key = Some target \<and> (w = gt_DeployWorkflow target \<or> w = gt_RollbackWorkflow target)" for key
      by (auto split: option.splits)
    then show ?thesis unfolding workflows_of_def set_concat set_map set_sort set_remdups by blast
  qed
  ultimately show ?thesis by blast
qed

lemma list_request_cong:
  "gt_Owner target = gt_Owner target' \<Longrightarrow> gt_Repository target = gt_Repository target' \<Longrightarrow>
   list_request target w t credential = list_request target' w t credential"
  by (simp add: list_request_def)

lemma reconcile_noted:
  assumes "GitHub_Reconcile (noting_github a) (x, l) request credential = ((x', l'), outcome)"
  shows "\<exists>exchanges. l' = l @ exchanges \<and> list_all (\<lambda>(q, answer). hq_Method q = MethodGet) exchanges \<and>
     (\<forall>result. outcome = Inr result \<longrightarrow>
        result = not_found \<and> swept a (rc_DispatchedAt request) (CorrelationID (gh_sha256_hex a) (rc_IdempotencyKey request)) credential []
          (workflows_of (gh_Targets a)) exchanges \<or>
        hit a (rc_DispatchedAt request) (CorrelationID (gh_sha256_hex a) (rc_IdempotencyKey request)) credential
          (workflows_of (gh_Targets a)) exchanges result)"
proof -
  obtain x1 now where n: "gh_now a x = (x1, now)" by fastforce
  note eval = assms[unfolded GitHub_Reconcile_def noting_now n fst_conv snd_conv prod.case noting_github_sel]
  show ?thesis
  proof (cases "rc_IdempotencyKey request = [] \<or> rc_DispatchedAt request = 0 \<or> \<not> ValidAt credential now \<or>
      Credential_Value credential ''token'' = []")
    case True
    then show ?thesis using eval by (auto split: if_splits)
  next
    case False
    then have "search (noting_github a) (rc_DispatchedAt request) (CorrelationID (gh_sha256_hex a) (rc_IdempotencyKey request)) credential []
        (workflows_of (gh_Targets a)) (x1, l) = ((x', l'), outcome)" using eval by simp
    then show ?thesis by (rule search_noted)
  qed
qed

section \<open>Behind a runner\<close>

text \<open>The requests that carry out a grant.\<close>

definition grant_deploy :: "ActionGrant \<Rightarrow> DeployRequest" where
  "grant_deploy g = \<lparr>dq_Target = \<lparr>at_Service = tgt_Service (ag_Target g), at_Environment = tgt_Environment (ag_Target g)\<rparr>,
     dq_ArtifactDigest = act_ArtifactDigest (ag_Action g), dq_IdempotencyKey = ag_IdempotencyKey g\<rparr>"

definition grant_rollback :: "ActionGrant \<Rightarrow> RollbackRequest" where
  "grant_rollback g = \<lparr>rq2_Target = \<lparr>at_Service = tgt_Service (ag_Target g), at_Environment = tgt_Environment (ag_Target g)\<rparr>,
     rq2_OriginalDeployment = no_deployment\<lparr>ad_ExternalExecutionID := act_ExternalExecutionID (ag_Action g)\<rparr>,
     rq2_IdempotencyKey = ag_IdempotencyKey g\<rparr>"

definition carries_out :: "'x GitHubAdapter \<Rightarrow> ActionGrant \<Rightarrow> HTTPRequest \<Rightarrow> bool" where
  "carries_out a g q \<longleftrightarrow>
     act_Capability (ag_Action g) = ProtocolDeploy \<and> deploy_request a (grant_deploy g) q \<or>
     act_Capability (ag_Action g) = ProtocolRollback \<and> rollback_request a (grant_rollback g) q"

definition github_dispatcher :: "'x GitHubAdapter \<Rightarrow> time \<Rightarrow> ('x \<times> exchange list) TypedAdapter" where
  "github_dispatcher a t = SDKDispatcher (Some (github_adapter (noting_github a))) t"

definition github_reconciler :: "'x GitHubAdapter \<Rightarrow> time \<Rightarrow> ('x \<times> exchange list) Reconciler" where
  "github_reconciler a t = SDKReconciler (Some (github_adapter (noting_github a))) t"

lemma dispatcher_noted:
  assumes "ta_Execute (github_dispatcher a t) (x, l) (adapter_request g now) credential = ((x', l'), outcome)"
  shows "l' = l \<or> (\<exists>q response. l' = l @ [(q, response)] \<and> carries_out a g q)"
proof -
  consider "act_Capability (ag_Action g) = ProtocolDeploy" | "act_Capability (ag_Action g) = ProtocolRollback"
    | "act_Capability (ag_Action g) \<noteq> ProtocolDeploy" "act_Capability (ag_Action g) \<noteq> ProtocolRollback" by blast
  then show ?thesis
  proof cases
    case 1
    obtain y k res where d: "GitHub_Deploy (noting_github a) (x, l) (grant_deploy g) credential = ((y, k), res)" by (metis surj_pair)
    then have "(x', l') = (y, k)" using assms 1
      by (auto simp: github_dispatcher_def SDKDispatcher_def SDKDispatcher_Execute_def github_adapter_def adapter_request_def
          sdk_target_def grant_deploy_def split: sum.splits)
    then show ?thesis using deploy_noted[OF d] 1 unfolding carries_out_def by auto
  next
    case 2
    obtain y k res where d: "GitHub_Rollback (noting_github a) (x, l) (grant_rollback g) credential = ((y, k), res)" by (metis surj_pair)
    then have "(x', l') = (y, k)" using assms 2
      by (auto simp: github_dispatcher_def SDKDispatcher_def SDKDispatcher_Execute_def github_adapter_def adapter_request_def
          sdk_target_def grant_rollback_def split: sum.splits)
    then show ?thesis using rollback_noted[OF d] 2 unfolding carries_out_def by auto
  next
    case 3
    then show ?thesis using assms
      by (auto simp: github_dispatcher_def SDKDispatcher_def SDKDispatcher_Execute_def adapter_request_def)
  qed
qed

lemma act_noted:
  assumes "ru_Adapter r = Some (github_dispatcher a t)" "act r (x, l) now g = ((x', l'), called, acted)"
  shows "l' = l \<or> called \<and> (\<exists>q response. l' = l @ [(q, response)] \<and> carries_out a g q)"
proof (cases "\<exists>acquire credential. ru_Credentials r = Some acquire \<and>
    acquire \<lparr>cq_Provider = provider_of (ta_CredentialProvider (github_dispatcher a t)), cq_TenantID = ag_TenantID g,
       cq_Service = tgt_Service (ag_Target g), cq_Environment = tgt_Environment (ag_Target g),
       cq_Purpose = purpose_of (ag_Action g)\<rparr> = Inr credential")
  case True
  then obtain acquire credential where c: "ru_Credentials r = Some acquire"
    "acquire \<lparr>cq_Provider = provider_of (ta_CredentialProvider (github_dispatcher a t)), cq_TenantID = ag_TenantID g,
       cq_Service = tgt_Service (ag_Target g), cq_Environment = tgt_Environment (ag_Target g),
       cq_Purpose = purpose_of (ag_Action g)\<rparr> = Inr credential" by blast
  obtain y k res where d: "ta_Execute (github_dispatcher a t) (x, l) (adapter_request g now) credential = ((y, k), res)" by (metis surj_pair)
  then have "(x', l') = (y, k)" "called" using assms c by (auto simp: act_def split: sum.splits)
  then show ?thesis using dispatcher_noted[OF d] by auto
next
  case False
  then show ?thesis using assms by (auto simp: act_def split: option.splits sum.splits)
qed

lemma execute_noted:
  assumes "ru_Adapter r = Some (github_dispatcher a t)"
    and "Runner_Execute digest r now g (m, (x, l)) = ((m', (x', l')), called, result)"
  shows "l' = l \<or> called \<and> (\<exists>q response. l' = l @ [(q, response)] \<and> carries_out a g q)"
proof (cases "authorize digest r m (now 0) g")
  case (Inl early)
  then show ?thesis using assms(2) by (auto simp: Runner_Execute_def)
next
  case (Inr hj)
  obtain h j where hj: "hj = (h, j)" by fastforce
  obtain m1 reserved where res: "reserve_action j m now g h = (m1, reserved)" by fastforce
  show ?thesis
  proof (cases reserved)
    case (Inl early)
    then show ?thesis using assms(2) \<open>authorize _ _ _ _ _ = _\<close> hj res by (auto simp: Runner_Execute_def)
  next
    case (Inr rec)
    obtain y k c acted where act: "act r (x, l) (now 0) g = ((y, k), c, acted)" by (metis surj_pair)
    then have "(x', l') = (y, k)" "c = called" using assms(2) \<open>authorize _ _ _ _ _ = _\<close> hj res Inr
      by (auto simp: Runner_Execute_def split: prod.splits)
    then show ?thesis using act_noted[OF assms(1) act] by auto
  qed
qed

subsection \<open>Reconciliation rounds\<close>

abbreviation reads_only :: "exchange list \<Rightarrow> bool" where
  "reads_only exchanges \<equiv> list_all (\<lambda>(q, answer). hq_Method q = MethodGet) exchanges"

lemma reconciler_noted:
  assumes "re_Reconcile (github_reconciler a t) (x, l) request credential = ((x', l'), outcome)"
  shows "\<exists>exchanges. l' = l @ exchanges \<and> reads_only exchanges"
proof -
  let ?q = "\<lparr>rc_IdempotencyKey = aq_IdempotencyKey request,
      rc_DispatchedAt = (if aq_DispatchedAt request = 0 then t - 86400000000000 else aq_DispatchedAt request)\<rparr>"
  obtain y k res where d: "GitHub_Reconcile (noting_github a) (x, l) ?q credential = ((y, k), res)" by (metis surj_pair)
  then have "(x', l') = (y, k)" using assms
    by (auto simp: github_reconciler_def SDKReconciler_def SDKDispatcher_Reconcile_def github_adapter_def Let_def
        split: sum.splits if_splits)
  then show ?thesis using reconcile_noted[OF d] by auto
qed

text \<open>A round is a sequence of completions and changes of the outside world, and it only reads from GitHub.\<close>

lemma records_reach:
  assumes "reconcile_records credentials journal (github_reconciler a t) now records (s, (x, l)) = ((s', (x', l')), e)"
    and "system_reach digest journal runners y" "sy_journal y = s" "sy_external y = (x, l)"
  shows "\<exists>y' exchanges. system_reach digest journal runners y' \<and> sy_journal y' = s' \<and> sy_external y' = (x', l') \<and>
     sy_calls y' = sy_calls y \<and> sy_threads y' = sy_threads y \<and> l' = l @ exchanges \<and> reads_only exchanges"
  using assms
proof (induction records arbitrary: now s x l y)
  case Nil
  then show ?case by (intro exI[of _ y] exI[of _ "[]"]) auto
next
  case (Cons rec records)
  let ?c = "\<lparr>cq_Provider = provider_of (re_CredentialProvider (github_reconciler a t)), cq_TenantID = ra_TenantID rec,
        cq_Service = tgt_Service (ra_Target rec), cq_Environment = tgt_Environment (ra_Target rec),
        cq_Purpose = purpose_of (ra_Action rec)\<rparr>"
  show ?case
  proof (cases "\<exists>acquire credential. credentials = Some acquire \<and> acquire ?c = Inr credential")
    case False
    show ?thesis
    proof (cases credentials)
      case None
      then show ?thesis using Cons.prems by (intro exI[of _ y] exI[of _ "[]"]) auto
    next
      case (Some acquire)
      then obtain err where "acquire ?c = Inl err" using False by (cases "acquire ?c") auto
      then have "reconcile_records credentials journal (github_reconciler a t) now records (s, x, l) = ((s', x', l'), e)"
        using Cons.prems(1) Some by simp
      then show ?thesis by (rule Cons.IH) (use Cons.prems in auto)
    qed
  next
    case True
    then obtain acquire credential where c: "credentials = Some acquire" "acquire ?c = Inr credential" by blast
    obtain x1 l1 res where d: "re_Reconcile (github_reconciler a t) (x, l) (record_request rec) credential = ((x1, l1), res)" by (metis surj_pair)
    from reconciler_noted[OF d] obtain es where es: "l1 = l @ es" "reads_only es" by blast
    let ?y1 = "y\<lparr>sy_external := (x1, l1)\<rparr>"
    have y1: "system_reach digest journal runners ?y1" using Cons.prems(2) by (rule system_reach.step) (rule system_step.external)
    have step: ?thesis if "reconcile_records credentials journal (github_reconciler a t) now' records (s1, (x1, l1)) = ((s', (x', l')), e)"
      "system_reach digest journal runners (?y1\<lparr>sy_journal := s1\<rparr>)" for now' s1
    proof -
      from Cons.IH[OF that] obtain y' es' where "system_reach digest journal runners y'" "sy_journal y' = s'" "sy_external y' = (x', l')"
        "sy_calls y' = sy_calls y" "sy_threads y' = sy_threads y" "l' = l1 @ es'" "reads_only es'" by auto
      then show ?thesis using es by (intro exI[of _ y'] exI[of _ "es @ es'"]) simp
    qed
    have same: "?y1\<lparr>sy_journal := s\<rparr> = ?y1" using Cons.prems(3) by simp
    show ?thesis
    proof (cases "\<exists>result. res = Inr (result, True)")
      case False
      then have "reconcile_records credentials journal (github_reconciler a t) now records (s, (x1, l1)) = ((s', (x', l')), e)"
        using Cons.prems(1) c d by (auto split: sum.splits prod.splits bool.splits)
      then show ?thesis by (rule step) (use y1 same in simp)
    next
      case True
      then obtain result where r: "res = Inr (result, True)" by blast
      let ?audit = "journalAudit (auditID (ra_GrantID rec) ''reconcile'' (ra_StateVersion rec + 1)) (ra_GrantID rec)
                       ''runner.action.reconcile'' ''SUCCEEDED'' (now 0) []"
      obtain s1 e1 where comp: "jo_CompleteRunnerAction journal s (reconciled rec result (now 0)) (ra_StateVersion rec) ?audit = (s1, e1)"
        by fastforce
      let ?y2 = "?y1\<lparr>sy_journal := s1\<rparr>"
      have y2: "system_reach digest journal runners ?y2"
        using y1 by (rule system_reach.step) (rule system_step.reconcile, use comp Cons.prems(3) in simp)
      show ?thesis
      proof (cases e1)
        case None
        then have "reconcile_records credentials journal (github_reconciler a t) (\<lambda>i. now (Suc i)) records (s1, (x1, l1)) = ((s', (x', l')), e)"
          using Cons.prems(1) c d r comp by simp
        then show ?thesis by (rule step) (rule y2)
      next
        case (Some err)
        then have "s' = s1" "x' = x1" "l' = l1" using Cons.prems(1) c d r comp by auto
        then show ?thesis using y2 es by (intro exI[of _ ?y2] exI[of _ es]) simp
      qed
    qed
  qed
qed

lemma reconcile_reaches:
  assumes "Runner_Reconcile r (Some (github_reconciler a t)) now limit (s, (x, l)) = ((s', (x', l')), e)"
    and "ru_Journal r = Some journal" "system_reach digest journal runners y" "sy_journal y = s" "sy_external y = (x, l)"
  shows "\<exists>y' exchanges. system_reach digest journal runners y' \<and> sy_journal y' = s' \<and> sy_external y' = (x', l') \<and>
     sy_calls y' = sy_calls y \<and> sy_threads y' = sy_threads y \<and> l' = l @ exchanges \<and> reads_only exchanges"
proof (cases "ru_TenantID r = [] \<or> ru_RunnerGroup r = [] \<or> (\<exists>err. jo_PendingRunnerActions journal s (ru_TenantID r) (ru_RunnerGroup r) limit = Inl err)")
  case True
  then have "s' = s \<and> x' = x \<and> l' = l" using assms(1,2) by (auto simp: Runner_Reconcile_def split: if_splits)
  then show ?thesis using assms(3-5) by (intro exI[of _ y] exI[of _ "[]"]) simp
next
  case False
  then obtain records where "reconcile_records (ru_Credentials r) journal (github_reconciler a t) now records (s, (x, l)) = ((s', (x', l')), e)"
    using assms(1,2) by (cases "jo_PendingRunnerActions journal s (ru_TenantID r) (ru_RunnerGroup r) limit") (auto simp: Runner_Reconcile_def)
  then show ?thesis using assms(3-5) by (rule records_reach)
qed

subsection \<open>Deliveries and rounds in any order\<close>

text \<open>
  The duties of runners that share a journal and deploy through GitHub: a grant is delivered to one of
  them, or one of them makes a reconciliation round, with whatever readings of the clock.
\<close>

datatype 'x duty =
    Deliver "(Memory, 'x) Runner" "nat \<Rightarrow> time" ActionGrant
  | Round "(Memory, 'x) Runner" "'x Reconciler" "nat \<Rightarrow> time" int

fun on_duty :: "(json \<Rightarrow> string) \<Rightarrow> 'x duty list \<Rightarrow> Memory \<times> 'x \<Rightarrow> Memory \<times> 'x" where
  "on_duty digest [] w = w"
| "on_duty digest (Deliver r now g # duties) w = on_duty digest duties (fst (Runner_Execute digest r now g w))"
| "on_duty digest (Round r reconciler now limit # duties) w =
     on_duty digest duties (fst (Runner_Reconcile r (Some reconciler) now limit w))"

fun equipped :: "'x GitHubAdapter \<Rightarrow> (Memory, 'x \<times> exchange list) Runner set \<Rightarrow> ('x \<times> exchange list) duty \<Rightarrow> bool" where
  "equipped a runners (Deliver r now g) \<longleftrightarrow> r \<in> runners \<and> ru_Journal r = Some memory_journal \<and>
     (\<exists>t. ru_Adapter r = Some (github_dispatcher a t))"
| "equipped a runners (Round r reconciler now limit) \<longleftrightarrow> r \<in> runners \<and> ru_Journal r = Some memory_journal \<and>
     (\<exists>t. reconciler = github_reconciler a t)"

definition writes :: "exchange list \<Rightarrow> HTTPRequest list" where
  "writes exchanges = filter (\<lambda>q. hq_Method q \<noteq> MethodGet) (map fst exchanges)"

lemma writes_append [simp]: "writes (xs @ ys) = writes xs @ writes ys"
  by (simp add: writes_def)

lemma writes_reads: "reads_only exchanges \<Longrightarrow> writes exchanges = []"
  by (induction exchanges) (auto simp: writes_def)

lemma writes_dispatch: "carries_out a g q \<Longrightarrow> writes [(q, response)] = [q]"
  by (auto simp: writes_def carries_out_def deploy_request_def rollback_request_def dispatch_request_def)

text \<open>The writes so far carry out grants among those for which the adapter was called.\<close>

definition accounted :: "'x GitHubAdapter \<Rightarrow> (Memory, 'x \<times> exchange list) runner_system \<Rightarrow> bool" where
  "accounted a y \<longleftrightarrow> (\<exists>gs. subseq gs (rev (sy_calls y)) \<and> list_all2 (carries_out a) gs (writes (snd (sy_external y)))) \<and>
     (\<exists>n. \<forall>i \<ge> n. sy_threads y i = Idle)"

lemma accounted_execute:
  assumes "system_reach digest memory_journal runners y" "accounted a y" "r \<in> runners"
    and "ru_Journal r = Some memory_journal" "ru_Adapter r = Some (github_dispatcher a t)"
  shows "\<exists>y'. system_reach digest memory_journal runners y' \<and> accounted a y' \<and>
     (sy_journal y', sy_external y') = fst (Runner_Execute digest r now g (sy_journal y, sy_external y))"
proof -
  obtain gs n where gs: "subseq gs (rev (sy_calls y))" "list_all2 (carries_out a) gs (writes (snd (sy_external y)))"
    and idle: "\<forall>i \<ge> n. sy_threads y i = Idle" using assms(2) by (auto simp: accounted_def)
  obtain x l where x: "sy_external y = (x, l)" by fastforce
  obtain m' x' l' called result where e: "Runner_Execute digest r now g (sy_journal y, (x, l)) = ((m', (x', l')), called, result)"
    by (metis surj_pair)
  obtain y' where y': "system_reach digest memory_journal runners y'" "sy_journal y' = m'" "sy_external y' = (x', l')"
    "sy_calls y' = (if called then [g] else []) @ sy_calls y" "sy_threads y' = (sy_threads y)(n := Returned result)"
    using execute_reaches[OF assms(1) _ assms(3,4), of n now g m' "(x', l')" called result] idle e x by auto
  have "\<forall>i \<ge> Suc n. sy_threads y' i = Idle" using idle y'(5) by simp
  moreover have "\<exists>gs. subseq gs (rev (sy_calls y')) \<and> list_all2 (carries_out a) gs (writes l')"
    using execute_noted[OF assms(5) e]
  proof
    assume "l' = l"
    moreover have "subseq gs (rev (sy_calls y'))" using gs(1) y'(4) by (auto intro: subseq_order.trans)
    ultimately show ?thesis using gs(2) x by auto
  next
    assume c: "called \<and> (\<exists>q response. l' = l @ [(q, response)] \<and> carries_out a g q)"
    then obtain q response where "l' = l @ [(q, response)]" "carries_out a g q" by blast
    then have "list_all2 (carries_out a) (gs @ [g]) (writes l')"
      using gs(2) x by (simp add: writes_dispatch list_all2_appendI)
    moreover have "subseq (gs @ [g]) (rev (sy_calls y'))" using gs(1) y'(4) c by (simp add: list_emb_append_mono)
    ultimately show ?thesis by blast
  qed
  ultimately have "accounted a y'" using y'(3) unfolding accounted_def by auto
  then show ?thesis using y' e x by (intro exI[of _ y']) simp
qed

lemma accounted_round:
  assumes "system_reach digest memory_journal runners y" "accounted a y" "ru_Journal r = Some memory_journal"
  shows "\<exists>y'. system_reach digest memory_journal runners y' \<and> accounted a y' \<and>
     (sy_journal y', sy_external y') = fst (Runner_Reconcile r (Some (github_reconciler a t)) now limit (sy_journal y, sy_external y))"
proof -
  obtain x l where x: "sy_external y = (x, l)" by fastforce
  obtain m' x' l' e where run: "Runner_Reconcile r (Some (github_reconciler a t)) now limit (sy_journal y, (x, l)) = ((m', (x', l')), e)"
    by (metis surj_pair)
  from reconcile_reaches[OF run assms(3,1) refl x] obtain y' es where y': "system_reach digest memory_journal runners y'"
    "sy_journal y' = m'" "sy_external y' = (x', l')" "sy_calls y' = sy_calls y" "sy_threads y' = sy_threads y" "l' = l @ es" "reads_only es"
    by blast
  then have "accounted a y'" using assms(2) x by (simp add: accounted_def writes_reads)
  then show ?thesis using y' run x by (intro exI[of _ y']) simp
qed

lemma duties_accounted:
  assumes "list_all (equipped a runners) duties" "system_reach digest memory_journal runners y" "accounted a y"
  shows "\<exists>y'. system_reach digest memory_journal runners y' \<and> accounted a y' \<and>
     (sy_journal y', sy_external y') = on_duty digest duties (sy_journal y, sy_external y)"
  using assms
proof (induction duties arbitrary: y)
  case (Cons duty duties)
  have "\<exists>y1. system_reach digest memory_journal runners y1 \<and> accounted a y1 \<and>
     (sy_journal y1, sy_external y1) = on_duty digest [duty] (sy_journal y, sy_external y)"
    using Cons.prems accounted_execute accounted_round by (cases duty) fastforce+
  then obtain y1 where y1: "system_reach digest memory_journal runners y1" "accounted a y1"
    "(sy_journal y1, sy_external y1) = on_duty digest [duty] (sy_journal y, sy_external y)" by blast
  have "on_duty digest (duty # duties) w = on_duty digest duties (on_duty digest [duty] w)" for w by (cases duty) simp_all
  then show ?case using Cons.IH[OF _ y1(1,2)] Cons.prems(1) y1(3) by simp
qed auto

section \<open>A configured adapter\<close>

text \<open>
  An adapter with one target.  Its outside world counts the requests; every answer has the given status,
  and every listing shows the given runs.
\<close>

definition demo_target :: GitHubTarget where
  "demo_target = \<lparr>gt_Owner = ''acme'', gt_Repository = ''api'', gt_DeployWorkflow = ''deploy.yml'',
     gt_RollbackWorkflow = ''rollback.yaml'', gt_Ref = ''refs/heads/main''\<rparr>"

definition demo_github :: "int \<Rightarrow> workflow_run list \<Rightarrow> nat GitHubAdapter" where
  "demo_github status runs = \<lparr>gh_Targets = [(\<lparr>tk_Service = ''api'', tk_Environment = ''staging''\<rparr>, demo_target)],
     gh_client = (\<lambda>q n. (Suc n, Inr \<lparr>hs_StatusCode = status, hs_Body = []\<rparr>)), gh_now = (\<lambda>n. (n, 50)),
     gh_sha256_hex = (\<lambda>s. s), gh_decode_dispatch = (\<lambda>body. Some 7), gh_decode_runs = (\<lambda>body. Some runs)\<rparr>"

lemma demo_github_sel [simp]:
  "gh_Targets (demo_github status runs) = [(\<lparr>tk_Service = ''api'', tk_Environment = ''staging''\<rparr>, demo_target)]"
  "gh_client (demo_github status runs) q n = (Suc n, Inr \<lparr>hs_StatusCode = status, hs_Body = []\<rparr>)"
  "gh_now (demo_github status runs) n = (n, 50)" "gh_sha256_hex (demo_github status runs) s = s"
  "gh_decode_dispatch (demo_github status runs) body = Some 7" "gh_decode_runs (demo_github status runs) body = Some runs"
  by (simp_all add: demo_github_def)

lemma demo_github_valid: "GitHubConfig_Validate (gh_Targets (demo_github status runs)) = None"
proof -
  have "TrimSpace ''api'' \<noteq> []" "TrimSpace ''staging'' \<noteq> []" by (rule nonblank, simp, simp)+
  then show ?thesis
    by (simp add: GitHubConfig_Validate_def target_error_def demo_target_def repositoryPart_def workflowFile_def gitRef_def
        part_char_def Contains_def HasPrefix_def suffix_def)
qed

definition demo_deploy :: DeployRequest where
  "demo_deploy = \<lparr>dq_Target = \<lparr>at_Service = ''api'', at_Environment = ''staging''\<rparr>, dq_ArtifactDigest = zero_digest,
     dq_IdempotencyKey = ''key''\<rparr>"

lemma demo_deploy_valid: "ValidateDeployRequest demo_deploy = None"
proof -
  have "TrimSpace ''api'' \<noteq> []" "TrimSpace ''staging'' \<noteq> []" "TrimSpace ''key'' \<noteq> []" by (rule nonblank, simp, simp)+
  moreover have "validateDigest zero_digest = None"
    using zero_digest_ok(1) by (simp add: validateDigest_def sha256_digest_def)
  ultimately show ?thesis by (simp add: ValidateDeployRequest_def demo_deploy_def)
qed

lemma demo_dispatches:
  "GitHub_Deploy (noting_github (demo_github status runs)) (n, l) demo_deploy demo_credential =
     ((Suc n, l @ [(dispatch_request demo_target ''deploy.yml'' (deploy_inputs (\<lambda>s. s) demo_deploy) demo_credential,
                    Inr \<lparr>hs_StatusCode = status, hs_Body = []\<rparr>)]),
      if status = StatusOK then Inr \<lparr>ad_ExternalExecutionID = ''7'', ad_CorrelationID = ''sha256:key'', ad_StartedAt = 50, ad_FinishedAt = 0\<rparr>
      else Inl (AdapterError (if ambiguous_status status then ErrorUnknown else ErrorTerminal) ''deploy.dispatch'' ''sha256:key''
             (Errorf ''GitHub returned HTTP %d'')))"
proof -
  have cred: "ValidAt demo_credential 50" "Credential_Value demo_credential ''token'' = ''t''"
    by (simp_all add: ValidAt_def demo_credential_def Credential_Value_def)
  have "gh_sha256_hex (demo_github status runs) = (\<lambda>s. s)" by (simp add: demo_github_def)
  moreover have "target_key (dq_Target demo_deploy) = \<lparr>tk_Service = ''api'', tk_Environment = ''staging''\<rparr>"
    by (simp add: demo_deploy_def)
  moreover have "dq_IdempotencyKey demo_deploy = ''key''" "gt_DeployWorkflow demo_target = ''deploy.yml''"
    by (simp_all add: demo_deploy_def demo_target_def)
  moreover have "int_text 7 = ''7''" by code_simp
  ultimately show ?thesis
    using cred by (simp add: GitHub_Deploy_def demo_deploy_valid github_dispatch_def noting_now noting_do CorrelationID_def)
qed

section \<open>Guarantees\<close>

text \<open>
  C5.  At most one dispatch.  Let runners that share the in-memory journal deploy through one GitHub Actions
  adapter, and let grants be delivered and reconciliation rounds be made in any order, with any clock and
  any behaviour of GitHub and the network.  The requests other than reads that reach GitHub then correspond
  one to one to grants, no two of them with the same tenant, runner group and idempotency key; each grant
  was authorized by one of the runners, and its request dispatches the deploy or rollback workflow that the
  allow-list gives for the grant's service and environment, with the inputs of the grant.
\<close>

theorem github_dispatches_once:
  assumes "list_all (equipped a runners) duties"
    and "on_duty digest duties (m, (x, [])) = (m', (x', exchanges))"
  shows "\<exists>gs. list_all2 (carries_out a) gs (filter (\<lambda>q. hq_Method q \<noteq> MethodGet) (map fst exchanges)) \<and>
     distinct (map (\<lambda>g. (ag_TenantID g, ag_RunnerGroup g, ag_IdempotencyKey g)) gs) \<and> list_all (was_authorized digest runners) gs"
proof -
  let ?y = "\<lparr>sy_journal = m, sy_external = (x, []), sy_calls = [], sy_threads = (\<lambda>_. Idle)\<rparr> :: (Memory, 'a \<times> exchange list) runner_system"
  have "system_reach digest memory_journal runners ?y" by (rule system_reach.start)
  moreover have "accounted a ?y" by (simp add: accounted_def writes_def)
  ultimately obtain y' where y': "system_reach digest memory_journal runners y'" "accounted a y'" "sy_external y' = (x', exchanges)"
    using duties_accounted[OF assms(1), of digest ?y] assms(2) by auto
  then obtain gs where gs: "subseq gs (rev (sy_calls y'))" "list_all2 (carries_out a) gs (writes exchanges)"
    by (auto simp: accounted_def)
  have "distinct (map key_of (rev (sy_calls y')))" using mj.calls_distinct[OF y'(1)] by (simp flip: rev_map)
  then have "distinct (map key_of gs)" using subseq_map[OF gs(1)] subseq_distinct by blast
  moreover have "list_all (was_authorized digest runners) gs"
    using calls_authorized[OF y'(1)] subseq_set[OF gs(1)] by (auto simp: list_all_iff)
  ultimately show ?thesis using gs(2) by (auto simp: key_of_def[abs_def] writes_def)
qed


text \<open>
  C28.  Reconciliation reports what GitHub lists.  It only reads.  When it answers with a found execution,
  the run is in the listing of a workflow of the allow-list, its title is the correlation of the
  idempotency key and its identifier, times and status are handed on.  When it answers that there is
  none, every deploy and rollback workflow of a validated allow-list was listed, and no listing shows a
  run of the key.
\<close>

theorem github_reconcile_reports_listings:
  assumes "GitHub_Reconcile (noting_github a) (x, []) request credential = ((x', exchanges), Inr result)"
    and "GitHubConfig_Validate (gh_Targets a) = None"
    and "correlation = CorrelationID (gh_sha256_hex a) (rc_IdempotencyKey request)"
  shows "list_all (\<lambda>(q, answer). hq_Method q = MethodGet) exchanges \<and>
     (rcr_Status result \<noteq> ReconcileNotFound \<longrightarrow>
        (\<exists>key target w answer runs run. map_of (gh_Targets a) key = Some target \<and> w \<in> {gt_DeployWorkflow target, gt_RollbackWorkflow target} \<and>
           (list_request target w (rc_DispatchedAt request) credential, answer) \<in> set exchanges \<and> listed a answer runs \<and>
           run \<in> set runs \<and> matches correlation run \<and> result = run_result correlation run)) \<and>
     (rcr_Status result = ReconcileNotFound \<longrightarrow>
        (\<forall>key target w. map_of (gh_Targets a) key = Some target \<and> w \<in> {gt_DeployWorkflow target, gt_RollbackWorkflow target} \<longrightarrow>
           (\<exists>answer runs. (list_request target w (rc_DispatchedAt request) credential, answer) \<in> set exchanges \<and> listed a answer runs \<and>
              \<not> list_ex (matches correlation) runs)))"
proof -
  let ?t = "rc_DispatchedAt request" and ?ws = "workflows_of (gh_Targets a)"
  from reconcile_noted[OF assms(1)] have reads: "reads_only exchanges"
    and ends: "result = not_found \<and> swept a ?t correlation credential [] ?ws exchanges \<or> hit a ?t correlation credential ?ws exchanges result"
    using assms(3) by auto
  have found: "rcr_Status result \<noteq> ReconcileNotFound" if "hit a ?t correlation credential ?ws exchanges result"
    using that by (auto simp: hit_def mapRunStatus_def split: if_splits)
  have "\<exists>answer runs. (list_request target w ?t credential, answer) \<in> set exchanges \<and> listed a answer runs \<and> \<not> list_ex (matches correlation) runs"
    if none: "rcr_Status result = ReconcileNotFound" and t: "map_of (gh_Targets a) key = Some target"
      "w \<in> {gt_DeployWorkflow target, gt_RollbackWorkflow target}" for key target w
  proof -
    have "(target, w) \<in> set ?ws" using t by (auto simp: workflows_of_iff)
    moreover have "swept a ?t correlation credential [] ?ws exchanges" using ends found none by blast
    ultimately have "cleared_of a ?t correlation credential ?ws exchanges (workflow_identity target w)" by (auto simp: swept_def)
    then obtain target' w' answer where c: "(target', w') \<in> set ?ws" "workflow_identity target' w' = workflow_identity target w"
      "(list_request target' w' ?t credential, answer) \<in> set exchanges" "shows_none a correlation answer"
      unfolding cleared_of_def by blast
    obtain key' where "map_of (gh_Targets a) key' = Some target'" using c(1) by (auto simp: workflows_of_iff)
    then have "gt_Owner target' = gt_Owner target \<and> gt_Repository target' = gt_Repository target \<and> w' = w"
      using workflow_identity_inject[OF c(2)] configured_parts[OF assms(2)] t(1) by blast
    then show ?thesis using c(3,4) list_request_cong[of target' target w] by (auto simp: shows_none_def)
  qed
  moreover have "\<exists>key target w answer runs run. map_of (gh_Targets a) key = Some target \<and> w \<in> {gt_DeployWorkflow target, gt_RollbackWorkflow target} \<and>
           (list_request target w ?t credential, answer) \<in> set exchanges \<and> listed a answer runs \<and>
           run \<in> set runs \<and> matches correlation run \<and> result = run_result correlation run" if "rcr_Status result \<noteq> ReconcileNotFound"
  proof -
    have "hit a ?t correlation credential ?ws exchanges result" using ends that by auto
    then show ?thesis unfolding hit_def workflows_of_iff by blast
  qed
  ultimately show ?thesis using reads by blast
qed

section \<open>Witnesses\<close>


definition demo_reconcile :: ReconcileRequest where
  "demo_reconcile = \<lparr>rc_IdempotencyKey = ''key'', rc_DispatchedAt = 90000000000\<rparr>"

lemma demo_reconciles:
  "\<exists>x' exchanges. GitHub_Reconcile (noting_github (demo_github 200 [])) (0, []) demo_reconcile demo_credential =
     ((x', exchanges), Inr not_found)"
proof -
  have "ValidAt demo_credential 50" "Credential_Value demo_credential ''token'' = ''t''"
    by (simp_all add: ValidAt_def demo_credential_def Credential_Value_def)
  moreover have "findRun (noting_github (demo_github 200 [])) target w t correlation credential (n, l) =
      ((Suc n, l @ [(list_request target w t credential, Inr \<lparr>hs_StatusCode = 200, hs_Body = []\<rparr>)]), Inr None)" for target w t correlation credential n l
    by (simp add: findRun_def noting_do)
  ultimately show ?thesis
    by (simp add: GitHub_Reconcile_def demo_reconcile_def noting_now workflows_of_def demo_target_def workflow_identity_def)
qed

theorem github_reconcile_reports_listings_witness:
  "\<exists>x' exchanges answer runs. GitHub_Reconcile (noting_github (demo_github 200 [])) (0, []) demo_reconcile demo_credential =
       ((x', exchanges), Inr not_found) \<and>
     (list_request demo_target ''rollback.yaml'' 90000000000 demo_credential, answer) \<in> set exchanges \<and>
     listed (demo_github 200 []) answer runs \<and> \<not> list_ex (matches ''sha256:key'') runs"
proof -
  obtain x' exchanges where r: "GitHub_Reconcile (noting_github (demo_github 200 [])) (0, []) demo_reconcile demo_credential =
       ((x', exchanges), Inr not_found)" using demo_reconciles by blast
  have "map_of (gh_Targets (demo_github 200 [])) \<lparr>tk_Service = ''api'', tk_Environment = ''staging''\<rparr> = Some demo_target"
    "''rollback.yaml'' \<in> {gt_DeployWorkflow demo_target, gt_RollbackWorkflow demo_target}"
    "CorrelationID (gh_sha256_hex (demo_github 200 [])) (rc_IdempotencyKey demo_reconcile) = ''sha256:key''"
    "rc_DispatchedAt demo_reconcile = 90000000000" "rcr_Status not_found = ReconcileNotFound"
    by (simp_all add: demo_target_def CorrelationID_def demo_reconcile_def)
  then show ?thesis using github_reconcile_reports_listings[OF r demo_github_valid refl] r by metis
qed

text \<open>A runner that has the configuration of the earlier examples and deploys through GitHub.\<close>

definition github_runner :: "(Memory, nat \<times> exchange list) Runner" where
  "github_runner = \<lparr>ru_TenantID = ''tenant'', ru_RunnerGroup = ''group'', ru_Grants = ru_Grants demo_runner, ru_Subjects = ru_Subjects demo_runner,
     ru_Delegations = ru_Delegations demo_runner, ru_Contexts = ru_Contexts demo_runner, ru_Approvals = ru_Approvals demo_runner,
     ru_Capabilities = ru_Capabilities demo_runner, ru_Policy = ru_Policy demo_runner, ru_Journal = Some memory_journal,
     ru_Credentials = ru_Credentials demo_runner, ru_Adapter = Some (github_dispatcher (demo_github 200 []) 60), ru_Connectivity = Some True\<rparr>"

lemma github_runner_authorizes: "authorize demo_hash github_runner s now g = authorize demo_hash demo_runner s now g"
proof -
  have same: "ru_TenantID github_runner = ru_TenantID demo_runner" "ru_RunnerGroup github_runner = ru_RunnerGroup demo_runner"
    "ru_Grants github_runner = ru_Grants demo_runner" "ru_Subjects github_runner = ru_Subjects demo_runner"
    "ru_Delegations github_runner = ru_Delegations demo_runner" "ru_Contexts github_runner = ru_Contexts demo_runner"
    "ru_Approvals github_runner = ru_Approvals demo_runner" "ru_Capabilities github_runner = ru_Capabilities demo_runner"
    "ru_Policy github_runner = ru_Policy demo_runner" "ru_Journal github_runner = ru_Journal demo_runner"
    "ru_Connectivity github_runner = ru_Connectivity demo_runner"
    by (simp_all add: github_runner_def)
  show ?thesis
    unfolding authorize_def check_grant_def check_identity_def check_context_def check_policy_def same by (rule refl)
qed

lemma demo_grant_dispatches:
  "\<exists>m x' q response result. Runner_Execute demo_hash github_runner (\<lambda>i. 100) demo_signed (NewMemory, (0, [])) =
     ((m, (x', [(q, response)])), True, result, None) \<and> hq_Method q = MethodPost"
proof -
  let ?q = "dispatch_request demo_target ''deploy.yml'' (deploy_inputs (\<lambda>s. s) demo_deploy) demo_credential"
  have grant: "adapter_request demo_signed 100 = \<lparr>aq_GrantID = ''grant'', aq_RunID = ''run'', aq_StepID = ''api'', aq_Target = ag_Target demo_grant,
     aq_Action = ag_Action demo_grant, aq_IdempotencyKey = ''key'', aq_DispatchedAt = 100\<rparr>"
    by (simp add: adapter_request_def demo_signed_def demo_grant_def)
  have "StaticDevelopmentBroker_Acquire demo_credential 50 \<lparr>cq_Provider = ''github-actions'', cq_TenantID = ''tenant'', cq_Service = ''api'',
      cq_Environment = ''staging'', cq_Purpose = PurposeDeploy\<rparr> = Inr demo_credential"
    by (simp add: StaticDevelopmentBroker_Acquire_def Request_Validate_def ValidAt_def demo_credential_def)
  moreover have "SDKDispatcher_Execute (Some (github_adapter (noting_github (demo_github 200 [])))) 60 (0, []) (adapter_request demo_signed 100) demo_credential =
      ((1, [(?q, Inr \<lparr>hs_StatusCode = 200, hs_Body = []\<rparr>)]), Inr \<lparr>ar_ExternalExecutionID = ''7'', ar_CompletedAt = 60\<rparr>)"
    using demo_dispatches[of 200 "[]" 0 "[]"]
    by (simp add: SDKDispatcher_Execute_def github_adapter_def grant sdk_target_def demo_grant_def demo_deploy_def)
  ultimately have act: "act github_runner (0, []) 100 demo_signed =
      ((1, [(?q, Inr \<lparr>hs_StatusCode = 200, hs_Body = []\<rparr>)]), True, Inr \<lparr>ar_ExternalExecutionID = ''7'', ar_CompletedAt = 60\<rparr>)"
    by (simp add: act_def github_runner_def demo_signed_sel purpose_of_def provider_of_def github_dispatcher_def SDKDispatcher_def)
  have new: "m_journalError NewMemory = None" "m_runnerActions NewMemory = []" "m_runnerByKey NewMemory = []" by (simp_all add: NewMemory_def)
  show ?thesis
    by (simp add: Runner_Execute_def github_runner_authorizes demo_signed_authorized act reserve_action_def memory_journal_def
        ReserveRunnerAction_def new finish_def Let_def CompleteRunnerAction_def update_conv' dispatch_request_def)
qed

text \<open>The same grant, delivered twice, reaches GitHub once.\<close>

theorem github_dispatches_once_witness:
  "\<exists>m' x' exchanges gs. on_duty demo_hash [Deliver github_runner (\<lambda>i. 100) demo_signed, Deliver github_runner (\<lambda>i. 200) demo_signed]
       (NewMemory, (0, [])) = (m', (x', exchanges)) \<and>
     exchanges \<noteq> [] \<and> list_all2 (carries_out (demo_github 200 [])) gs (filter (\<lambda>q. hq_Method q \<noteq> MethodGet) (map fst exchanges)) \<and> length gs = 1"
proof -
  let ?duties = "[Deliver github_runner (\<lambda>i. 100) demo_signed, Deliver github_runner (\<lambda>i. 200) demo_signed]"
  obtain m x' q response result where e: "Runner_Execute demo_hash github_runner (\<lambda>i. 100) demo_signed (NewMemory, (0, [])) =
     ((m, (x', [(q, response)])), True, result, None)" and q: "hq_Method q = MethodPost" using demo_grant_dispatches by blast
  have j: "ru_Journal github_runner = Some memory_journal" by (simp add: github_runner_def)
  have duty: "on_duty demo_hash ?duties (NewMemory, (0, [])) = (m, (x', [(q, response)]))"
    using e mj.execute_replays[OF j e, of "\<lambda>i. 200"] by simp
  have "list_all (equipped (demo_github 200 []) {github_runner}) ?duties" using j by (auto simp: github_runner_def)
  from github_dispatches_once[OF this duty] obtain gs where
    "list_all2 (carries_out (demo_github 200 [])) gs (filter (\<lambda>q. hq_Method q \<noteq> MethodGet) (map fst [(q, response)]))" by blast
  moreover from this have "length gs = 1" using q by (auto dest: list_all2_lengthD)
  ultimately show ?thesis using duty by blast
qed

end
