(* ===== verification/Datadog.thy ===== *)
theory Datadog
  imports Adapter Go_HTTP
begin

text \<open>
  The Datadog verification adapter (\<^verbatim>\<open>adapters/datadog\<close>): the catalog of queries, the metric query over
  HTTP, the aggregation of its points and the evidence it turns into.  The HTTP client, the clock, the
  decoding of the answer, SHA-256 and the order in which \<^verbatim>\<open>sort.Slice\<close> leaves points of equal time
  are parameters, fields of the adapter's record.
\<close>

section \<open>float64 arithmetic\<close>

text \<open>
  A rational rounded to the nearest float64, ties to even: 53 significant bits, fewer below the normal
  range, an infinity from \<^verbatim>\<open>2^1024\<close> on.  \<open>Infinite True\<close> is the positive infinity.
\<close>

definition round_float :: "rat \<Rightarrow> float_value" where
  "round_float q = (if q = 0 then Finite 0
     else let (a, b) = quotient_of \<bar>q\<bar>; u = min (shift_up a b) 1074; d = shift_down a b;
              v = of_int (round_half_even (a * 2 ^ u) (b * 2 ^ d)) * 2 ^ d / 2 ^ u
          in if 2 ^ 1024 \<le> v then Infinite (0 < q) else Finite (if q < 0 then - v else v))"

fun float_add :: "float_value \<Rightarrow> float_value \<Rightarrow> float_value" where
  "float_add (Finite u) (Finite v) = round_float (u + v)"
| "float_add (Infinite s) (Finite v) = Infinite s"
| "float_add (Finite u) (Infinite s) = Infinite s"
| "float_add (Infinite s) (Infinite s') = (if s = s' then Infinite s else NotANumber)"
| "float_add _ _ = NotANumber"

text \<open>Division by a positive count.\<close>

fun float_over :: "float_value \<Rightarrow> nat \<Rightarrow> float_value" where
  "float_over (Finite u) n = round_float (u / of_nat n)"
| "float_over (Infinite s) n = Infinite s"
| "float_over NotANumber n = NotANumber"

fun float_le :: "float_value \<Rightarrow> float_value \<Rightarrow> bool" where
  "float_le (Finite u) (Finite v) \<longleftrightarrow> u \<le> v"
| "float_le (Infinite s) (Finite v) \<longleftrightarrow> \<not> s"
| "float_le (Finite u) (Infinite s) \<longleftrightarrow> s"
| "float_le (Infinite s) (Infinite s') \<longleftrightarrow> s \<longrightarrow> s'"
| "float_le _ _ \<longleftrightarrow> False"

definition float_less :: "float_value \<Rightarrow> float_value \<Rightarrow> bool" where
  "float_less u v \<longleftrightarrow> float_le u v \<and> u \<noteq> v"

text \<open>
  Conversion to \<^verbatim>\<open>int64\<close> truncates.  The language leaves the result open where the value does not fit;
  this is the smallest integer, as on amd64.
\<close>

fun int64_of :: "float_value \<Rightarrow> int" where
  "int64_of (Finite u) = (let i = (if u < 0 then \<lceil>u\<rceil> else \<lfloor>u\<rfloor>) in if - (2 ^ 63) \<le> i \<and> i < 2 ^ 63 then i else - (2 ^ 63))"
| "int64_of _ = - (2 ^ 63)"

section \<open>Query catalog\<close>

abbreviation DatadogName :: string where "DatadogName \<equiv> ''datadog''"
abbreviation DatadogVersion :: string where "DatadogVersion \<equiv> ''datadog-metrics-v1/v1''"

definition Site_apiURL :: "string \<Rightarrow> (error, string) result" where
  "Site_apiURL s =
     (if s \<in> {''datadoghq.com'', ''us3.datadoghq.com'', ''us5.datadoghq.com'', ''datadoghq.eu'', ''ap1.datadoghq.com'',
              ''ap2.datadoghq.com'', ''ddog-gov.com'', ''us2.ddog-gov.com''}
      then Inr (''https://api.'' @ s)
      else Inl (Errorf ''unsupported Datadog site %q''))"

record QueryKey =
  qk_Service :: string
  qk_Environment :: string

record MetricQuery =
  mq_Expression :: string
  mq_Comparator :: string
  mq_Threshold :: float_value
  mq_Aggregation :: string
  mq_MinimumPoints :: int
  mq_MaximumAge :: duration

definition no_query :: MetricQuery where
  "no_query = \<lparr>mq_Expression = [], mq_Comparator = [], mq_Threshold = Finite 0, mq_Aggregation = [], mq_MinimumPoints = 0, mq_MaximumAge = 0\<rparr>"

text \<open>Which error is reported depends on the order in which the map is walked; whether there is one does not.\<close>

definition DatadogConfig_Validate :: "string \<Rightarrow> (QueryKey \<times> MetricQuery) list \<Rightarrow> error option" where
  "DatadogConfig_Validate site queries = (case Site_apiURL site of
       Inl err \<Rightarrow> Some err
     | Inr _ \<Rightarrow>
         if queries = [] then Some (Errorf ''at least one Datadog query is required'')
         else fold (\<lambda>(key, query) checked. case checked of
             Some err \<Rightarrow> Some err
           | None \<Rightarrow>
               if TrimSpace (qk_Service key) = [] \<or> TrimSpace (qk_Environment key) = [] \<or> TrimSpace (mq_Expression query) = []
               then Some (Errorf ''Datadog query target and expression are required'')
               else if mq_Comparator query \<notin> {''lte'', ''gte''} then Some (Errorf ''unsupported comparator %q'')
               else if mq_Aggregation query \<notin> {''last'', ''avg'', ''max''} then Some (Errorf ''unsupported aggregation %q'')
               else if mq_MinimumPoints query \<le> 0 \<or> mq_MaximumAge query \<le> 0
               then Some (Errorf ''minimum points and maximum age must be positive for %s/%s'')
               else None) queries None)"

definition metric_compare :: "float_value \<Rightarrow> MetricQuery \<Rightarrow> AdapterStatus" where
  "metric_compare value query =
     (if mq_Comparator query = ''lte'' \<and> float_le value (mq_Threshold query)
         \<or> mq_Comparator query = ''gte'' \<and> float_le (mq_Threshold query) value
      then AdapterPass else AdapterFail)"

section \<open>Points\<close>

record metric_point =
  mp_at :: time
  mp_value :: float_value

type_synonym series = "float_value option list list"

fun valid_point :: "float_value option list \<Rightarrow> metric_point option" where
  "valid_point [Some t, Some v] =
     (if finite_value t \<and> finite_value v then Some \<lparr>mp_at = UnixMilli (int64_of t), mp_value = v\<rparr> else None)"
| "valid_point _ = None"

definition flattenPoints :: "(metric_point list \<Rightarrow> metric_point list) \<Rightarrow> series list \<Rightarrow> metric_point list" where
  "flattenPoints sort_points series = sort_points (List.map_filter valid_point (concat series))"

text \<open>One round of the loop, and the whole.\<close>

definition aggregate_step :: "string \<Rightarrow> float_value \<Rightarrow> metric_point \<Rightarrow> float_value" where
  "aggregate_step mode value item =
     (if mode = ''avg'' then float_add value (mp_value item)
      else if mode = ''max'' \<and> float_less value (mp_value item) then mp_value item
      else value)"

definition aggregate :: "metric_point list \<Rightarrow> string \<Rightarrow> float_value" where
  "aggregate points mode =
     (if points = [] then Finite 0
      else if mode = ''last'' then mp_value (last points)
      else let value = foldl (aggregate_step mode) (if mode = ''avg'' then Finite 0 else mp_value (hd points)) points in
        if mode = ''avg'' then float_over value (length points) else value)"

section \<open>Verify\<close>

record 'x DatadogAdapter =
  dd_Site :: string
  dd_Queries :: "(QueryKey \<times> MetricQuery) list"
  dd_client :: "'x HTTPDoer"
  dd_now :: "'x \<Rightarrow> 'x \<times> time"
  dd_sha256_hex :: "string \<Rightarrow> string"
  dd_decode :: "string \<Rightarrow> (string \<times> series list) option"
  dd_sort :: "metric_point list \<Rightarrow> metric_point list"

definition metric_evidence :: "(json \<Rightarrow> string) \<Rightarrow> 'x DatadogAdapter \<Rightarrow> VerificationRequest \<Rightarrow> AdapterStatus \<Rightarrow> string \<Rightarrow> MetricQuery
    \<Rightarrow> float_value \<Rightarrow> time \<Rightarrow> AdapterEvidence" where
  "metric_evidence digest a request status reason query value observedAt =
     (let evidence = \<lparr>ae_Status = status, ae_ReasonCode = reason, ae_Source = DatadogName,
            ae_QueryHash = ''sha256:'' @ dd_sha256_hex a (mq_Expression query), ae_Window = vr_Window request, ae_ObservedAt = observedAt,
            ae_ObservedValue = value, ae_Threshold = mq_Threshold query, ae_AdapterVersion = DatadogVersion, ae_EvidenceHash = []\<rparr> in
      evidence\<lparr>ae_EvidenceHash := (case EvidenceHash digest evidence of Inl err \<Rightarrow> [] | Inr hash \<Rightarrow> hash)\<rparr>)"

definition metric_request :: "'x DatadogAdapter \<Rightarrow> VerificationRequest \<Rightarrow> MetricQuery \<Rightarrow> Credential \<Rightarrow> HTTPRequest" where
  "metric_request a request query credential =
     \<lparr>hq_Method = MethodGet,
      hq_URL = (case Site_apiURL (dd_Site a) of Inl err \<Rightarrow> [] | Inr url \<Rightarrow> url) @ ''/api/v1/query?'' @
        Values_Encode [(''from'', int_text (time_Seconds (ow_From (vr_Window request)))), (''query'', mq_Expression query),
          (''to'', int_text (time_Seconds (ow_To (vr_Window request))))],
      hq_Header = [(''Accept'', ''application/json''), (''DD-API-KEY'', Credential_Value credential ''api_key''),
        (''DD-APPLICATION-KEY'', Credential_Value credential ''app_key'')],
      hq_Body = JNull\<rparr>"

text \<open>The judgement of decoded points; \<open>now\<close> is the reading of the clock for evidence that has no observation time.\<close>

definition judge_points :: "(json \<Rightarrow> string) \<Rightarrow> 'x DatadogAdapter \<Rightarrow> VerificationRequest \<Rightarrow> MetricQuery \<Rightarrow> metric_point list \<Rightarrow> time \<Rightarrow> AdapterEvidence" where
  "judge_points digest a request query points now =
     (let value = aggregate points (mq_Aggregation query); latest = mp_at (last points); window = vr_Window request in
      if points = [] then metric_evidence digest a request AdapterMissing ''NO_SERIES'' query (Finite 0) now
      else if int (length points) < mq_MinimumPoints query
      then metric_evidence digest a request AdapterInconclusive ''INSUFFICIENT_POINTS'' query value now
      else if mq_MaximumAge query < time_Sub (ow_To window) latest \<or> latest < ow_From window \<or> ow_To window + 60000000000 < latest
      then metric_evidence digest a request AdapterInconclusive ''STALE_SERIES'' query value latest
      else let status = metric_compare value query in
        metric_evidence digest a request status (if status = AdapterFail then ''THRESHOLD_BREACHED'' else ''THRESHOLD_MET'') query value latest)"

definition Datadog_Verify :: "(json \<Rightarrow> string) \<Rightarrow> 'x DatadogAdapter \<Rightarrow> 'x \<Rightarrow> VerificationRequest \<Rightarrow> Credential
    \<Rightarrow> 'x \<times> (error, AdapterEvidence) result" where
  "Datadog_Verify digest a x request credential =
     (case map_of (dd_Queries a) \<lparr>qk_Service = at_Service (vr_Target request), qk_Environment = at_Environment (vr_Target request)\<rparr> of
        None \<Rightarrow> (case dd_now a x of (x1, now) \<Rightarrow>
            (x1, Inr (metric_evidence digest a request AdapterMissing ''QUERY_NOT_CONFIGURED'' no_query (Finite 0) now)))
      | Some query \<Rightarrow>
          if ow_From (vr_Window request) = 0 \<or> ow_To (vr_Window request) = 0 \<or> \<not> ow_From (vr_Window request) < ow_To (vr_Window request)
             \<or> ad_ExternalExecutionID (vr_Deployment request) = []
          then (x, Inl (AdapterError ErrorTerminal ''verify.validate'' [] (Errorf ''valid window and deployment are required'')))
          else (case dd_now a x of (x1, now) \<Rightarrow>
            if \<not> ValidAt credential now \<or> Credential_Value credential ''api_key'' = [] \<or> Credential_Value credential ''app_key'' = []
            then (x1, Inl (AdapterError ErrorTerminal ''verify.credential'' [] (Errorf ''valid Datadog API and application keys are required'')))
            else (case dd_client a (metric_request a request query credential) x1 of (x2, answer) \<Rightarrow>
              (case dd_now a x2 of (x3, later) \<Rightarrow>
                (case answer of
                   Inl err \<Rightarrow> (x3, Inr (metric_evidence digest a request AdapterInconclusive ''SOURCE_UNAVAILABLE'' query (Finite 0) later))
                 | Inr response \<Rightarrow>
                     if hs_StatusCode response \<noteq> StatusOK
                     then if hs_StatusCode response = StatusTooManyRequests \<or> 500 \<le> hs_StatusCode response
                          then (x3, Inr (metric_evidence digest a request AdapterInconclusive ''SOURCE_UNAVAILABLE'' query (Finite 0) later))
                          else (x2, Inl (AdapterError ErrorTerminal ''verify.query'' [] (Errorf ''Datadog returned HTTP %d'')))
                     else (case dd_decode a (take (2 ^ 23) (hs_Body response)) of
                         Some (status, series) \<Rightarrow>
                           if status \<noteq> ''ok''
                           then (x3, Inr (metric_evidence digest a request AdapterInconclusive ''MALFORMED_RESPONSE'' query (Finite 0) later))
                           else let points = flattenPoints (dd_sort a) series in
                             (if points = [] \<or> int (length points) < mq_MinimumPoints query then x3 else x2,
                              Inr (judge_points digest a request query points later))
                       | None \<Rightarrow> (x3, Inr (metric_evidence digest a request AdapterInconclusive ''MALFORMED_RESPONSE'' query (Finite 0) later))))))))"


section \<open>Aggregation\<close>

lemma float_le_refl: "finite_value u \<Longrightarrow> float_le u u"
  by (cases u) auto

lemma float_le_trans: "float_le u v \<Longrightarrow> float_le v w \<Longrightarrow> float_le u w"
  by (cases u; cases v; cases w) auto

lemma float_not_less: "finite_value u \<Longrightarrow> finite_value v \<Longrightarrow> \<not> float_less u v \<Longrightarrow> float_le v u"
  by (cases u; cases v) (auto simp: float_less_def)

lemma flattenPoints_finite:
  assumes "\<And>ps. mset (sort_points ps) = mset ps" "p \<in> set (flattenPoints sort_points series)"
  shows "finite_value (mp_value p)"
proof -
  have "p \<in> set (List.map_filter valid_point (concat series))"
    using assms by (metis flattenPoints_def set_mset_mset)
  then obtain raw where "valid_point raw = Some p" by (auto simp: map_filter_def)
  then show ?thesis by (cases raw rule: valid_point.cases) (auto split: if_splits)
qed

lemma aggregate_step_max:
  assumes "finite_value v" "finite_value (mp_value p)"
  shows "finite_value (aggregate_step ''max'' v p) \<and> float_le v (aggregate_step ''max'' v p) \<and>
     float_le (mp_value p) (aggregate_step ''max'' v p) \<and> (aggregate_step ''max'' v p = v \<or> aggregate_step ''max'' v p = mp_value p)"
proof (cases "float_less v (mp_value p)")
  case True
  then show ?thesis using assms float_le_refl[OF assms(2)] by (simp add: aggregate_step_def float_less_def)
next
  case False
  then show ?thesis using assms float_le_refl[OF assms(1)] float_not_less[OF assms False] by (simp add: aggregate_step_def)
qed

text \<open>The running maximum bounds what came before.\<close>

lemma running_max:
  assumes "finite_value v" "\<forall>p \<in> set points. finite_value (mp_value p)"
  shows "let m = foldl (aggregate_step ''max'') v points in
     finite_value m \<and> float_le v m \<and> (\<forall>p \<in> set points. float_le (mp_value p) m) \<and> (m = v \<or> m \<in> mp_value ` set points)"
  using assms
proof (induction points arbitrary: v)
  case (Cons p points)
  let ?v = "aggregate_step ''max'' v p"
  let ?m = "foldl (aggregate_step ''max'') ?v points"
  have v: "finite_value ?v" "float_le v ?v" "float_le (mp_value p) ?v" "?v = v \<or> ?v = mp_value p"
    using aggregate_step_max[OF Cons.prems(1), of p] Cons.prems(2) by simp_all
  have m: "finite_value ?m" "float_le ?v ?m" "\<forall>p \<in> set points. float_le (mp_value p) ?m" "?m = ?v \<or> ?m \<in> mp_value ` set points"
    using Cons.IH[OF v(1)] Cons.prems(2) by (simp_all add: Let_def)
  have "float_le v ?m" "float_le (mp_value p) ?m" using float_le_trans[OF v(2) m(2)] float_le_trans[OF v(3) m(2)] by simp_all
  moreover have "?m = v \<or> ?m \<in> mp_value ` set (p # points)" using m(4) v(4) by auto
  ultimately show ?case using m(1,3) by (simp add: Let_def)
qed (simp add: float_le_refl)

lemma aggregate_max:
  assumes "points \<noteq> []" "\<forall>p \<in> set points. finite_value (mp_value p)"
  shows "aggregate points ''max'' \<in> mp_value ` set points \<and> (\<forall>p \<in> set points. float_le (mp_value p) (aggregate points ''max''))"
proof -
  have "finite_value (mp_value (hd points))" "mp_value (hd points) \<in> mp_value ` set points" using assms by auto
  then show ?thesis using running_max[of "mp_value (hd points)" points] assms by (auto simp: aggregate_def Let_def)
qed

section \<open>What the evidence says\<close>

lemma metric_evidence_sel [simp]:
  "ae_Status (metric_evidence digest a request status reason query value t) = status"
  "ae_ReasonCode (metric_evidence digest a request status reason query value t) = reason"
  "ae_ObservedValue (metric_evidence digest a request status reason query value t) = value"
  "ae_ObservedAt (metric_evidence digest a request status reason query value t) = t"
  "ae_Threshold (metric_evidence digest a request status reason query value t) = mq_Threshold query"
  "ae_Window (metric_evidence digest a request status reason query value t) = vr_Window request"
  "ae_QueryHash (metric_evidence digest a request status reason query value t) = ''sha256:'' @ dd_sha256_hex a (mq_Expression query)"
  by (simp_all add: metric_evidence_def Let_def)

text \<open>Evidence of a valid window with finite values passes the service's validation.\<close>

lemma metric_evidence_valid:
  assumes "Status_Valid status" "TrimSpace reason \<noteq> []" "finite_value value" "finite_value (mq_Threshold query)"
    and "ow_From (vr_Window request) \<noteq> 0" "ow_To (vr_Window request) \<noteq> 0" "ow_From (vr_Window request) < ow_To (vr_Window request)" "t \<noteq> 0"
    and "json_time (ow_From (vr_Window request))" "json_time (ow_To (vr_Window request))" "json_time t"
  shows "ValidateEvidence digest (metric_evidence digest a request status reason query value t) = None"
proof -
  let ?e = "metric_evidence digest a request status reason query value t"
  have blank: "TrimSpace DatadogName \<noteq> []" "TrimSpace DatadogVersion \<noteq> []" "TrimSpace (''sha256:'' @ u) \<noteq> []" for u
    by (rule TrimSpace_graphic[of "CHR ''d''"] TrimSpace_graphic[of "CHR ''s''"]; simp)+
  obtain u v where "mq_Threshold query = Finite u" "value = Finite v"
    using assms(3,4) by (cases "mq_Threshold query"; cases "value") auto
  then obtain payload where hash: "EvidenceHash digest ?e = Inr (hashValue digest payload)" "ae_EvidenceHash ?e = hashValue digest payload"
    using assms(9-11) by (auto simp: metric_evidence_def EvidenceHash_def evidence_json_def Let_def)
  have "adapter_ValidateEvidence ?e = None"
    using assms(1-8) blank hash(2) by (simp add: adapter_ValidateEvidence_def hashValue_def) (simp add: metric_evidence_def Let_def)
  then show ?thesis using hash by (simp add: ValidateEvidence_def)
qed

lemma judge_points_pass:
  assumes "ae_Status (judge_points digest a request query points t) = AdapterPass"
  shows "points \<noteq> [] \<and> mq_MinimumPoints query \<le> int (length points) \<and>
     time_Sub (ow_To (vr_Window request)) (mp_at (last points)) \<le> mq_MaximumAge query \<and>
     ow_From (vr_Window request) \<le> mp_at (last points) \<and> mp_at (last points) \<le> ow_To (vr_Window request) + 60000000000 \<and>
     metric_compare (aggregate points (mq_Aggregation query)) query = AdapterPass \<and>
     judge_points digest a request query points t =
       metric_evidence digest a request AdapterPass ''THRESHOLD_MET'' query (aggregate points (mq_Aggregation query)) (mp_at (last points))"
  using assms by (auto simp: judge_points_def Let_def split: if_splits)

lemma verify_pass:
  assumes "Datadog_Verify digest a x request credential = (x', Inr e)" "ae_Status e = AdapterPass"
  shows "\<exists>query y response series t.
     map_of (dd_Queries a) \<lparr>qk_Service = at_Service (vr_Target request), qk_Environment = at_Environment (vr_Target request)\<rparr> = Some query \<and>
     snd (dd_client a (metric_request a request query credential) y) = Inr response \<and> hs_StatusCode response = StatusOK \<and>
     dd_decode a (take (2 ^ 23) (hs_Body response)) = Some (''ok'', series) \<and>
     e = judge_points digest a request query (flattenPoints (dd_sort a) series) t"
proof -
  obtain query where q: "map_of (dd_Queries a) \<lparr>qk_Service = at_Service (vr_Target request), qk_Environment = at_Environment (vr_Target request)\<rparr> = Some query"
    using assms by (auto simp: Datadog_Verify_def split: option.splits prod.splits)
  obtain x1 now where n: "dd_now a x = (x1, now)" by fastforce
  obtain x2 answer where d: "dd_client a (metric_request a request query credential) x1 = (x2, answer)" by fastforce
  obtain x3 later where l: "dd_now a x2 = (x3, later)" by fastforce
  note eval = assms(1)[unfolded Datadog_Verify_def q option.case n prod.case d l]
  obtain response where r: "answer = Inr response" "hs_StatusCode response = StatusOK"
    using eval assms(2) by (auto split: if_splits sum.splits)
  then obtain series where s: "dd_decode a (take (2 ^ 23) (hs_Body response)) = Some (''ok'', series)"
    using eval assms(2) by (auto split: if_splits option.splits)
  then have "e = judge_points digest a request query (flattenPoints (dd_sort a) series) later"
    using eval r by (auto simp: Let_def split: if_splits)
  then show ?thesis using q d r s by (intro exI[of _ query] exI[of _ x1] exI[of _ response] exI[of _ series] exI[of _ later]) simp
qed

lemma sorted_last: "sorted (map f xs) \<Longrightarrow> x \<in> set xs \<Longrightarrow> f x \<le> f (last xs)"
  by (induction xs) auto

text \<open>
  C11.  A pass was measured.  Let \<^verbatim>\<open>sort.Slice\<close> order the points by time.  When the verification service,
  configured with the Datadog adapter, returns evidence with status PASS, then the target has a query in
  the catalog; Datadog answered that query over the requested window with status 200 and a well-formed
  result; there are at least the required number of points; the observation time is that of the newest
  point, lies in the window (one minute of skew allowed at its end) and is not older than the query
  allows; the observed value is finite, is the aggregate of the points and meets the threshold of the
  query, and under the aggregation \<^verbatim>\<open>max\<close> no point exceeds it; and the evidence hash is the hash of the
  evidence.  Missing or inconclusive measurements never pass.
\<close>

theorem datadog_pass_is_measured:
  assumes sorts: "\<forall>ps. mset (dd_sort a ps) = mset ps \<and> sorted (map mp_at (dd_sort a ps))"
    and service: "vs_Adapter s = Some (\<lambda>request credential. snd (Datadog_Verify digest a x request credential))"
    and pass: "Service_Verify digest s request = Inr e" "ae_Status e = AdapterPass"
  shows "\<exists>query credential y response series points.
     map_of (dd_Queries a) \<lparr>qk_Service = at_Service (vr_Target request), qk_Environment = at_Environment (vr_Target request)\<rparr> = Some query \<and>
     snd (dd_client a (metric_request a request query credential) y) = Inr response \<and> hs_StatusCode response = 200 \<and>
     dd_decode a (take (2 ^ 23) (hs_Body response)) = Some (''ok'', series) \<and> points = flattenPoints (dd_sort a) series \<and>
     mq_MinimumPoints query \<le> int (length points) \<and>
     (\<exists>p \<in> set points. mp_at p = ae_ObservedAt e) \<and> (\<forall>p \<in> set points. mp_at p \<le> ae_ObservedAt e) \<and>
     ow_From (vr_Window request) \<le> ae_ObservedAt e \<and> ae_ObservedAt e \<le> ow_To (vr_Window request) + 60000000000 \<and>
     time_Sub (ow_To (vr_Window request)) (ae_ObservedAt e) \<le> mq_MaximumAge query \<and>
     ae_ObservedValue e = aggregate points (mq_Aggregation query) \<and> finite_value (ae_ObservedValue e) \<and>
     (mq_Comparator query = ''lte'' \<and> float_le (ae_ObservedValue e) (mq_Threshold query) \<or>
      mq_Comparator query = ''gte'' \<and> float_le (mq_Threshold query) (ae_ObservedValue e)) \<and>
     (mq_Aggregation query = ''max'' \<longrightarrow> (\<forall>p \<in> set points. float_le (mp_value p) (ae_ObservedValue e))) \<and>
     EvidenceHash digest e = Inr (ae_EvidenceHash e)"
proof -
  obtain credential where v: "snd (Datadog_Verify digest a x request credential) = Inr e" and valid: "ValidateEvidence digest e = None"
    using pass(1) service by (auto simp: Service_Verify_def split: option.splits if_splits sum.splits)
  obtain x' where "Datadog_Verify digest a x request credential = (x', Inr e)" using v by (metis prod.collapse)
  from verify_pass[OF this pass(2)] obtain query y response series t where q:
    "map_of (dd_Queries a) \<lparr>qk_Service = at_Service (vr_Target request), qk_Environment = at_Environment (vr_Target request)\<rparr> = Some query"
    "snd (dd_client a (metric_request a request query credential) y) = Inr response" "hs_StatusCode response = StatusOK"
    "dd_decode a (take (2 ^ 23) (hs_Body response)) = Some (''ok'', series)"
    "e = judge_points digest a request query (flattenPoints (dd_sort a) series) t" by blast
  define points where "points = flattenPoints (dd_sort a) series"
  have j: "points \<noteq> []" "mq_MinimumPoints query \<le> int (length points)"
     "time_Sub (ow_To (vr_Window request)) (mp_at (last points)) \<le> mq_MaximumAge query"
     "ow_From (vr_Window request) \<le> mp_at (last points)" "mp_at (last points) \<le> ow_To (vr_Window request) + 60000000000"
     "metric_compare (aggregate points (mq_Aggregation query)) query = AdapterPass"
     "e = metric_evidence digest a request AdapterPass ''THRESHOLD_MET'' query (aggregate points (mq_Aggregation query)) (mp_at (last points))"
    using judge_points_pass[of digest a request query points t] pass(2) q(5) unfolding points_def by auto
  have "sorted (map mp_at points)" using sorts by (simp add: points_def flattenPoints_def)
  then have newest: "\<forall>p \<in> set points. mp_at p \<le> mp_at (last points)"
    by (auto intro: sorted_last)
  have finite: "\<forall>p \<in> set points. finite_value (mp_value p)"
    using sorts flattenPoints_finite unfolding points_def by blast
  have "finite_value (ae_ObservedValue e)" "EvidenceHash digest e = Inr (ae_EvidenceHash e)"
    using valid by (auto simp: ValidateEvidence_def adapter_ValidateEvidence_def split: option.splits if_splits sum.splits)
  moreover have "mq_Aggregation query = ''max'' \<longrightarrow> (\<forall>p \<in> set points. float_le (mp_value p) (ae_ObservedValue e))"
    using aggregate_max[OF j(1) finite] j(7) by simp
  moreover have "mq_Comparator query = ''lte'' \<and> float_le (ae_ObservedValue e) (mq_Threshold query) \<or>
      mq_Comparator query = ''gte'' \<and> float_le (mq_Threshold query) (ae_ObservedValue e)"
    using j(6,7) by (simp add: metric_compare_def split: if_splits)
  moreover have "ae_ObservedAt e = mp_at (last points)" "ae_ObservedValue e = aggregate points (mq_Aggregation query)" using j(7) by simp_all
  moreover have "\<exists>p \<in> set points. mp_at p = mp_at (last points)" using j(1) last_in_set by blast
  ultimately show ?thesis
    using q(1-4) j(2-5) newest points_def
    by (intro exI[of _ query] exI[of _ credential] exI[of _ y] exI[of _ response] exI[of _ series] exI[of _ points]) simp
qed

text \<open>A catalog with one query, answered by a series with one point at the Unix epoch.\<close>

definition demo_metric_query :: MetricQuery where
  "demo_metric_query = \<lparr>mq_Expression = ''max:errors'', mq_Comparator = ''lte'', mq_Threshold = Finite 5, mq_Aggregation = ''max'',
     mq_MinimumPoints = 1, mq_MaximumAge = 60\<rparr>"

definition demo_metric_digest :: "json \<Rightarrow> string" where
  "demo_metric_digest j = ''a''"

definition demo_datadog :: "unit DatadogAdapter" where
  "demo_datadog = \<lparr>dd_Site = ''datadoghq.eu'', dd_Queries = [(\<lparr>qk_Service = ''pay'', qk_Environment = ''prod''\<rparr>, demo_metric_query)],
     dd_client = (\<lambda>q y. (y, Inr \<lparr>hs_StatusCode = 200, hs_Body = []\<rparr>)), dd_now = (\<lambda>y. (y, 50)), dd_sha256_hex = (\<lambda>s. ''00''),
     dd_decode = (\<lambda>body. Some (''ok'', [[[Some (Finite 0), Some (Finite 3)]]])), dd_sort = sort_key mp_at\<rparr>"

definition demo_metric_request :: VerificationRequest where
  "demo_metric_request = \<lparr>vr_Target = \<lparr>at_Service = ''pay'', at_Environment = ''prod''\<rparr>,
     vr_Deployment = no_deployment\<lparr>ad_ExternalExecutionID := ''7''\<rparr>,
     vr_Window = \<lparr>ow_From = UnixMilli 0 - 10, ow_To = UnixMilli 0 + 10\<rparr>\<rparr>"

definition demo_metric_service :: VerificationService where
  "demo_metric_service = demo_verification_service\<lparr>vs_Adapter :=
     Some (\<lambda>request credential. snd (Datadog_Verify demo_metric_digest demo_datadog () request credential))\<rparr>"

definition demo_metric_evidence :: AdapterEvidence where
  "demo_metric_evidence = metric_evidence demo_metric_digest demo_datadog demo_metric_request AdapterPass ''THRESHOLD_MET'' demo_metric_query
     (Finite 3) (UnixMilli 0)"

lemma demo_datadog_sorts: "mset (dd_sort demo_datadog ps) = mset ps \<and> sorted (map mp_at (dd_sort demo_datadog ps))"
  by (simp add: demo_datadog_def)

lemma demo_datadog_verifies:
  "Datadog_Verify demo_metric_digest demo_datadog () demo_metric_request demo_credential = ((), Inr demo_metric_evidence)"
proof -
  have points: "flattenPoints (sort_key mp_at) [[[Some (Finite 0), Some (Finite 3)]]] = [\<lparr>mp_at = UnixMilli 0, mp_value = Finite 3\<rparr>]"
    by (simp add: flattenPoints_def List.map_filter_def)
  have "aggregate [\<lparr>mp_at = UnixMilli 0, mp_value = Finite 3\<rparr>] ''max'' = Finite 3"
    by (simp add: aggregate_def aggregate_step_def float_less_def)
  then have "judge_points demo_metric_digest demo_datadog demo_metric_request demo_metric_query [\<lparr>mp_at = UnixMilli 0, mp_value = Finite 3\<rparr>] t =
      demo_metric_evidence" for t
    by (simp add: judge_points_def demo_metric_evidence_def demo_metric_query_def demo_metric_request_def metric_compare_def time_Sub_def Let_def)
  then show ?thesis
    using points by (simp add: Datadog_Verify_def demo_datadog_def demo_metric_request_def UnixMilli_def ValidAt_def demo_credential_def
        Credential_Value_def)
qed

theorem datadog_pass_is_measured_witness:
  "Service_Verify demo_metric_digest demo_metric_service demo_metric_request = Inr demo_metric_evidence \<and>
   EvidenceHash demo_metric_digest demo_metric_evidence = Inr (ae_EvidenceHash demo_metric_evidence) \<and>
   ae_ObservedValue demo_metric_evidence = Finite 3"
proof -
  have "TrimSpace ''THRESHOLD_MET'' \<noteq> []" by (rule nonblank; simp)
  then have "ValidateEvidence demo_metric_digest demo_metric_evidence = None"
    unfolding demo_metric_evidence_def
    by (intro metric_evidence_valid) (simp_all add: Status_Valid_def demo_metric_query_def demo_metric_request_def UnixMilli_def json_time_def)
  then have ok: "Service_Verify demo_metric_digest demo_metric_service demo_metric_request = Inr demo_metric_evidence"
    using demo_datadog_verifies
    by (simp add: Service_Verify_def demo_metric_service_def demo_verification_service_def DatadogBroker_Acquire_def target_of_def
        Request_Validate_def demo_credential_def Credential_Value_def ValidAt_def)
      (simp add: demo_metric_request_def)
  have sorts: "\<forall>ps. mset (dd_sort demo_datadog ps) = mset ps \<and> sorted (map mp_at (dd_sort demo_datadog ps))"
    using demo_datadog_sorts by blast
  have service: "vs_Adapter demo_metric_service = Some (\<lambda>request credential. snd (Datadog_Verify demo_metric_digest demo_datadog () request credential))"
    by (simp add: demo_metric_service_def)
  have pass: "ae_Status demo_metric_evidence = AdapterPass" "ae_ObservedValue demo_metric_evidence = Finite 3"
    by (simp_all add: demo_metric_evidence_def)
  have "EvidenceHash demo_metric_digest demo_metric_evidence = Inr (ae_EvidenceHash demo_metric_evidence)"
    using datadog_pass_is_measured[OF sorts service ok pass(1)] by blast
  then show ?thesis using ok pass(2) by blast
qed

end
