(* ===== verification/Executor.thy ===== *)
theory Executor
  imports Adapter "HOL-Library.AList"
begin

text \<open>
  \<^verbatim>\<open>internal/executor\<close>: the executor interface of the release engine, as operations on the state \<open>'x\<close>
  of the external system, and the mock executor.
\<close>

section \<open>Interface\<close>

record ExecRequest =
  xq_Service :: string
  xq_Environment :: string
  xq_DesiredVersion :: string
  xq_IdempotencyKey :: string

record ExecDeployment =
  xd_ExternalID :: string
  xd_StartedAt :: time
  xd_FinishedAt :: time

record VerificationResult =
  xv_Status :: AdapterStatus
  xv_Healthy :: bool
  xv_Reason :: string
  xv_ObservedValue :: float_value
  xv_Threshold :: float_value
  xv_Evidence :: AdapterEvidence

definition Outcome :: "VerificationResult \<Rightarrow> AdapterStatus" where
  "Outcome r = (if Status_Valid (xv_Status r) then xv_Status r else if xv_Healthy r then AdapterPass else AdapterFail)"

text \<open>The conversion of an outcome to the domain's verification status.\<close>

definition status_of :: "AdapterStatus \<Rightarrow> VerificationStatus" where
  "status_of s = (if s = AdapterPass then VerificationPass else if s = AdapterFail then VerificationFail
     else if s = AdapterInconclusive then VerificationInconclusive else VerificationMissing)"

record 'x ReleaseExecutor =
  xe_Deploy :: "'x \<Rightarrow> ExecRequest \<Rightarrow> 'x \<times> (error, ExecDeployment) result"
  xe_Verify :: "'x \<Rightarrow> ExecDeployment \<Rightarrow> 'x \<times> (error, VerificationResult) result"
  xe_Rollback :: "'x \<Rightarrow> ExecDeployment \<Rightarrow> 'x \<times> (error, ExecDeployment) result"

section \<open>The mock executor\<close>

record MockBehavior =
  mb_DeployError :: bool
  mb_VerifyHealthy :: bool
  mb_VerifyError :: bool
  mb_RollbackError :: bool
  mb_VerifyStatus :: AdapterStatus
  mb_RollbackVerifyStatus :: AdapterStatus
  mb_RollbackVerifyError :: bool

definition no_behavior :: MockBehavior where
  "no_behavior = \<lparr>mb_DeployError = False, mb_VerifyHealthy = False, mb_VerifyError = False, mb_RollbackError = False,
     mb_VerifyStatus = [], mb_RollbackVerifyStatus = [], mb_RollbackVerifyError = False\<rparr>"

record Mock =
  mk_deployments :: "(string \<times> ExecDeployment) list"
  mk_serviceByID :: "string \<Rightarrow> string"
  mk_rollbackByID :: "string \<Rightarrow> bool"
  mk_behavior :: "(string \<times> MockBehavior) list"
  mk_deployCalls :: "string \<Rightarrow> int"

definition NewMock :: "(string \<times> MockBehavior) list \<Rightarrow> Mock" where
  "NewMock behavior = \<lparr>mk_deployments = [], mk_serviceByID = (\<lambda>_. []), mk_rollbackByID = (\<lambda>_. False), mk_behavior = behavior,
     mk_deployCalls = (\<lambda>_. 0)\<rparr>"

definition behavior_of :: "Mock \<Rightarrow> string \<Rightarrow> MockBehavior" where
  "behavior_of m service = (case map_of (mk_behavior m) service of None \<Rightarrow> no_behavior | Some b \<Rightarrow> b)"

definition Mock_Deploy :: "time \<Rightarrow> Mock \<Rightarrow> ExecRequest \<Rightarrow> Mock \<times> (error, ExecDeployment) result" where
  "Mock_Deploy now m request = (case map_of (mk_deployments m) (xq_IdempotencyKey request) of
       Some existing \<Rightarrow> (m, Inr existing)
     | None \<Rightarrow>
         (let m1 = m\<lparr>mk_deployCalls := (mk_deployCalls m)(xq_IdempotencyKey request := mk_deployCalls m (xq_IdempotencyKey request) + 1)\<rparr> in
          if mb_DeployError (behavior_of m (xq_Service request)) then (m1, Inl (Errorf ''simulated deploy failure''))
          else (let deployment = \<lparr>xd_ExternalID = ''mock-'' @ xq_Service request @ ''-'' @ nat_text (length (mk_deployments m) + 1),
                     xd_StartedAt = now, xd_FinishedAt = now\<rparr> in
            (m1\<lparr>mk_deployments := AList.update (xq_IdempotencyKey request) deployment (mk_deployments m),
                mk_serviceByID := (mk_serviceByID m)(xd_ExternalID deployment := xq_Service request)\<rparr>,
             Inr deployment))))"

definition mock_query_hash :: string where
  "mock_query_hash = ''sha256:'' @ replicate 64 CHR ''a''"

text \<open>The values 0.1 and 8.3 are the nearest float64 values.\<close>

definition mockVerification :: "(json \<Rightarrow> string) \<Rightarrow> time \<Rightarrow> ExecDeployment \<Rightarrow> AdapterStatus \<Rightarrow> string \<Rightarrow> VerificationResult" where
  "mockVerification digest now deployment status reason =
     (let value = Finite (if status = AdapterFail then float64 83 10 else float64 1 10);
          evidence = \<lparr>ae_Status = status, ae_ReasonCode = status, ae_Source = ''mock'', ae_QueryHash = mock_query_hash,
            ae_Window = \<lparr>ow_From = (if \<not> xd_StartedAt deployment < now then now - 60000000000 else xd_StartedAt deployment), ow_To = now\<rparr>,
            ae_ObservedAt = now, ae_ObservedValue = value, ae_Threshold = Finite 1, ae_AdapterVersion = ''mock/v1'', ae_EvidenceHash = []\<rparr>
      in \<lparr>xv_Status = status, xv_Healthy = (status = AdapterPass), xv_Reason = reason, xv_ObservedValue = value, xv_Threshold = Finite 1,
          xv_Evidence = evidence\<lparr>ae_EvidenceHash := (case EvidenceHash digest evidence of Inl err \<Rightarrow> [] | Inr hash \<Rightarrow> hash)\<rparr>\<rparr>)"

definition Mock_Verify :: "(json \<Rightarrow> string) \<Rightarrow> time \<Rightarrow> Mock \<Rightarrow> ExecDeployment \<Rightarrow> Mock \<times> (error, VerificationResult) result" where
  "Mock_Verify digest now m deployment =
     (let service = mk_serviceByID m (xd_ExternalID deployment); b = behavior_of m service;
          configured = (map_of (mk_behavior m) service \<noteq> None) in
      if mk_rollbackByID m (xd_ExternalID deployment) then
        (if mb_RollbackVerifyError b then (m, Inl (Errorf ''simulated rollback metrics failure''))
         else (m, Inr (mockVerification digest now deployment
                 (if Status_Valid (mb_RollbackVerifyStatus b) then mb_RollbackVerifyStatus b else AdapterPass) ''simulated rollback verification'')))
      else if mb_VerifyError b then (m, Inl (Errorf ''simulated metrics failure''))
      else (m, Inr (mockVerification digest now deployment
              (if Status_Valid (mb_VerifyStatus b) then mb_VerifyStatus b
               else if configured \<and> \<not> mb_VerifyHealthy b then AdapterFail else AdapterPass) ''mock health check'')))"

definition Mock_Rollback :: "time \<Rightarrow> Mock \<Rightarrow> ExecDeployment \<Rightarrow> Mock \<times> (error, ExecDeployment) result" where
  "Mock_Rollback now m deployment =
     (let service = mk_serviceByID m (xd_ExternalID deployment) in
      if mb_RollbackError (behavior_of m service) then (m, Inl (Errorf ''simulated rollback failure''))
      else (let rolledBack = \<lparr>xd_ExternalID = ''rollback-'' @ xd_ExternalID deployment, xd_StartedAt = now, xd_FinishedAt = now\<rparr> in
        (m\<lparr>mk_serviceByID := (mk_serviceByID m)(xd_ExternalID rolledBack := service),
           mk_rollbackByID := (mk_rollbackByID m)(xd_ExternalID rolledBack := True)\<rparr>, Inr rolledBack)))"

definition DeployCalls :: "Mock \<Rightarrow> string \<Rightarrow> int" where
  "DeployCalls m idempotencyKey = mk_deployCalls m idempotencyKey"

text \<open>With the clock standing at \<open>now\<close>.\<close>

definition mock_executor :: "(json \<Rightarrow> string) \<Rightarrow> time \<Rightarrow> Mock ReleaseExecutor" where
  "mock_executor digest now = \<lparr>xe_Deploy = Mock_Deploy now, xe_Verify = Mock_Verify digest now, xe_Rollback = Mock_Rollback now\<rparr>"

text \<open>A successful deployment is idempotent: the same key returns it again without another call.\<close>

lemma Mock_Deploy_idempotent:
  assumes "Mock_Deploy now m request = (m', Inr deployment)" and "xq_IdempotencyKey request' = xq_IdempotencyKey request"
  shows "Mock_Deploy later m' request' = (m', Inr deployment)"
  using assms by (auto simp: Mock_Deploy_def Let_def update_conv' split: option.splits if_splits)

end
