(* ===== verification/Engine.thy ===== *)
theory Engine
  imports Executor Planner Policy Store
begin

text \<open>
  \<^verbatim>\<open>internal/engine\<close>: the in-process release engine.  Store and executor are the interfaces the code
  uses, as operations on their states \<open>'s\<close> and \<open>'x\<close>; the clock and the random identifiers are
  streams whose positions are part of the state.
\<close>

section \<open>State\<close>

record 's EngineStore =
  es_CreateRun :: "'s \<Rightarrow> ReleaseRun \<Rightarrow> 's \<times> (error, ReleaseRun option \<times> bool) result"
  es_GetRun :: "'s \<Rightarrow> string \<Rightarrow> (error, ReleaseRun) result"
  es_UpdateRun :: "'s \<Rightarrow> ReleaseRun \<Rightarrow> int \<Rightarrow> 's \<times> (error, ReleaseRun) result"
  es_AppendAudit :: "'s \<Rightarrow> AuditEvent \<Rightarrow> 's \<times> error option"
  es_AuditEvents :: "'s \<Rightarrow> string \<Rightarrow> AuditEvent list"

record ('s, 'x) Engine =
  en_digest :: "json \<Rightarrow> string"
  en_planner :: Planner
  en_policy :: "evaluator option"
  en_executor :: "'x ReleaseExecutor"
  en_store :: "'s EngineStore"
  en_now :: "nat \<Rightarrow> time"
  en_random :: "nat \<Rightarrow> string"

record ('s, 'x) world =
  w_store :: 's
  w_external :: 'x
  w_clock :: nat
  w_ids :: nat

abbreviation ErrInvalidRequest :: error where "ErrInvalidRequest \<equiv> Sentinel ''invalid release request''"
abbreviation ErrApproval :: error where "ErrApproval \<equiv> Sentinel ''approval rejected''"

definition engine_now :: "('s, 'x) Engine \<Rightarrow> ('s, 'x) world \<Rightarrow> ('s, 'x) world \<times> time" where
  "engine_now e w = (w\<lparr>w_clock := Suc (w_clock w)\<rparr>, en_now e (w_clock w))"

definition newID :: "('s, 'x) Engine \<Rightarrow> string \<Rightarrow> ('s, 'x) world \<Rightarrow> ('s, 'x) world \<times> string" where
  "newID e pre w = (w\<lparr>w_ids := Suc (w_ids w)\<rparr>, pre @ ''_'' @ en_random e (w_ids w))"

definition engine_audit :: "('s, 'x) Engine \<Rightarrow> ReleaseRun \<Rightarrow> string \<Rightarrow> string \<Rightarrow> string \<Rightarrow> string \<Rightarrow> string \<Rightarrow> string
    \<Rightarrow> (string \<times> AnyValue) list \<Rightarrow> ('s, 'x) world \<Rightarrow> ('s, 'x) world \<times> error option" where
  "engine_audit e run actorType actorID action resourceType resourceID result details w =
     (case newID e ''audit'' w of (w1, i) \<Rightarrow>
      case engine_now e w1 of (w2, t) \<Rightarrow>
      case es_AppendAudit (en_store e) (w_store w2)
          \<lparr>au_ID = i, au_CorrelationID = run_ID run, au_ActorType = actorType, au_ActorID = actorID,
           au_DelegatedBy = run_RequestedBy run, au_Action = action, au_ResourceType = resourceType, au_ResourceID = resourceID,
           au_Result = result, au_Details = details, au_Timestamp = t\<rparr> of
        (s, err) \<Rightarrow> (w2\<lparr>w_store := s\<rparr>, err))"

definition persist :: "('s, 'x) Engine \<Rightarrow> ReleaseRun \<Rightarrow> int \<Rightarrow> ('s, 'x) world \<Rightarrow> ('s, 'x) world \<times> error option" where
  "persist e run expectedVersion w = (case engine_now e w of (w1, t) \<Rightarrow>
      case es_UpdateRun (en_store e) (w_store w1) (run\<lparr>run_UpdatedAt := t\<rparr>) expectedVersion of
        (s, Inl err) \<Rightarrow> (w1\<lparr>w_store := s\<rparr>, Some err)
      | (s, Inr _) \<Rightarrow> (w1\<lparr>w_store := s\<rparr>, None))"

section \<open>One step of a run\<close>

definition cancel_pending :: "ReleaseStep \<Rightarrow> ReleaseStep" where
  "cancel_pending step = (if rs_Status step = StepPending then step\<lparr>rs_Status := StepCancelled\<rparr> else step)"

definition cancelDownstream :: "ReleaseStep list \<Rightarrow> ReleaseStep list" where
  "cancelDownstream steps = map cancel_pending steps"

definition containsAll :: "string list \<Rightarrow> string list \<Rightarrow> bool" where
  "containsAll actual required \<longleftrightarrow> list_all (\<lambda>v. v \<in> set actual) required"

definition domainVerification :: "VerificationResult \<Rightarrow> time \<Rightarrow> Verification" where
  "domainVerification result checkedAt =
     \<lparr>vf_Status = status_of (Outcome result), vf_Healthy = (Outcome result = AdapterPass), vf_Reason = xv_Reason result,
      vf_ObservedValue = xv_ObservedValue result, vf_Threshold = xv_Threshold result, vf_CheckedAt = checkedAt,
      vf_Evidence = \<lparr>ev_Source = ae_Source (xv_Evidence result), ev_QueryHash = ae_QueryHash (xv_Evidence result),
        ev_WindowFrom = ow_From (ae_Window (xv_Evidence result)), ev_WindowTo = ow_To (ae_Window (xv_Evidence result)),
        ev_ObservedAt = ae_ObservedAt (xv_Evidence result), ev_ObservedValue = ae_ObservedValue (xv_Evidence result),
        ev_Threshold = ae_Threshold (xv_Evidence result), ev_AdapterVersion = ae_AdapterVersion (xv_Evidence result),
        ev_EvidenceHash = ae_EvidenceHash (xv_Evidence result)\<rparr>\<rparr>"

text \<open>How the loop goes on: to the next step, or it stops with a run status, cancelling the pending rest or not.\<close>

datatype step_end = NextStep | StopRun RunStatus bool

definition block_step :: "ReleaseStep \<Rightarrow> string \<Rightarrow> ReleaseStep \<times> step_end" where
  "block_step step failure = (step\<lparr>rs_Status := StepBlocked, rs_Failure := failure\<rparr>, StopRun RunBlocked True)"

definition escalate_step :: "ReleaseStep \<Rightarrow> string \<Rightarrow> ReleaseStep \<times> step_end" where
  "escalate_step step failure = (step\<lparr>rs_Status := StepEscalated, rs_Failure := failure\<rparr>, StopRun RunEscalated True)"

definition service_dependencies :: "('s, 'x) Engine \<Rightarrow> string \<Rightarrow> string list" where
  "service_dependencies e name = (case map_of (map (\<lambda>s. (svc_Name s, s)) (rev (Services (en_planner e)))) name of
       None \<Rightarrow> []
     | Some service \<Rightarrow> svc_Dependencies service)"

definition unmet :: "string list \<Rightarrow> string set \<Rightarrow> string set \<Rightarrow> string option" where
  "unmet dependencies selected succeeded = find (\<lambda>d. d \<in> selected \<and> d \<notin> succeeded) dependencies"

definition step_input :: "ReleaseRun \<Rightarrow> ReleaseStep \<Rightarrow> Input" where
  "step_input run step = \<lparr>pi_Version = [], pi_TenantID = [], pi_RunnerGroup = [], pi_SubjectType = [], pi_UserID = run_RequestedBy run,
     pi_UserIssuer = [], pi_AgentID = agent_ID (run_Agent run), pi_DelegationRef = [], pi_AgentScopes = sort (agent_Scopes (run_Agent run)),
     pi_Environment = run_Environment run, pi_Service = rs_Service step, pi_Capability = [], pi_ArtifactDigest = [],
     pi_Risk = ch_Risk (rs_Change step), pi_PlanHash = [], pi_ContractHash = [], pi_ProfileHash = [], pi_PolicyHash = [],
     pi_EvidenceHash = [], pi_ApprovalProofs = [], pi_CISuccess = ch_CISuccess (rs_Change step),
     pi_DependenciesHealthy = ch_DependenciesHealthy (rs_Change step), pi_DestructiveMigration = ch_DestructiveMigration (rs_Change step)\<rparr>"

definition step_key :: "ReleaseRun \<Rightarrow> ReleaseStep \<Rightarrow> string" where
  "step_key run step = run_ID run @ ''/'' @ run_Environment run @ ''/'' @ rs_Service step @ ''/'' @ ch_DesiredVersion (rs_Change step)"

definition execution_of :: "string \<Rightarrow> string \<Rightarrow> ExecDeployment \<Rightarrow> Execution" where
  "execution_of i key d = \<lparr>ex_ID = i, ex_Adapter = [], ex_IdempotencyKey = key, ex_Status = [], ex_ExternalExecutionID = xd_ExternalID d,
     ex_StartedAt = xd_StartedAt d, ex_FinishedAt = xd_FinishedAt d\<rparr>"

definition rollback_step :: "('s, 'x) Engine \<Rightarrow> ReleaseRun \<Rightarrow> ReleaseStep \<Rightarrow> ExecDeployment \<Rightarrow> VerificationResult \<Rightarrow> ('s, 'x) world
    \<Rightarrow> ('s, 'x) world \<times> ReleaseStep \<times> step_end" where
  "rollback_step e run step deployment verification w =
     (case engine_audit e run ''system'' ''verifier'' ''rollback.start'' ''service'' (rs_Service step) ''HEALTH_CHECK_FAILED'' [] w of (w1, _) \<Rightarrow>
      if rs_RollbackMode step \<noteq> RollbackAutomatic
      then (w1, escalate_step step (''automatic rollback is not authorized: '' @ rs_RollbackMode step))
      else case xe_Rollback (en_executor e) (w_external w1) deployment of
          (x, Inl err) \<Rightarrow> (w1\<lparr>w_external := x\<rparr>, escalate_step step (''rollback failed: '' @ error_text err))
        | (x, Inr rolledBack) \<Rightarrow>
            (case newID e ''rollback'' (w1\<lparr>w_external := x\<rparr>) of (w2, i) \<Rightarrow>
             let step1 = step\<lparr>rs_RollbackExecution := Some (execution_of i (step_key run step @ ''/rollback'') rolledBack)\<rparr> in
             case xe_Verify (en_executor e) (w_external w2) rolledBack of
               (x2, Inl err) \<Rightarrow> (w2\<lparr>w_external := x2\<rparr>, escalate_step step1 ''rollback verification failed or unavailable'')
             | (x2, Inr rollbackVerification) \<Rightarrow>
                 (case engine_now e (w2\<lparr>w_external := x2\<rparr>) of (w3, t) \<Rightarrow>
                  let step2 = step1\<lparr>rs_RollbackVerification := Some (domainVerification rollbackVerification t)\<rparr> in
                  if Outcome rollbackVerification \<noteq> AdapterPass
                  then (w3, escalate_step step2 ''rollback verification failed or unavailable'')
                  else (w3, step2\<lparr>rs_Status := StepRolledBack, rs_Failure := xv_Reason verification\<rparr>, StopRun RunFailed True))))"

definition deploy_step :: "('s, 'x) Engine \<Rightarrow> ReleaseRun \<Rightarrow> ReleaseStep \<Rightarrow> PolicyDecision \<Rightarrow> ('s, 'x) world
    \<Rightarrow> ('s, 'x) world \<times> ReleaseStep \<times> step_end" where
  "deploy_step e run step decision w =
     (let key = step_key run step in
      case engine_audit e run ''agent'' (agent_ID (run_Agent run)) ''deployment.start'' ''service'' (rs_Service step) ''AUTHORIZED''
          [(''idempotency_key'', AnyString key), (''policy_version'', AnyString (pd_PolicyVersion decision))] w of
        (w1, Some err) \<Rightarrow> (w1, block_step step ''audit unavailable before deployment'')
      | (w1, None) \<Rightarrow>
          (case xe_Deploy (en_executor e) (w_external w1)
              \<lparr>xq_Service = rs_Service step, xq_Environment = run_Environment run, xq_DesiredVersion = ch_DesiredVersion (rs_Change step),
               xq_IdempotencyKey = key\<rparr> of
             (x, Inl err) \<Rightarrow> (w1\<lparr>w_external := x\<rparr>, block_step step (''deploy failed: '' @ error_text err))
           | (x, Inr deployment) \<Rightarrow>
               (case newID e ''execution'' (w1\<lparr>w_external := x\<rparr>) of (w2, i) \<Rightarrow>
                let step1 = step\<lparr>rs_Execution := Some (execution_of i key deployment), rs_Status := StepVerifying\<rparr> in
                case xe_Verify (en_executor e) (w_external w2) deployment of
                  (x2, Inl err) \<Rightarrow> (w2\<lparr>w_external := x2\<rparr>, block_step step1 (''verification unavailable: '' @ error_text err))
                | (x2, Inr verification) \<Rightarrow>
                    (case engine_now e (w2\<lparr>w_external := x2\<rparr>) of (w3, t) \<Rightarrow>
                     let step2 = step1\<lparr>rs_Verification := Some (domainVerification verification t)\<rparr> in
                     if Outcome verification \<noteq> AdapterPass
                     then rollback_step e run (step2\<lparr>rs_Status := StepRollingBack\<rparr>) deployment verification w3
                     else (case engine_audit e run ''system'' ''verifier'' ''deployment.verify'' ''service'' (rs_Service step) ''SUCCEEDED'' [] w3 of
                         (w4, _) \<Rightarrow> (w4, step2\<lparr>rs_Status := StepSucceeded\<rparr>, NextStep))))))"

definition request_approval :: "('s, 'x) Engine \<Rightarrow> ReleaseRun \<Rightarrow> ReleaseStep \<Rightarrow> PolicyDecision \<Rightarrow> ('s, 'x) world
    \<Rightarrow> ('s, 'x) world \<times> ReleaseStep \<times> step_end" where
  "request_approval e run step decision w =
     (case (case rs_Approval step of
              Some a \<Rightarrow> (w, a)
            | None \<Rightarrow> (case engine_now e w of (w1, t) \<Rightarrow> case newID e ''approval'' w1 of (w2, i) \<Rightarrow>
                (w2, \<lparr>ap_ID = i, ap_RequiredRoles = pd_RequiredRoles decision, ap_Status = ApprovalPending,
                      ap_PlanHash = pl_Hash (run_Plan run), ap_RequestedAt = t, ap_ExpiresAt = t + 86400000000000,
                      ap_DecidedBy = [], ap_DecidedAt = None\<rparr>))) of (w3, approval) \<Rightarrow>
      let step1 = step\<lparr>rs_Approval := Some approval, rs_Status := StepWaitingApproval\<rparr> in
      case engine_audit e run ''system'' ''policy-engine'' ''approval.request'' ''approval'' (ap_ID approval) ''PENDING''
          [(''required_roles'', AnyStrings (ap_RequiredRoles approval))] w3 of
        (w4, Some err) \<Rightarrow> (w4, block_step step1 ''audit unavailable before approval request'')
      | (w4, None) \<Rightarrow> (w4, step1, StopRun RunWaitingApproval False))"

definition approved :: "ReleaseStep \<Rightarrow> bool" where
  "approved step \<longleftrightarrow> (\<exists>a. rs_Approval step = Some a \<and> ap_Status a = ApprovalApproved)"

lemma approved_code [code]:
  "approved step \<longleftrightarrow> (case rs_Approval step of None \<Rightarrow> False | Some a \<Rightarrow> ap_Status a = ApprovalApproved)"
  by (simp add: approved_def split: option.split)

definition process_step :: "('s, 'x) Engine \<Rightarrow> ReleaseRun \<Rightarrow> string set \<Rightarrow> string set \<Rightarrow> ReleaseStep \<Rightarrow> ('s, 'x) world
    \<Rightarrow> ('s, 'x) world \<times> ReleaseStep \<times> step_end" where
  "process_step e run selected succeeded step w =
     (case unmet (service_dependencies e (rs_Service step)) selected succeeded of
        Some dependency \<Rightarrow> (w, block_step step (''selected dependency did not succeed: '' @ dependency))
      | None \<Rightarrow>
          (case engine_now e w of (w1, t) \<Rightarrow>
           let decision = Engine_Evaluate (en_digest e) (en_policy e) t (step_input run step);
               step1 = step\<lparr>rs_Policy := Some decision\<rparr> in
           case engine_audit e run ''system'' ''policy-engine'' ''policy.evaluate'' ''release_step'' (rs_Service step) (pd_Decision decision)
               [(''reason_code'', AnyString (pd_ReasonCode decision)), (''input_hash'', AnyString (pd_InputHash decision))] w1 of
             (w2, Some err) \<Rightarrow> (w2, block_step step1 ''audit unavailable before policy decision'')
           | (w2, None) \<Rightarrow>
               if pd_Decision decision = DecisionDeny then (w2, block_step step1 (pd_ReasonDetail decision))
               else if pd_Decision decision = DecisionRequireApproval \<and> \<not> approved step1 then request_approval e run step1 decision w2
               else deploy_step e run (step1\<lparr>rs_Status := StepExecuting\<rparr>) decision w2))"

section \<open>The loop\<close>

fun advance_steps :: "('s, 'x) Engine \<Rightarrow> ReleaseRun \<Rightarrow> string set \<Rightarrow> string set \<Rightarrow> ReleaseStep list \<Rightarrow> ('s, 'x) world
    \<Rightarrow> ('s, 'x) world \<times> ReleaseStep list \<times> RunStatus" where
  "advance_steps e run selected succeeded [] w = (w, [], RunSucceeded)"
| "advance_steps e run selected succeeded (step # steps) w =
     (if rs_Status step \<noteq> StepPending
      then (case advance_steps e run selected succeeded steps w of (w', steps', status) \<Rightarrow> (w', step # steps', status))
      else case process_step e run selected succeeded step w of
          (w1, step', StopRun status cancel) \<Rightarrow> (w1, step' # (if cancel then cancelDownstream steps else steps), status)
        | (w1, step', NextStep) \<Rightarrow>
            (case advance_steps e run selected (insert (rs_Service step) succeeded) steps w1 of
               (w', steps', status) \<Rightarrow> (w', step' # steps', status)))"

definition succeeded_services :: "ReleaseStep list \<Rightarrow> string set" where
  "succeeded_services steps = rs_Service ` set (filter (\<lambda>s. rs_Status s = StepSucceeded) steps)"

definition advance :: "('s, 'x) Engine \<Rightarrow> ReleaseRun \<Rightarrow> ('s, 'x) world \<Rightarrow> ('s, 'x) world \<times> error option" where
  "advance e run w =
     (case advance_steps e run (rs_Service ` set (run_Steps run)) (succeeded_services (run_Steps run)) (run_Steps run) w of
        (w', steps, status) \<Rightarrow> persist e (run\<lparr>run_Steps := steps, run_Status := status\<rparr>) (run_StateVersion run) w')"

section \<open>Operations\<close>

definition engine_validateRequest :: "ReleaseRequest \<Rightarrow> error option" where
  "engine_validateRequest request =
     (if rq_RequestID request = [] then Some (Wrapf ''%w: request_id is required'' ErrInvalidRequest)
      else if rq_ReleaseVersion request = [] then Some (Wrapf ''%w: release_version is required'' ErrInvalidRequest)
      else if rq_RequestedBy request = [] then Some (Wrapf ''%w: requested_by is required'' ErrInvalidRequest)
      else if agent_ID (rq_Agent request) = [] then Some (Wrapf ''%w: delegated_agent.id is required'' ErrInvalidRequest)
      else None)"

definition engine_Plan :: "('s, 'x) Engine \<Rightarrow> ReleaseRequest \<Rightarrow> ('s, 'x) world \<Rightarrow> ('s, 'x) world \<times> (error, ReleasePlan) result" where
  "engine_Plan e request w = (case engine_validateRequest request of
       Some err \<Rightarrow> (w, Inl err)
     | None \<Rightarrow> (case engine_now e w of (w1, t) \<Rightarrow> (w1, Plan (en_digest e) (en_planner e) t request)))"

definition engine_PlanIntent :: "('s, 'x) Engine \<Rightarrow> ReleaseIntent \<Rightarrow> ('s, 'x) world \<Rightarrow> ('s, 'x) world \<times> (error, ReleasePlan) result" where
  "engine_PlanIntent e intent w = (case engine_validateRequest (LegacyRequestFromIntent intent) of
       Some err \<Rightarrow> (w, Inl err)
     | None \<Rightarrow> (case engine_now e w of (w1, t) \<Rightarrow> (w1, PlanIntent (en_digest e) (en_planner e) t intent)))"

definition no_change :: Change where
  "no_change = \<lparr>ch_Service = [], ch_DesiredVersion = [], ch_CISuccess = False, ch_DependenciesHealthy = False,
     ch_DestructiveMigration = False, ch_Risk = []\<rparr>"

definition change_for :: "Change list \<Rightarrow> string \<Rightarrow> Change" where
  "change_for changes service = (case map_of (map (\<lambda>c. (ch_Service c, c)) (rev changes)) service of None \<Rightarrow> no_change | Some c \<Rightarrow> c)"

definition new_step :: "Change list \<Rightarrow> int \<Rightarrow> PlanStep \<Rightarrow> ReleaseStep" where
  "new_step changes phase planned = \<lparr>rs_Service = ps_Service planned, rs_Phase = phase, rs_Wave = 0, rs_Status = StepPending,
     rs_Change = change_for changes (ps_Service planned), rs_Policy = None, rs_Approval = None, rs_Execution = None,
     rs_Verification = None, rs_VerificationRequired = ps_VerificationRequired planned,
     rs_ObservationWindow = ps_ObservationWindow planned, rs_RollbackMode = ps_RollbackMode planned,
     rs_RollbackExecution = None, rs_RollbackVerification = None, rs_Failure = []\<rparr>"

definition new_run :: "string \<Rightarrow> ReleaseRequest \<Rightarrow> ReleasePlan \<Rightarrow> time \<Rightarrow> ReleaseRun" where
  "new_run i request plan now = \<lparr>run_ID = i, run_RequestID = rq_RequestID request, run_ReleaseVersion = rq_ReleaseVersion request,
     run_Environment = rq_Environment request, run_RequestedBy = rq_RequestedBy request, run_SubjectType = [], run_SubjectIssuer = [],
     run_UserIdentityProof = [], run_TenantID = [], run_Region = [], run_Cluster = [], run_RunnerGroup = [], run_DelegationRef = [],
     run_Agent = rq_Agent request, run_Plan = plan, run_Status = RunPending, run_PausedFrom = None,
     run_Steps = concat (map (\<lambda>phase. map (new_step (rq_Changes request) (pp_Number phase)) (pp_Steps phase)) (pl_Phases plan)),
     run_StateVersion = 1, run_WorkflowID = [], run_TemporalRunID = [], run_CreatedAt = now, run_UpdatedAt = now\<rparr>"

text \<open>The result of a start: the run, whether it was created, and the error.\<close>

definition startPlanned :: "('s, 'x) Engine \<Rightarrow> ReleaseRequest \<Rightarrow> ReleasePlan \<Rightarrow> ('s, 'x) world
    \<Rightarrow> ('s, 'x) world \<times> ReleaseRun option \<times> bool \<times> error option" where
  "startPlanned e request plan w =
     (case engine_now e w of (w1, t) \<Rightarrow>
      case ValidatePlan (en_digest e) (en_planner e) plan t of
        Some err \<Rightarrow> (w1, None, False, Some (Wrapf ''validate release plan before execution: %w'' err))
      | None \<Rightarrow>
          (case engine_now e w1 of (w2, now) \<Rightarrow> case newID e ''run'' w2 of (w3, i) \<Rightarrow>
           let run = new_run i request plan now in
           case es_CreateRun (en_store e) (w_store w3) run of
             (s, Inl err) \<Rightarrow> (w3\<lparr>w_store := s\<rparr>, None, False, Some err)
           | (s, Inr (existing, False)) \<Rightarrow> (w3\<lparr>w_store := s\<rparr>, existing, False, None)
           | (s, Inr (_, True)) \<Rightarrow>
               (case engine_audit e run ''user'' (rq_RequestedBy request) ''release.start'' ''release_run'' (run_ID run) ''ACCEPTED''
                   [(''plan_hash'', AnyString (pl_Hash plan))] (w3\<lparr>w_store := s\<rparr>) of
                  (w4, Some err) \<Rightarrow> (w4, None, True, Some (Wrapf ''write release audit event: %w'' err))
                | (w4, None) \<Rightarrow>
                    (case advance e run w4 of
                       (w5, Some err) \<Rightarrow> (w5, None, True, Some err)
                     | (w5, None) \<Rightarrow>
                         (case es_GetRun (en_store e) (w_store w5) (run_ID run) of
                            Inl err \<Rightarrow> (w5, None, True, Some err)
                          | Inr updated \<Rightarrow> (w5, Some updated, True, None))))))"

definition Start :: "('s, 'x) Engine \<Rightarrow> ReleaseRequest \<Rightarrow> ('s, 'x) world \<Rightarrow> ('s, 'x) world \<times> ReleaseRun option \<times> bool \<times> error option" where
  "Start e request w = (case engine_Plan e request w of
       (w1, Inl err) \<Rightarrow> (w1, None, False, Some err)
     | (w1, Inr plan) \<Rightarrow> startPlanned e request plan w1)"

definition StartIntent :: "('s, 'x) Engine \<Rightarrow> ReleaseIntent \<Rightarrow> ('s, 'x) world \<Rightarrow> ('s, 'x) world \<times> ReleaseRun option \<times> bool \<times> error option" where
  "StartIntent e intent w = (case engine_PlanIntent e intent w of
       (w1, Inl err) \<Rightarrow> (w1, None, False, Some err)
     | (w1, Inr plan) \<Rightarrow> startPlanned e (LegacyRequestFromIntent intent) plan w1)"

definition engine_Get :: "('s, 'x) Engine \<Rightarrow> string \<Rightarrow> ('s, 'x) world \<Rightarrow> (error, ReleaseRun) result" where
  "engine_Get e i w = es_GetRun (en_store e) (w_store w) i"

definition Events :: "('s, 'x) Engine \<Rightarrow> string \<Rightarrow> ('s, 'x) world \<Rightarrow> (error, AuditEvent list) result" where
  "Events e i w = (case es_GetRun (en_store e) (w_store w) i of
       Inl err \<Rightarrow> Inl err
     | Inr _ \<Rightarrow> Inr (es_AuditEvents (en_store e) (w_store w) i))"

fun find_approval :: "ReleaseStep list \<Rightarrow> string \<Rightarrow> (ReleaseStep list \<times> ReleaseStep \<times> Approval \<times> ReleaseStep list) option" where
  "find_approval [] approvalID = None"
| "find_approval (step # steps) approvalID =
     (case rs_Approval step of
        Some a \<Rightarrow> if ap_ID a = approvalID then Some ([], step, a, steps)
          else map_option (\<lambda>(before, found). (step # before, found)) (find_approval steps approvalID)
      | None \<Rightarrow> map_option (\<lambda>(before, found). (step # before, found)) (find_approval steps approvalID))"

definition update_and_get :: "('s, 'x) Engine \<Rightarrow> string \<Rightarrow> ReleaseRun \<Rightarrow> int \<Rightarrow> ('s, 'x) world \<Rightarrow> ('s, 'x) world \<times> (error, ReleaseRun) result" where
  "update_and_get e runID run expectedVersion w = (case es_UpdateRun (en_store e) (w_store w) run expectedVersion of
       (s, Inl err) \<Rightarrow> (w\<lparr>w_store := s\<rparr>, Inl err)
     | (s, Inr _) \<Rightarrow> (w\<lparr>w_store := s\<rparr>, es_GetRun (en_store e) s runID))"

definition advance_and_get :: "('s, 'x) Engine \<Rightarrow> string \<Rightarrow> ReleaseRun \<Rightarrow> ('s, 'x) world \<Rightarrow> ('s, 'x) world \<times> (error, ReleaseRun) result" where
  "advance_and_get e runID run w = (case advance e run w of
       (w1, Some err) \<Rightarrow> (w1, Inl err)
     | (w1, None) \<Rightarrow> (w1, es_GetRun (en_store e) (w_store w1) runID))"

definition decide_target :: "('s, 'x) Engine \<Rightarrow> string \<Rightarrow> ReleaseRun \<Rightarrow> ReleaseStep list \<Rightarrow> ReleaseStep \<Rightarrow> Approval \<Rightarrow> ReleaseStep list \<Rightarrow> string \<Rightarrow> bool
    \<Rightarrow> ('s, 'x) world \<Rightarrow> ('s, 'x) world \<times> (error, ReleaseRun) result" where
  "decide_target e runID run before step approval after actor approve w =
     (case engine_now e w of (w1, now) \<Rightarrow>
      let decided = approval\<lparr>ap_DecidedBy := actor, ap_DecidedAt := Some now, ap_Status := (if approve then ApprovalApproved else ApprovalDenied)\<rparr>;
          step' = (if approve then step\<lparr>rs_Approval := Some decided, rs_Status := StepPending\<rparr>
                   else step\<lparr>rs_Approval := Some decided, rs_Status := StepBlocked, rs_Failure := ''approval denied''\<rparr>);
          run' = run\<lparr>run_Steps := before @ step' # after, run_Status := (if approve then RunRunning else RunBlocked), run_UpdatedAt := now\<rparr> in
      case engine_audit e run' ''user'' actor ''approval.decide'' ''approval'' (ap_ID approval)
          (if approve then ''APPROVED'' else ''DENIED'') [] w1 of
        (w2, Some err) \<Rightarrow> (w2, Inl (Wrapf ''write approval audit event: %w'' err))
      | (w2, None) \<Rightarrow>
          (case update_and_get e runID run' (run_StateVersion run) w2 of
             (w3, Inl err) \<Rightarrow> (w3, Inl err)
           | (w3, Inr stored) \<Rightarrow> if approve then advance_and_get e runID stored w3 else (w3, Inr stored)))"

definition DecideApproval :: "('s, 'x) Engine \<Rightarrow> string \<Rightarrow> string \<Rightarrow> string \<Rightarrow> string list \<Rightarrow> bool \<Rightarrow> ('s, 'x) world
    \<Rightarrow> ('s, 'x) world \<times> (error, ReleaseRun) result" where
  "DecideApproval e runID approvalID actor roles approve w =
     (case es_GetRun (en_store e) (w_store w) runID of
        Inl err \<Rightarrow> (w, Inl err)
      | Inr run \<Rightarrow>
          if actor = [] then (w, Inl (Wrapf ''%w: approval actor is required'' ErrApproval))
          else (case find_approval (run_Steps run) approvalID of
              None \<Rightarrow> (w, Inl (Wrapf ''%w: pending approval not found'' ErrApproval))
            | Some (before, step, approval, after) \<Rightarrow>
                if ap_Status approval \<noteq> ApprovalPending then (w, Inl (Wrapf ''%w: pending approval not found'' ErrApproval))
                else if ap_PlanHash approval \<noteq> pl_Hash (run_Plan run)
                then (w, Inl (Wrapf ''%w: plan changed after approval request'' ErrApproval))
                else (case engine_now e w of (w1, t) \<Rightarrow>
                  if \<not> t < ap_ExpiresAt approval
                  then (case engine_now e w1 of (w2, now) \<Rightarrow>
                    update_and_get e runID (run\<lparr>run_Steps := before @ step\<lparr>rs_Approval := Some (approval\<lparr>ap_Status := ApprovalExpired\<rparr>), rs_Status := StepBlocked\<rparr> # after,
                       run_Status := RunBlocked, run_UpdatedAt := now\<rparr>) (run_StateVersion run) w2)
                  else if approve \<and> \<not> containsAll roles (ap_RequiredRoles approval)
                  then (w1, Inl (Wrapf ''%w: approver lacks required roles %v'' ErrApproval))
                  else if approve \<and> actor = run_RequestedBy run
                  then (w1, Inl (Wrapf ''%w: requester cannot approve their own release'' ErrApproval))
                  else decide_target e runID run before step approval after actor approve w1)))"

definition cancel_open :: "ReleaseStep \<Rightarrow> ReleaseStep" where
  "cancel_open step = (if rs_Status step = StepPending \<or> rs_Status step = StepWaitingApproval then step\<lparr>rs_Status := StepCancelled\<rparr> else step)"

definition Cancel :: "('s, 'x) Engine \<Rightarrow> string \<Rightarrow> string \<Rightarrow> ('s, 'x) world \<Rightarrow> ('s, 'x) world \<times> (error, ReleaseRun) result" where
  "Cancel e runID actor w = (case es_GetRun (en_store e) (w_store w) runID of
       Inl err \<Rightarrow> (w, Inl err)
     | Inr run \<Rightarrow>
         if run_Status run = RunSucceeded \<or> run_Status run = RunCancelled then (w, Inr run)
         else (case engine_now e w of (w1, now) \<Rightarrow>
           let run' = run\<lparr>run_Status := RunCancelled, run_Steps := map cancel_open (run_Steps run), run_UpdatedAt := now\<rparr> in
           case engine_audit e run' ''user'' actor ''release.cancel'' ''release_run'' (run_ID run) ''CANCELLED'' [] w1 of
             (w2, Some err) \<Rightarrow> (w2, Inl (Wrapf ''write cancellation audit event: %w'' err))
           | (w2, None) \<Rightarrow> update_and_get e runID run' (run_StateVersion run) w2))"

definition Pause :: "('s, 'x) Engine \<Rightarrow> string \<Rightarrow> string \<Rightarrow> ('s, 'x) world \<Rightarrow> ('s, 'x) world \<times> (error, ReleaseRun) result" where
  "Pause e runID actor w = (case es_GetRun (en_store e) (w_store w) runID of
       Inl err \<Rightarrow> (w, Inl err)
     | Inr run \<Rightarrow>
         if run_Status run \<noteq> RunRunning \<and> run_Status run \<noteq> RunWaitingApproval then (w, Inr run)
         else (case engine_now e w of (w1, now) \<Rightarrow>
           update_and_get e runID (run\<lparr>run_PausedFrom := Some (run_Status run), run_Status := RunPaused, run_UpdatedAt := now\<rparr>) (run_StateVersion run) w1))"

definition Resume :: "('s, 'x) Engine \<Rightarrow> string \<Rightarrow> string \<Rightarrow> ('s, 'x) world \<Rightarrow> ('s, 'x) world \<times> (error, ReleaseRun) result" where
  "Resume e runID actor w = (case es_GetRun (en_store e) (w_store w) runID of
       Inl err \<Rightarrow> (w, Inl err)
     | Inr run \<Rightarrow>
         if run_Status run \<noteq> RunPaused then (w, Inr run)
         else if run_PausedFrom run = Some RunWaitingApproval
         then (case engine_now e w of (w1, now) \<Rightarrow>
           update_and_get e runID (run\<lparr>run_PausedFrom := None, run_Status := RunWaitingApproval, run_UpdatedAt := now\<rparr>) (run_StateVersion run) w1)
         else advance_and_get e runID (run\<lparr>run_PausedFrom := None, run_Status := RunRunning\<rparr>) w)"

end
