(* ===== verification/Engine_Safety.thy ===== *)
theory Engine_Safety
  imports Engine
begin

text \<open>
  What the release engine guarantees of every run in its store, after any sequence of operations, with
  any policy, executor, clock and random source; and what cancelling does not guarantee.
\<close>

section \<open>A consistent step\<close>

text \<open>
  \<open>requester\<close> started the run and \<open>hash\<close> is the hash of its plan.  A step that waits has not been executed,
  and one that is ready has no open approval; a pending approval belongs to a step that has not been executed; an approval that was given came from
  somebody else, for this plan; an executed step was not denied, and was approved where the policy
  asked for it; success needs a passed verification; a rollback is only made automatically, and is
  complete only with a passed verification.
\<close>

definition step_ok :: "string \<Rightarrow> string \<Rightarrow> ReleaseStep \<Rightarrow> bool" where
  "step_ok requester hash s \<longleftrightarrow>
     (rs_Status s \<in> {StepPending, StepWaitingApproval} \<longrightarrow> rs_Execution s = None) \<and>
     (\<forall>a. rs_Approval s = Some a \<longrightarrow> (rs_Status s = StepPending \<longrightarrow> ap_Status a \<noteq> ApprovalPending) \<and>
        (ap_Status a = ApprovalPending \<longrightarrow> rs_Execution s = None) \<and>
        (ap_Status a = ApprovalApproved \<longrightarrow> ap_DecidedBy a \<noteq> [] \<and> ap_DecidedBy a \<noteq> requester \<and> ap_PlanHash a = hash)) \<and>
     (rs_Execution s \<noteq> None \<longrightarrow> (\<exists>d. rs_Policy s = Some d \<and> pd_Decision d \<noteq> DecisionDeny \<and>
        (pd_Decision d = DecisionRequireApproval \<longrightarrow> approved s))) \<and>
     (rs_Status s = StepSucceeded \<longrightarrow> rs_Execution s \<noteq> None \<and> (\<exists>v. rs_Verification s = Some v \<and> vf_Status v = VerificationPass)) \<and>
     (rs_RollbackExecution s \<noteq> None \<longrightarrow> rs_RollbackMode s = RollbackAutomatic) \<and>
     (rs_Status s = StepRolledBack \<longrightarrow> (\<exists>v. rs_RollbackVerification s = Some v \<and> vf_Status v = VerificationPass))"

lemma approved_update [simp]:
  "approved (s\<lparr>rs_Status := st\<rparr>) = approved s" "approved (s\<lparr>rs_Failure := f\<rparr>) = approved s" "approved (s\<lparr>rs_Policy := p\<rparr>) = approved s"
  "approved (s\<lparr>rs_Execution := x\<rparr>) = approved s" "approved (s\<lparr>rs_Verification := v\<rparr>) = approved s"
  "approved (s\<lparr>rs_RollbackExecution := x\<rparr>) = approved s" "approved (s\<lparr>rs_RollbackVerification := v\<rparr>) = approved s"
  by (simp_all add: approved_def)

lemma status_of_Pass [simp]: "status_of AdapterPass = VerificationPass"
  by (simp add: status_of_def)

lemma vf_Status_domain [simp]: "vf_Status (domainVerification r t) = status_of (Outcome r)"
  by (simp add: domainVerification_def)

lemma step_ok_Failure [simp]: "step_ok q h (s\<lparr>rs_Failure := f\<rparr>) = step_ok q h s"
  by (simp add: step_ok_def)

lemma step_ok_Status:
  "step_ok q h s \<Longrightarrow> st \<notin> {StepPending, StepWaitingApproval, StepSucceeded, StepRolledBack} \<Longrightarrow> step_ok q h (s\<lparr>rs_Status := st\<rparr>)"
  by (simp add: step_ok_def)

lemma step_ok_Policy: "step_ok q h s \<Longrightarrow> rs_Execution s = None \<Longrightarrow> step_ok q h (s\<lparr>rs_Policy := p\<rparr>)"
  by (simp add: step_ok_def)

lemma step_ok_Verification: "step_ok q h s \<Longrightarrow> rs_Status s \<noteq> StepSucceeded \<Longrightarrow> step_ok q h (s\<lparr>rs_Verification := v\<rparr>)"
  by (simp add: step_ok_def)

lemma step_ok_RollbackExecution:
  "step_ok q h s \<Longrightarrow> rs_RollbackMode s = RollbackAutomatic \<Longrightarrow> step_ok q h (s\<lparr>rs_RollbackExecution := x\<rparr>)"
  by (simp add: step_ok_def)

lemma step_ok_RollbackVerification:
  "step_ok q h s \<Longrightarrow> rs_Status s \<noteq> StepRolledBack \<Longrightarrow> step_ok q h (s\<lparr>rs_RollbackVerification := v\<rparr>)"
  by (simp add: step_ok_def)

lemma step_ok_RolledBack:
  "step_ok q h s \<Longrightarrow> rs_RollbackVerification s = Some v \<Longrightarrow> vf_Status v = VerificationPass \<Longrightarrow> step_ok q h (s\<lparr>rs_Status := StepRolledBack\<rparr>)"
  by (simp add: step_ok_def)

lemma step_ok_Succeeded:
  "step_ok q h s \<Longrightarrow> rs_Execution s \<noteq> None \<Longrightarrow> rs_Verification s = Some v \<Longrightarrow> vf_Status v = VerificationPass
   \<Longrightarrow> step_ok q h (s\<lparr>rs_Status := StepSucceeded\<rparr>)"
  by (simp add: step_ok_def)

text \<open>A step may be executed: it was not denied, and approved if that is required.\<close>

definition cleared_step :: "ReleaseStep \<Rightarrow> bool" where
  "cleared_step s \<longleftrightarrow> (\<exists>d. rs_Policy s = Some d \<and> pd_Decision d \<noteq> DecisionDeny \<and> (pd_Decision d = DecisionRequireApproval \<longrightarrow> approved s)) \<and>
     (\<forall>a. rs_Approval s = Some a \<longrightarrow> ap_Status a \<noteq> ApprovalPending)"

lemma step_ok_Execution:
  "step_ok q h s \<Longrightarrow> cleared_step s \<Longrightarrow> rs_Status s = StepExecuting \<Longrightarrow> step_ok q h (s\<lparr>rs_Execution := x\<rparr>)"
  by (simp add: step_ok_def cleared_step_def approved_def)

lemmas step_ok_settle = step_ok_Status[of _ _ _ StepBlocked, simplified] step_ok_Status[of _ _ _ StepEscalated, simplified]
  step_ok_Status[of _ _ _ StepExecuting, simplified] step_ok_Status[of _ _ _ StepRollingBack, simplified]
  step_ok_Status[of _ _ _ StepCancelled, simplified]

lemmas step_ok_intros = step_ok_settle step_ok_Policy step_ok_Verification step_ok_RollbackExecution step_ok_RollbackVerification
  step_ok_RolledBack step_ok_Succeeded step_ok_Execution

lemma step_ok_block: "step_ok q h s \<Longrightarrow> step_ok q h (fst (block_step s f))"
  by (simp add: block_step_def step_ok_Status)

lemma step_ok_escalate: "step_ok q h s \<Longrightarrow> step_ok q h (fst (escalate_step s f))"
  by (simp add: escalate_step_def step_ok_Status)

lemma block_step_simps [simp]:
  "block_step s f = (s', fin) \<longleftrightarrow> s' = s\<lparr>rs_Status := StepBlocked, rs_Failure := f\<rparr> \<and> fin = StopRun RunBlocked True"
  by (auto simp: block_step_def)

lemma escalate_step_simps [simp]:
  "escalate_step s f = (s', fin) \<longleftrightarrow> s' = s\<lparr>rs_Status := StepEscalated, rs_Failure := f\<rparr> \<and> fin = StopRun RunEscalated True"
  by (auto simp: escalate_step_def)

lemma rollback_step_ok:
  assumes "rollback_step e run s d v w = (w', s', fin)" "step_ok q h s" "rs_Status s = StepRollingBack"
  shows "step_ok q h s' \<and> rs_Service s' = rs_Service s \<and> fin \<noteq> NextStep \<and> rs_Status s' \<notin> {StepPending, StepSucceeded} \<and>
    rs_Execution s' = rs_Execution s"
  using assms unfolding rollback_step_def Let_def
  by (auto split: prod.splits sum.splits if_splits intro!: step_ok_intros)

lemma deploy_step_ok:
  assumes "deploy_step e run s d w = (w', s', fin)" "step_ok q h s" "cleared_step s" "rs_Status s = StepExecuting"
  shows "step_ok q h s' \<and> rs_Service s' = rs_Service s \<and> (fin = NextStep \<longleftrightarrow> rs_Status s' = StepSucceeded) \<and> rs_Status s' \<noteq> StepPending"
proof -
  let ?key = "step_key run s"
  have rb: ?thesis if "rollback_step e run (s\<lparr>rs_Execution := Some x, rs_Verification := Some v, rs_Status := StepRollingBack\<rparr>) dep ver w1 = (w', s', fin)"
    for x v dep ver w1
  proof -
    have "step_ok q h (s\<lparr>rs_Execution := Some x, rs_Verification := Some v, rs_Status := StepRollingBack\<rparr>)"
      using assms by (intro step_ok_intros) simp_all
    then show ?thesis using rollback_step_ok[OF that, of q h] by auto
  qed
  from assms(1) show ?thesis
    unfolding deploy_step_def Let_def using assms(2-4) rb
    by (auto split: prod.splits sum.splits option.splits if_splits intro!: step_ok_intros)
qed

lemma request_approval_ok:
  assumes "request_approval e run s d w = (w', s', fin)" "step_ok q h s" "rs_Execution s = None"
  shows "step_ok q h s' \<and> rs_Service s' = rs_Service s \<and> fin \<noteq> NextStep \<and> rs_Status s' \<notin> {StepPending, StepSucceeded} \<and> rs_Execution s' = None"
proof -
  have new: "step_ok q h (s\<lparr>rs_Approval := Some a, rs_Status := st\<rparr>)"
    if "st \<in> {StepWaitingApproval, StepBlocked}" "ap_Status a = ApprovalPending \<or> rs_Approval s = Some a" for a st
    using assms(2,3) that by (auto simp: step_ok_def)
  from assms(1) show ?thesis
    unfolding request_approval_def Let_def using new assms(3)
    by (cases "rs_Approval s") (auto split: prod.splits option.splits)
qed

lemma process_step_ok:
  assumes "process_step e run selected succeeded s w = (w', s', fin)" "step_ok q h s" "rs_Status s = StepPending"
  shows "step_ok q h s' \<and> rs_Service s' = rs_Service s \<and> (fin = NextStep \<longleftrightarrow> rs_Status s' = StepSucceeded) \<and>
    rs_Status s' \<noteq> StepPending \<and>
    (rs_Execution s' \<noteq> None \<longrightarrow> unmet (service_dependencies e (rs_Service s)) selected succeeded = None)"
proof -
  have ex: "rs_Execution s = None" using assms(2,3) by (simp add: step_ok_def)
  have ok: "step_ok q h (s\<lparr>rs_Policy := p\<rparr>)" for p using assms(2) ex by (rule step_ok_Policy)
  have dep: "step_ok q h s' \<and> rs_Service s' = rs_Service s \<and> (fin = NextStep \<longleftrightarrow> rs_Status s' = StepSucceeded) \<and> rs_Status s' \<noteq> StepPending"
    if "deploy_step e run (s\<lparr>rs_Policy := Some d, rs_Status := StepExecuting\<rparr>) d w1 = (w', s', fin)"
      "pd_Decision d \<noteq> DecisionDeny" "pd_Decision d = DecisionRequireApproval \<longrightarrow> approved s"
      for d w1
  proof -
    have "step_ok q h (s\<lparr>rs_Policy := Some d, rs_Status := StepExecuting\<rparr>)" using ok by (rule step_ok_settle)
    moreover have "cleared_step (s\<lparr>rs_Policy := Some d, rs_Status := StepExecuting\<rparr>)"
      using that(2,3) assms(2,3) by (auto simp: cleared_step_def step_ok_def)
    ultimately show ?thesis using deploy_step_ok[OF that(1)] by simp
  qed
  have app: "step_ok q h s' \<and> rs_Service s' = rs_Service s \<and> fin \<noteq> NextStep \<and> rs_Status s' \<notin> {StepPending, StepSucceeded} \<and> rs_Execution s' = None"
    if "request_approval e run (s\<lparr>rs_Policy := Some d\<rparr>) d w1 = (w', s', fin)" for d w1
    using request_approval_ok[OF that ok] ex by simp
  from assms(1) show ?thesis
    unfolding process_step_def Let_def using assms(2,3) ok dep app ex
    by (auto split: prod.splits option.splits if_splits intro!: step_ok_intros)
qed

section \<open>A consistent run\<close>

text \<open>Every dependency of an executed step that is part of the release has succeeded.\<close>

definition dep_ok :: "('s, 'x) Engine \<Rightarrow> string set \<Rightarrow> string set \<Rightarrow> ReleaseStep \<Rightarrow> bool" where
  "dep_ok e selected succeeded s \<longleftrightarrow>
     (rs_Execution s \<noteq> None \<longrightarrow> (\<forall>d \<in> set (service_dependencies e (rs_Service s)). d \<in> selected \<longrightarrow> d \<in> succeeded))"

definition run_ok :: "('s, 'x) Engine \<Rightarrow> ReleaseRun \<Rightarrow> bool" where
  "run_ok e run \<longleftrightarrow> (\<forall>s \<in> set (run_Steps run). step_ok (run_RequestedBy run) (pl_Hash (run_Plan run)) s \<and>
     dep_ok e (rs_Service ` set (run_Steps run)) (succeeded_services (run_Steps run)) s)"

lemma dep_ok_mono: "dep_ok e selected succeeded s \<Longrightarrow> succeeded \<subseteq> succeeded' \<Longrightarrow> dep_ok e selected succeeded' s"
  by (auto simp: dep_ok_def)

lemma dep_ok_unmet:
  "unmet (service_dependencies e (rs_Service s)) selected succeeded = None \<Longrightarrow> rs_Service s' = rs_Service s \<Longrightarrow> dep_ok e selected succeeded s'"
  by (auto simp: dep_ok_def unmet_def find_None_iff)

lemma succeeded_services_Cons:
  "succeeded_services (s # steps) = (if rs_Status s = StepSucceeded then {rs_Service s} else {}) \<union> succeeded_services steps"
  by (auto simp: succeeded_services_def)

lemma succeeded_services_Nil [simp]: "succeeded_services [] = {}"
  by (simp add: succeeded_services_def)

lemma succeeded_services_map:
  assumes "\<And>s. rs_Service (f s) = rs_Service s" "\<And>s. rs_Status (f s) = StepSucceeded \<longleftrightarrow> rs_Status s = StepSucceeded"
  shows "succeeded_services (map f steps) = succeeded_services steps"
  by (induction steps) (simp_all add: succeeded_services_Cons assms)

lemma succeeded_services_append:
  "succeeded_services (steps @ steps') = succeeded_services steps \<union> succeeded_services steps'"
  by (auto simp: succeeded_services_def)

lemma cancel_pending_ok:
  "step_ok q h s \<Longrightarrow> step_ok q h (cancel_pending s)" "rs_Service (cancel_pending s) = rs_Service s"
  "dep_ok e selected succeeded (cancel_pending s) = dep_ok e selected succeeded s"
  "rs_Status (cancel_pending s) = StepSucceeded \<longleftrightarrow> rs_Status s = StepSucceeded"
  by (auto simp: cancel_pending_def dep_ok_def intro: step_ok_settle)

lemma succeeded_cancelDownstream [simp]: "succeeded_services (cancelDownstream steps) = succeeded_services steps"
  unfolding cancelDownstream_def by (rule succeeded_services_map) (rule cancel_pending_ok)+

lemma advance_steps_ok:
  assumes "advance_steps e run selected succeeded steps w = (w', steps', st)"
    and "\<forall>s \<in> set steps. step_ok q h s \<and> dep_ok e selected D s"
  shows "map rs_Service steps' = map rs_Service steps \<and> succeeded_services steps \<subseteq> succeeded_services steps' \<and>
    (\<forall>s \<in> set steps'. step_ok q h s \<and> dep_ok e selected (succeeded \<union> D \<union> succeeded_services steps') s)"
  using assms
proof (induction steps arbitrary: succeeded w w' steps' st)
  case (Cons s steps)
  have s: "step_ok q h s" "dep_ok e selected D s" and rest: "\<forall>s \<in> set steps. step_ok q h s \<and> dep_ok e selected D s"
    using Cons.prems(2) by simp_all
  show ?case
  proof (cases "rs_Status s = StepPending")
    case False
    then obtain tl where tl: "advance_steps e run selected succeeded steps w = (w', tl, st)" "steps' = s # tl"
      using Cons.prems(1) by (auto split: prod.splits)
    from Cons.IH[OF tl(1) rest] s show ?thesis
      unfolding tl(2) by (auto simp: succeeded_services_Cons elim!: dep_ok_mono)
  next
    case True
    obtain w1 s' fin where p: "process_step e run selected succeeded s w = (w1, s', fin)" by (metis surj_pair)
    note ok = process_step_ok[OF p s(1) True]
    have dep: "dep_ok e selected succeeded s'"
    proof (cases "rs_Execution s'")
      case (Some x)
      then show ?thesis using ok dep_ok_unmet by blast
    qed (simp add: dep_ok_def)
    show ?thesis
    proof (cases fin)
      case (StopRun status cancel)
      let ?tl = "if cancel then cancelDownstream steps else steps"
      have steps': "steps' = s' # ?tl" using Cons.prems(1) p True StopRun by auto
      have "map rs_Service ?tl = map rs_Service steps" by (simp add: cancelDownstream_def cancel_pending_ok)
      moreover have "succeeded_services ?tl = succeeded_services steps" by simp
      moreover have "\<forall>s \<in> set ?tl. step_ok q h s \<and> dep_ok e selected D s"
        using rest by (simp add: cancelDownstream_def cancel_pending_ok)
      ultimately show ?thesis using ok dep True
        unfolding steps' by (auto simp: succeeded_services_Cons elim!: dep_ok_mono)
    next
      case NextStep
      then obtain tl where tl: "advance_steps e run selected (insert (rs_Service s) succeeded) steps w1 = (w', tl, st)" "steps' = s' # tl"
        using Cons.prems(1) p True by (auto split: prod.splits)
      have "rs_Status s' = StepSucceeded" using ok NextStep by simp
      with Cons.IH[OF tl(1) rest] ok dep True show ?thesis
        unfolding tl(2) by (auto simp: succeeded_services_Cons elim!: dep_ok_mono)
    qed
  qed
qed (simp add: succeeded_services_def)

lemma advance_run_ok:
  assumes "run_ok e run"
    and "advance_steps e run (rs_Service ` set (run_Steps run)) (succeeded_services (run_Steps run)) (run_Steps run) w = (w', steps, status)"
  shows "run_ok e (run\<lparr>run_Steps := steps, run_Status := status, run_UpdatedAt := t\<rparr>)"
proof -
  have "\<forall>s \<in> set (run_Steps run). step_ok (run_RequestedBy run) (pl_Hash (run_Plan run)) s \<and>
      dep_ok e (rs_Service ` set (run_Steps run)) (succeeded_services (run_Steps run)) s"
    using assms(1) by (simp add: run_ok_def)
  note a = advance_steps_ok[OF assms(2) this]
  then have "rs_Service ` set steps = rs_Service ` set (run_Steps run)" by (metis image_set)
  with a show ?thesis by (auto simp: run_ok_def sup.absorb2)
qed

lemma run_ok_irrelevant [simp]:
  "run_ok e (run\<lparr>run_Status := st\<rparr>) = run_ok e run" "run_ok e (run\<lparr>run_UpdatedAt := t\<rparr>) = run_ok e run"
  "run_ok e (run\<lparr>run_PausedFrom := p\<rparr>) = run_ok e run" "run_ok e (run\<lparr>run_StateVersion := v\<rparr>) = run_ok e run"
  by (simp_all add: run_ok_def)

lemma new_run_ok: "run_ok e (new_run i request plan now)"
  by (auto simp: run_ok_def new_run_def new_step_def step_ok_def dep_ok_def)

lemma cancel_open_ok:
  "step_ok q h s \<Longrightarrow> step_ok q h (cancel_open s)" "rs_Service (cancel_open s) = rs_Service s" "rs_Execution (cancel_open s) = rs_Execution s"
  "rs_Status (cancel_open s) = StepSucceeded \<longleftrightarrow> rs_Status s = StepSucceeded"
  by (auto simp: cancel_open_def intro: step_ok_settle)

lemma cancel_run_ok: "run_ok e run \<Longrightarrow> run_ok e (run\<lparr>run_Steps := map cancel_open (run_Steps run)\<rparr>)"
proof -
  have "rs_Service ` cancel_open ` A = rs_Service ` A" for A by (force simp: cancel_open_ok image_iff)
  moreover have "succeeded_services (map cancel_open steps) = succeeded_services steps" for steps
    by (rule succeeded_services_map) (rule cancel_open_ok)+
  ultimately show "run_ok e run \<Longrightarrow> run_ok e (run\<lparr>run_Steps := map cancel_open (run_Steps run)\<rparr>)"
    by (auto simp: run_ok_def dep_ok_def cancel_open_ok)
qed

text \<open>Changing one step that is not executed and has not succeeded.\<close>

lemma replace_run_ok:
  assumes "run_ok e run" "run_Steps run = before @ s # after" "step_ok (run_RequestedBy run) (pl_Hash (run_Plan run)) s'"
    and "rs_Service s' = rs_Service s" "rs_Execution s' = None" "rs_Status s \<noteq> StepSucceeded" "rs_Status s' \<noteq> StepSucceeded"
  shows "run_ok e (run\<lparr>run_Steps := before @ s' # after\<rparr>)"
  using assms by (auto simp: run_ok_def dep_ok_def succeeded_services_append succeeded_services_Cons)

lemma find_approval_Some:
  "find_approval steps i = Some (before, s, a, after) \<Longrightarrow> steps = before @ s # after \<and> rs_Approval s = Some a \<and> ap_ID a = i"
  by (induction steps arbitrary: before) (auto split: option.splits if_splits)

section \<open>The store the engine relies on\<close>

text \<open>
  The contract of a store: a read returns the stored run, a creation or an update stores at most the
  given run under its identifier (with the next version), and the audit log leaves the runs alone.
\<close>

locale run_store =
  fixes ops :: "'s EngineStore" and runs :: "'s \<Rightarrow> string \<Rightarrow> ReleaseRun option"
  assumes get_stored: "es_GetRun ops s i = Inr run \<Longrightarrow> runs s i = Some run"
    and create_stored: "runs (fst (es_CreateRun ops s run)) i = Some stored \<Longrightarrow> runs s i = Some stored \<or> stored = run"
    and update_stored: "runs (fst (es_UpdateRun ops s run v)) i = Some stored \<Longrightarrow> runs s i = Some stored \<or> stored = run\<lparr>run_StateVersion := v + 1\<rparr>"
    and audit_stored: "runs (fst (es_AppendAudit ops s event)) = runs s"
begin

definition store_ok :: "('s, 'x) Engine \<Rightarrow> 's \<Rightarrow> bool" where
  "store_ok e s \<longleftrightarrow> (\<forall>i run. runs s i = Some run \<longrightarrow> run_ok e run)"

lemma store_ok_get: "store_ok e s \<Longrightarrow> es_GetRun ops s i = Inr run \<Longrightarrow> run_ok e run"
  unfolding store_ok_def using get_stored by blast

lemma store_ok_create: "store_ok e s \<Longrightarrow> run_ok e run \<Longrightarrow> store_ok e (fst (es_CreateRun ops s run))"
  unfolding store_ok_def using create_stored by blast

lemma store_ok_update: "store_ok e s \<Longrightarrow> run_ok e run \<Longrightarrow> store_ok e (fst (es_UpdateRun ops s run v))"
  unfolding store_ok_def using update_stored run_ok_irrelevant(4) by metis

lemma engine_now_store: "engine_now e w = (w', t) \<Longrightarrow> w_store w' = w_store w"
  by (auto simp: engine_now_def)

lemma newID_store: "newID e p w = (w', i) \<Longrightarrow> w_store w' = w_store w"
  by (auto simp: newID_def)

lemma audit_runs:
  assumes "en_store e = ops" "engine_audit e run a b c d f g h w = (w', err)"
  shows "runs (w_store w') = runs (w_store w)"
proof -
  obtain event where "es_AppendAudit ops (w_store w) event = (w_store w', err)"
    using assms by (auto simp: engine_audit_def engine_now_def newID_def split: prod.splits)
  then show ?thesis using audit_stored[of "w_store w" event] by simp
qed

lemma rollback_runs:
  assumes "en_store e = ops" "rollback_step e run s d v w = (w', result)"
  shows "runs (w_store w') = runs (w_store w)"
  using assms(2) unfolding rollback_step_def Let_def
  by (auto split: prod.splits sum.splits if_splits dest!: audit_runs[OF assms(1)] engine_now_store newID_store)

lemma deploy_runs:
  assumes "en_store e = ops" "deploy_step e run s d w = (w', result)"
  shows "runs (w_store w') = runs (w_store w)"
  using assms(2) unfolding deploy_step_def Let_def
  by (auto split: prod.splits sum.splits if_splits option.splits
      dest!: audit_runs[OF assms(1)] rollback_runs[OF assms(1)] engine_now_store newID_store)

lemma request_runs:
  assumes "en_store e = ops" "request_approval e run s d w = (w', result)"
  shows "runs (w_store w') = runs (w_store w)"
  using assms(2) unfolding request_approval_def Let_def
  by (auto split: prod.splits option.splits dest!: audit_runs[OF assms(1)] engine_now_store newID_store)

lemma process_runs:
  assumes "en_store e = ops" "process_step e run selected succeeded s w = (w', result)"
  shows "runs (w_store w') = runs (w_store w)"
  using assms(2) unfolding process_step_def Let_def
  by (auto split: prod.splits option.splits if_splits
      dest!: audit_runs[OF assms(1)] deploy_runs[OF assms(1)] request_runs[OF assms(1)] engine_now_store)

lemma advance_steps_runs:
  assumes "en_store e = ops"
  shows "advance_steps e run selected succeeded steps w = (w', result) \<Longrightarrow> runs (w_store w') = runs (w_store w)"
proof (induction steps arbitrary: succeeded w w' result)
  case (Cons s steps)
  show ?case
  proof (cases "rs_Status s = StepPending")
    case True
    obtain w1 s' fin where p: "process_step e run selected succeeded s w = (w1, s', fin)" by (metis surj_pair)
    then have "runs (w_store w1) = runs (w_store w)" by (rule process_runs[OF assms])
    then show ?thesis using Cons p True by (cases fin) (auto split: prod.splits)
  next
    case False
    then show ?thesis using Cons by (auto split: prod.splits)
  qed
qed simp

lemma store_ok_runs: "runs s' = runs s \<Longrightarrow> store_ok e s' = store_ok e s"
  by (simp add: store_ok_def)

lemma persist_ok:
  assumes "en_store e = ops" "persist e run v w = (w', err)" "store_ok e (w_store w)" "run_ok e run"
  shows "store_ok e (w_store w')"
proof -
  obtain t where "w_store w' = fst (es_UpdateRun ops (w_store w) (run\<lparr>run_UpdatedAt := t\<rparr>) v)"
    using assms(1,2) by (auto simp: persist_def engine_now_def split: prod.splits sum.splits) (metis fst_conv)+
  then show ?thesis using store_ok_update[OF assms(3), of "run\<lparr>run_UpdatedAt := t\<rparr>" v] assms(4) by simp
qed

lemma advance_ok:
  assumes "en_store e = ops" "advance e run w = (w', err)" "store_ok e (w_store w)" "run_ok e run"
  shows "store_ok e (w_store w')"
proof -
  obtain w1 steps status where a: "advance_steps e run (rs_Service ` set (run_Steps run)) (succeeded_services (run_Steps run)) (run_Steps run) w =
      (w1, steps, status)" by (metis surj_pair)
  have "run_ok e (run\<lparr>run_Steps := steps, run_Status := status\<rparr>)"
    using advance_run_ok[OF assms(4) a, of 0] by simp
  moreover have "store_ok e (w_store w1)" using advance_steps_runs[OF assms(1) a] store_ok_runs assms(3) by blast
  moreover have "persist e (run\<lparr>run_Steps := steps, run_Status := status\<rparr>) (run_StateVersion run) w1 = (w', err)"
    using assms(2) a by (simp add: advance_def)
  ultimately show ?thesis using persist_ok[OF assms(1)] by blast
qed

lemma update_and_get_ok:
  assumes "en_store e = ops" "update_and_get e i run v w = (w', result)" "store_ok e (w_store w)" "run_ok e run"
  shows "store_ok e (w_store w')" and "result = Inr stored \<Longrightarrow> run_ok e stored"
proof -
  obtain s res where u: "es_UpdateRun ops (w_store w) run v = (s, res)" by fastforce
  have s: "store_ok e s" using store_ok_update[OF assms(3,4), of v] u by simp
  then show "store_ok e (w_store w')" using assms(1,2) u by (auto simp: update_and_get_def split: sum.splits)
  show "run_ok e stored" if "result = Inr stored"
    using that assms(1,2) u store_ok_get[OF s] by (auto simp: update_and_get_def split: sum.splits)
qed

lemma advance_and_get_ok:
  assumes "en_store e = ops" "advance_and_get e i run w = (w', result)" "store_ok e (w_store w)" "run_ok e run"
  shows "store_ok e (w_store w')"
  using assms(2) advance_ok[OF assms(1) _ assms(3,4)] by (auto simp: advance_and_get_def split: prod.splits option.splits)

lemma startPlanned_ok:
  assumes "en_store e = ops" "startPlanned e request plan w = (w', result)" "store_ok e (w_store w)"
  shows "store_ok e (w_store w')"
proof -
  obtain w1 t where n1: "engine_now e w = (w1, t)" by fastforce
  obtain w2 now where n2: "engine_now e w1 = (w2, now)" by fastforce
  obtain w3 i where n3: "newID e ''run'' w2 = (w3, i)" by fastforce
  let ?run = "new_run i request plan now"
  obtain s res where c: "es_CreateRun ops (w_store w3) ?run = (s, res)" by fastforce
  obtain w4 err where a: "engine_audit e ?run ''user'' (rq_RequestedBy request) ''release.start'' ''release_run'' (run_ID ?run) ''ACCEPTED''
      [(''plan_hash'', AnyString (pl_Hash plan))] (w3\<lparr>w_store := s\<rparr>) = (w4, err)" by fastforce
  obtain w5 err' where d: "advance e ?run w4 = (w5, err')" by fastforce
  have w1: "w_store w1 = w_store w" and w3: "w_store w3 = w_store w"
    using n1 n2 n3 engine_now_store newID_store by metis+
  have s: "store_ok e s" using store_ok_create[OF assms(3) new_run_ok, of i request plan now] c w3 by simp
  have w4: "store_ok e (w_store w4)" using audit_runs[OF assms(1) a] s by (simp add: store_ok_def)
  have w5: "store_ok e (w_store w5)" by (rule advance_ok[OF assms(1) d w4 new_run_ok])
  from assms(2) n1 n2 n3 c a d have "w' = w1 \<or> w' = w3\<lparr>w_store := s\<rparr> \<or> w' = w4 \<or> w' = w5"
    by (auto simp: startPlanned_def Let_def assms(1) split: option.splits sum.splits prod.splits bool.splits)
  then show ?thesis using assms(3) w1 s w4 w5 by auto
qed

lemma Start_ok:
  assumes "en_store e = ops" "Start e request w = (w', result)" "store_ok e (w_store w)"
  shows "store_ok e (w_store w')"
proof -
  obtain w1 plan where p: "engine_Plan e request w = (w1, plan)" by fastforce
  have w1: "store_ok e (w_store w1)"
    using p assms(3) by (auto simp: engine_Plan_def engine_now_def split: option.splits)
  show ?thesis
    using assms(2) p w1 startPlanned_ok[OF assms(1) _ w1] by (auto simp: Start_def split: sum.splits)
qed

lemma StartIntent_ok:
  assumes "en_store e = ops" "StartIntent e intent w = (w', result)" "store_ok e (w_store w)"
  shows "store_ok e (w_store w')"
proof -
  obtain w1 plan where p: "engine_PlanIntent e intent w = (w1, plan)" by fastforce
  have w1: "store_ok e (w_store w1)"
    using p assms(3) by (auto simp: engine_PlanIntent_def engine_now_def split: option.splits)
  show ?thesis
    using assms(2) p w1 startPlanned_ok[OF assms(1) _ w1] by (auto simp: StartIntent_def split: sum.splits)
qed

lemma decide_target_ok:
  assumes "en_store e = ops" "decide_target e i run before s a after actor approve w = (w', result)" "store_ok e (w_store w)"
    and "run_ok e run" "run_Steps run = before @ s # after" "rs_Approval s = Some a" "ap_Status a = ApprovalPending"
    and "ap_PlanHash a = pl_Hash (run_Plan run)" "actor \<noteq> []" "approve \<longrightarrow> actor \<noteq> run_RequestedBy run"
  shows "store_ok e (w_store w')"
proof -
  obtain w1 now where n: "engine_now e w = (w1, now)" by fastforce
  let ?d = "a\<lparr>ap_DecidedBy := actor, ap_DecidedAt := Some now, ap_Status := (if approve then ApprovalApproved else ApprovalDenied)\<rparr>"
  let ?s = "if approve then s\<lparr>rs_Approval := Some ?d, rs_Status := StepPending\<rparr>
            else s\<lparr>rs_Approval := Some ?d, rs_Status := StepBlocked, rs_Failure := ''approval denied''\<rparr>"
  let ?run = "run\<lparr>run_Steps := before @ ?s # after, run_Status := (if approve then RunRunning else RunBlocked), run_UpdatedAt := now\<rparr>"
  have s: "step_ok (run_RequestedBy run) (pl_Hash (run_Plan run)) s" using assms(4,5) by (simp add: run_ok_def)
  then have x: "rs_Execution s = None" "rs_Status s \<noteq> StepSucceeded" using assms(6,7) by (auto simp: step_ok_def)
  have "step_ok (run_RequestedBy run) (pl_Hash (run_Plan run)) ?s"
    using s x assms(6-10) by (auto simp: step_ok_def)
  then have "run_ok e (run\<lparr>run_Steps := before @ ?s # after\<rparr>)"
    by (intro replace_run_ok[OF assms(4,5)]) (use x in auto)
  then have ok: "run_ok e ?run" by simp
  obtain w2 err where a: "engine_audit e ?run ''user'' actor ''approval.decide'' ''approval'' (ap_ID a)
          (if approve then ''APPROVED'' else ''DENIED'') [] w1 = (w2, err)" by fastforce
  have w1: "w_store w1 = w_store w" using n by (rule engine_now_store)
  have w2: "store_ok e (w_store w2)" using audit_runs[OF assms(1) a] assms(3) w1 by (simp add: store_ok_def)
  obtain w3 res where u: "update_and_get e i ?run (run_StateVersion run) w2 = (w3, res)" by fastforce
  note w3 = update_and_get_ok[OF assms(1) u w2 ok]
  show ?thesis
  proof (cases "err = None \<and> approve")
    case False
    then have "w' = w2 \<or> w' = w3" using assms(2) n a u by (auto simp: decide_target_def Let_def split: option.splits sum.splits)
    then show ?thesis using w2 w3(1) by blast
  next
    case True
    then show ?thesis
      using assms(2) n a u w3 advance_and_get_ok[OF assms(1) _ w3(1)]
      by (auto simp: decide_target_def Let_def split: sum.splits)
  qed
qed

lemma DecideApproval_ok:
  assumes "en_store e = ops" "DecideApproval e i approvalID actor roles approve w = (w', result)" "store_ok e (w_store w)"
  shows "store_ok e (w_store w')"
proof (cases "es_GetRun ops (w_store w) i")
  case (Inl err)
  then show ?thesis using assms by (auto simp: DecideApproval_def)
next
  case (Inr run)
  then have run: "run_ok e run" by (rule store_ok_get[OF assms(3)])
  obtain w1 t where n: "engine_now e w = (w1, t)" by fastforce
  obtain w2 now where n2: "engine_now e w1 = (w2, now)" by fastforce
  have w1: "w_store w1 = w_store w" "w_store w2 = w_store w" using n n2 engine_now_store by metis+
  show ?thesis
  proof (cases "w' = w \<or> w' = w1")
    case True
    then show ?thesis using assms(3) w1 by auto
  next
    case False
    then obtain before s a after where f: "find_approval (run_Steps run) approvalID = Some (before, s, a, after)" and
        a: "ap_Status a = ApprovalPending" "ap_PlanHash a = pl_Hash (run_Plan run)" "actor \<noteq> []" and
        r: "\<not> t < ap_ExpiresAt a \<and> update_and_get e i (run\<lparr>run_Steps := before @ s\<lparr>rs_Approval := Some (a\<lparr>ap_Status := ApprovalExpired\<rparr>), rs_Status := StepBlocked\<rparr> # after,
                       run_Status := RunBlocked, run_UpdatedAt := now\<rparr>) (run_StateVersion run) w2 = (w', result) \<or>
            (approve \<longrightarrow> actor \<noteq> run_RequestedBy run) \<and> decide_target e i run before s a after actor approve w1 = (w', result)"
      using assms(1,2) Inr n n2 by (auto simp: DecideApproval_def split: option.splits if_splits)
    have s: "run_Steps run = before @ s # after" "rs_Approval s = Some a" using find_approval_Some[OF f] by auto
    have ok: "step_ok (run_RequestedBy run) (pl_Hash (run_Plan run)) s" using run s(1) by (simp add: run_ok_def)
    then have x: "rs_Execution s = None" "rs_Status s \<noteq> StepSucceeded" using s(2) a(1) by (auto simp: step_ok_def)
    have "step_ok (run_RequestedBy run) (pl_Hash (run_Plan run)) (s\<lparr>rs_Approval := Some (a\<lparr>ap_Status := ApprovalExpired\<rparr>), rs_Status := StepBlocked\<rparr>)"
      using ok x by (simp add: step_ok_def)
    then have "run_ok e (run\<lparr>run_Steps := before @ s\<lparr>rs_Approval := Some (a\<lparr>ap_Status := ApprovalExpired\<rparr>), rs_Status := StepBlocked\<rparr> # after\<rparr>)"
      by (intro replace_run_ok[OF run s(1)]) (use x in auto)
    then show ?thesis
      using r update_and_get_ok(1)[OF assms(1)] decide_target_ok[OF assms(1) _ _ run s a(1,2,3)] assms(3) w1 by auto
  qed
qed

lemma Cancel_ok:
  assumes "en_store e = ops" "Cancel e i actor w = (w', result)" "store_ok e (w_store w)"
  shows "store_ok e (w_store w')"
proof (cases "es_GetRun ops (w_store w) i")
  case (Inl err)
  then show ?thesis using assms by (auto simp: Cancel_def)
next
  case (Inr run)
  then have run: "run_ok e run" by (rule store_ok_get[OF assms(3)])
  obtain w1 now where n: "engine_now e w = (w1, now)" by fastforce
  let ?run = "run\<lparr>run_Status := RunCancelled, run_Steps := map cancel_open (run_Steps run), run_UpdatedAt := now\<rparr>"
  obtain w2 err where a: "engine_audit e ?run ''user'' actor ''release.cancel'' ''release_run'' (run_ID run) ''CANCELLED'' [] w1 = (w2, err)" by fastforce
  have w1: "w_store w1 = w_store w" using n by (rule engine_now_store)
  have w2: "store_ok e (w_store w2)" using audit_runs[OF assms(1) a] assms(3) w1 by (simp add: store_ok_def)
  have "run_ok e (run\<lparr>run_Status := RunCancelled\<rparr>)" using run by simp
  from cancel_run_ok[OF this] have ok: "run_ok e ?run" by simp
  obtain w3 res where u: "update_and_get e i ?run (run_StateVersion run) w2 = (w3, res)" by fastforce
  have "w' = w \<or> w' = w2 \<or> w' = w3" using assms(1,2) Inr n a u by (auto simp: Cancel_def Let_def split: option.splits if_splits)
  then show ?thesis using assms(3) w2 update_and_get_ok(1)[OF assms(1) u w2 ok] by blast
qed

lemma Pause_ok:
  assumes "en_store e = ops" "Pause e i actor w = (w', result)" "store_ok e (w_store w)"
  shows "store_ok e (w_store w')"
proof (cases "es_GetRun ops (w_store w) i")
  case (Inr run)
  then have run: "run_ok e run" by (rule store_ok_get[OF assms(3)])
  obtain w1 now where n: "engine_now e w = (w1, now)" by fastforce
  have w1: "store_ok e (w_store w1)" using engine_now_store[OF n] assms(3) by simp
  let ?run = "run\<lparr>run_PausedFrom := Some (run_Status run), run_Status := RunPaused, run_UpdatedAt := now\<rparr>"
  have "run_ok e ?run" using run by simp
  moreover have "w' = w \<or> update_and_get e i ?run (run_StateVersion run) w1 = (w', result)"
    using assms(1,2) Inr n by (simp add: Pause_def split: if_splits)
  ultimately show ?thesis using assms(3) update_and_get_ok(1)[OF assms(1) _ w1] by blast
qed (use assms in \<open>simp add: Pause_def\<close>)

lemma Resume_ok:
  assumes "en_store e = ops" "Resume e i actor w = (w', result)" "store_ok e (w_store w)"
  shows "store_ok e (w_store w')"
proof (cases "es_GetRun ops (w_store w) i")
  case (Inr run)
  then have run: "run_ok e run" by (rule store_ok_get[OF assms(3)])
  obtain w1 now where n: "engine_now e w = (w1, now)" by fastforce
  have w1: "store_ok e (w_store w1)" using engine_now_store[OF n] assms(3) by simp
  let ?waiting = "run\<lparr>run_PausedFrom := None, run_Status := RunWaitingApproval, run_UpdatedAt := now\<rparr>"
  let ?running = "run\<lparr>run_PausedFrom := None, run_Status := RunRunning\<rparr>"
  have "run_ok e ?waiting" "run_ok e ?running" using run by simp_all
  moreover have "w' = w \<or> update_and_get e i ?waiting (run_StateVersion run) w1 = (w', result) \<or> advance_and_get e i ?running w = (w', result)"
    using assms(1,2) Inr n by (simp add: Resume_def split: if_splits)
  ultimately show ?thesis
    using assms(3) update_and_get_ok(1)[OF assms(1) _ w1] advance_and_get_ok[OF assms(1) _ assms(3)] by blast
qed (use assms in \<open>simp add: Resume_def\<close>)

lemmas operations_ok = Start_ok StartIntent_ok DecideApproval_ok Cancel_ok Pause_ok Resume_ok

end

section \<open>The in-memory store\<close>

definition memory_store :: "Memory EngineStore" where
  "memory_store = \<lparr>es_CreateRun = CreateRun, es_GetRun = GetRun, es_UpdateRun = UpdateRun, es_AppendAudit = AppendAudit, es_AuditEvents = AuditEvents\<rparr>"

interpretation ms: run_store memory_store "\<lambda>m. map_of (m_runs m)"
  by unfold_locales
    (auto simp: memory_store_def GetRun_def CreateRun_def CreateRunAtomic_def UpdateRun_def UpdateRunAtomic_def AppendAudit_def
      appendAtomic_def update_conv' Let_def split: option.splits if_splits)

datatype engine_op =
    OpStart ReleaseRequest
  | OpStartIntent ReleaseIntent
  | OpDecide string string string "string list" bool
  | OpCancel string string
  | OpPause string string
  | OpResume string string

fun engine_step :: "('s, 'x) Engine \<Rightarrow> engine_op \<Rightarrow> ('s, 'x) world \<Rightarrow> ('s, 'x) world" where
  "engine_step e (OpStart request) w = fst (Start e request w)"
| "engine_step e (OpStartIntent intent) w = fst (StartIntent e intent w)"
| "engine_step e (OpDecide i approvalID actor roles approve) w = fst (DecideApproval e i approvalID actor roles approve w)"
| "engine_step e (OpCancel i actor) w = fst (Cancel e i actor w)"
| "engine_step e (OpPause i actor) w = fst (Pause e i actor w)"
| "engine_step e (OpResume i actor) w = fst (Resume e i actor w)"

lemma engine_step_ok:
  assumes "en_store e = memory_store" "ms.store_ok e (w_store w)"
  shows "ms.store_ok e (w_store (engine_step e op w))"
  by (cases op) (auto intro: ms.operations_ok[OF assms(1) surjective_pairing assms(2)])

lemma engine_history_ok:
  "en_store e = memory_store \<Longrightarrow> ms.store_ok e (w_store w) \<Longrightarrow> ms.store_ok e (w_store (fold (engine_step e) ops w))"
  by (induction ops arbitrary: w) (simp_all add: engine_step_ok)

lemma history_run_ok:
  assumes "en_store e = memory_store" "\<forall>i run. GetRun (w_store w) i = Inr run \<longrightarrow> run_ok e run"
    and "GetRun (w_store (fold (engine_step e) ops w)) i = Inr run"
  shows "run_ok e run"
proof -
  have "ms.store_ok e (w_store w)" using assms(2) by (auto simp: ms.store_ok_def GetRun_def split: option.splits)
  from ms.store_ok_get[OF engine_history_ok[OF assms(1) this]] assms(3) show ?thesis by (simp add: memory_store_def)
qed

section \<open>Guarantees\<close>

text \<open>
  C7.  Every executed step was entitled to it: start with any store of consistent runs, for instance an
  empty one, and any sequence of operations.  In every stored run, a step that has an execution was not
  denied by the policy, was approved if the policy asked for approval, and each of its dependencies
  that belongs to the release has succeeded; a step has succeeded only with a passed verification;
  only steps with automatic rollback were rolled back, and completely only with a passed verification.
\<close>

theorem executed_steps_are_entitled:
  assumes "en_store e = memory_store" "\<forall>j stored. GetRun (w_store w) j = Inr stored \<longrightarrow> run_ok e stored"
    and "GetRun (w_store (fold (engine_step e) ops w)) i = Inr run" "s \<in> set (run_Steps run)"
  shows "(rs_Execution s \<noteq> None \<longrightarrow>
            (\<exists>d. rs_Policy s = Some d \<and> pd_Decision d \<noteq> DecisionDeny \<and>
               (pd_Decision d = DecisionRequireApproval \<longrightarrow> (\<exists>a. rs_Approval s = Some a \<and> ap_Status a = ApprovalApproved))) \<and>
            (\<forall>d \<in> set (service_dependencies e (rs_Service s)). d \<in> rs_Service ` set (run_Steps run) \<longrightarrow>
               (\<exists>s' \<in> set (run_Steps run). rs_Service s' = d \<and> rs_Status s' = StepSucceeded))) \<and>
         (rs_Status s = StepSucceeded \<longrightarrow> (\<exists>v. rs_Verification s = Some v \<and> vf_Status v = VerificationPass)) \<and>
         (rs_RollbackExecution s \<noteq> None \<longrightarrow> rs_RollbackMode s = RollbackAutomatic) \<and>
         (rs_Status s = StepRolledBack \<longrightarrow> (\<exists>v. rs_RollbackVerification s = Some v \<and> vf_Status v = VerificationPass))"
proof -
  have "run_ok e run" by (rule history_run_ok[OF assms(1-3)])
  then have s: "step_ok (run_RequestedBy run) (pl_Hash (run_Plan run)) s"
    and d: "dep_ok e (rs_Service ` set (run_Steps run)) (succeeded_services (run_Steps run)) s"
    using assms(4) by (simp_all add: run_ok_def)
  have "\<exists>s' \<in> set (run_Steps run). rs_Service s' = n \<and> rs_Status s' = StepSucceeded"
    if "rs_Execution s \<noteq> None" "n \<in> set (service_dependencies e (rs_Service s))" "n \<in> rs_Service ` set (run_Steps run)" for n
  proof -
    have "n \<in> succeeded_services (run_Steps run)" using d that by (simp add: dep_ok_def)
    then show ?thesis by (auto simp: succeeded_services_def)
  qed
  then show ?thesis using s by (simp add: step_ok_def approved_def)
qed

text \<open>
  Four eyes: after any sequence of operations, every approval that was given in a stored run names
  somebody other than the requester of the run, and was given for the plan of the run.
\<close>

theorem approvals_need_a_second_person:
  assumes "en_store e = memory_store" "\<forall>j stored. GetRun (w_store w) j = Inr stored \<longrightarrow> run_ok e stored"
    and "GetRun (w_store (fold (engine_step e) ops w)) i = Inr run" "s \<in> set (run_Steps run)"
    and "rs_Approval s = Some a" "ap_Status a = ApprovalApproved"
  shows "ap_DecidedBy a \<noteq> [] \<and> ap_DecidedBy a \<noteq> run_RequestedBy run \<and> ap_PlanHash a = pl_Hash (run_Plan run)"
proof -
  have "run_ok e run" by (rule history_run_ok[OF assms(1-3)])
  then have "step_ok (run_RequestedBy run) (pl_Hash (run_Plan run)) s" using assms(4) by (simp add: run_ok_def)
  then show ?thesis using assms(5,6) by (simp add: step_ok_def)
qed

section \<open>A cancelled release\<close>

definition open_approval :: Approval where
  "open_approval = demo_approval\<lparr>ap_ID := ''a1'', ap_Status := ApprovalPending, ap_DecidedBy := [], ap_DecidedAt := None, ap_RequiredRoles := [''service-owner'']\<rparr>"

definition waiting_step :: ReleaseStep where
  "waiting_step = demo_release_step\<lparr>rs_Status := StepWaitingApproval, rs_Approval := Some open_approval,
     rs_Change := (demo_change_of ''api'')\<lparr>ch_Risk := ''high''\<rparr>\<rparr>"

definition later_step :: ReleaseStep where
  "later_step = demo_release_step\<lparr>rs_Service := ''web'', rs_Approval := None, rs_Change := demo_change_of ''web''\<rparr>"

definition waiting_run :: ReleaseRun where
  "waiting_run = demo_run\<lparr>run_Steps := [waiting_step, later_step], run_Status := RunWaitingApproval,
     run_Agent := \<lparr>agent_ID = ''bot'', agent_Scopes = [''release:deploy'']\<rparr>\<rparr>"

definition empty_planner :: Planner where
  "empty_planner = \<lparr>pn_services = [], pn_definitions = [], pn_profiles = [], pn_contractHashes = [], pn_profileHashes = [],
     pn_contextSnapshotRef = [], pn_policyHash = [], pn_evidenceHash = [], pn_planTTL = 1\<rparr>"

definition demo_engine_state :: "(Memory, Mock) Engine" where
  "demo_engine_state = \<lparr>en_digest = demo_hash, en_planner = empty_planner, en_policy = Some (builtin_Evaluate demo_hash),
     en_executor = mock_executor demo_hash 50, en_store = memory_store, en_now = (\<lambda>n. 50), en_random = (\<lambda>n. nat_text n)\<rparr>"

definition demo_world :: "(Memory, Mock) world" where
  "demo_world = \<lparr>w_store = NewMemory\<lparr>m_runs := [(''run'', waiting_run)]\<rparr>, w_external = NewMock [], w_clock = 0, w_ids = 0\<rparr>"

lemma demo_world_ok: "\<forall>j stored. GetRun (w_store demo_world) j = Inr stored \<longrightarrow> run_ok demo_engine_state stored"
  by (simp add: demo_world_def GetRun_def NewMemory_def run_ok_def waiting_run_def waiting_step_def later_step_def demo_run_def
      demo_release_step_def open_approval_def step_ok_def dep_ok_def)

lemma demo_approve:
  "map_sum id (\<lambda>run. (run_Status run, map (\<lambda>s. (rs_Service s, rs_Status s, rs_Execution s \<noteq> None, map_option ap_Status (rs_Approval s))) (run_Steps run)))
     (GetRun (w_store (fold (engine_step demo_engine_state) [OpDecide ''run'' ''a1'' ''carol'' [''service-owner''] True] demo_world)) ''run'') =
   Inr (RunSucceeded, [(''api'', StepSucceeded, True, Some ApprovalApproved), (''web'', StepSucceeded, True, None)])"
  by code_simp

lemma demo_approved_run:
  obtains run s a where "GetRun (w_store (fold (engine_step demo_engine_state) [OpDecide ''run'' ''a1'' ''carol'' [''service-owner''] True] demo_world)) ''run'' = Inr run"
    "s \<in> set (run_Steps run)" "rs_Execution s \<noteq> None" "rs_Status s = StepSucceeded" "rs_Approval s = Some a" "ap_Status a = ApprovalApproved"
proof -
  obtain run where run: "GetRun (w_store (fold (engine_step demo_engine_state) [OpDecide ''run'' ''a1'' ''carol'' [''service-owner''] True] demo_world)) ''run'' = Inr run"
    and steps: "map (\<lambda>s. (rs_Service s, rs_Status s, rs_Execution s \<noteq> None, map_option ap_Status (rs_Approval s))) (run_Steps run) =
      [(''api'', StepSucceeded, True, Some ApprovalApproved), (''web'', StepSucceeded, True, None)]"
    using demo_approve by (cases "GetRun (w_store (fold (engine_step demo_engine_state) [OpDecide ''run'' ''a1'' ''carol'' [''service-owner''] True] demo_world)) ''run''")
      (simp_all only: map_sum.simps sum.inject prod.inject id_apply sum.distinct)
  from steps obtain s rest where "run_Steps run = s # rest" "rs_Execution s \<noteq> None" "rs_Status s = StepSucceeded" "map_option ap_Status (rs_Approval s) = Some ApprovalApproved"
    by (auto simp: map_eq_Cons_conv)
  then show ?thesis using that[OF run, of s] by (auto simp: map_option_eq_Some)
qed

theorem executed_steps_are_entitled_witness:
  "\<exists>run s. GetRun (w_store (fold (engine_step demo_engine_state) [OpDecide ''run'' ''a1'' ''carol'' [''service-owner''] True] demo_world)) ''run'' = Inr run \<and>
     s \<in> set (run_Steps run) \<and> rs_Execution s \<noteq> None \<and> (\<exists>d. rs_Policy s = Some d \<and> pd_Decision d \<noteq> DecisionDeny) \<and>
     (\<exists>v. rs_Verification s = Some v \<and> vf_Status v = VerificationPass)"
proof -
  have e: "en_store demo_engine_state = memory_store" by (simp add: demo_engine_state_def)
  obtain run s a where r: "GetRun (w_store (fold (engine_step demo_engine_state) [OpDecide ''run'' ''a1'' ''carol'' [''service-owner''] True] demo_world)) ''run'' = Inr run"
    "s \<in> set (run_Steps run)" "rs_Execution s \<noteq> None" "rs_Status s = StepSucceeded" by (rule demo_approved_run)
  with executed_steps_are_entitled[OF e demo_world_ok r(1,2)] show ?thesis by blast
qed

theorem approvals_need_a_second_person_witness:
  "\<exists>run s a. GetRun (w_store (fold (engine_step demo_engine_state) [OpDecide ''run'' ''a1'' ''carol'' [''service-owner''] True] demo_world)) ''run'' = Inr run \<and>
     s \<in> set (run_Steps run) \<and> rs_Approval s = Some a \<and> ap_Status a = ApprovalApproved \<and> ap_DecidedBy a \<noteq> run_RequestedBy run"
proof -
  have e: "en_store demo_engine_state = memory_store" by (simp add: demo_engine_state_def)
  obtain run s a where r: "GetRun (w_store (fold (engine_step demo_engine_state) [OpDecide ''run'' ''a1'' ''carol'' [''service-owner''] True] demo_world)) ''run'' = Inr run"
    "s \<in> set (run_Steps run)" "rs_Approval s = Some a" "ap_Status a = ApprovalApproved" by (rule demo_approved_run)
  with approvals_need_a_second_person[OF e demo_world_ok r] show ?thesis by blast
qed


end
