(* ===== verification/Activities.thy ===== *)
theory Activities
  imports Executor Policy Scheduler Store
begin

text \<open>
  \<^verbatim>\<open>internal/workflow/activities.go\<close> and \<^verbatim>\<open>errors.go\<close>: the activities that the release workflow runs on a
  worker.  The worker's state has the durable store, the external system behind the executor, the
  scheduler with the permits it has handed out, and the positions of clock and random stream.
\<close>

section \<open>Data\<close>

abbreviation ErrUnknownExternalState :: error where "ErrUnknownExternalState \<equiv> Sentinel ''external execution state is unknown''"
abbreviation ErrorRetryable :: string where "ErrorRetryable \<equiv> ''RETRYABLE''"
abbreviation ErrorTerminal :: string where "ErrorTerminal \<equiv> ''TERMINAL''"
abbreviation ErrorUnknownExternalState :: string where "ErrorUnknownExternalState \<equiv> ''UNKNOWN_EXTERNAL_STATE''"

fun workflow_IsClass :: "error \<Rightarrow> string \<Rightarrow> bool" where
  "workflow_IsClass (ClassifiedError c oper e) class \<longleftrightarrow> c = class"
| "workflow_IsClass (Wrapf m e) class \<longleftrightarrow> workflow_IsClass e class"
| "workflow_IsClass (AdapterError c oper i e) class \<longleftrightarrow> workflow_IsClass e class"
| "workflow_IsClass (ApplicationError m k e) class \<longleftrightarrow> workflow_IsClass e class"
| "workflow_IsClass (ReasonError c f (Some e)) class \<longleftrightarrow> workflow_IsClass e class"
| "workflow_IsClass _ class \<longleftrightarrow> False"

record AuditIntent =
  ai_ActorType :: string
  ai_ActorID :: string
  ai_Action :: string
  ai_ResourceType :: string
  ai_ResourceID :: string
  ai_Result :: string
  ai_Details :: "(string \<times> AnyValue) list"

record PersistInput =
  per_Run :: ReleaseRun
  per_Audits :: "AuditIntent list"
  per_EventType :: string

record EvaluateInput =
  evi_Run :: ReleaseRun
  evi_Step :: ReleaseStep

record DeployInput =
  dp_RunID :: string
  dp_RequestedBy :: string
  dp_AgentID :: string
  dp_Service :: string
  dp_Environment :: string
  dp_DesiredVersion :: string
  dp_IdempotencyKey :: string

record DeployResult =
  dr_Execution :: Execution
  dr_Deployment :: ExecDeployment

record RollbackInput =
  rbi_Deploy :: DeployInput
  rbi_Deployment :: ExecDeployment

record RollbackResult =
  rbr_Execution :: Execution
  rbr_Deployment :: ExecDeployment

record ScheduleInput =
  si_RunID :: string
  si_Step :: Step

record ScheduleResult =
  sr_Allowed :: bool
  sr_Reason :: string
  sr_BlockedBy :: "Blocked list"

record ScheduleCompleteInput =
  sci_RunID :: string
  sci_StepID :: string
  sci_Failed :: bool

record ('s, 'x) Activities =
  av_digest :: "json \<Rightarrow> string"
  av_Store :: "'s DurableStore"
  av_Policy :: "evaluator option"
  av_Executor :: "'x ReleaseExecutor"
  av_AdapterName :: string
  av_Now :: "nat \<Rightarrow> time"
  av_random :: "nat \<Rightarrow> string"
  av_Capacity :: "ScheduleInput \<Rightarrow> Capacity"

record ('s, 'x) worker =
  wk_store :: 's
  wk_external :: 'x
  wk_scheduler :: Scheduler
  wk_scheduled :: "(string \<times> DispatchResult) list"
  wk_clock :: nat
  wk_ids :: nat

definition RunStatus_text :: "RunStatus \<Rightarrow> string" where
  "RunStatus_text s = (case s of RunPending \<Rightarrow> ''PENDING'' | RunRunning \<Rightarrow> ''RUNNING'' | RunPaused \<Rightarrow> ''PAUSED''
     | RunWaitingApproval \<Rightarrow> ''WAITING_APPROVAL'' | RunSucceeded \<Rightarrow> ''SUCCEEDED'' | RunBlocked \<Rightarrow> ''BLOCKED''
     | RunFailed \<Rightarrow> ''FAILED'' | RunEscalated \<Rightarrow> ''ESCALATED'' | RunCancelled \<Rightarrow> ''CANCELLED'')"

definition ExecutionStatus_text :: "ExecutionStatus \<Rightarrow> string" where
  "ExecutionStatus_text s = (case s of ExecutionReserved \<Rightarrow> ''RESERVED'' | ExecutionSucceeded \<Rightarrow> ''SUCCEEDED''
     | ExecutionFailed \<Rightarrow> ''FAILED'' | ExecutionUnknown \<Rightarrow> ''UNKNOWN'')"

section \<open>Clock, identifiers and events\<close>

definition activities_now :: "('s, 'x) Activities \<Rightarrow> ('s, 'x) worker \<Rightarrow> ('s, 'x) worker \<times> time" where
  "activities_now a w = (w\<lparr>wk_clock := Suc (wk_clock w)\<rparr>, av_Now a (wk_clock w))"

definition activities_newID :: "('s, 'x) Activities \<Rightarrow> string \<Rightarrow> ('s, 'x) worker \<Rightarrow> ('s, 'x) worker \<times> string" where
  "activities_newID a pre w = (w\<lparr>wk_ids := Suc (wk_ids w)\<rparr>, pre @ ''_'' @ av_random a (wk_ids w))"

definition auditFor :: "('s, 'x) Activities \<Rightarrow> string \<Rightarrow> string \<Rightarrow> AuditIntent \<Rightarrow> time \<Rightarrow> ('s, 'x) worker \<Rightarrow> ('s, 'x) worker \<times> AuditEvent" where
  "auditFor a runID delegatedBy intent t w = (case activities_newID a ''audit'' w of (w1, i) \<Rightarrow>
     (w1, \<lparr>au_ID = i, au_CorrelationID = runID, au_ActorType = ai_ActorType intent, au_ActorID = ai_ActorID intent,
           au_DelegatedBy = delegatedBy, au_Action = ai_Action intent, au_ResourceType = ai_ResourceType intent,
           au_ResourceID = ai_ResourceID intent, au_Result = ai_Result intent, au_Details = ai_Details intent, au_Timestamp = t\<rparr>))"

fun audits_for :: "('s, 'x) Activities \<Rightarrow> ReleaseRun \<Rightarrow> AuditIntent list \<Rightarrow> ('s, 'x) worker \<Rightarrow> ('s, 'x) worker \<times> AuditEvent list" where
  "audits_for a run [] w = (w, [])"
| "audits_for a run (intent # intents) w =
     (case auditFor a (run_ID run) (run_RequestedBy run) intent (run_UpdatedAt run) w of (w1, event) \<Rightarrow>
      case audits_for a run intents w1 of (w2, events) \<Rightarrow> (w2, event # events))"

definition outbox_event :: "('s, 'x) Activities \<Rightarrow> string \<Rightarrow> string \<Rightarrow> string \<Rightarrow> (string \<times> AnyValue) list \<Rightarrow> ('s, 'x) worker
    \<Rightarrow> ('s, 'x) worker \<times> OutboxEvent" where
  "outbox_event a pre aggregateID eventType payload w =
     (case activities_now a w of (w1, now) \<Rightarrow> case activities_newID a pre w1 of (w2, i) \<Rightarrow>
      (w2, \<lparr>ob_ID = i, ob_AggregateType = pre, ob_AggregateID = aggregateID, ob_EventType = eventType, ob_Payload = payload,
            ob_CreatedAt = now, ob_AvailableAt = now, ob_PublishedAt = None, ob_Attempts = 0\<rparr>))"

section \<open>Scheduling\<close>

definition schedule_key :: "string \<Rightarrow> string \<Rightarrow> string" where
  "schedule_key runID stepID = runID @ [CHR 0x00] @ stepID"

definition AcquireSchedule :: "('s, 'x) Activities \<Rightarrow> ScheduleInput \<Rightarrow> ('s, 'x) worker \<Rightarrow> ('s, 'x) worker \<times> (error, ScheduleResult) result" where
  "AcquireSchedule a input w =
     (let key = schedule_key (si_RunID input) (step_ID (si_Step input)) in
      if map_of (wk_scheduled w) key \<noteq> None then (w, Inr \<lparr>sr_Allowed = True, sr_Reason = [], sr_BlockedBy = []\<rparr>)
      else case Dispatch (wk_scheduler w) [si_Step input] (av_Capacity a input) of
          (scheduler, [result]) \<Rightarrow>
            (let w1 = w\<lparr>wk_scheduler := scheduler\<rparr> in
             case di_Err result of
               Some err \<Rightarrow> (w1, Inr \<lparr>sr_Allowed = False, sr_Reason = error_text err, sr_BlockedBy = di_BlockedBy result\<rparr>)
             | None \<Rightarrow>
                 if di_BlockedBy result \<noteq> []
                 then (w1, Inr \<lparr>sr_Allowed = False, sr_Reason = ''concurrency budget exhausted'', sr_BlockedBy = di_BlockedBy result\<rparr>)
                 else (w1\<lparr>wk_scheduled := AList.update key result (wk_scheduled w)\<rparr>,
                       Inr \<lparr>sr_Allowed = True, sr_Reason = [], sr_BlockedBy = []\<rparr>))
        | (scheduler, _) \<Rightarrow> (w\<lparr>wk_scheduler := scheduler\<rparr>, Inl (Errorf ''scheduler returned an invalid result count'')))"

definition CompleteSchedule :: "('s, 'x) Activities \<Rightarrow> ScheduleCompleteInput \<Rightarrow> ('s, 'x) worker \<Rightarrow> ('s, 'x) worker \<times> (error, CircuitState) result" where
  "CompleteSchedule a input w =
     (let key = schedule_key (sci_RunID input) (sci_StepID input) in
      case map_of (wk_scheduled w) key of
        None \<Rightarrow> (w, Inr (State (sch_breaker (wk_scheduler w)) []))
      | Some dispatch \<Rightarrow>
          (case Complete (wk_scheduler w) dispatch (sci_Failed input) of (scheduler, state) \<Rightarrow>
             (w\<lparr>wk_scheduler := scheduler, wk_scheduled := AList.delete key (wk_scheduled w)\<rparr>, Inr state)))"

section \<open>Runs and policy\<close>

text \<open>
  After a version conflict the stored run is compared with what this update would have written:
  when they are equal, an earlier attempt of the same activity already wrote it.
\<close>

definition PersistRun :: "('s, 'x) Activities \<Rightarrow> PersistInput \<Rightarrow> ('s, 'x) worker \<Rightarrow> ('s, 'x) worker \<times> (error, ReleaseRun) result" where
  "PersistRun a input w =
     (let run = per_Run input; expected = run_StateVersion run in
      case audits_for a run (per_Audits input) w of (w1, audits) \<Rightarrow>
      case (if per_EventType input \<noteq> []
            then case outbox_event a ''run-event'' (run_ID run) (per_EventType input) [(''status'', AnyString (RunStatus_text (run_Status run)))] w1 of
                (w2, event) \<Rightarrow> (w2, [event])
            else (w1, [])) of (w3, outbox) \<Rightarrow>
      case ds_UpdateRunAtomic (av_Store a) (wk_store w3) run expected audits outbox of
        (s, Inr updated) \<Rightarrow> (w3\<lparr>wk_store := s\<rparr>, Inr updated)
      | (s, Inl err) \<Rightarrow>
          (w3\<lparr>wk_store := s\<rparr>,
           if errors_Is err ErrConflict
           then case ds_GetRun (av_Store a) s (run_ID run) of
               Inr current \<Rightarrow> if current = run\<lparr>run_StateVersion := expected + 1\<rparr> then Inr current else Inl err
             | Inl _ \<Rightarrow> Inl err
           else Inl err))"

definition EvaluateStep :: "('s, 'x) Activities \<Rightarrow> EvaluateInput \<Rightarrow> ('s, 'x) worker \<Rightarrow> ('s, 'x) worker \<times> (error, PolicyDecision) result" where
  "EvaluateStep a input w = (case activities_now a w of (w1, now) \<Rightarrow>
     (w1, Inr (Engine_Evaluate (av_digest a) (av_Policy a) now (InputForRelease (evi_Run input) (evi_Step input)))))"

section \<open>Deployment and rollback\<close>

text \<open>
  Both reserve an execution record under their idempotency key, call the executor only when this call
  created the record, and complete it.  A record that exists and has succeeded is replayed.
\<close>

definition payload_time :: "ExecutionRecord \<Rightarrow> string \<Rightarrow> time" where
  "payload_time rec key = (case map_of (er_Payload rec) key of Some (AnyTimeText t) \<Rightarrow> t | _ \<Rightarrow> 0)"

definition recorded_deployment :: "ExecutionRecord \<Rightarrow> ExecDeployment" where
  "recorded_deployment rec = \<lparr>xd_ExternalID = er_ExternalExecutionID rec,
     xd_StartedAt = payload_time rec ''started_at'', xd_FinishedAt = payload_time rec ''finished_at''\<rparr>"

definition recorded_execution :: "ExecutionRecord \<Rightarrow> ExecDeployment \<Rightarrow> Execution" where
  "recorded_execution rec d = \<lparr>ex_ID = er_ID rec, ex_Adapter = er_Adapter rec, ex_IdempotencyKey = er_IdempotencyKey rec,
     ex_Status = ExecutionStatus_text (er_Status rec), ex_ExternalExecutionID = xd_ExternalID d,
     ex_StartedAt = xd_StartedAt d, ex_FinishedAt = xd_FinishedAt d\<rparr>"

definition succeeded_record :: "ExecutionRecord \<Rightarrow> ExecDeployment \<Rightarrow> time \<Rightarrow> ExecutionRecord" where
  "succeeded_record rec d now = rec\<lparr>er_Status := ExecutionSucceeded, er_ExternalExecutionID := xd_ExternalID d,
     er_Payload := [(''started_at'', AnyTimeText (xd_StartedAt d)), (''finished_at'', AnyTimeText (xd_FinishedAt d))], er_UpdatedAt := now\<rparr>"

definition Deploy_reserve :: "('s, 'x) Activities \<Rightarrow> DeployInput \<Rightarrow> ('s, 'x) worker
    \<Rightarrow> ('s, 'x) worker \<times> ((error, DeployResult) result, ExecutionRecord) result" where
  "Deploy_reserve a input w =
     (case activities_now a w of (w1, now) \<Rightarrow> case activities_newID a ''execution'' w1 of (w2, i) \<Rightarrow>
      let rec = \<lparr>er_ID = i, er_RunID = dp_RunID input, er_Service = dp_Service input, er_Adapter = av_AdapterName a,
            er_IdempotencyKey = dp_IdempotencyKey input, er_Status = ExecutionReserved, er_ExternalExecutionID = [],
            er_Payload = [(''desired_version'', AnyString (dp_DesiredVersion input))], er_StateVersion = 0,
            er_CreatedAt = now, er_UpdatedAt = now\<rparr>;
          details = [(''adapter'', AnyString (av_AdapterName a)), (''idempotency_key'', AnyString (dp_IdempotencyKey input))] in
      case auditFor a (dp_RunID input) (dp_RequestedBy input)
          \<lparr>ai_ActorType = ''agent'', ai_ActorID = dp_AgentID input, ai_Action = ''deployment.reserve'', ai_ResourceType = ''service'',
           ai_ResourceID = dp_Service input, ai_Result = ''AUTHORIZED'', ai_Details = details\<rparr> now w2 of (w3, audit) \<Rightarrow>
      case outbox_event a ''execution'' i ''execution.reserved'' details w3 of (w4, outbox) \<Rightarrow>
      case ds_ReserveExecution (av_Store a) (wk_store w4) rec audit outbox of
        (s, Inl err) \<Rightarrow> (w4\<lparr>wk_store := s\<rparr>, Inl (Inl err))
      | (s, Inr (reserved, created)) \<Rightarrow>
          (w4\<lparr>wk_store := s\<rparr>,
           if created then Inr reserved
           else if er_Status reserved = ExecutionSucceeded
           then let d = recorded_deployment reserved in
             Inl (Inr \<lparr>dr_Execution = recorded_execution reserved d, dr_Deployment = d\<rparr>)
           else Inl (Inl (ApplicationError ''reserved execution requires reconciliation'' ErrorUnknownExternalState
                  (ClassifiedError ErrorUnknownExternalState ''deploy'' ErrUnknownExternalState)))))"

definition Deploy_execute :: "('s, 'x) Activities \<Rightarrow> DeployInput \<Rightarrow> ('s, 'x) worker \<Rightarrow> ('s, 'x) worker \<times> (error, ExecDeployment) result" where
  "Deploy_execute a input w = (case xe_Deploy (av_Executor a) (wk_external w)
       \<lparr>xq_Service = dp_Service input, xq_Environment = dp_Environment input, xq_DesiredVersion = dp_DesiredVersion input,
        xq_IdempotencyKey = dp_IdempotencyKey input\<rparr> of (x, result) \<Rightarrow> (w\<lparr>wk_external := x\<rparr>, result))"

definition deployment_result :: "DeployInput \<Rightarrow> string \<Rightarrow> (string \<times> AnyValue) list \<Rightarrow> AuditIntent" where
  "deployment_result input result details = \<lparr>ai_ActorType = ''system'', ai_ActorID = ''workflow-worker'', ai_Action = ''deployment.result'',
     ai_ResourceType = ''service'', ai_ResourceID = dp_Service input, ai_Result = result, ai_Details = details\<rparr>"

definition Deploy_complete :: "('s, 'x) Activities \<Rightarrow> DeployInput \<Rightarrow> ExecutionRecord \<Rightarrow> (error, ExecDeployment) result \<Rightarrow> ('s, 'x) worker
    \<Rightarrow> ('s, 'x) worker \<times> (error, DeployResult) result" where
  "Deploy_complete a input reserved deployed w =
     (case activities_now a w of (w1, now) \<Rightarrow>
      case deployed of
        Inl err \<Rightarrow>
          (case auditFor a (dp_RunID input) (dp_RequestedBy input) (deployment_result input ''UNKNOWN'' [(''error'', AnyString (error_text err))]) now w1 of (w2, audit) \<Rightarrow>
           case outbox_event a ''execution'' (er_ID reserved) ''execution.unknown'' [] w2 of (w3, outbox) \<Rightarrow>
           case ds_CompleteExecution (av_Store a) (wk_store w3) (reserved\<lparr>er_Status := ExecutionUnknown, er_UpdatedAt := now\<rparr>)
               (er_StateVersion reserved) audit outbox of
             (s, _) \<Rightarrow> (w3\<lparr>wk_store := s\<rparr>, Inl (ApplicationError ''deployment result is unknown'' ErrorUnknownExternalState
                 (ClassifiedError ErrorUnknownExternalState ''deploy'' err))))
      | Inr d \<Rightarrow>
          (let done = succeeded_record reserved d now in
           case auditFor a (dp_RunID input) (dp_RequestedBy input) (deployment_result input ''SUCCEEDED'' [(''external_execution_id'', AnyString (xd_ExternalID d))]) now w1 of (w2, audit) \<Rightarrow>
           case outbox_event a ''execution'' (er_ID reserved) ''execution.succeeded'' [] w2 of (w3, outbox) \<Rightarrow>
           case ds_CompleteExecution (av_Store a) (wk_store w3) done (er_StateVersion reserved) audit outbox of
             (s, Some err) \<Rightarrow> (w3\<lparr>wk_store := s\<rparr>, Inl (ApplicationError ''deployment succeeded but persistence is unknown'' ErrorUnknownExternalState err))
           | (s, None) \<Rightarrow> (w3\<lparr>wk_store := s\<rparr>, Inr \<lparr>dr_Execution = recorded_execution done d, dr_Deployment = d\<rparr>)))"

definition Deploy :: "('s, 'x) Activities \<Rightarrow> DeployInput \<Rightarrow> ('s, 'x) worker \<Rightarrow> ('s, 'x) worker \<times> (error, DeployResult) result" where
  "Deploy a input w = (case Deploy_reserve a input w of
       (w1, Inl early) \<Rightarrow> (w1, early)
     | (w1, Inr reserved) \<Rightarrow> (case Deploy_execute a input w1 of (w2, deployed) \<Rightarrow> Deploy_complete a input reserved deployed w2))"

definition activity_Verify :: "('s, 'x) Activities \<Rightarrow> ExecDeployment \<Rightarrow> ('s, 'x) worker \<Rightarrow> ('s, 'x) worker \<times> (error, VerificationResult) result" where
  "activity_Verify a deployment w =
     (case xe_Verify (av_Executor a) (wk_external w) deployment of
        (x, Inl err) \<Rightarrow> (w\<lparr>wk_external := x\<rparr>, Inl (ClassifiedError ErrorRetryable ''verify'' err))
      | (x, Inr result) \<Rightarrow>
          (w\<lparr>wk_external := x\<rparr>,
           if ae_Status (xv_Evidence result) \<noteq> Outcome result
           then Inl (ClassifiedError ErrorTerminal ''verify'' (Errorf ''verification outcome and evidence disagree''))
           else case ValidateEvidence (av_digest a) (xv_Evidence result) of
               Some err \<Rightarrow> Inl (ClassifiedError ErrorTerminal ''verify'' err)
             | None \<Rightarrow> Inr result))"

definition rollback_audit :: "DeployInput \<Rightarrow> string \<Rightarrow> string \<Rightarrow> (string \<times> AnyValue) list \<Rightarrow> AuditIntent" where
  "rollback_audit input action result details = \<lparr>ai_ActorType = ''system'', ai_ActorID = ''workflow-worker'', ai_Action = action,
     ai_ResourceType = ''service'', ai_ResourceID = dp_Service input, ai_Result = result, ai_Details = details\<rparr>"

definition Rollback_reserve :: "('s, 'x) Activities \<Rightarrow> RollbackInput \<Rightarrow> ('s, 'x) worker
    \<Rightarrow> ('s, 'x) worker \<times> ((error, RollbackResult) result, ExecutionRecord) result" where
  "Rollback_reserve a input w =
     (let deploy = rbi_Deploy input; key = dp_IdempotencyKey deploy @ ''/rollback'' in
      case activities_now a w of (w1, now) \<Rightarrow> case activities_newID a ''rollback'' w1 of (w2, i) \<Rightarrow>
      let rec = \<lparr>er_ID = i, er_RunID = dp_RunID deploy, er_Service = dp_Service deploy, er_Adapter = av_AdapterName a @ ''.rollback'',
            er_IdempotencyKey = key, er_Status = ExecutionReserved, er_ExternalExecutionID = [], er_Payload = [], er_StateVersion = 0,
            er_CreatedAt = now, er_UpdatedAt = now\<rparr> in
      case auditFor a (dp_RunID deploy) (dp_RequestedBy deploy) (rollback_audit deploy ''rollback.reserve'' ''AUTHORIZED'' []) now w2 of (w3, audit) \<Rightarrow>
      case outbox_event a ''execution'' i ''rollback.reserved'' [] w3 of (w4, outbox) \<Rightarrow>
      case ds_ReserveExecution (av_Store a) (wk_store w4) rec audit outbox of
        (s, Inl err) \<Rightarrow> (w4\<lparr>wk_store := s\<rparr>, Inl (Inl err))
      | (s, Inr (reserved, created)) \<Rightarrow>
          (w4\<lparr>wk_store := s\<rparr>,
           if created then Inr reserved
           else if er_Status reserved = ExecutionSucceeded
           then let d = recorded_deployment reserved in
             Inl (Inr \<lparr>rbr_Execution = recorded_execution reserved d, rbr_Deployment = d\<rparr>)
           else Inl (Inl (ApplicationError ''rollback state requires reconciliation'' ErrorUnknownExternalState ErrUnknownExternalState))))"

definition Rollback_execute :: "('s, 'x) Activities \<Rightarrow> RollbackInput \<Rightarrow> ('s, 'x) worker \<Rightarrow> ('s, 'x) worker \<times> (error, ExecDeployment) result" where
  "Rollback_execute a input w = (case xe_Rollback (av_Executor a) (wk_external w) (rbi_Deployment input) of
     (x, result) \<Rightarrow> (w\<lparr>wk_external := x\<rparr>, result))"

definition Rollback_complete :: "('s, 'x) Activities \<Rightarrow> RollbackInput \<Rightarrow> ExecutionRecord \<Rightarrow> (error, ExecDeployment) result \<Rightarrow> ('s, 'x) worker
    \<Rightarrow> ('s, 'x) worker \<times> (error, RollbackResult) result" where
  "Rollback_complete a input reserved rolledBack w =
     (let deploy = rbi_Deploy input in
      case activities_now a w of (w1, now) \<Rightarrow>
      case rolledBack of
        Inl err \<Rightarrow>
          (case auditFor a (dp_RunID deploy) (dp_RequestedBy deploy) (rollback_audit deploy ''rollback.result'' ''UNKNOWN'' []) now w1 of (w2, audit) \<Rightarrow>
           case outbox_event a ''execution'' (er_ID reserved) ''rollback.unknown'' [] w2 of (w3, outbox) \<Rightarrow>
           case ds_CompleteExecution (av_Store a) (wk_store w3) (reserved\<lparr>er_Status := ExecutionUnknown, er_UpdatedAt := now\<rparr>)
               (er_StateVersion reserved) audit outbox of
             (s, _) \<Rightarrow> (w3\<lparr>wk_store := s\<rparr>, Inl (ApplicationError ''rollback result is unknown'' ErrorUnknownExternalState err)))
      | Inr d \<Rightarrow>
          (let done = succeeded_record reserved d now in
           case auditFor a (dp_RunID deploy) (dp_RequestedBy deploy)
               (rollback_audit deploy ''rollback.result'' ''SUCCEEDED'' [(''external_execution_id'', AnyString (xd_ExternalID d))]) now w1 of (w2, audit) \<Rightarrow>
           case outbox_event a ''execution'' (er_ID reserved) ''rollback.succeeded'' [] w2 of (w3, outbox) \<Rightarrow>
           case ds_CompleteExecution (av_Store a) (wk_store w3) done (er_StateVersion reserved) audit outbox of
             (s, Some err) \<Rightarrow> (w3\<lparr>wk_store := s\<rparr>, Inl (ApplicationError ''rollback succeeded but persistence is unknown'' ErrorUnknownExternalState err))
           | (s, None) \<Rightarrow> (w3\<lparr>wk_store := s\<rparr>, Inr \<lparr>rbr_Execution = recorded_execution done d, rbr_Deployment = d\<rparr>)))"

definition activity_Rollback :: "('s, 'x) Activities \<Rightarrow> RollbackInput \<Rightarrow> ('s, 'x) worker \<Rightarrow> ('s, 'x) worker \<times> (error, RollbackResult) result" where
  "activity_Rollback a input w = (case Rollback_reserve a input w of
       (w1, Inl early) \<Rightarrow> (w1, early)
     | (w1, Inr reserved) \<Rightarrow> (case Rollback_execute a input w1 of (w2, rolledBack) \<Rightarrow> Rollback_complete a input reserved rolledBack w2))"

end
