(* ===== verification/Workflow.thy ===== *)
theory Workflow
  imports Activities
begin

text \<open>
  \<^verbatim>\<open>internal/workflow/release.go\<close>: the durable release workflow.  The Temporal runtime is a parameter: a
  record of the operations the workflow calls on it, over a state of any type \<open>'w\<close>.  An activity is
  such an operation, with the runtime's retries inside it.  A wait that has not been woken up ends the
  run of the model with \<open>Waiting\<close>; the fuel is the number of wake-ups each waiting loop looks at, so the
  statements for every fuel cover every finite part of an execution.
\<close>

section \<open>The runtime\<close>

record ApprovalSignal =
  sg_ApprovalID :: string
  sg_Actor :: string
  sg_Roles :: "string list"
  sg_Approve :: bool
  sg_Action :: string

record ControlSignal =
  cs_Actor :: string
  cs_Reason :: string

datatype approval_event = GotApproval ApprovalSignal | GotPause ControlSignal | GotCancel ControlSignal | GotTimer
datatype resume_event = ResumeSignal ControlSignal | CancelSignal ControlSignal

record 'w Runtime =
  rt_Hash :: "string \<Rightarrow> string"
  rt_SetQueryHandler :: "'w \<Rightarrow> 'w \<times> error option"
  rt_Now :: "'w \<Rightarrow> 'w \<times> time"
  rt_Sleep :: "duration \<Rightarrow> 'w \<Rightarrow> 'w \<times> error option"
  rt_ReceiveCancel :: "'w \<Rightarrow> 'w \<times> bool"
  rt_ReceivePause :: "'w \<Rightarrow> 'w \<times> bool"
  rt_SelectApproval :: "duration \<Rightarrow> 'w \<Rightarrow> 'w \<times> approval_event option"
  rt_SelectResume :: "'w \<Rightarrow> 'w \<times> resume_event option"
  rt_PersistRun :: "PersistInput \<Rightarrow> 'w \<Rightarrow> 'w \<times> (error, ReleaseRun) result"
  rt_EvaluateStep :: "EvaluateInput \<Rightarrow> 'w \<Rightarrow> 'w \<times> (error, PolicyDecision) result"
  rt_AcquireSchedule :: "ScheduleInput \<Rightarrow> 'w \<Rightarrow> 'w \<times> (error, ScheduleResult) result"
  rt_CompleteSchedule :: "ScheduleCompleteInput \<Rightarrow> 'w \<Rightarrow> 'w \<times> (error, CircuitState) result"
  rt_Deploy :: "DeployInput \<Rightarrow> 'w \<Rightarrow> 'w \<times> (error, DeployResult) result"
  rt_Verify :: "ExecDeployment \<Rightarrow> 'w \<Rightarrow> 'w \<times> (error, VerificationResult) result"
  rt_Rollback :: "RollbackInput \<Rightarrow> 'w \<Rightarrow> 'w \<times> (error, RollbackResult) result"

text \<open>
  How a part of the workflow ends: it goes on with a value, the workflow returns the run, it fails, it
  waits, or it indexes a step that does not exist.
\<close>

datatype 'a flow = Next 'a | Return ReleaseRun | Fail error | Waiting | OutOfRange

type_synonym ('w, 'a) wf = "'w \<Rightarrow> 'w \<times> 'a flow"

definition andThen :: "('w, 'a) wf \<Rightarrow> ('a \<Rightarrow> ('w, 'b) wf) \<Rightarrow> ('w, 'b) wf" where
  "andThen m f w = (case m w of
       (w', Next a) \<Rightarrow> f a w'
     | (w', Return run) \<Rightarrow> (w', Return run)
     | (w', Fail err) \<Rightarrow> (w', Fail err)
     | (w', Waiting) \<Rightarrow> (w', Waiting)
     | (w', OutOfRange) \<Rightarrow> (w', OutOfRange))"

definition goOn :: "'a \<Rightarrow> ('w, 'a) wf" where "goOn a w = (w, Next a)"
definition finishWith :: "ReleaseRun \<Rightarrow> ('w, 'a) wf" where "finishWith run w = (w, Return run)"

definition call_of :: "('w \<Rightarrow> 'w \<times> 'a) \<Rightarrow> ('w, 'a) wf" where
  "call_of f w = (case f w of (w', a) \<Rightarrow> (w', Next a))"

definition checked :: "('w \<Rightarrow> 'w \<times> error option) \<Rightarrow> ('w, unit) wf" where
  "checked f w = (case f w of (w', Some err) \<Rightarrow> (w', Fail err) | (w', None) \<Rightarrow> (w', Next ()))"

definition activity :: "('w \<Rightarrow> 'w \<times> (error, 'a) result) \<Rightarrow> ('w, 'a) wf" where
  "activity f w = (case f w of (w', Inl err) \<Rightarrow> (w', Fail err) | (w', Inr a) \<Rightarrow> (w', Next a))"

definition awaited :: "('w \<Rightarrow> 'w \<times> 'a option) \<Rightarrow> ('w, 'a) wf" where
  "awaited f w = (case f w of (w', None) \<Rightarrow> (w', Waiting) | (w', Some a) \<Rightarrow> (w', Next a))"

section \<open>Steps of a run\<close>

definition with_step :: "ReleaseRun \<Rightarrow> nat \<Rightarrow> (ReleaseStep \<Rightarrow> ('w, 'a) wf) \<Rightarrow> ('w, 'a) wf" where
  "with_step run index f w = (if index < length (run_Steps run) then f (run_Steps run ! index) w else (w, OutOfRange))"

definition set_step :: "ReleaseRun \<Rightarrow> nat \<Rightarrow> ReleaseStep \<Rightarrow> ReleaseRun" where
  "set_step run index step = run\<lparr>run_Steps := (run_Steps run)[index := step]\<rparr>"

definition workflow_cancelDownstream :: "ReleaseRun \<Rightarrow> nat \<Rightarrow> ReleaseRun" where
  "workflow_cancelDownstream run from = run\<lparr>run_Steps := take from (run_Steps run) @
     map (\<lambda>s. if rs_Status s = StepPending then s\<lparr>rs_Status := StepCancelled\<rparr> else s) (drop from (run_Steps run))\<rparr>"

definition cancel_from :: "ReleaseRun \<Rightarrow> nat \<Rightarrow> ReleaseRun" where
  "cancel_from run from = run\<lparr>run_Steps := take from (run_Steps run) @
     map (\<lambda>s. if rs_Status s = StepPending \<or> rs_Status s = StepWaitingApproval then s\<lparr>rs_Status := StepCancelled\<rparr> else s) (drop from (run_Steps run))\<rparr>"

definition workflow_containsAll :: "string list \<Rightarrow> string list \<Rightarrow> bool" where
  "workflow_containsAll actual required \<longleftrightarrow> list_all (\<lambda>v. v \<in> set actual) required"

definition plan_steps :: "ReleasePlan \<Rightarrow> PlanStep list" where
  "plan_steps plan = concat (map pp_Steps (pl_Phases plan))"

definition ordering_dependencies :: "PlanStep \<Rightarrow> string list" where
  "ordering_dependencies ps = map dep_Service (filter (\<lambda>d. dep_Service d \<noteq> [] \<and> EnforcesRolloutOrder (dep_Type d)) (ps_Dependencies ps))"

text \<open>The empty string says that no dependency is unmet.\<close>

definition unmetDependency :: "ReleasePlan \<Rightarrow> string \<Rightarrow> string set \<Rightarrow> string set \<Rightarrow> string" where
  "unmetDependency plan service selected succeeded =
     (case find (\<lambda>d. d \<in> selected \<and> d \<notin> succeeded)
         (concat (map ordering_dependencies (filter (\<lambda>ps. ps_Service ps = service) (plan_steps plan)))) of
        Some d \<Rightarrow> d | None \<Rightarrow> [])"

definition scheduler_step :: "PlanStep \<Rightarrow> string list \<Rightarrow> Step" where
  "scheduler_step ps dependencies = \<lparr>step_ID = ps_Service ps, step_Phase = ps_Phase ps, step_Tenant = sc_TenantID (ps_Scheduling ps),
     step_Environment = sc_Environment (ps_Scheduling ps), step_Region = sc_Region (ps_Scheduling ps), step_Cluster = sc_Cluster (ps_Scheduling ps),
     step_Team = sc_Team (ps_Scheduling ps), step_RiskTier = sc_RiskTier (ps_Scheduling ps), step_RunnerGroup = sc_RunnerGroup (ps_Scheduling ps),
     step_FailureDomains = sc_FailureDomains (ps_Scheduling ps), step_Dependencies = dependencies\<rparr>"

definition schedulingStep :: "ReleaseRun \<Rightarrow> ReleaseStep \<Rightarrow> Step" where
  "schedulingStep run releaseStep =
     (case find (\<lambda>ps. ps_Service ps = rs_Service releaseStep) (plan_steps (run_Plan run)) of
        Some ps \<Rightarrow> scheduler_step ps (ordering_dependencies ps)
      | None \<Rightarrow> \<lparr>step_ID = rs_Service releaseStep, step_Phase = rs_Phase releaseStep, step_Tenant = run_TenantID run,
          step_Environment = run_Environment run, step_Region = run_Region run, step_Cluster = run_Cluster run, step_Team = [],
          step_RiskTier = [], step_RunnerGroup = [], step_FailureDomains = [], step_Dependencies = []\<rparr>)"

text \<open>The number of the wave that holds the service; later waves overwrite earlier ones and an unknown service has wave 0.\<close>

definition waveByService :: "Wave list \<Rightarrow> string \<Rightarrow> int" where
  "waveByService waves service =
     (case map_of (rev (concat (map (\<lambda>wave. map (\<lambda>s. (step_ID s, wave_Number wave)) (wave_Steps wave)) waves))) service of
        Some n \<Rightarrow> n | None \<Rightarrow> 0)"

definition assignWaves :: "ReleaseRun \<Rightarrow> (error, ReleaseRun) result" where
  "assignWaves run =
     (let selected = rs_Service ` set (run_Steps run);
          planned = ps_Service ` set (plan_steps (run_Plan run)) in
      case BuildWaves (map (\<lambda>ps. scheduler_step ps (filter (\<lambda>d. d \<in> selected) (ordering_dependencies ps))) (plan_steps (run_Plan run))) DefaultLimits of
        Inl err \<Rightarrow> Inl (Wrapf ''build safe release waves: %w'' err)
      | Inr waves \<Rightarrow>
          if list_all (\<lambda>s. rs_Service s \<in> planned) (run_Steps run)
          then Inr (run\<lparr>run_Steps := map (\<lambda>s. s\<lparr>rs_Wave := waveByService waves (rs_Service s)\<rparr>) (run_Steps run)\<rparr>)
          else Inl (Errorf ''release step %q is absent from plan''))"

definition verificationProjection :: "VerificationResult \<Rightarrow> time \<Rightarrow> Verification" where
  "verificationProjection result checkedAt = (let e = xv_Evidence result in
     \<lparr>vf_Status = status_of (Outcome result), vf_Healthy = (Outcome result = AdapterPass), vf_Reason = xv_Reason result,
      vf_ObservedValue = xv_ObservedValue result, vf_Threshold = xv_Threshold result, vf_CheckedAt = checkedAt,
      vf_Evidence = \<lparr>ev_Source = ae_Source e, ev_QueryHash = ae_QueryHash e, ev_WindowFrom = ow_From (ae_Window e), ev_WindowTo = ow_To (ae_Window e),
        ev_ObservedAt = ae_ObservedAt e, ev_ObservedValue = ae_ObservedValue e, ev_Threshold = ae_Threshold e,
        ev_AdapterVersion = ae_AdapterVersion e, ev_EvidenceHash = ae_EvidenceHash e\<rparr>\<rparr>)"

definition observationDuration :: "string \<Rightarrow> duration" where
  "observationDuration value = (case ParseDuration value of None \<Rightarrow> 1000000000 | Some d \<Rightarrow> if d \<le> 0 then 1000000000 else d)"

definition EvidenceDetails :: "AdapterEvidence \<Rightarrow> (string \<times> AnyValue) list" where
  "EvidenceDetails e = [(''status'', AnyString (ae_Status e)), (''reason_code'', AnyString (ae_ReasonCode e)), (''source'', AnyString (ae_Source e)),
     (''query_hash'', AnyString (ae_QueryHash e)), (''window_from'', AnyTime (ow_From (ae_Window e))), (''window_to'', AnyTime (ow_To (ae_Window e))),
     (''observed_at'', AnyTime (ae_ObservedAt e)), (''observed_value'', AnyFloat (ae_ObservedValue e)), (''threshold'', AnyFloat (ae_Threshold e)),
     (''adapter_version'', AnyString (ae_AdapterVersion e)), (''evidence_hash'', AnyString (ae_EvidenceHash e))]"

definition deterministicID :: "'w Runtime \<Rightarrow> string \<Rightarrow> string list \<Rightarrow> string" where
  "deterministicID rt pre parts = pre @ ''_'' @ rt_Hash rt (join [CHR 0x00] parts)"

section \<open>Waiting for people\<close>

definition workflow_persist :: "'w Runtime \<Rightarrow> ReleaseRun \<Rightarrow> AuditIntent list \<Rightarrow> string \<Rightarrow> ('w, ReleaseRun) wf" where
  "workflow_persist rt run audits eventType = activity (rt_PersistRun rt \<lparr>per_Run = run, per_Audits = audits, per_EventType = eventType\<rparr>)"

definition stamped :: "'w Runtime \<Rightarrow> ReleaseRun \<Rightarrow> AuditIntent list \<Rightarrow> string \<Rightarrow> ('w, ReleaseRun) wf" where
  "stamped rt run audits eventType = andThen (call_of (rt_Now rt)) (\<lambda>now. workflow_persist rt (run\<lparr>run_UpdatedAt := now\<rparr>) audits eventType)"

definition intent :: "string \<Rightarrow> string \<Rightarrow> string \<Rightarrow> string \<Rightarrow> string \<Rightarrow> string \<Rightarrow> (string \<times> AnyValue) list \<Rightarrow> AuditIntent" where
  "intent actorType actorID action resourceType resourceID result details = \<lparr>ai_ActorType = actorType, ai_ActorID = actorID, ai_Action = action,
     ai_ResourceType = resourceType, ai_ResourceID = resourceID, ai_Result = result, ai_Details = details\<rparr>"

definition cancelRun :: "'w Runtime \<Rightarrow> ReleaseRun \<Rightarrow> nat \<Rightarrow> string \<Rightarrow> ('w, ReleaseRun) wf" where
  "cancelRun rt run from actor = stamped rt (cancel_from (run\<lparr>run_Status := RunCancelled\<rparr>) from)
     [intent ''user'' actor ''release.cancel'' ''release_run'' (run_ID run) ''CANCELLED'' []] ''release.cancelled''"

fun resume_loop :: "'w Runtime \<Rightarrow> nat \<Rightarrow> ReleaseRun \<Rightarrow> nat \<Rightarrow> ('w, ReleaseRun) wf" where
  "resume_loop rt 0 run index = (\<lambda>w. (w, Waiting))"
| "resume_loop rt (Suc fuel) run index = andThen (awaited (rt_SelectResume rt)) (\<lambda>event.
     case event of
       CancelSignal c \<Rightarrow> if cs_Actor c \<noteq> [] then cancelRun rt run index (cs_Actor c) else resume_loop rt fuel run index
     | ResumeSignal r \<Rightarrow>
         if cs_Actor r \<noteq> []
         then stamped rt (run\<lparr>run_Status := (case run_PausedFrom run of None \<Rightarrow> RunRunning | Some s \<Rightarrow> s), run_PausedFrom := None\<rparr>) [] ''release.resumed''
         else resume_loop rt fuel run index)"

definition waitForResume :: "'w Runtime \<Rightarrow> nat \<Rightarrow> ReleaseRun \<Rightarrow> nat \<Rightarrow> ('w, ReleaseRun) wf" where
  "waitForResume rt fuel run index =
     andThen (stamped rt (run\<lparr>run_PausedFrom := Some (run_Status run), run_Status := RunPaused\<rparr>) [] ''release.paused'')
       (\<lambda>run. resume_loop rt fuel run index)"

definition signal_action :: "ApprovalSignal \<Rightarrow> string" where
  "signal_action signal = (if sg_Action signal = [] then if sg_Approve signal then ''approve'' else ''deny'' else sg_Action signal)"

text \<open>The guard of a decision: signals that fail it are dropped and the loop waits on.\<close>

definition signal_accepted :: "ReleaseRun \<Rightarrow> Approval \<Rightarrow> ApprovalSignal \<Rightarrow> bool" where
  "signal_accepted run approval signal \<longleftrightarrow> sg_ApprovalID signal = ap_ID approval \<and> sg_Actor signal \<noteq> [] \<and>
     \<not> (signal_action signal = ''approve'' \<and> sg_Actor signal = run_RequestedBy run) \<and>
     \<not> ((signal_action signal = ''approve'' \<or> signal_action signal = ''revoke'') \<and> \<not> workflow_containsAll (sg_Roles signal) (ap_RequiredRoles approval))"

definition settle_approval :: "ReleaseRun \<Rightarrow> nat \<Rightarrow> ReleaseStep \<Rightarrow> Approval \<Rightarrow> ReleaseRun" where
  "settle_approval run index step approval = workflow_cancelDownstream
     ((set_step run index (step\<lparr>rs_Approval := Some approval, rs_Status := StepBlocked\<rparr>))\<lparr>run_Status := RunBlocked\<rparr>) (index + 1)"

definition decide :: "'w Runtime \<Rightarrow> ReleaseRun \<Rightarrow> nat \<Rightarrow> ReleaseStep \<Rightarrow> Approval \<Rightarrow> ApprovalSignal \<Rightarrow> ('w, ReleaseRun) wf" where
  "decide rt run index step approval signal = andThen (call_of (rt_Now rt)) (\<lambda>decidedAt.
     let decided = approval\<lparr>ap_DecidedBy := sg_Actor signal, ap_DecidedAt := Some decidedAt\<rparr>;
         note = (\<lambda>action result. [intent ''user'' (sg_Actor signal) action ''approval'' (sg_ApprovalID signal) result []]) in
     if signal_action signal = ''revoke''
     then workflow_persist rt ((settle_approval run index step (decided\<lparr>ap_Status := ApprovalRevoked\<rparr>))\<lparr>run_UpdatedAt := decidedAt\<rparr>)
       (note ''approval.revoke'' ''REVOKED'') ''approval.revoked''
     else if signal_action signal \<noteq> ''approve''
     then workflow_persist rt ((settle_approval run index step (decided\<lparr>ap_Status := ApprovalDenied\<rparr>))\<lparr>run_UpdatedAt := decidedAt\<rparr>)
       (note ''approval.decide'' ''DENIED'') ''approval.denied''
     else workflow_persist rt ((set_step run index (step\<lparr>rs_Approval := Some (decided\<lparr>ap_Status := ApprovalApproved\<rparr>), rs_Status := StepPending\<rparr>))
           \<lparr>run_Status := RunRunning, run_UpdatedAt := decidedAt\<rparr>)
       (note ''approval.decide'' ''APPROVED'') ''approval.approved'')"

text \<open>
  One wake-up of the selector fills one of the variables of the loop and leaves the others empty; an empty
  signal never names an actor.  The step of the awaited approval has one, as the loop sets it.
\<close>

fun approval_loop :: "'w Runtime \<Rightarrow> nat \<Rightarrow> ReleaseRun \<Rightarrow> nat \<Rightarrow> ('w, ReleaseRun) wf" where
  "approval_loop rt 0 run index = (\<lambda>w. (w, Waiting))"
| "approval_loop rt (Suc fuel) run index = with_step run index (\<lambda>step. case rs_Approval step of
       None \<Rightarrow> (\<lambda>w. (w, OutOfRange))
     | Some approval \<Rightarrow>
         andThen (call_of (rt_Now rt)) (\<lambda>now.
         andThen (awaited (rt_SelectApproval rt (ap_ExpiresAt approval - now))) (\<lambda>event. case event of
           GotCancel c \<Rightarrow> if cs_Actor c \<noteq> [] then cancelRun rt run index (cs_Actor c) else approval_loop rt fuel run index
         | GotPause p \<Rightarrow>
             if cs_Actor p \<noteq> []
             then andThen (waitForResume rt fuel run index) (\<lambda>run.
               if run_Status run = RunCancelled then goOn run else approval_loop rt fuel run index)
             else approval_loop rt fuel run index
         | GotTimer \<Rightarrow> stamped rt (settle_approval run index step (approval\<lparr>ap_Status := ApprovalExpired\<rparr>)) [] ''approval.expired''
         | GotApproval signal \<Rightarrow>
             if signal_accepted run approval signal then decide rt run index step approval signal else approval_loop rt fuel run index)))"

definition awaitApproval :: "'w Runtime \<Rightarrow> nat \<Rightarrow> ReleaseRun \<Rightarrow> nat \<Rightarrow> PolicyDecision \<Rightarrow> ('w, ReleaseRun) wf" where
  "awaitApproval rt fuel run index decision = andThen (call_of (rt_Now rt)) (\<lambda>now.
     with_step run index (\<lambda>step.
       let approval = \<lparr>ap_ID = deterministicID rt ''approval'' [run_ID run, rs_Service step], ap_RequiredRoles = pd_RequiredRoles decision,
             ap_Status = ApprovalPending, ap_PlanHash = pl_Hash (run_Plan run), ap_RequestedAt = now, ap_ExpiresAt = now + 86400000000000,
             ap_DecidedBy = [], ap_DecidedAt = None\<rparr> in
       andThen (workflow_persist rt ((set_step run index (step\<lparr>rs_Approval := Some approval, rs_Status := StepWaitingApproval\<rparr>))
             \<lparr>run_Status := RunWaitingApproval, run_UpdatedAt := now\<rparr>)
           [intent ''system'' ''policy-engine'' ''approval.request'' ''approval'' (ap_ID approval) ''PENDING'' []] ''approval.requested'')
         (\<lambda>run. approval_loop rt fuel run index)))"

section \<open>One step of the release\<close>

definition completeScheduling :: "'w Runtime \<Rightarrow> ReleaseRun \<Rightarrow> ReleaseStep \<Rightarrow> bool \<Rightarrow> ('w, CircuitState) wf" where
  "completeScheduling rt run step failed =
     activity (rt_CompleteSchedule rt \<lparr>sci_RunID = run_ID run, sci_StepID = rs_Service step, sci_Failed = failed\<rparr>)"

definition finish_persisted :: "'w Runtime \<Rightarrow> ReleaseRun \<Rightarrow> AuditIntent list \<Rightarrow> string \<Rightarrow> ('w, 'a) wf" where
  "finish_persisted rt run audits eventType = andThen (stamped rt run audits eventType) finishWith"

text \<open>The step ends with a status and a failure text, the run with a status, and the pending rest is cancelled.\<close>

definition stop_at :: "ReleaseRun \<Rightarrow> nat \<Rightarrow> ReleaseStep \<Rightarrow> StepStatus \<Rightarrow> string \<Rightarrow> RunStatus \<Rightarrow> ReleaseRun" where
  "stop_at run index step status failure runStatus = workflow_cancelDownstream
     ((set_step run index (step\<lparr>rs_Status := status, rs_Failure := failure\<rparr>))\<lparr>run_Status := runStatus\<rparr>) (index + 1)"

definition check_controls :: "'w Runtime \<Rightarrow> nat \<Rightarrow> ReleaseRun \<Rightarrow> nat \<Rightarrow> ('w, ReleaseRun) wf" where
  "check_controls rt fuel run index = andThen (call_of (rt_ReceiveCancel rt)) (\<lambda>cancelled.
     if cancelled then andThen (cancelRun rt run index ''signal'') finishWith
     else andThen (call_of (rt_ReceivePause rt)) (\<lambda>paused.
       if paused then andThen (waitForResume rt fuel run index) (\<lambda>run. if run_Status run = RunCancelled then finishWith run else goOn run)
       else goOn run))"

definition apply_decision :: "'w Runtime \<Rightarrow> nat \<Rightarrow> ReleaseRun \<Rightarrow> nat \<Rightarrow> PolicyDecision \<Rightarrow> ('w, ReleaseRun) wf" where
  "apply_decision rt fuel run index decision = with_step run index (\<lambda>step.
     if pd_Decision decision = DecisionDeny
     then finish_persisted rt (stop_at run index step StepBlocked (pd_ReasonDetail decision) RunBlocked) [] ''release.blocked''
     else if pd_Decision decision = DecisionRequireApproval
     then andThen (awaitApproval rt fuel run index decision) (\<lambda>run. if run_Status run \<noteq> RunRunning then finishWith run else goOn run)
     else goOn run)"

definition evaluate_step :: "'w Runtime \<Rightarrow> nat \<Rightarrow> string set \<Rightarrow> string set \<Rightarrow> ReleaseRun \<Rightarrow> nat \<Rightarrow> ReleaseStep \<Rightarrow> ('w, ReleaseRun) wf" where
  "evaluate_step rt fuel selected succeeded run index step =
     (let unmet = unmetDependency (run_Plan run) (rs_Service step) selected succeeded in
      if unmet \<noteq> []
      then finish_persisted rt (stop_at run index step StepBlocked (''selected dependency did not succeed: '' @ unmet) RunBlocked)
        [intent ''system'' ''temporal'' ''dependency.block'' ''service'' (rs_Service step) ''BLOCKED'' []] ''release.blocked''
      else andThen (activity (rt_EvaluateStep rt \<lparr>evi_Run = run, evi_Step = step\<rparr>)) (\<lambda>decision.
        andThen (stamped rt (set_step run index (step\<lparr>rs_Policy := Some decision\<rparr>))
            [intent ''system'' ''policy-engine'' ''policy.evaluate'' ''release_step'' (rs_Service step) (pd_Decision decision)
               [(''reason_code'', AnyString (pd_ReasonCode decision)), (''input_hash'', AnyString (pd_InputHash decision))]] ''policy.evaluated'') (\<lambda>run.
        apply_decision rt fuel run index decision)))"

definition Dimension_text :: "Dimension \<Rightarrow> string" where
  "Dimension_text d = (case d of DimensionTenant \<Rightarrow> ''tenant/global'' | DimensionEnvironment \<Rightarrow> ''environment'' | DimensionRegion \<Rightarrow> ''region''
     | DimensionCluster \<Rightarrow> ''cluster'' | DimensionTeam \<Rightarrow> ''team'' | DimensionRiskTier \<Rightarrow> ''risk-tier''
     | DimensionFailureDomain \<Rightarrow> ''shared-failure-domain'' | DimensionService \<Rightarrow> ''service+environment'')"

definition blocked_details :: "Blocked list \<Rightarrow> AnyValue" where
  "blocked_details blocked = AnyObjects (map (\<lambda>b. [(''dimension'', AnyString (Dimension_text (bl_Dimension b))), (''key'', AnyString (bl_Key b)),
     (''limit'', AnyInt (bl_Limit b))]) blocked)"

definition acquire_permit :: "'w Runtime \<Rightarrow> ReleaseRun \<Rightarrow> nat \<Rightarrow> ReleaseStep \<Rightarrow> ('w, unit) wf" where
  "acquire_permit rt run index step =
     andThen (activity (rt_AcquireSchedule rt \<lparr>si_RunID = run_ID run, si_Step = schedulingStep run step\<rparr>)) (\<lambda>scheduled.
       if sr_Allowed scheduled then goOn ()
       else finish_persisted rt (stop_at run index step StepBlocked (''dispatch backpressured: '' @ sr_Reason scheduled) RunBlocked)
         [intent ''system'' ''scheduler'' ''dispatch.block'' ''release_step'' (rs_Service step) ''BLOCKED''
           [(''reason'', AnyString (sr_Reason scheduled)), (''budget'', blocked_details (sr_BlockedBy scheduled))]] ''dispatch.backpressured'')"

definition deploy_input :: "ReleaseRun \<Rightarrow> ReleaseStep \<Rightarrow> DeployInput" where
  "deploy_input run step = \<lparr>dp_RunID = run_ID run, dp_RequestedBy = run_RequestedBy run, dp_AgentID = agent_ID (run_Agent run),
     dp_Service = rs_Service step, dp_Environment = run_Environment run, dp_DesiredVersion = ch_DesiredVersion (rs_Change step),
     dp_IdempotencyKey = run_ID run @ ''/'' @ run_Environment run @ ''/'' @ rs_Service step @ ''/'' @ ch_DesiredVersion (rs_Change step)\<rparr>"

text \<open>The result is the run with the execution, and the deployment.\<close>

definition execute_deployment :: "'w Runtime \<Rightarrow> ReleaseRun \<Rightarrow> nat \<Rightarrow> ('w, ReleaseRun \<times> DeployInput \<times> ExecDeployment) wf" where
  "execute_deployment rt run index = with_step run index (\<lambda>step. let input = deploy_input run step in
     andThen (call_of (rt_Deploy rt input)) (\<lambda>answer. case answer of
       Inl err \<Rightarrow> andThen (completeScheduling rt run step True) (\<lambda>_.
         finish_persisted rt (stop_at run index step StepUnknown ''deployment state unknown; reconciliation required'' RunBlocked) [] ''deployment.unknown'')
     | Inr deployed \<Rightarrow> goOn (set_step run index (step\<lparr>rs_Execution := Some (dr_Execution deployed)\<rparr>), input, dr_Deployment deployed)))"

text \<open>The step is persisted as executing before the deployment starts.\<close>

definition start_deployment :: "'w Runtime \<Rightarrow> ReleaseRun \<Rightarrow> nat \<Rightarrow> ReleaseStep \<Rightarrow> ('w, ReleaseRun \<times> DeployInput \<times> ExecDeployment) wf" where
  "start_deployment rt run index step =
     andThen (stamped rt (set_step run index (step\<lparr>rs_Status := StepExecuting\<rparr>)) [] ''deployment.executing'')
       (\<lambda>run. execute_deployment rt run index)"

definition succeed_unverified :: "'w Runtime \<Rightarrow> ReleaseRun \<Rightarrow> nat \<Rightarrow> ReleaseStep \<Rightarrow> ('w, ReleaseRun) wf" where
  "succeed_unverified rt run index step = andThen (completeScheduling rt run step False) (\<lambda>_.
     stamped rt (set_step run index (step\<lparr>rs_Status := StepSucceeded\<rparr>)) [] ''step.succeeded'')"

definition observe :: "'w Runtime \<Rightarrow> ReleaseStep \<Rightarrow> ExecDeployment \<Rightarrow> ('w, (error, VerificationResult) result) wf" where
  "observe rt step deployment = andThen (checked (rt_Sleep rt (observationDuration (rs_ObservationWindow step))))
     (\<lambda>_. call_of (rt_Verify rt deployment))"

definition observe_deployment :: "'w Runtime \<Rightarrow> ReleaseRun \<Rightarrow> nat \<Rightarrow> ExecDeployment \<Rightarrow> ('w, ReleaseRun \<times> VerificationResult) wf" where
  "observe_deployment rt run index deployment = with_step run index (\<lambda>step. andThen (observe rt step deployment) (\<lambda>answer. case answer of
       Inl err \<Rightarrow> andThen (completeScheduling rt run step True) (\<lambda>_.
         finish_persisted rt (stop_at run index step StepBlocked (''verification unavailable: '' @ error_text err) RunBlocked) [] ''verification.unavailable'')
     | Inr verification \<Rightarrow> andThen (call_of (rt_Now rt)) (\<lambda>now.
         goOn (set_step run index (step\<lparr>rs_Verification := Some (verificationProjection verification now)\<rparr>), verification))))"

definition verify_deployment :: "'w Runtime \<Rightarrow> ReleaseRun \<Rightarrow> nat \<Rightarrow> ReleaseStep \<Rightarrow> ExecDeployment \<Rightarrow> ('w, ReleaseRun \<times> VerificationResult) wf" where
  "verify_deployment rt run index step deployment =
     andThen (stamped rt (set_step run index (step\<lparr>rs_Status := StepVerifying\<rparr>)) [] ''deployment.started'')
       (\<lambda>run. observe_deployment rt run index deployment)"

text \<open>The rollback gives the step its final form and the run its final status.\<close>

definition escalated :: "ReleaseStep \<Rightarrow> string \<Rightarrow> ReleaseStep \<times> RunStatus" where
  "escalated step failure = (step\<lparr>rs_Status := StepEscalated, rs_Failure := failure\<rparr>, RunEscalated)"

definition verify_rollback :: "'w Runtime \<Rightarrow> ReleaseStep \<Rightarrow> ExecDeployment \<Rightarrow> string \<Rightarrow> ('w, ReleaseStep \<times> RunStatus) wf" where
  "verify_rollback rt step deployment reason = andThen (observe rt step deployment) (\<lambda>answer. case answer of
       Inl err \<Rightarrow> goOn (escalated step (''rollback verification unavailable: '' @ error_text err))
     | Inr verification \<Rightarrow> andThen (call_of (rt_Now rt)) (\<lambda>now.
         let step = step\<lparr>rs_RollbackVerification := Some (verificationProjection verification now)\<rparr> in
         goOn (if Outcome verification \<noteq> AdapterPass
               then escalated step (''rollback verification did not pass: '' @ Outcome verification)
               else (step\<lparr>rs_Status := StepRolledBack, rs_Failure := reason\<rparr>, RunFailed))))"

definition roll_back :: "'w Runtime \<Rightarrow> ReleaseStep \<Rightarrow> DeployInput \<Rightarrow> ExecDeployment \<Rightarrow> string \<Rightarrow> ('w, ReleaseStep \<times> RunStatus) wf" where
  "roll_back rt step input deployment reason =
     andThen (call_of (rt_Rollback rt \<lparr>rbi_Deploy = input, rbi_Deployment = deployment\<rparr>)) (\<lambda>answer. case answer of
       Inl err \<Rightarrow> goOn (escalated step (''rollback failed or unknown: '' @ error_text err))
     | Inr rolledBack \<Rightarrow> verify_rollback rt (step\<lparr>rs_RollbackExecution := Some (rbr_Execution rolledBack)\<rparr>) (rbr_Deployment rolledBack) reason)"

definition finish_rollback :: "'w Runtime \<Rightarrow> ReleaseRun \<Rightarrow> nat \<Rightarrow> DeployInput \<Rightarrow> ExecDeployment \<Rightarrow> string \<Rightarrow> ('w, 'a) wf" where
  "finish_rollback rt run index input deployment reason = with_step run index (\<lambda>step.
     andThen (roll_back rt step input deployment reason) (\<lambda>(step, status).
     andThen (completeScheduling rt run step True) (\<lambda>_.
       finish_persisted rt (workflow_cancelDownstream ((set_step run index step)\<lparr>run_Status := status\<rparr>) (index + 1)) [] ''rollback.finished'')))"

definition fail_step :: "'w Runtime \<Rightarrow> ReleaseRun \<Rightarrow> nat \<Rightarrow> ReleaseStep \<Rightarrow> DeployInput \<Rightarrow> ExecDeployment \<Rightarrow> VerificationResult \<Rightarrow> ('w, 'a) wf" where
  "fail_step rt run index step input deployment verification =
     (if rs_RollbackMode step \<noteq> RollbackAutomatic
      then andThen (completeScheduling rt run step True) (\<lambda>_.
        finish_persisted rt (stop_at run index step StepEscalated
            (''verification '' @ Outcome verification @ ''; automatic rollback is not authorized: '' @ rs_RollbackMode step) RunEscalated)
          [intent ''system'' ''verifier'' ''deployment.verify'' ''service'' (rs_Service step) (Outcome verification) (EvidenceDetails (xv_Evidence verification))]
          ''release.escalated'')
      else andThen (stamped rt (set_step run index (step\<lparr>rs_Status := StepRollingBack\<rparr>)) [] ''rollback.started'')
        (\<lambda>run. finish_rollback rt run index input deployment (xv_Reason verification)))"

definition succeed_step :: "'w Runtime \<Rightarrow> ReleaseRun \<Rightarrow> nat \<Rightarrow> ReleaseStep \<Rightarrow> VerificationResult \<Rightarrow> ('w, ReleaseRun) wf" where
  "succeed_step rt run index step verification = andThen (completeScheduling rt run step False) (\<lambda>_.
     stamped rt (set_step run index (step\<lparr>rs_Status := StepSucceeded\<rparr>))
       [intent ''system'' ''verifier'' ''deployment.verify'' ''service'' (rs_Service step) ''SUCCEEDED'' (EvidenceDetails (xv_Evidence verification))] ''step.succeeded'')"

definition conclude_step :: "'w Runtime \<Rightarrow> string set \<Rightarrow> nat \<Rightarrow> ReleaseRun \<Rightarrow> DeployInput \<Rightarrow> ExecDeployment \<Rightarrow> ('w, ReleaseRun \<times> string set) wf" where
  "conclude_step rt succeeded index run input deployment = with_step run index (\<lambda>step.
     if \<not> rs_VerificationRequired step
     then andThen (succeed_unverified rt run index step) (\<lambda>run. goOn (run, insert (rs_Service step) succeeded))
     else andThen (verify_deployment rt run index step deployment) (\<lambda>(run, verification). with_step run index (\<lambda>step.
       if Outcome verification \<noteq> AdapterPass
       then fail_step rt run index step input deployment verification
       else andThen (succeed_step rt run index step verification) (\<lambda>run. goOn (run, insert (rs_Service step) succeeded)))))"

definition dispatch_step :: "'w Runtime \<Rightarrow> string set \<Rightarrow> nat \<Rightarrow> ReleaseRun \<Rightarrow> ('w, ReleaseRun \<times> string set) wf" where
  "dispatch_step rt succeeded index run = with_step run index (\<lambda>step.
     andThen (acquire_permit rt run index step) (\<lambda>_.
     andThen (start_deployment rt run index step) (\<lambda>(run, input, deployment). conclude_step rt succeeded index run input deployment)))"

definition workflow_step :: "'w Runtime \<Rightarrow> nat \<Rightarrow> string set \<Rightarrow> string set \<Rightarrow> ReleaseRun \<Rightarrow> nat \<Rightarrow> ('w, ReleaseRun \<times> string set) wf" where
  "workflow_step rt fuel selected succeeded run index =
     andThen (check_controls rt fuel run index) (\<lambda>run. with_step run index (\<lambda>step.
     if rs_Status step = StepSucceeded then goOn (run, succeeded)
     else andThen (evaluate_step rt fuel selected succeeded run index step) (\<lambda>run. dispatch_step rt succeeded index run)))"

section \<open>The workflow\<close>

fun workflow_loop :: "'w Runtime \<Rightarrow> nat \<Rightarrow> string set \<Rightarrow> string set \<Rightarrow> ReleaseRun \<Rightarrow> nat list \<Rightarrow> ('w, ReleaseRun) wf" where
  "workflow_loop rt fuel selected succeeded run [] = goOn run"
| "workflow_loop rt fuel selected succeeded run (index # indices) =
     andThen (workflow_step rt fuel selected succeeded run index) (\<lambda>(run, succeeded). workflow_loop rt fuel selected succeeded run indices)"

definition release_run :: "'w Runtime \<Rightarrow> nat \<Rightarrow> ReleaseRun \<Rightarrow> ('w, ReleaseRun) wf" where
  "release_run rt fuel run = (case assignWaves run of
       Inl err \<Rightarrow> (\<lambda>w. (w, Fail err))
     | Inr waved \<Rightarrow>
         andThen (workflow_loop rt fuel (rs_Service ` set (run_Steps run)) (rs_Service ` set (filter (\<lambda>s. rs_Status s = StepSucceeded) (run_Steps run))) waved
             [0..<length (run_Steps waved)]) (\<lambda>run.
         finish_persisted rt (run\<lparr>run_Status := RunSucceeded\<rparr>)
           [intent ''system'' ''temporal'' ''release.workflow.complete'' ''release_run'' (run_ID run) ''SUCCEEDED'' []] ''release.succeeded''))"

definition ReleaseWorkflow :: "'w Runtime \<Rightarrow> nat \<Rightarrow> ReleaseRun \<Rightarrow> ('w, ReleaseRun) wf" where
  "ReleaseWorkflow rt fuel run = andThen (checked (rt_SetQueryHandler rt)) (\<lambda>_.
     andThen (stamped rt (run\<lparr>run_Status := RunRunning\<rparr>)
         [intent ''system'' ''temporal'' ''release.workflow.start'' ''release_run'' (run_ID run) ''RUNNING'' []] ''release.workflow.started'')
       (release_run rt fuel))"

end
