(* ===== verification/Activities_Safety.thy ===== *)
theory Activities_Safety
  imports Activities
begin

text \<open>
  The activities may be attempted several times and by several workers, and an attempt may stop
  between any two of its effects.  The locale \<open>execution_store\<close> states what they need of the store: a
  reservation is created at most once.  Deployments and rollbacks then reach the executor at most once,
  a repeated persist returns what the first one wrote, and permits are accounted for.
\<close>

section \<open>What the store sees\<close>

lemma activities_now_sel [simp]:
  "wk_store (fst (activities_now a w)) = wk_store w" "wk_external (fst (activities_now a w)) = wk_external w"
  by (simp_all add: activities_now_def)

lemma activities_newID_sel [simp]:
  "wk_store (fst (activities_newID a pre w)) = wk_store w" "wk_external (fst (activities_newID a pre w)) = wk_external w"
  by (simp_all add: activities_newID_def)

lemma auditFor_sel [simp]:
  "wk_store (fst (auditFor a r d i t w)) = wk_store w" "wk_external (fst (auditFor a r d i t w)) = wk_external w"
  by (simp_all add: auditFor_def activities_newID_def)

lemma outbox_event_sel [simp]:
  "wk_store (fst (outbox_event a pre i e p w)) = wk_store w" "wk_external (fst (outbox_event a pre i e p w)) = wk_external w"
  by (simp_all add: outbox_event_def activities_now_def activities_newID_def)

lemma audits_for_sel [simp]:
  "wk_store (fst (audits_for a run intents w)) = wk_store w"
proof (induction intents arbitrary: w)
  case (Cons intent intents)
  obtain w1 e where 1: "auditFor a (run_ID run) (run_RequestedBy run) intent (run_UpdatedAt run) w = (w1, e)" by fastforce
  obtain w2 es where 2: "audits_for a run intents w1 = (w2, es)" by fastforce
  have "wk_store w1 = wk_store w" using auditFor_sel(1)[of a _ _ intent _ w] 1 by (metis fst_conv)
  with Cons[of w1] 1 2 show ?case by simp
qed simp

text \<open>The effects of the phases are store operations on the store of the moment, in one step each.\<close>

lemma Deploy_reserve_store:
  assumes "Deploy_reserve a input w = (w', result)"
  obtains rec audit outbox answer where
    "ds_ReserveExecution (av_Store a) (wk_store w) rec audit outbox = (wk_store w', answer)"
    "er_Adapter rec = av_AdapterName a" "er_IdempotencyKey rec = dp_IdempotencyKey input"
    "\<And>reserved. result = Inr reserved \<Longrightarrow> answer = Inr (reserved, True)"
  using assms
  by (auto simp: Deploy_reserve_def activities_now_def activities_newID_def auditFor_def outbox_event_def Let_def
      split: prod.splits sum.splits if_splits)

lemma Rollback_reserve_store:
  assumes "Rollback_reserve a input w = (w', result)"
  obtains rec audit outbox answer where
    "ds_ReserveExecution (av_Store a) (wk_store w) rec audit outbox = (wk_store w', answer)"
    "er_Adapter rec = av_AdapterName a @ ''.rollback''" "er_IdempotencyKey rec = dp_IdempotencyKey (rbi_Deploy input) @ ''/rollback''"
    "\<And>reserved. result = Inr reserved \<Longrightarrow> answer = Inr (reserved, True)"
  using assms
  by (auto simp: Rollback_reserve_def activities_now_def activities_newID_def auditFor_def outbox_event_def Let_def
      split: prod.splits sum.splits if_splits)

lemma Deploy_complete_store:
  assumes "Deploy_complete a input reserved deployed w = (w', result)"
  obtains rec audit outbox where "wk_store w' = fst (ds_CompleteExecution (av_Store a) (wk_store w) rec (er_StateVersion reserved) audit outbox)"
  using assms
  by (auto simp: Deploy_complete_def activities_now_def activities_newID_def auditFor_def outbox_event_def Let_def
      split: prod.splits sum.splits option.splits) (metis fst_conv)+

lemma Rollback_complete_store:
  assumes "Rollback_complete a input reserved deployed w = (w', result)"
  obtains rec audit outbox where "wk_store w' = fst (ds_CompleteExecution (av_Store a) (wk_store w) rec (er_StateVersion reserved) audit outbox)"
  using assms
  by (auto simp: Rollback_complete_def activities_now_def activities_newID_def auditFor_def outbox_event_def Let_def
      split: prod.splits sum.splits option.splits) (metis fst_conv)+

lemma PersistRun_events:
  assumes "PersistRun a input w = (w', result)"
  obtains audits events answer where
    "ds_UpdateRunAtomic (av_Store a) (wk_store w) (per_Run input) (run_StateVersion (per_Run input)) audits events = (wk_store w', answer)"
    "result = (case answer of Inr updated \<Rightarrow> Inr updated
       | Inl err \<Rightarrow> (if errors_Is err ErrConflict
           then case ds_GetRun (av_Store a) (wk_store w') (run_ID (per_Run input)) of
               Inr current \<Rightarrow> if current = (per_Run input)\<lparr>run_StateVersion := run_StateVersion (per_Run input) + 1\<rparr> then Inr current else Inl err
             | Inl _ \<Rightarrow> Inl err
           else Inl err))"
    "\<forall>e \<in> set events. ob_EventType e = per_EventType input \<and> take 9 (ob_ID e) = ''run-event''"
proof -
  let ?run = "per_Run input"
  obtain w1 audits where 1: "audits_for a ?run (per_Audits input) w = (w1, audits)" by fastforce
  obtain w3 events where 2: "(if per_EventType input \<noteq> []
        then case outbox_event a ''run-event'' (run_ID ?run) (per_EventType input) [(''status'', AnyString (RunStatus_text (run_Status ?run)))] w1 of
            (w2, event) \<Rightarrow> (w2, [event])
        else (w1, [])) = (w3, events)" by fastforce
  have "wk_store w1 = wk_store w" using audits_for_sel[of a ?run "per_Audits input" w] 1 by simp
  moreover have "wk_store w3 = wk_store w1"
    using 2 by (auto simp: outbox_event_def activities_now_def activities_newID_def split: if_splits)
  moreover have 4: "\<forall>e \<in> set events. ob_EventType e = per_EventType input \<and> take 9 (ob_ID e) = ''run-event''"
    using 2 by (auto simp: outbox_event_def activities_now_def activities_newID_def split: if_splits)
  moreover obtain s answer where 3: "ds_UpdateRunAtomic (av_Store a) (wk_store w3) ?run (run_StateVersion ?run) audits events = (s, answer)" by fastforce
  ultimately have "ds_UpdateRunAtomic (av_Store a) (wk_store w) ?run (run_StateVersion ?run) audits events = (s, answer)" by simp
  then show ?thesis
    using assms unfolding PersistRun_def Let_def 1 prod.case 2 3 by (intro that[OF _ _ 4, of audits answer]) (auto split: sum.splits)
qed

lemma PersistRun_store:
  assumes "PersistRun a input w = (w', result)"
  obtains audits events answer where
    "ds_UpdateRunAtomic (av_Store a) (wk_store w) (per_Run input) (run_StateVersion (per_Run input)) audits events = (wk_store w', answer)"
    "result = (case answer of Inr updated \<Rightarrow> Inr updated
       | Inl err \<Rightarrow> (if errors_Is err ErrConflict
           then case ds_GetRun (av_Store a) (wk_store w') (run_ID (per_Run input)) of
               Inr current \<Rightarrow> if current = (per_Run input)\<lparr>run_StateVersion := run_StateVersion (per_Run input) + 1\<rparr> then Inr current else Inl err
             | Inl _ \<Rightarrow> Inl err
           else Inl err))"
  by (rule PersistRun_events[OF assms]) (rule that)

section \<open>At most one external write per key\<close>

datatype request = DeployRequest DeployInput | RollbackRequest RollbackInput

fun request_key :: "('s, 'x) Activities \<Rightarrow> request \<Rightarrow> string \<times> string" where
  "request_key a (DeployRequest input) = (av_AdapterName a, dp_IdempotencyKey input)"
| "request_key a (RollbackRequest input) = (av_AdapterName a @ ''.rollback'', dp_IdempotencyKey (rbi_Deploy input) @ ''/rollback'')"

fun reserve_request :: "('s, 'x) Activities \<Rightarrow> request \<Rightarrow> ('s, 'x) worker \<Rightarrow> ('s, 'x) worker \<times> ExecutionRecord option" where
  "reserve_request a (DeployRequest input) w = (case Deploy_reserve a input w of (w', Inr rec) \<Rightarrow> (w', Some rec) | (w', Inl _) \<Rightarrow> (w', None))"
| "reserve_request a (RollbackRequest input) w = (case Rollback_reserve a input w of (w', Inr rec) \<Rightarrow> (w', Some rec) | (w', Inl _) \<Rightarrow> (w', None))"

fun execute_request :: "('s, 'x) Activities \<Rightarrow> request \<Rightarrow> ('s, 'x) worker \<Rightarrow> ('s, 'x) worker \<times> (error, ExecDeployment) result" where
  "execute_request a (DeployRequest input) w = Deploy_execute a input w"
| "execute_request a (RollbackRequest input) w = Rollback_execute a input w"

fun complete_request :: "('s, 'x) Activities \<Rightarrow> request \<Rightarrow> ExecutionRecord \<Rightarrow> (error, ExecDeployment) result \<Rightarrow> ('s, 'x) worker \<Rightarrow> ('s, 'x) worker" where
  "complete_request a (DeployRequest input) rec d w = fst (Deploy_complete a input rec d w)"
| "complete_request a (RollbackRequest input) rec d w = fst (Rollback_complete a input rec d w)"

text \<open>
  Any number of attempts, interleaved between their effects; an attempt that crashes makes no further
  step.  \<open>ay_calls\<close> lists the requests for which the executor has been called, latest first.
\<close>

datatype attempt = NotStarted | Reserved request ExecutionRecord | Executed request ExecutionRecord "(error, ExecDeployment) result" | Finished

record ('s, 'x) activity_system =
  ay_worker :: "('s, 'x) worker"
  ay_calls :: "request list"
  ay_attempts :: "nat \<Rightarrow> attempt"

inductive activity_step :: "('s, 'x) Activities \<Rightarrow> ('s, 'x) activity_system \<Rightarrow> ('s, 'x) activity_system \<Rightarrow> bool" for a where
  refused: "ay_attempts y i = NotStarted \<Longrightarrow> reserve_request a r (ay_worker y) = (w, None) \<Longrightarrow>
    activity_step a y (y\<lparr>ay_worker := w, ay_attempts := (ay_attempts y)(i := Finished)\<rparr>)"
| reserved: "ay_attempts y i = NotStarted \<Longrightarrow> reserve_request a r (ay_worker y) = (w, Some rec) \<Longrightarrow>
    activity_step a y (y\<lparr>ay_worker := w, ay_attempts := (ay_attempts y)(i := Reserved r rec)\<rparr>)"
| executed: "ay_attempts y i = Reserved r rec \<Longrightarrow> execute_request a r (ay_worker y) = (w, d) \<Longrightarrow>
    activity_step a y (y\<lparr>ay_worker := w, ay_calls := r # ay_calls y, ay_attempts := (ay_attempts y)(i := Executed r rec d)\<rparr>)"
| completed: "ay_attempts y i = Executed r rec d \<Longrightarrow> complete_request a r rec d (ay_worker y) = w \<Longrightarrow>
    activity_step a y (y\<lparr>ay_worker := w, ay_attempts := (ay_attempts y)(i := Finished)\<rparr>)"
| persisted: "PersistRun a input (ay_worker y) = (w, result) \<Longrightarrow> activity_step a y (y\<lparr>ay_worker := w\<rparr>)"
| verified: "activity_Verify a d (ay_worker y) = (w, checked) \<Longrightarrow> activity_step a y (y\<lparr>ay_worker := w\<rparr>)"
| external: "activity_step a y (y\<lparr>ay_worker := (ay_worker y)\<lparr>wk_external := x\<rparr>\<rparr>)"

inductive activity_reach :: "('s, 'x) Activities \<Rightarrow> ('s, 'x) worker \<Rightarrow> ('s, 'x) activity_system \<Rightarrow> bool" for a w where
  start: "activity_reach a w \<lparr>ay_worker = w, ay_calls = [], ay_attempts = (\<lambda>_. NotStarted)\<rparr>"
| step: "activity_reach a w y \<Longrightarrow> activity_step a y y' \<Longrightarrow> activity_reach a w y'"

locale execution_store =
  fixes store :: "'s DurableStore" and used :: "'s \<Rightarrow> string \<times> string \<Rightarrow> bool"
  assumes reserve_created: "ds_ReserveExecution store s rec audit outbox = (s', Inr (stored, True)) \<Longrightarrow>
      \<not> used s (er_Adapter rec, er_IdempotencyKey rec) \<and> used s' (er_Adapter rec, er_IdempotencyKey rec)"
    and reserve_keeps: "used s k \<Longrightarrow> used (fst (ds_ReserveExecution store s rec audit outbox)) k"
    and complete_keeps: "used s k \<Longrightarrow> used (fst (ds_CompleteExecution store s rec v audit outbox)) k"
    and update_keeps: "used s k \<Longrightarrow> used (fst (ds_UpdateRunAtomic store s run v audits events)) k"
begin

lemma reserve_request_used:
  assumes "av_Store a = store" "reserve_request a r w = (w', result)"
  shows "used (wk_store w) k \<Longrightarrow> used (wk_store w') k"
    and "result = Some rec \<Longrightarrow> \<not> used (wk_store w) (request_key a r) \<and> used (wk_store w') (request_key a r)"
proof -
  obtain rec' audit outbox answer where s: "ds_ReserveExecution store (wk_store w) rec' audit outbox = (wk_store w', answer)"
      "(er_Adapter rec', er_IdempotencyKey rec') = request_key a r" "\<And>rec. result = Some rec \<Longrightarrow> answer = Inr (rec, True)"
  proof (cases r)
    case (DeployRequest input)
    obtain w1 res where d: "Deploy_reserve a input w = (w1, res)" by fastforce
    show ?thesis
      by (rule Deploy_reserve_store[OF d], rule that) (use d DeployRequest assms in \<open>auto split: sum.splits\<close>)
  next
    case (RollbackRequest input)
    obtain w1 res where d: "Rollback_reserve a input w = (w1, res)" by fastforce
    show ?thesis
      by (rule Rollback_reserve_store[OF d], rule that) (use d RollbackRequest assms in \<open>auto split: sum.splits\<close>)
  qed
  show "used (wk_store w) k \<Longrightarrow> used (wk_store w') k" using reserve_keeps s(1) by (metis fst_conv)
  show "result = Some rec \<Longrightarrow> \<not> used (wk_store w) (request_key a r) \<and> used (wk_store w') (request_key a r)"
    using reserve_created s by metis
qed

lemma execute_request_store: "wk_store (fst (execute_request a r w)) = wk_store w"
  by (cases r) (simp_all add: Deploy_execute_def Rollback_execute_def split: prod.splits)

lemma complete_request_used:
  assumes "av_Store a = store" "used (wk_store w) k"
  shows "used (wk_store (complete_request a r rec d w)) k"
proof (cases r)
  case (DeployRequest input)
  obtain w' res where c: "Deploy_complete a input rec d w = (w', res)" by fastforce
  show ?thesis by (rule Deploy_complete_store[OF c]) (use c DeployRequest assms complete_keeps[OF assms(2)] in simp)
next
  case (RollbackRequest input)
  obtain w' res where c: "Rollback_complete a input rec d w = (w', res)" by fastforce
  show ?thesis by (rule Rollback_complete_store[OF c]) (use c RollbackRequest assms complete_keeps[OF assms(2)] in simp)
qed

lemma PersistRun_used:
  assumes "av_Store a = store" "PersistRun a input w = (w', result)" "used (wk_store w) k"
  shows "used (wk_store w') k"
proof -
  obtain audits events answer where
    "ds_UpdateRunAtomic store (wk_store w) (per_Run input) (run_StateVersion (per_Run input)) audits events = (wk_store w', answer)"
    by (rule PersistRun_store[OF assms(2), unfolded assms(1)])
  then show ?thesis using update_keeps[OF assms(3)] by (metis fst_conv)
qed

lemma activity_Verify_store: "wk_store (fst (activity_Verify a d w)) = wk_store w"
  by (simp add: activity_Verify_def split: prod.splits sum.splits)

definition single_writes :: "('s, 'x) Activities \<Rightarrow> ('s, 'x) activity_system \<Rightarrow> bool" where
  "single_writes a y \<longleftrightarrow> distinct (map (request_key a) (ay_calls y)) \<and>
     (\<forall>r \<in> set (ay_calls y). used (wk_store (ay_worker y)) (request_key a r)) \<and>
     (\<forall>i r rec. ay_attempts y i = Reserved r rec \<longrightarrow>
        used (wk_store (ay_worker y)) (request_key a r) \<and> request_key a r \<notin> request_key a ` set (ay_calls y) \<and>
        (\<forall>j r' rec'. j \<noteq> i \<longrightarrow> ay_attempts y j = Reserved r' rec' \<longrightarrow> request_key a r' \<noteq> request_key a r))"

lemma single_writes_worker:
  assumes "single_writes a y" "\<And>k. used (wk_store (ay_worker y)) k \<Longrightarrow> used (wk_store w) k"
  shows "single_writes a (y\<lparr>ay_worker := w\<rparr>)"
  using assms by (simp add: single_writes_def)

lemma single_writes_finish:
  assumes "single_writes a y" "\<And>r rec. c \<noteq> Reserved r rec"
  shows "single_writes a (y\<lparr>ay_attempts := (ay_attempts y)(i := c)\<rparr>)"
  using assms by (simp add: single_writes_def)

lemma single_writes_step:
  assumes "av_Store a = store" "activity_step a y y'" "single_writes a y"
  shows "single_writes a y'"
  using assms(2)
proof cases
  case (refused i r w)
  have "single_writes a (y\<lparr>ay_worker := w\<rparr>)"
    using single_writes_worker[OF assms(3)] reserve_request_used(1)[OF assms(1) refused(3)] by blast
  from single_writes_finish[OF this, of Finished i] refused show ?thesis by simp
next
  case (reserved i r w rec)
  note new = reserve_request_used[OF assms(1) reserved(3)]
  have "single_writes a (y\<lparr>ay_worker := w\<rparr>)" using single_writes_worker[OF assms(3)] new(1) by blast
  moreover have "request_key a r' \<noteq> request_key a r" if "r' \<in> set (ay_calls y) \<or> ay_attempts y j = Reserved r' rec'" for r' j rec'
    using that assms(3) new(2)[OF refl] unfolding single_writes_def by metis
  ultimately show ?thesis using reserved new(2)[OF refl] unfolding single_writes_def by (auto simp: image_iff) metis+
next
  case (executed i r rec w d)
  have "wk_store w = wk_store (ay_worker y)" using execute_request_store[of a r "ay_worker y"] executed(3) by simp
  then show ?thesis using assms(3) executed unfolding single_writes_def by (auto simp: image_iff) metis+
next
  case (completed i r rec d w)
  have "single_writes a (y\<lparr>ay_worker := w\<rparr>)"
    using single_writes_worker[OF assms(3)] complete_request_used[OF assms(1)] completed(3) by blast
  from single_writes_finish[OF this, of Finished i] completed show ?thesis by simp
next
  case (persisted input w result)
  then show ?thesis using single_writes_worker[OF assms(3)] PersistRun_used[OF assms(1)] by blast
next
  case (verified d w checked)
  then show ?thesis using single_writes_worker[OF assms(3)] activity_Verify_store[of a d "ay_worker y"] by simp
next
  case (external x)
  then show ?thesis using single_writes_worker[OF assms(3)] by simp
qed

lemma reach_single_writes: "activity_reach a w y \<Longrightarrow> av_Store a = store \<Longrightarrow> single_writes a y"
proof (induction rule: activity_reach.induct)
  case start
  show ?case by (simp add: single_writes_def)
next
  case (step y y')
  then show ?case using single_writes_step by blast
qed

lemma calls_distinct: "activity_reach a w y \<Longrightarrow> av_Store a = store \<Longrightarrow> distinct (map (request_key a) (ay_calls y))"
  using reach_single_writes by (auto simp: single_writes_def)

end

definition memory_used :: "Memory \<Rightarrow> string \<times> string \<Rightarrow> bool" where
  "memory_used m k \<longleftrightarrow> map_of (m_executions m) (executionKey (fst k) (snd k)) \<noteq> None"

interpretation me: execution_store memory_durable memory_used
  by unfold_locales
    (auto simp: memory_used_def ReserveExecution_def CompleteExecution_def UpdateRunAtomic_def appendAtomic_def
      update_conv' Let_def split: option.splits if_splits prod.splits)

text \<open>
  C4.  The executor is called at most once per adapter and idempotency key: whatever attempts of deployments and rollbacks
  are made, however they are interleaved and wherever they crash, no two calls of the executor are for the same key.
\<close>

theorem executor_called_at_most_once:
  assumes "av_Store a = memory_durable" "activity_reach a w y"
  shows "distinct (map (request_key a) (ay_calls y))"
  by (rule me.calls_distinct[OF assms(2,1)])

section \<open>Repeated persists\<close>

lemma UpdateRunAtomic_Inr:
  "UpdateRunAtomic m run v audits events = (m', Inr updated) \<Longrightarrow> updated = run\<lparr>run_StateVersion := v + 1\<rparr> \<and> GetRun m' (run_ID run) = Inr updated"
  by (auto simp: UpdateRunAtomic_def GetRun_def appendAtomic_def Let_def update_conv' split: option.splits if_splits)

lemma UpdateRunAtomic_Inl: "UpdateRunAtomic m run v audits events = (m', Inl err) \<Longrightarrow> m' = m"
  by (auto simp: UpdateRunAtomic_def Let_def split: option.splits if_splits)

lemma UpdateRunAtomic_conflict:
  "GetRun m (run_ID run) = Inr stored \<Longrightarrow> run_StateVersion stored \<noteq> v \<Longrightarrow> UpdateRunAtomic m run v audits events = (m, Inl ErrConflict)"
  by (auto simp: UpdateRunAtomic_def GetRun_def split: option.splits)

lemma PersistRun_version:
  assumes "av_Store a = memory_durable" "PersistRun a input w = (w', Inr run)"
  shows "run = (per_Run input)\<lparr>run_StateVersion := run_StateVersion (per_Run input) + 1\<rparr> \<and> GetRun (wk_store w') (run_ID run) = Inr run"
proof -
  obtain audits events answer where
    u: "UpdateRunAtomic (wk_store w) (per_Run input) (run_StateVersion (per_Run input)) audits events = (wk_store w', answer)" and
    r: "Inr run = (case answer of Inr updated \<Rightarrow> Inr updated
       | Inl err \<Rightarrow> (if errors_Is err ErrConflict
           then case GetRun (wk_store w') (run_ID (per_Run input)) of
               Inr current \<Rightarrow> if current = (per_Run input)\<lparr>run_StateVersion := run_StateVersion (per_Run input) + 1\<rparr> then Inr current else Inl err
             | Inl _ \<Rightarrow> Inl err
           else Inl err))"
    by (rule PersistRun_store[OF assms(2), unfolded assms(1) memory_durable_sel])
  then show ?thesis
    by (cases answer) (auto dest: UpdateRunAtomic_Inr split: if_splits sum.splits)
qed

text \<open>
  C19.  A persist may be attempted again: when the first attempt has written the run and nothing has changed the store since,
  every further attempt of the same activity returns the same run and leaves the store as it is.
\<close>

theorem persist_is_idempotent:
  assumes "av_Store a = memory_durable" "PersistRun a input w = (w1, Inr run)" "wk_store w2 = wk_store w1"
  shows "\<exists>w3. PersistRun a input w2 = (w3, Inr run) \<and> wk_store w3 = wk_store w1"
proof -
  let ?run = "per_Run input"
  have run: "run = ?run\<lparr>run_StateVersion := run_StateVersion ?run + 1\<rparr>" "GetRun (wk_store w1) (run_ID ?run) = Inr run"
    using PersistRun_version[OF assms(1,2)] by auto
  obtain w3 res where p: "PersistRun a input w2 = (w3, res)" by fastforce
  obtain audits events answer where
    u: "UpdateRunAtomic (wk_store w2) ?run (run_StateVersion ?run) audits events = (wk_store w3, answer)" and
    r: "res = (case answer of Inr updated \<Rightarrow> Inr updated
       | Inl err \<Rightarrow> (if errors_Is err ErrConflict
           then case GetRun (wk_store w3) (run_ID ?run) of
               Inr current \<Rightarrow> if current = ?run\<lparr>run_StateVersion := run_StateVersion ?run + 1\<rparr> then Inr current else Inl err
             | Inl _ \<Rightarrow> Inl err
           else Inl err))"
    by (rule PersistRun_store[OF p, unfolded assms(1) memory_durable_sel])
  have "UpdateRunAtomic (wk_store w2) ?run (run_StateVersion ?run) audits events = (wk_store w2, Inl ErrConflict)"
    by (rule UpdateRunAtomic_conflict[of _ _ run]) (use run assms(3) in simp_all)
  with u have "wk_store w3 = wk_store w1" "answer = Inl ErrConflict" using assms(3) by auto
  then show ?thesis using p r run by simp
qed

section \<open>Permits\<close>

text \<open>Acquisitions and completions by any runs, in any order, repeated or not.\<close>

datatype schedule_op = OpAcquire ScheduleInput | OpComplete ScheduleCompleteInput

fun schedule_step :: "('s, 'x) Activities \<Rightarrow> schedule_op \<Rightarrow> ('s, 'x) worker \<Rightarrow> ('s, 'x) worker" where
  "schedule_step a (OpAcquire input) w = fst (AcquireSchedule a input w)"
| "schedule_step a (OpComplete input) w = fst (CompleteSchedule a input w)"

definition permits :: "('s, 'x) worker \<Rightarrow> Scheduler \<times> DispatchResult list" where
  "permits w = (wk_scheduler w, map snd (wk_scheduled w))"

definition permits_ok :: "Limits \<Rightarrow> ('s, 'x) worker \<Rightarrow> bool" where
  "permits_ok l w \<longleftrightarrow> sched_inv l (permits w) \<and> distinct (map fst (wk_scheduled w))"

lemma update_new: "map_of al k = None \<Longrightarrow> AList.update k v al = al @ [(k, v)]"
  by (induction al) (auto split: if_splits)

lemma delete_entry:
  "distinct (map fst al) \<Longrightarrow> map_of al k = Some v \<Longrightarrow>
     \<exists>i < length al. map snd al ! i = v \<and> map snd (AList.delete k al) = take i (map snd al) @ drop (Suc i) (map snd al)"
proof (induction al)
  case (Cons e al)
  show ?case
  proof (cases "fst e = k")
    case True
    then have "map_of al k = None" using Cons.prems(1) by (auto simp: map_of_eq_None_iff)
    then have "AList.delete k al = al" by (simp add: map_of_eq_None_iff delete_idem)
    then show ?thesis using Cons.prems True by (intro exI[of _ 0]) (cases e, simp)
  next
    case False
    then obtain i where "i < length al" "map snd al ! i = v" "map snd (AList.delete k al) = take i (map snd al) @ drop (Suc i) (map snd al)"
      using Cons by (cases e) auto
    then show ?thesis using False by (intro exI[of _ "Suc i"]) (cases e, simp)
  qed
qed simp

lemma acquire_permits:
  assumes "AcquireSchedule a input w = (w', result)"
  shows "wk_scheduler w' = wk_scheduler w \<and> wk_scheduled w' = wk_scheduled w \<or>
    map_of (wk_scheduled w) (schedule_key (si_RunID input) (step_ID (si_Step input))) = None \<and>
    permits w' = sched_step (SDispatch [si_Step input] (av_Capacity a input)) (permits w) \<and>
    (wk_scheduled w' = wk_scheduled w \<or>
     (\<exists>d. wk_scheduled w' = wk_scheduled w @ [(schedule_key (si_RunID input) (step_ID (si_Step input)), d)]))"
proof (cases "map_of (wk_scheduled w) (schedule_key (si_RunID input) (step_ID (si_Step input))) = None")
  case True
  obtain s' results where d: "Dispatch (wk_scheduler w) [si_Step input] (av_Capacity a input) = (s', results)" by fastforce
  have "map di_Step results = map cloneStep [si_Step input]" using Dispatch_shape(2)[OF d] by simp
  then obtain r where r: "results = [r]" by (cases results) auto
  have v: "verdict_ok (sch_breaker (wk_scheduler w)) r" using Dispatch_shape(4)[OF d] r by simp
  then have g: "granted r \<longleftrightarrow> di_Err r = None \<and> di_BlockedBy r = []" by (auto simp: verdict_ok_def split: if_splits)
  show ?thesis using assms d r g True
    by (auto simp: AcquireSchedule_def Let_def permits_def update_new split: option.splits if_splits)
qed (use assms in \<open>auto simp: AcquireSchedule_def Let_def\<close>)

lemma complete_permits:
  assumes "CompleteSchedule a input w = (w', result)" "distinct (map fst (wk_scheduled w))"
  shows "w' = w \<or> distinct (map fst (wk_scheduled w')) \<and> (\<exists>i. permits w' = sched_step (SComplete i (sci_Failed input)) (permits w))"
proof (cases "map_of (wk_scheduled w) (schedule_key (sci_RunID input) (sci_StepID input))")
  case (Some d)
  let ?key = "schedule_key (sci_RunID input) (sci_StepID input)"
  obtain i where i: "i < length (wk_scheduled w)" "map snd (wk_scheduled w) ! i = d"
      "map snd (AList.delete ?key (wk_scheduled w)) = take i (map snd (wk_scheduled w)) @ drop (Suc i) (map snd (wk_scheduled w))"
    using delete_entry[OF assms(2) Some] by blast
  have "distinct (map fst (AList.delete ?key (wk_scheduled w)))" using assms(2) by (rule distinct_delete)
  moreover have "wk_scheduler w' = fst (Complete (wk_scheduler w) d (sci_Failed input))" "wk_scheduled w' = AList.delete ?key (wk_scheduled w)"
    using assms(1) Some by (auto simp: CompleteSchedule_def Let_def split: prod.splits)
  ultimately show ?thesis using i by (auto simp: permits_def intro!: exI[of _ i])
qed (use assms in \<open>simp add: CompleteSchedule_def\<close>)

lemma schedule_step_ok: "permits_ok l w \<Longrightarrow> permits_ok l (schedule_step a op w)"
proof (cases op)
  case (OpAcquire input)
  assume ok: "permits_ok l w"
  obtain w' result where r: "AcquireSchedule a input w = (w', result)" by fastforce
  have "sched_inv l (permits w')"
    using acquire_permits[OF r] ok sched_step_inv[of l "permits w"] unfolding permits_ok_def by (metis permits_def)
  moreover have "distinct (map fst (wk_scheduled w'))"
    using acquire_permits[OF r] ok by (auto simp: permits_ok_def map_of_eq_None_iff)
  ultimately show ?thesis using OpAcquire r by (simp add: permits_ok_def)
next
  case (OpComplete input)
  assume ok: "permits_ok l w"
  obtain w' result where r: "CompleteSchedule a input w = (w', result)" by fastforce
  from complete_permits[OF r] ok show ?thesis
    using OpComplete r sched_step_inv[of l "permits w"] by (auto simp: permits_ok_def)
qed

lemma schedule_history_ok: "permits_ok l w \<Longrightarrow> permits_ok l (fold (schedule_step a) ops w)"
  by (induction ops arbitrary: w) (simp_all add: schedule_step_ok)

text \<open>
  C17.  The permits that the worker has handed out stay within the limits: after any sequence of acquisitions and completions
  by any runs, repeated or not, every step of every run holds at most one permit, and no budget key has more permits than its
  limit allows.
\<close>

theorem outstanding_permits_bounded:
  assumes "NewScheduler l policy = Inr (wk_scheduler w)" "wk_scheduled w = []"
    and "w' = fold (schedule_step a) ops w"
  shows "distinct (map fst (wk_scheduled w')) \<and>
         int (length (filter (\<lambda>d. k \<in> set (keysFor (di_Step d))) (map snd (wk_scheduled w')))) \<le> limit l k"
proof -
  have "permits_ok l w" using NewScheduler_inv[OF assms(1)] assms(2) by (simp add: permits_ok_def permits_def)
  from schedule_history_ok[OF this] have "permits_ok l w'" using assms(3) by blast
  then show ?thesis using sched_inv_limits[of l "wk_scheduler w'" "map snd (wk_scheduled w')"] by (simp add: permits_ok_def permits_def)
qed

section \<open>A worker\<close>

definition demo_activities :: "(Memory, Mock) Activities" where
  "demo_activities = \<lparr>av_digest = demo_hash, av_Store = memory_durable, av_Policy = Some (builtin_Evaluate demo_hash),
     av_Executor = mock_executor demo_hash 50, av_AdapterName = ''mock'', av_Now = (\<lambda>n. 50), av_random = nat_text,
     av_Capacity = (\<lambda>_. \<lparr>cap_RunnerAvailable = 20, cap_AdapterRemaining = 20, cap_QueueDepth = 0, cap_QueueLimit = 100\<rparr>)\<rparr>"

definition demo_scheduler_state :: Scheduler where
  "demo_scheduler_state = \<lparr>sch_budget = \<lparr>bud_limits = DefaultLimits, bud_active = Map.empty\<rparr>,
     sch_breaker = \<lparr>cb_policy = demo_policy, cb_windows = \<lambda>_. [], cb_open = \<lambda>_. False\<rparr>\<rparr>"

definition demo_worker :: "(Memory, Mock) worker" where
  "demo_worker = \<lparr>wk_store = NewMemory\<lparr>m_runs := [(''run'', demo_run)]\<rparr>, wk_external = NewMock [], wk_scheduler = demo_scheduler_state,
     wk_scheduled = [], wk_clock = 0, wk_ids = 0\<rparr>"

definition demo_deploy :: DeployInput where
  "demo_deploy = \<lparr>dp_RunID = ''run'', dp_RequestedBy = ''alice'', dp_AgentID = ''bot'', dp_Service = ''api'', dp_Environment = ''staging'',
     dp_DesiredVersion = ''v2'', dp_IdempotencyKey = ''run/staging/api/v2''\<rparr>"

definition demo_attempts :: "(Memory, Mock) activity_system" where
  "demo_attempts = \<lparr>ay_worker = demo_worker, ay_calls = [], ay_attempts = (\<lambda>_. NotStarted)\<rparr>"

lemma demo_call: "\<exists>y. activity_reach demo_activities demo_worker y \<and> ay_calls y = [DeployRequest demo_deploy]"
proof -
  obtain w rec where r: "reserve_request demo_activities (DeployRequest demo_deploy) demo_worker = (w, Some rec)"
    by (auto simp: Deploy_reserve_def activities_now_def activities_newID_def auditFor_def outbox_event_def demo_activities_def
        demo_worker_def NewMemory_def ReserveExecution_def Let_def)
  obtain w2 d where e: "execute_request demo_activities (DeployRequest demo_deploy) w = (w2, d)" by fastforce
  note y1 = activity_reach.step[OF activity_reach.start[of demo_activities demo_worker]
      activity_step.reserved[where i = 0 and r = "DeployRequest demo_deploy"]]
  have "activity_reach demo_activities demo_worker (demo_attempts\<lparr>ay_worker := w, ay_attempts := (\<lambda>_. NotStarted)(0 := Reserved (DeployRequest demo_deploy) rec)\<rparr>)"
    using y1 r by (simp add: demo_attempts_def)
  from activity_reach.step[OF this activity_step.executed[where i = 0 and r = "DeployRequest demo_deploy"]]
  have "activity_reach demo_activities demo_worker \<lparr>ay_worker = w2, ay_calls = [DeployRequest demo_deploy],
      ay_attempts = (\<lambda>_. NotStarted)(0 := Executed (DeployRequest demo_deploy) rec d)\<rparr>"
    using e by (simp add: demo_attempts_def)
  then show ?thesis by fastforce
qed

theorem executor_called_at_most_once_witness:
  "\<exists>y. activity_reach demo_activities demo_worker y \<and> length (ay_calls y) = 1 \<and> distinct (map (request_key demo_activities) (ay_calls y))"
proof -
  obtain y where y: "activity_reach demo_activities demo_worker y" "ay_calls y = [DeployRequest demo_deploy]" using demo_call by blast
  have "distinct (map (request_key demo_activities) (ay_calls y))"
    by (rule executor_called_at_most_once[OF _ y(1)]) (simp add: demo_activities_def)
  with y show ?thesis by auto
qed

theorem persist_is_idempotent_witness:
  "\<exists>w1 run w3. PersistRun demo_activities \<lparr>per_Run = demo_run, per_Audits = [], per_EventType = []\<rparr> demo_worker = (w1, Inr run) \<and>
     PersistRun demo_activities \<lparr>per_Run = demo_run, per_Audits = [], per_EventType = []\<rparr> w1 = (w3, Inr run) \<and> wk_store w3 = wk_store w1"
proof -
  obtain w1 run where p: "PersistRun demo_activities \<lparr>per_Run = demo_run, per_Audits = [], per_EventType = []\<rparr> demo_worker = (w1, Inr run)"
    by (simp add: PersistRun_def demo_activities_def demo_worker_def UpdateRunAtomic_def demo_run_def Let_def)
  have "av_Store demo_activities = memory_durable" by (simp add: demo_activities_def)
  from persist_is_idempotent[OF this p refl] p show ?thesis by blast
qed

lemma demo_acquire:
  "length (wk_scheduled (fold (schedule_step demo_activities) [OpAcquire \<lparr>si_RunID = ''run'', si_Step = demo_step ''api'' 0 []\<rparr>] demo_worker)) = 1"
proof -
  have "bud.fits (sch_budget demo_scheduler_state) []"
    using NewScheduler_inv[of DefaultLimits demo_policy demo_scheduler_state]
    by (simp add: demo_scheduler demo_scheduler_state_def sched_inv_def)
  from demo_granted[OF this, of "demo_step ''api'' 0 []"] show ?thesis
    by (auto simp: AcquireSchedule_def Dispatch_def demo_activities_def demo_worker_def Available_def demo_scheduler_state_def Allow_def
        blank_dispatch_def Let_def split: prod.splits)
qed

theorem outstanding_permits_bounded_witness:
  "\<exists>w. w = fold (schedule_step demo_activities) [OpAcquire \<lparr>si_RunID = ''run'', si_Step = demo_step ''api'' 0 []\<rparr>] demo_worker \<and>
     length (wk_scheduled w) = 1 \<and>
     (\<forall>k. int (length (filter (\<lambda>d. k \<in> set (keysFor (di_Step d))) (map snd (wk_scheduled w)))) \<le> limit DefaultLimits k)"
proof -
  have s: "NewScheduler DefaultLimits demo_policy = Inr (wk_scheduler demo_worker)"
    by (simp add: demo_scheduler demo_worker_def demo_scheduler_state_def)
  have e: "wk_scheduled demo_worker = []" by (simp add: demo_worker_def)
  from outstanding_permits_bounded[OF s e refl] demo_acquire show ?thesis by blast
qed

end
