(* ===== verification/Workflow_Safety.thy ===== *)
theory Workflow_Safety
  imports Workflow Activities_Safety
begin

text \<open>
  What the release workflow does to the outside, whatever the runtime, the signals and the activities
  answer.  A recording runtime notes what happens, latest first; the locale \<open>persisting\<close> states the one
  thing the workflow relies on, that a persisted run comes back with the next version, and proves the
  parts of the workflow correct with triples over the noted events.
\<close>

section \<open>Noted events\<close>

datatype event =
    Persisted ReleaseRun
  | Decided string PolicyDecision
  | Signalled ApprovalSignal
  | Permitted string string
  | Completed string string bool
  | Deploying DeployInput
  | RollingBack RollbackInput
  | Verified ExecDeployment VerificationResult

definition quiet :: "('w \<Rightarrow> 'w \<times> 'a) \<Rightarrow> 'w \<times> event list \<Rightarrow> ('w \<times> event list) \<times> 'a" where
  "quiet f = (\<lambda>(w, trace). case f w of (w', a) \<Rightarrow> ((w', trace), a))"

definition noting :: "('a \<Rightarrow> event list) \<Rightarrow> ('w \<Rightarrow> 'w \<times> 'a) \<Rightarrow> 'w \<times> event list \<Rightarrow> ('w \<times> event list) \<times> 'a" where
  "noting events f = (\<lambda>(w, trace). case f w of (w', a) \<Rightarrow> ((w', events a @ trace), a))"

definition on_success :: "('a \<Rightarrow> event list) \<Rightarrow> (error, 'a) result \<Rightarrow> event list" where
  "on_success events answer = (case answer of Inl _ \<Rightarrow> [] | Inr a \<Rightarrow> events a)"

definition signals :: "approval_event option \<Rightarrow> event list" where
  "signals e = (case e of Some (GotApproval signal) \<Rightarrow> [Signalled signal] | _ \<Rightarrow> [])"

definition recording :: "'w Runtime \<Rightarrow> ('w \<times> event list) Runtime" where
  "recording rt = \<lparr>rt_Hash = rt_Hash rt, rt_SetQueryHandler = quiet (rt_SetQueryHandler rt), rt_Now = quiet (rt_Now rt),
     rt_Sleep = (\<lambda>d. quiet (rt_Sleep rt d)), rt_ReceiveCancel = quiet (rt_ReceiveCancel rt), rt_ReceivePause = quiet (rt_ReceivePause rt),
     rt_SelectApproval = (\<lambda>d. noting signals (rt_SelectApproval rt d)), rt_SelectResume = quiet (rt_SelectResume rt),
     rt_PersistRun = (\<lambda>input. noting (on_success (\<lambda>_. [Persisted (per_Run input)])) (rt_PersistRun rt input)),
     rt_EvaluateStep = (\<lambda>input. noting (on_success (\<lambda>decision. [Decided (rs_Service (evi_Step input)) decision])) (rt_EvaluateStep rt input)),
     rt_AcquireSchedule = (\<lambda>input. noting (on_success (\<lambda>answer. if sr_Allowed answer then [Permitted (si_RunID input) (step_ID (si_Step input))] else []))
        (rt_AcquireSchedule rt input)),
     rt_CompleteSchedule = (\<lambda>input. noting (on_success (\<lambda>_. [Completed (sci_RunID input) (sci_StepID input) (sci_Failed input)])) (rt_CompleteSchedule rt input)),
     rt_Deploy = (\<lambda>input. noting (\<lambda>_. [Deploying input]) (rt_Deploy rt input)),
     rt_Verify = (\<lambda>d. noting (on_success (\<lambda>result. [Verified d result])) (rt_Verify rt d)),
     rt_Rollback = (\<lambda>input. noting (\<lambda>_. [RollingBack input]) (rt_Rollback rt input))\<rparr>"

section \<open>What must hold\<close>

definition passed :: "Verification option \<Rightarrow> bool" where
  "passed v \<longleftrightarrow> (case v of None \<Rightarrow> False | Some v \<Rightarrow> vf_Status v = VerificationPass)"

definition step_sound :: "ReleaseStep \<Rightarrow> bool" where
  "step_sound s \<longleftrightarrow> (rs_Status s = StepSucceeded \<longrightarrow> rs_Execution s \<noteq> None \<and> (rs_VerificationRequired s \<longrightarrow> passed (rs_Verification s))) \<and>
     (rs_Status s = StepRolledBack \<longrightarrow> rs_RollbackExecution s \<noteq> None \<and> passed (rs_RollbackVerification s)) \<and>
     (rs_RollbackExecution s \<noteq> None \<longrightarrow> rs_RollbackMode s = RollbackAutomatic \<and> \<not> passed (rs_Verification s))"

definition run_sound :: "ReleaseRun \<Rightarrow> bool" where
  "run_sound run \<longleftrightarrow> (\<forall>s \<in> set (run_Steps run). step_sound s) \<and>
     (run_Status run = RunSucceeded \<longrightarrow> (\<forall>s \<in> set (run_Steps run). rs_Status s = StepSucceeded))"

text \<open>The policy decided on the step and did not deny it; where it asked for an approval, a signal of somebody else with the required roles gave it.\<close>

definition entitled :: "event set \<Rightarrow> ReleaseRun \<Rightarrow> ReleaseStep \<Rightarrow> bool" where
  "entitled E run s \<longleftrightarrow> (\<exists>d. rs_Policy s = Some d \<and> Decided (rs_Service s) d \<in> E \<and> pd_Decision d \<noteq> DecisionDeny \<and>
     (pd_Decision d = DecisionRequireApproval \<longrightarrow>
       (\<exists>a signal. rs_Approval s = Some a \<and> ap_Status a = ApprovalApproved \<and> ap_PlanHash a = pl_Hash (run_Plan run) \<and>
          Signalled signal \<in> E \<and> sg_ApprovalID signal = ap_ID a \<and> sg_Actor signal = ap_DecidedBy a \<and>
          sg_Actor signal \<notin> {[], run_RequestedBy run} \<and> workflow_containsAll (sg_Roles signal) (pd_RequiredRoles d))))"

definition dependencies_met :: "ReleaseRun \<Rightarrow> ReleaseStep \<Rightarrow> bool" where
  "dependencies_met run s \<longleftrightarrow> (\<forall>ps \<in> set (plan_steps (run_Plan run)). ps_Service ps = rs_Service s \<longrightarrow>
     (\<forall>d \<in> set (ordering_dependencies ps). d \<in> rs_Service ` set (run_Steps run) \<longrightarrow>
        (\<exists>s' \<in> set (run_Steps run). rs_Service s' = d \<and> rs_Status s' = StepSucceeded)))"

fun safe_event :: "event set \<Rightarrow> event \<Rightarrow> bool" where
  "safe_event E (Persisted run) \<longleftrightarrow> run_sound run"
| "safe_event E (Deploying input) \<longleftrightarrow> (\<exists>run s. Persisted run \<in> E \<and> s \<in> set (run_Steps run) \<and> rs_Status s = StepExecuting \<and>
     input = deploy_input run s \<and> entitled E run s \<and> dependencies_met run s \<and> Permitted (run_ID run) (rs_Service s) \<in> E)"
| "safe_event E (RollingBack input) \<longleftrightarrow> (\<exists>run s. Persisted run \<in> E \<and> s \<in> set (run_Steps run) \<and> rs_Status s = StepRollingBack \<and>
     rbi_Deploy input = deploy_input run s \<and> Deploying (rbi_Deploy input) \<in> E \<and> rs_RollbackMode s = RollbackAutomatic \<and>
     (\<exists>result. Verified (rbi_Deployment input) result \<in> E \<and> Outcome result \<noteq> AdapterPass))"
| "safe_event E _ \<longleftrightarrow> True"

fun safe_trace :: "event list \<Rightarrow> bool" where
  "safe_trace [] \<longleftrightarrow> True"
| "safe_trace (e # trace) \<longleftrightarrow> safe_event (set trace) e \<and> safe_trace trace"

lemma entitled_mono: "entitled E run s \<Longrightarrow> E \<subseteq> E' \<Longrightarrow> entitled E' run s"
  unfolding entitled_def by blast

lemma safe_trace_split: "safe_trace (later @ e # earlier) \<Longrightarrow> safe_event (set earlier) e"
  by (induction later) auto

section \<open>Triples\<close>

definition triple :: "(event set \<Rightarrow> bool) \<Rightarrow> ('w \<times> event list, 'a) wf \<Rightarrow> ('a \<Rightarrow> event set \<Rightarrow> bool) \<Rightarrow> bool" where
  "triple P m Q \<longleftrightarrow> (\<forall>w trace w' trace' f. safe_trace trace \<longrightarrow> P (set trace) \<longrightarrow> m (w, trace) = ((w', trace'), f) \<longrightarrow>
     safe_trace trace' \<and> set trace \<subseteq> set trace' \<and>
     (case f of Next a \<Rightarrow> Q a (set trace') | Return run \<Rightarrow> run_sound run | _ \<Rightarrow> True))"

lemma triple_andThen:
  assumes "triple P m Q" "\<And>a. triple (Q a) (f a) R"
  shows "triple P (andThen m f) R"
  unfolding triple_def
proof (intro allI impI)
  fix w trace w' trace' r
  assume a: "safe_trace trace" "P (set trace)" "andThen m f (w, trace) = ((w', trace'), r)"
  obtain w1 trace1 g where m: "m (w, trace) = ((w1, trace1), g)" by (metis prod.exhaust_sel)
  have g: "safe_trace trace1 \<and> set trace \<subseteq> set trace1 \<and> (case g of Next a \<Rightarrow> Q a (set trace1) | Return run \<Rightarrow> run_sound run | _ \<Rightarrow> True)"
    using assms(1) a(1,2) m unfolding triple_def by blast
  show "safe_trace trace' \<and> set trace \<subseteq> set trace' \<and> (case r of Next a \<Rightarrow> R a (set trace') | Return run \<Rightarrow> run_sound run | _ \<Rightarrow> True)"
  proof (cases g)
    case (Next x)
    then have n: "f x (w1, trace1) = ((w', trace'), r)" using a(3) m by (simp add: andThen_def)
    have "safe_trace trace1" "Q x (set trace1)" using g Next by simp_all
    with assms(2)[of x] n have "safe_trace trace' \<and> set trace1 \<subseteq> set trace' \<and> (case r of Next a \<Rightarrow> R a (set trace') | Return run \<Rightarrow> run_sound run | _ \<Rightarrow> True)"
      unfolding triple_def by blast
    with g show ?thesis by auto
  qed (use a(3) m g in \<open>auto simp: andThen_def\<close>)
qed

lemma triple_andThen_pair:
  "triple P m (\<lambda>(a, b). Q a b) \<Longrightarrow> (\<And>a b. triple (Q a b) (f a b) R) \<Longrightarrow> triple P (andThen m (\<lambda>(a, b). f a b)) R"
  by (rule triple_andThen) auto

lemma triple_frame:
  assumes "triple P m Q" "\<And>E E'. E \<subseteq> E' \<Longrightarrow> K E \<Longrightarrow> K E'"
  shows "triple (\<lambda>E. P E \<and> K E) m (\<lambda>a E. Q a E \<and> K E)"
  unfolding triple_def
proof (intro allI impI)
  fix w trace w' trace' f
  assume a: "safe_trace trace" "P (set trace) \<and> K (set trace)" "m (w, trace) = ((w', trace'), f)"
  then have "safe_trace trace' \<and> set trace \<subseteq> set trace' \<and> (case f of Next a \<Rightarrow> Q a (set trace') | Return run \<Rightarrow> run_sound run | _ \<Rightarrow> True)"
    using assms(1) unfolding triple_def by blast
  then show "safe_trace trace' \<and> set trace \<subseteq> set trace' \<and> (case f of Next a \<Rightarrow> Q a (set trace') \<and> K (set trace') | Return run \<Rightarrow> run_sound run | _ \<Rightarrow> True)"
    using assms(2)[of "set trace" "set trace'"] a(2) by (auto split: flow.splits)
qed

lemma triple_conseq:
  assumes "triple P m Q" "\<And>E. P' E \<Longrightarrow> P E" "\<And>a E. Q a E \<Longrightarrow> Q' a E"
  shows "triple P' m Q'"
  unfolding triple_def
proof (intro allI impI)
  fix w trace w' trace' f
  assume a: "safe_trace trace" "P' (set trace)" "m (w, trace) = ((w', trace'), f)"
  then have "safe_trace trace' \<and> set trace \<subseteq> set trace' \<and> (case f of Next a \<Rightarrow> Q a (set trace') | Return run \<Rightarrow> run_sound run | _ \<Rightarrow> True)"
    using assms(1,2) unfolding triple_def by blast
  then show "safe_trace trace' \<and> set trace \<subseteq> set trace' \<and> (case f of Next a \<Rightarrow> Q' a (set trace') | Return run \<Rightarrow> run_sound run | _ \<Rightarrow> True)"
    using assms(3) by (auto split: flow.splits)
qed

lemma triple_pre: "(\<And>E. P E \<Longrightarrow> \<phi>) \<Longrightarrow> (\<phi> \<Longrightarrow> triple P m Q) \<Longrightarrow> triple P m Q"
  unfolding triple_def by blast

lemma triple_goOn: "(\<And>E. P E \<Longrightarrow> Q a E) \<Longrightarrow> triple P (goOn a) Q"
  by (auto simp: triple_def goOn_def)

lemma triple_finishWith: "(\<And>E. P E \<Longrightarrow> run_sound run) \<Longrightarrow> triple P (finishWith run) Q"
  by (auto simp: triple_def finishWith_def)

lemma triple_stop [simp]:
  "triple P (\<lambda>w. (w, Fail err)) Q" "triple P (\<lambda>w. (w, Waiting)) Q" "triple P (\<lambda>w. (w, OutOfRange)) Q"
  by (simp_all add: triple_def)

lemma triple_with_step:
  "(index < length (run_Steps run) \<Longrightarrow> triple P (f (run_Steps run ! index)) Q) \<Longrightarrow> triple P (with_step run index f) Q"
  by (auto simp: triple_def with_step_def)

lemma triple_quiet: "triple P (call_of (quiet f)) (\<lambda>_. P)"
  by (auto simp: triple_def call_of_def quiet_def split: prod.splits)

lemma triple_noting:
  assumes "\<And>w w' a E. f w = (w', a) \<Longrightarrow> P E \<Longrightarrow> events a = [] \<and> Q a E \<or> (\<exists>e. events a = [e] \<and> safe_event E e \<and> Q a (insert e E))"
  shows "triple P (call_of (noting events f)) Q"
  unfolding triple_def
proof (intro allI impI)
  fix w trace w' trace' r
  assume a: "safe_trace trace" "P (set trace)" "call_of (noting events f) (w, trace) = ((w', trace'), r)"
  obtain w1 x where f: "f w = (w1, x)" by fastforce
  with a(3) have t: "trace' = events x @ trace" "r = Next x" by (simp_all add: call_of_def noting_def)
  from assms[OF f a(2)] a(1) t
  show "safe_trace trace' \<and> set trace \<subseteq> set trace' \<and> (case r of Next a \<Rightarrow> Q a (set trace') | Return run \<Rightarrow> run_sound run | _ \<Rightarrow> True)"
    by auto
qed

lemma activity_call: "activity f = andThen (call_of f) (\<lambda>answer. case answer of Inl err \<Rightarrow> (\<lambda>w. (w, Fail err)) | Inr a \<Rightarrow> goOn a)"
  by (rule ext) (auto simp: activity_def andThen_def call_of_def goOn_def split: prod.splits sum.splits)

lemma awaited_call: "awaited f = andThen (call_of f) (\<lambda>answer. case answer of None \<Rightarrow> (\<lambda>w. (w, Waiting)) | Some a \<Rightarrow> goOn a)"
  by (rule ext) (auto simp: awaited_def andThen_def call_of_def goOn_def split: prod.splits option.splits)

lemma checked_call: "checked f = andThen (call_of f) (\<lambda>answer. case answer of Some err \<Rightarrow> (\<lambda>w. (w, Fail err)) | None \<Rightarrow> goOn ())"
  by (rule ext) (auto simp: checked_def andThen_def call_of_def goOn_def split: prod.splits option.splits)

lemma triple_activity:
  "triple P (call_of f) (\<lambda>answer E. \<forall>a. answer = Inr a \<longrightarrow> Q a E) \<Longrightarrow> triple P (activity f) Q"
  unfolding activity_call by (rule triple_andThen) (auto intro: triple_goOn split: sum.split)

lemma triple_awaited:
  "triple P (call_of f) (\<lambda>answer E. \<forall>a. answer = Some a \<longrightarrow> Q a E) \<Longrightarrow> triple P (awaited f) Q"
  unfolding awaited_call by (rule triple_andThen) (auto intro: triple_goOn split: option.split)

lemma triple_checked_quiet: "triple P (checked (quiet f)) (\<lambda>_. P)"
  unfolding checked_call by (rule triple_andThen[OF triple_quiet]) (auto intro: triple_goOn split: option.split)

lemma triple_awaited_quiet: "triple P (awaited (quiet f)) (\<lambda>_. P)"
  unfolding awaited_call by (rule triple_andThen[OF triple_quiet]) (auto intro: triple_goOn split: option.split)

definition stable :: "(event set \<Rightarrow> bool) \<Rightarrow> bool" where
  "stable P \<longleftrightarrow> (\<forall>E E'. E \<subseteq> E' \<longrightarrow> P E \<longrightarrow> P E')"

lemma stableD: "stable P \<Longrightarrow> P E \<Longrightarrow> P (insert e E)"
  unfolding stable_def by blast

lemma stable_intros [intro]:
  "stable (\<lambda>_. b)" "stable (\<lambda>E. e \<in> E)" "stable (\<lambda>E. entitled E run s)"
  "stable P \<Longrightarrow> stable Q \<Longrightarrow> stable (\<lambda>E. P E \<and> Q E)"
  unfolding stable_def by (blast intro: entitled_mono)+

section \<open>Runs that differ in bookkeeping only\<close>

definition same :: "ReleaseRun \<Rightarrow> ReleaseRun \<Rightarrow> bool" where
  "same run run' \<longleftrightarrow> run_ID run' = run_ID run \<and> run_RequestedBy run' = run_RequestedBy run \<and> run_Agent run' = run_Agent run \<and>
     run_Environment run' = run_Environment run \<and> run_Plan run' = run_Plan run \<and> run_Steps run' = run_Steps run"

definition alike :: "ReleaseRun \<Rightarrow> ReleaseRun \<Rightarrow> bool" where
  "alike run run' \<longleftrightarrow> same run run' \<and> run_Status run' = run_Status run \<and> run_PausedFrom run' = run_PausedFrom run"

definition stored :: "event set \<Rightarrow> ReleaseRun \<Rightarrow> bool" where
  "stored E run \<longleftrightarrow> (\<exists>run0. Persisted run0 \<in> E \<and> alike run0 run)"

lemma stable_stored [intro]: "stable (\<lambda>E. stored E run)"
  unfolding stable_def stored_def by blast

lemma same_cong:
  assumes "same run run'"
  shows "deploy_input run' s = deploy_input run s" "entitled E run' s = entitled E run s" "dependencies_met run' s = dependencies_met run s"
  using assms by (simp_all add: same_def deploy_input_def entitled_def dependencies_met_def)

lemma run_sound_stamp [simp]: "run_sound (run\<lparr>run_UpdatedAt := t\<rparr>) = run_sound run"
  by (simp add: run_sound_def)

section \<open>The parts of the workflow\<close>

locale persisting =
  fixes rt :: "'w Runtime"
  assumes persist_law: "rt_PersistRun rt input w = (w', Inr run) \<Longrightarrow> run = (per_Run input)\<lparr>run_StateVersion := run_StateVersion (per_Run input) + 1\<rparr>"
begin

abbreviation rec :: "('w \<times> event list) Runtime" where "rec \<equiv> recording rt"

lemma now_ok: "triple P (call_of (rt_Now rec)) (\<lambda>_. P)"
  by (simp add: recording_def triple_quiet)

lemma persist_ok:
  assumes "run_sound run" "stable P"
  shows "triple P (workflow_persist rec run audits eventType) (\<lambda>run' E. alike run run' \<and> stored E run' \<and> P E)"
  unfolding workflow_persist_def
proof (rule triple_activity, unfold recording_def Runtime.simps, rule triple_noting)
  fix w w' a E
  assume "rt_PersistRun rt \<lparr>per_Run = run, per_Audits = audits, per_EventType = eventType\<rparr> w = (w', a)" "P E"
  then show "on_success (\<lambda>_. [Persisted (per_Run \<lparr>per_Run = run, per_Audits = audits, per_EventType = eventType\<rparr>)]) a = [] \<and>
        (\<forall>aa. a = Inr aa \<longrightarrow> alike run aa \<and> stored E aa \<and> P E) \<or>
      (\<exists>e. on_success (\<lambda>_. [Persisted (per_Run \<lparr>per_Run = run, per_Audits = audits, per_EventType = eventType\<rparr>)]) a = [e] \<and>
        safe_event E e \<and> (\<forall>aa. a = Inr aa \<longrightarrow> alike run aa \<and> stored (insert e E) aa \<and> P (insert e E)))"
    using assms stableD[OF assms(2)] persist_law
    by (cases a) (fastforce simp: on_success_def alike_def same_def stored_def)+
qed

lemma stamped_ok:
  assumes "run_sound run" "stable P"
  shows "triple P (stamped rec run audits eventType) (\<lambda>run' E. alike run run' \<and> stored E run' \<and> P E)"
  unfolding stamped_def
proof (rule triple_andThen[OF now_ok])
  fix t
  show "triple P (workflow_persist rec (run\<lparr>run_UpdatedAt := t\<rparr>) audits eventType) (\<lambda>run' E. alike run run' \<and> stored E run' \<and> P E)"
    by (rule triple_conseq[OF persist_ok[OF _ assms(2)]]) (use assms(1) in \<open>auto simp: alike_def same_def\<close>)
qed

lemma finish_persisted_ok:
  assumes "run_sound run"
  shows "triple P (finish_persisted rec run audits eventType) Q"
  unfolding finish_persisted_def
proof (rule triple_andThen)
  show "triple P (stamped rec run audits eventType) (\<lambda>run' E. run_sound run')"
    by (rule triple_conseq[OF stamped_ok[OF assms, of "\<lambda>_. True"]]) (use assms in \<open>auto simp: alike_def same_def run_sound_def\<close>)
qed (auto intro: triple_finishWith)

lemma complete_ok: "stable P \<Longrightarrow> triple P (completeScheduling rec run step failed) (\<lambda>_. P)"
  unfolding completeScheduling_def recording_def Runtime.simps
  by (rule triple_activity, rule triple_noting) (auto simp: on_success_def intro: stableD split: sum.split)


end

section \<open>The state of the loop\<close>

text \<open>
  Between two steps: the services are the selected ones, the succeeded services have a succeeded step, every
  step is sound, the steps before the index have succeeded, and the others have not been rolled back.
\<close>

definition loop_inv :: "string set \<Rightarrow> string set \<Rightarrow> nat \<Rightarrow> nat \<Rightarrow> ReleaseRun \<Rightarrow> bool" where
  "loop_inv selected succeeded n index run \<longleftrightarrow> length (run_Steps run) = n \<and> rs_Service ` set (run_Steps run) = selected \<and>
     (\<forall>d \<in> succeeded. \<exists>s \<in> set (run_Steps run). rs_Service s = d \<and> rs_Status s = StepSucceeded) \<and>
     (\<forall>s \<in> set (run_Steps run). step_sound s) \<and>
     (\<forall>j < index. j < n \<longrightarrow> rs_Status (run_Steps run ! j) = StepSucceeded) \<and>
     (\<forall>j < n. index \<le> j \<longrightarrow> rs_RollbackExecution (run_Steps run ! j) = None) \<and>
     run_Status run \<notin> {RunSucceeded, RunCancelled}"

text \<open>The step at the index may be worked on.\<close>

definition open_at :: "string set \<Rightarrow> string set \<Rightarrow> nat \<Rightarrow> nat \<Rightarrow> ReleaseRun \<Rightarrow> bool" where
  "open_at selected succeeded n index run \<longleftrightarrow> loop_inv selected succeeded n index run \<and> index < n \<and> rs_Status (run_Steps run ! index) \<noteq> StepSucceeded"

lemma same_loop_inv:
  "same run run' \<Longrightarrow> run_Status run' \<notin> {RunSucceeded, RunCancelled} \<Longrightarrow> loop_inv selected succeeded n index run \<Longrightarrow> loop_inv selected succeeded n index run'"
  by (simp add: same_def loop_inv_def)

lemma same_open_at:
  "same run run' \<Longrightarrow> run_Status run' \<notin> {RunSucceeded, RunCancelled} \<Longrightarrow> open_at selected succeeded n index run \<Longrightarrow> open_at selected succeeded n index run'"
  using same_loop_inv by (auto simp: open_at_def same_def)

lemma image_update:
  assumes "i < length xs" "f y = f (xs ! i)"
  shows "f ` set (xs[i := y]) = f ` set xs"
proof -
  have "map f (xs[i := y]) = (map f xs)[i := map f xs ! i]" using assms by (simp add: map_update)
  then have "map f (xs[i := y]) = map f xs" by simp
  then show ?thesis by (metis list.set_map)
qed

lemma loop_inv_set_step:
  assumes "open_at selected succeeded n index run" "rs_Service s = rs_Service (run_Steps run ! index)" "step_sound s" "rs_RollbackExecution s = None"
  shows "loop_inv selected succeeded n index (set_step run index s)"
proof -
  have i: "index < length (run_Steps run)" "rs_Status (run_Steps run ! index) \<noteq> StepSucceeded" and
      inv: "loop_inv selected succeeded n index run"
    using assms(1) by (auto simp: open_at_def loop_inv_def)
  have progress: "\<exists>s' \<in> set ((run_Steps run)[index := s]). rs_Service s' = d \<and> rs_Status s' = StepSucceeded" if "d \<in> succeeded" for d
  proof -
    obtain s' where s': "s' \<in> set (run_Steps run)" "rs_Service s' = d" "rs_Status s' = StepSucceeded"
      using inv \<open>d \<in> succeeded\<close> unfolding loop_inv_def by blast
    then obtain j where "j < length (run_Steps run)" "run_Steps run ! j = s'" by (metis in_set_conv_nth)
    then have "s' \<in> set ((run_Steps run)[index := s])" using i s'(3) by (metis length_list_update nth_list_update_neq nth_mem)
    with s' show ?thesis by blast
  qed
  have "set ((run_Steps run)[index := s]) \<subseteq> insert s (set (run_Steps run))" by (rule set_update_subset_insert)
  moreover have "\<forall>s \<in> set (run_Steps run). step_sound s" using inv by (simp add: loop_inv_def)
  ultimately have "\<forall>s' \<in> set ((run_Steps run)[index := s]). step_sound s'" using assms(3) by blast
  moreover have "\<forall>j < index. j < n \<longrightarrow> rs_Status ((run_Steps run)[index := s] ! j) = StepSucceeded" using inv by (simp add: loop_inv_def)
  moreover have "\<forall>j < n. index \<le> j \<longrightarrow> rs_RollbackExecution ((run_Steps run)[index := s] ! j) = None"
    using inv assms(4) i(1) by (simp add: loop_inv_def nth_list_update)
  moreover have "rs_Service ` set ((run_Steps run)[index := s]) = selected"
    using image_update[OF i(1), of rs_Service s] assms(2) inv by (simp add: loop_inv_def)
  ultimately show ?thesis using inv progress by (simp add: loop_inv_def set_step_def)
qed

lemma open_at_set_step:
  "open_at selected succeeded n index run \<Longrightarrow> rs_Service s = rs_Service (run_Steps run ! index) \<Longrightarrow> rs_Status s \<noteq> StepSucceeded \<Longrightarrow>
   step_sound s \<Longrightarrow> rs_RollbackExecution s = None \<Longrightarrow> open_at selected succeeded n index (set_step run index s)"
  using loop_inv_set_step[of selected succeeded n index run s] by (auto simp: open_at_def set_step_def loop_inv_def)

lemma set_step_sel [simp]:
  "run_Status (set_step run index s) = run_Status run" "run_Plan (set_step run index s) = run_Plan run"
  "run_ID (set_step run index s) = run_ID run" "run_RequestedBy (set_step run index s) = run_RequestedBy run"
  "run_Environment (set_step run index s) = run_Environment run" "run_Agent (set_step run index s) = run_Agent run"
  "run_Steps (set_step run index s) = (run_Steps run)[index := s]"
  by (simp_all add: set_step_def)

lemma loop_inv_sound: "loop_inv selected succeeded n index run \<Longrightarrow> run_sound run"
  by (simp add: loop_inv_def run_sound_def)

text \<open>Runs that stop at the index are sound.\<close>

lemma sound_cancel [simp]:
  "step_sound s \<Longrightarrow> step_sound (s\<lparr>rs_Status := StepCancelled\<rparr>)" "step_sound s \<Longrightarrow> step_sound (s\<lparr>rs_Status := StepBlocked\<rparr>)"
  by (simp_all add: step_sound_def)

lemma run_sound_downstream:
  assumes "\<forall>s \<in> set (run_Steps run). step_sound s" "run_Status run \<noteq> RunSucceeded"
  shows "run_sound (workflow_cancelDownstream run from)" "run_sound (cancel_from run from)"
  using assms by (auto simp: run_sound_def workflow_cancelDownstream_def cancel_from_def dest: in_set_takeD in_set_dropD)

lemma stop_sound:
  assumes "\<forall>s \<in> set (run_Steps run). step_sound s" "step_sound s" "status \<noteq> RunSucceeded"
  shows "run_sound (workflow_cancelDownstream ((set_step run index s)\<lparr>run_Status := status\<rparr>) k)"
  using assms set_update_subset_insert[of "run_Steps run" index s]
  by (intro run_sound_downstream) auto

lemma stop_at_sound:
  assumes "\<forall>s \<in> set (run_Steps run). step_sound s" "step_sound (s\<lparr>rs_Status := status, rs_Failure := failure\<rparr>)" "runStatus \<noteq> RunSucceeded"
  shows "run_sound (stop_at run index s status failure runStatus)"
  unfolding stop_at_def by (rule stop_sound[OF assms])

definition ready :: "event set \<Rightarrow> string set \<Rightarrow> string set \<Rightarrow> nat \<Rightarrow> nat \<Rightarrow> ReleaseRun \<Rightarrow> bool" where
  "ready E selected succeeded n index run \<longleftrightarrow> open_at selected succeeded n index run \<and> entitled E run (run_Steps run ! index) \<and>
     unmetDependency (run_Plan run) (rs_Service (run_Steps run ! index)) selected succeeded = []"

text \<open>A step that waits for the approval its policy decision asks for.\<close>

definition awaiting :: "string set \<Rightarrow> string set \<Rightarrow> nat \<Rightarrow> nat \<Rightarrow> string \<Rightarrow> PolicyDecision \<Rightarrow> ReleaseRun \<Rightarrow> bool" where
  "awaiting selected succeeded n index service decision run \<longleftrightarrow> open_at selected succeeded n index run \<and>
     rs_Service (run_Steps run ! index) = service \<and> rs_Policy (run_Steps run ! index) = Some decision \<and> pd_Decision decision \<noteq> DecisionDeny \<and>
     (\<exists>a. rs_Approval (run_Steps run ! index) = Some a \<and> ap_PlanHash a = pl_Hash (run_Plan run) \<and> ap_RequiredRoles a = pd_RequiredRoles decision) \<and>
     unmetDependency (run_Plan run) service selected succeeded = []"

lemma same_awaiting:
  "same run run' \<Longrightarrow> run_Status run' \<notin> {RunSucceeded, RunCancelled} \<Longrightarrow> awaiting selected succeeded n index service decision run \<Longrightarrow>
     awaiting selected succeeded n index service decision run'"
  using same_open_at by (auto simp: awaiting_def same_def)

lemma awaiting_sound: "awaiting selected succeeded n index service decision run \<Longrightarrow> run_sound run"
  unfolding awaiting_def open_at_def using loop_inv_sound by blast

lemma open_atD:
  assumes "open_at selected succeeded n index run"
  shows "index < length (run_Steps run)" "\<forall>s \<in> set (run_Steps run). step_sound s" "step_sound (run_Steps run ! index)"
    "rs_RollbackExecution (run_Steps run ! index) = None" "rs_Status (run_Steps run ! index) \<noteq> StepSucceeded"
    "run_Status run \<notin> {RunSucceeded, RunCancelled}"
  using assms by (auto simp: open_at_def loop_inv_def)

lemma open_at_status:
  "open_at selected succeeded n index run \<Longrightarrow> status \<notin> {RunSucceeded, RunCancelled} \<Longrightarrow> open_at selected succeeded n index (run\<lparr>run_Status := status\<rparr>)"
  by (simp add: open_at_def loop_inv_def)

context persisting
begin

lemma cancelRun_ok:
  assumes "\<forall>s \<in> set (run_Steps run). step_sound s" "stable P"
  shows "triple P (cancelRun rec run from actor) (\<lambda>run' E. run_Status run' = RunCancelled \<and> run_sound run' \<and> P E)"
  unfolding cancelRun_def
proof (rule triple_conseq[OF stamped_ok])
  show "run_sound (cancel_from (run\<lparr>run_Status := RunCancelled\<rparr>) from)" using assms(1) by (intro run_sound_downstream) simp_all
  then show "run_Status run' = RunCancelled \<and> run_sound run' \<and> P E"
    if "alike (cancel_from (run\<lparr>run_Status := RunCancelled\<rparr>) from) run' \<and> stored E run' \<and> P E" for run' E
    using that by (auto simp: alike_def same_def run_sound_def cancel_from_def)
qed (use assms(2) in simp_all)

lemma resume_loop_ok:
  assumes "\<forall>s \<in> set (run_Steps run). step_sound s" "run_PausedFrom run = Some status" "status \<notin> {RunSucceeded, RunCancelled}" "stable P"
  shows "triple P (resume_loop rec fuel run index) (\<lambda>run' E. (run_Status run' = RunCancelled \<and> run_sound run' \<or> same run run' \<and> run_Status run' = status) \<and> P E)"
proof (induction fuel)
  case (Suc fuel)
  have w: "triple P (awaited (rt_SelectResume rec)) (\<lambda>_. P)"
    by (simp add: recording_def triple_awaited_quiet)
  have r: "triple P (stamped rec (run\<lparr>run_Status := status, run_PausedFrom := None\<rparr>) [] ''release.resumed'')
      (\<lambda>run' E. (run_Status run' = RunCancelled \<and> run_sound run' \<or> same run run' \<and> run_Status run' = status) \<and> P E)"
    by (rule triple_conseq[OF stamped_ok[OF _ assms(4)]]) (use assms in \<open>auto simp: run_sound_def alike_def same_def\<close>)
  show ?case
    unfolding resume_loop.simps
  proof (rule triple_andThen[OF w])
    fix event
    have "triple P (cancelRun rec run index actor) (\<lambda>run' E. (run_Status run' = RunCancelled \<and> run_sound run' \<or> same run run' \<and> run_Status run' = status) \<and> P E)" for actor
      by (rule triple_conseq[OF cancelRun_ok[OF assms(1,4)]]) simp_all
    then show "triple P (case event of
        ResumeSignal r \<Rightarrow> if cs_Actor r \<noteq> [] then stamped rec (run\<lparr>run_Status := (case run_PausedFrom run of None \<Rightarrow> RunRunning | Some s \<Rightarrow> s), run_PausedFrom := None\<rparr>) [] ''release.resumed''
            else resume_loop rec fuel run index
      | CancelSignal c \<Rightarrow> if cs_Actor c \<noteq> [] then cancelRun rec run index (cs_Actor c) else resume_loop rec fuel run index)
      (\<lambda>run' E. (run_Status run' = RunCancelled \<and> run_sound run' \<or> same run run' \<and> run_Status run' = status) \<and> P E)"
      using Suc r assms(2) by (auto split: resume_event.split)
  qed
qed simp

lemma waitForResume_ok:
  assumes "\<forall>s \<in> set (run_Steps run). step_sound s" "run_Status run \<notin> {RunSucceeded, RunCancelled}" "stable P"
  shows "triple P (waitForResume rec fuel run index)
    (\<lambda>run' E. (run_Status run' = RunCancelled \<and> run_sound run' \<or> same run run' \<and> run_Status run' = run_Status run) \<and> P E)"
  unfolding waitForResume_def
proof (rule triple_andThen[OF stamped_ok[OF _ assms(3)]])
  let ?paused = "run\<lparr>run_PausedFrom := Some (run_Status run), run_Status := RunPaused\<rparr>"
  show "run_sound ?paused" using assms(1) by (simp add: run_sound_def)
  fix run1
  show "triple (\<lambda>E. alike ?paused run1 \<and> stored E run1 \<and> P E) (resume_loop rec fuel run1 index)
      (\<lambda>run' E. (run_Status run' = RunCancelled \<and> run_sound run' \<or> same run run' \<and> run_Status run' = run_Status run) \<and> P E)"
  proof (rule triple_pre[where \<phi> = "alike ?paused run1"], blast)
    assume a: "alike ?paused run1"
    show ?thesis
      by (rule triple_conseq[OF resume_loop_ok[where status = "run_Status run", OF _ _ assms(2,3)]])
        (use a assms(1) in \<open>auto simp: alike_def same_def\<close>)
  qed
qed

end

definition decided_on :: "event set \<Rightarrow> string set \<Rightarrow> string set \<Rightarrow> nat \<Rightarrow> nat \<Rightarrow> ReleaseRun \<Rightarrow> bool" where
  "decided_on E selected succeeded n index run \<longleftrightarrow> run_Status run \<noteq> RunRunning \<and> run_sound run \<or> ready E selected succeeded n index run"

lemma settled_sound:
  assumes "open_at selected succeeded n index run" "step = run_Steps run ! index"
  shows "run_sound (settle_approval run index step a)" "run_Status (settle_approval run index step a) = RunBlocked"
proof -
  have "step_sound (step\<lparr>rs_Approval := Some a, rs_Status := StepBlocked\<rparr>)"
    using open_atD(3,4)[OF assms(1)] assms(2) by (simp add: step_sound_def)
  from stop_sound[OF open_atD(2)[OF assms(1)] this]
  show "run_sound (settle_approval run index step a)" by (simp add: settle_approval_def)
  show "run_Status (settle_approval run index step a) = RunBlocked" by (simp add: settle_approval_def workflow_cancelDownstream_def)
qed

lemma approved_ready:
  assumes "awaiting selected succeeded n index service decision run" "step = run_Steps run ! index" "rs_Approval step = Some a"
    and "signal_accepted run a signal" "signal_action signal = ''approve''" "Signalled signal \<in> E" "Decided service decision \<in> E"
    and "alike ((set_step run index (step\<lparr>rs_Approval := Some (a\<lparr>ap_DecidedBy := sg_Actor signal, ap_DecidedAt := t, ap_Status := ApprovalApproved\<rparr>), rs_Status := StepPending\<rparr>))
          \<lparr>run_Status := RunRunning, run_UpdatedAt := u\<rparr>) run'"
  shows "ready E selected succeeded n index run'"
proof -
  let ?step = "step\<lparr>rs_Approval := Some (a\<lparr>ap_DecidedBy := sg_Actor signal, ap_DecidedAt := t, ap_Status := ApprovalApproved\<rparr>), rs_Status := StepPending\<rparr>"
  have o: "open_at selected succeeded n index run" using assms(1) by (simp add: awaiting_def)
  have i: "index < length (run_Steps run)" by (rule open_atD(1)[OF o])
  have "open_at selected succeeded n index (set_step run index ?step)"
    by (rule open_at_set_step[OF o]) (use open_atD(3,4)[OF o] assms(2) in \<open>simp_all add: step_sound_def\<close>)
  from open_at_status[OF this, of RunRunning]
  have open': "open_at selected succeeded n index ((set_step run index ?step)\<lparr>run_Status := RunRunning, run_UpdatedAt := u\<rparr>)"
    by (simp add: open_at_def loop_inv_def)
  have step': "run_Steps run' ! index = ?step" "run_Plan run' = run_Plan run" "run_RequestedBy run' = run_RequestedBy run"
    using assms(8) i by (simp_all add: alike_def same_def)
  have "open_at selected succeeded n index run'"
    by (rule same_open_at[OF _ _ open']) (use assms(8) in \<open>simp_all add: alike_def\<close>)
  moreover have "entitled E run' (run_Steps run' ! index)"
    unfolding step' entitled_def
    using assms(1-7) by (auto simp: awaiting_def signal_accepted_def step')
  ultimately show ?thesis using assms(1,2) by (simp add: ready_def awaiting_def step')
qed

context persisting
begin

lemma decide_ok:
  assumes "awaiting selected succeeded n index service decision run" "step = run_Steps run ! index" "rs_Approval step = Some a"
    and "signal_accepted run a signal" "stable P"
  shows "triple (\<lambda>E. P E \<and> Decided service decision \<in> E \<and> Signalled signal \<in> E) (decide rec run index step a signal)
    (\<lambda>run' E. decided_on E selected succeeded n index run' \<and> P E)"
  unfolding decide_def Let_def
proof (rule triple_andThen[OF now_ok])
  fix t
  let ?P = "\<lambda>E. P E \<and> Decided service decision \<in> E \<and> Signalled signal \<in> E"
  have P: "stable ?P" by (intro stable_intros assms(5))
  have o: "open_at selected succeeded n index run" using assms(1) by (simp add: awaiting_def)
  note settled = settled_sound[OF o assms(2)]
  have blocked: "triple ?P (workflow_persist rec ((settle_approval run index step b)\<lparr>run_UpdatedAt := t\<rparr>) audits event)
      (\<lambda>run' E. decided_on E selected succeeded n index run' \<and> P E)" for b audits event
    by (rule triple_conseq[OF persist_ok[OF _ P]])
      (use settled[of b] in \<open>auto simp: decided_on_def alike_def same_def run_sound_def\<close>)
  let ?step = "step\<lparr>rs_Approval := Some (a\<lparr>ap_DecidedBy := sg_Actor signal, ap_DecidedAt := Some t, ap_Status := ApprovalApproved\<rparr>), rs_Status := StepPending\<rparr>"
  let ?run = "(set_step run index ?step)\<lparr>run_Status := RunRunning, run_UpdatedAt := t\<rparr>"
  have "step_sound ?step" using open_atD(3,4)[OF o] assms(2) by (simp add: step_sound_def)
  then have "run_sound ?run" using open_atD(2)[OF o] set_update_subset_insert[of "run_Steps run" index ?step] by (auto simp: run_sound_def)
  then have approved: "triple ?P (workflow_persist rec ?run audits event) (\<lambda>run' E. decided_on E selected succeeded n index run' \<and> P E)"
    if "signal_action signal = ''approve''" for audits event
    by (rule triple_conseq[OF persist_ok[OF _ P]])
      (use approved_ready[OF assms(1-4) that] in \<open>auto simp: decided_on_def\<close>)
  show "triple ?P (if signal_action signal = ''revoke''
      then workflow_persist rec ((settle_approval run index step (a\<lparr>ap_DecidedBy := sg_Actor signal, ap_DecidedAt := Some t\<rparr>\<lparr>ap_Status := ApprovalRevoked\<rparr>))\<lparr>run_UpdatedAt := t\<rparr>)
             [intent ''user'' (sg_Actor signal) ''approval.revoke'' ''approval'' (sg_ApprovalID signal) ''REVOKED'' []] ''approval.revoked''
      else if signal_action signal \<noteq> ''approve''
           then workflow_persist rec ((settle_approval run index step (a\<lparr>ap_DecidedBy := sg_Actor signal, ap_DecidedAt := Some t\<rparr>\<lparr>ap_Status := ApprovalDenied\<rparr>))\<lparr>run_UpdatedAt := t\<rparr>)
             [intent ''user'' (sg_Actor signal) ''approval.decide'' ''approval'' (sg_ApprovalID signal) ''DENIED'' []] ''approval.denied''
           else workflow_persist rec ?run
             [intent ''user'' (sg_Actor signal) ''approval.decide'' ''approval'' (sg_ApprovalID signal) ''APPROVED'' []] ''approval.approved'')
     (\<lambda>run' E. decided_on E selected succeeded n index run' \<and> P E)"
    using blocked approved by simp
qed

end

context persisting
begin

lemma select_ok:
  assumes "stable P"
  shows "triple P (awaited (rt_SelectApproval rec d)) (\<lambda>event E. P E \<and> (\<forall>signal. event = GotApproval signal \<longrightarrow> Signalled signal \<in> E))"
  unfolding recording_def Runtime.simps
  by (rule triple_awaited, rule triple_noting)
    (auto simp: signals_def intro: stableD[OF assms] split: option.split approval_event.split)

lemma approval_loop_ok:
  assumes "awaiting selected succeeded n index service decision run" "run_Status run \<noteq> RunRunning" "stable P"
  shows "triple (\<lambda>E. P E \<and> Decided service decision \<in> E) (approval_loop rec fuel run index)
    (\<lambda>run' E. decided_on E selected succeeded n index run' \<and> P E)"
  using assms(1,2)
proof (induction fuel arbitrary: run)
  case (Suc fuel)
  let ?P = "\<lambda>E. P E \<and> Decided service decision \<in> E" and ?Q = "\<lambda>run' E. decided_on E selected succeeded n index run' \<and> P E"
  let ?step = "run_Steps run ! index"
  have P: "stable ?P" by (intro stable_intros assms(3))
  have o: "open_at selected succeeded n index run" using Suc.prems by (simp add: awaiting_def)
  obtain a where a: "rs_Approval ?step = Some a" using Suc.prems by (auto simp: awaiting_def)
  have cancel: "triple ?P (cancelRun rec run index actor) ?Q" for actor
    by (rule triple_conseq[OF cancelRun_ok[OF open_atD(2)[OF o] P]]) (auto simp: decided_on_def)
  have again: "triple ?P (approval_loop rec fuel run index) ?Q" by (rule Suc.IH[OF Suc.prems])
  have pause: "triple ?P (andThen (waitForResume rec fuel run index) (\<lambda>run. if run_Status run = RunCancelled then goOn run else approval_loop rec fuel run index)) ?Q"
  proof (rule triple_andThen[OF waitForResume_ok[OF open_atD(2)[OF o] open_atD(6)[OF o] P]])
    fix run1
    show "triple (\<lambda>E. (run_Status run1 = RunCancelled \<and> run_sound run1 \<or> same run run1 \<and> run_Status run1 = run_Status run) \<and> ?P E)
        (if run_Status run1 = RunCancelled then goOn run1 else approval_loop rec fuel run1 index) ?Q"
    proof (rule triple_pre[where \<phi> = "run_Status run1 = RunCancelled \<and> run_sound run1 \<or> same run run1 \<and> run_Status run1 = run_Status run"], blast)
      assume c: "run_Status run1 = RunCancelled \<and> run_sound run1 \<or> same run run1 \<and> run_Status run1 = run_Status run"
      show ?thesis
      proof (cases "run_Status run1 = RunCancelled")
        case True
        then show ?thesis using c open_atD(6)[OF o] by (auto intro!: triple_goOn simp: decided_on_def)
      next
        case False
        with c have s: "same run run1" "run_Status run1 = run_Status run" by auto
        have "awaiting selected succeeded n index service decision run1"
          by (rule same_awaiting[OF s(1) _ Suc.prems(1)]) (use s(2) open_atD(6)[OF o] in simp)
        then have "triple ?P (approval_loop rec fuel run1 index) ?Q" by (rule Suc.IH) (use s(2) Suc.prems(2) in simp)
        then show ?thesis using False by (auto intro: triple_conseq)
      qed
    qed
  qed
  have expire: "triple ?P (stamped rec (settle_approval run index ?step (a\<lparr>ap_Status := ApprovalExpired\<rparr>)) [] ''approval.expired'') ?Q"
    by (rule triple_conseq[OF stamped_ok[OF _ P]])
      (use settled_sound[OF o refl, of "a\<lparr>ap_Status := ApprovalExpired\<rparr>"] in \<open>auto simp: decided_on_def alike_def same_def run_sound_def\<close>)
  have choose: "triple (\<lambda>E. ?P E \<and> (\<forall>signal. event = GotApproval signal \<longrightarrow> Signalled signal \<in> E)) (case event of
        GotApproval signal \<Rightarrow> if signal_accepted run a signal then decide rec run index ?step a signal else approval_loop rec fuel run index
      | GotPause p \<Rightarrow> if cs_Actor p \<noteq> []
          then andThen (waitForResume rec fuel run index) (\<lambda>run. if run_Status run = RunCancelled then goOn run else approval_loop rec fuel run index)
          else approval_loop rec fuel run index
      | GotCancel c \<Rightarrow> if cs_Actor c \<noteq> [] then cancelRun rec run index (cs_Actor c) else approval_loop rec fuel run index
      | GotTimer \<Rightarrow> stamped rec (settle_approval run index ?step (a\<lparr>ap_Status := ApprovalExpired\<rparr>)) [] ''approval.expired'') ?Q" for event
  proof (cases event)
    case (GotApproval signal)
    show ?thesis
    proof (cases "signal_accepted run a signal")
      case True
      from decide_ok[OF Suc.prems(1) refl a True assms(3)] GotApproval True show ?thesis by (auto elim: triple_conseq)
    next
      case False
      then show ?thesis using again GotApproval by (auto elim: triple_conseq)
    qed
  qed (use cancel again pause expire in \<open>auto elim: triple_conseq\<close>)
  show ?case
    unfolding approval_loop.simps
    by (rule triple_with_step) (use a choose in \<open>auto intro!: triple_andThen[OF now_ok] triple_andThen[OF select_ok[OF P]]\<close>)
qed simp

end

lemma stable_ready [intro]: "stable (\<lambda>E. ready E selected succeeded n index run)"
  unfolding stable_def ready_def by (blast intro: entitled_mono)

lemma unmet_none:
  assumes "unmetDependency plan service selected succeeded = []"
  shows "\<forall>ps \<in> set (plan_steps plan). ps_Service ps = service \<longrightarrow> (\<forall>d \<in> set (ordering_dependencies ps). d \<in> selected \<longrightarrow> d \<in> succeeded)"
proof (intro ballI impI, rule ccontr)
  fix ps d
  assume a: "ps \<in> set (plan_steps plan)" "ps_Service ps = service" "d \<in> set (ordering_dependencies ps)" "d \<in> selected" "d \<notin> succeeded"
  let ?ds = "concat (map ordering_dependencies (filter (\<lambda>ps. ps_Service ps = service) (plan_steps plan)))"
  have "d \<in> set ?ds" using a by auto
  then have "find (\<lambda>d. d \<in> selected \<and> d \<notin> succeeded) ?ds \<noteq> None" using a(4,5) by (simp add: find_None_iff) blast
  then obtain u where u: "find (\<lambda>d. d \<in> selected \<and> d \<notin> succeeded) ?ds = Some u" by blast
  then have "u \<in> set ?ds" unfolding find_Some_iff using nth_mem by blast
  then have "u \<noteq> []" by (auto simp: ordering_dependencies_def)
  with u assms show False by (simp add: unmetDependency_def)
qed

lemma ready_dependencies:
  assumes "ready E selected succeeded n index run"
  shows "dependencies_met run (run_Steps run ! index)"
proof -
  have u: "unmetDependency (run_Plan run) (rs_Service (run_Steps run ! index)) selected succeeded = []"
    and sel: "rs_Service ` set (run_Steps run) = selected"
    and suc: "\<forall>d \<in> succeeded. \<exists>s \<in> set (run_Steps run). rs_Service s = d \<and> rs_Status s = StepSucceeded"
    using assms by (simp_all add: ready_def open_at_def loop_inv_def)
  show ?thesis unfolding dependencies_met_def sel using unmet_none[OF u] suc by blast
qed

context persisting
begin

lemma awaitApproval_ok:
  assumes "open_at selected succeeded n index run" "rs_Policy (run_Steps run ! index) = Some decision" "pd_Decision decision \<noteq> DecisionDeny"
    and "unmetDependency (run_Plan run) (rs_Service (run_Steps run ! index)) selected succeeded = []"
  shows "triple (\<lambda>E. Decided (rs_Service (run_Steps run ! index)) decision \<in> E) (awaitApproval rec fuel run index decision)
    (\<lambda>run' E. decided_on E selected succeeded n index run')"
  unfolding awaitApproval_def
proof (rule triple_andThen[OF now_ok], rule triple_with_step, unfold Let_def)
  fix now
  let ?step = "run_Steps run ! index"
  let ?P = "\<lambda>E. Decided (rs_Service ?step) decision \<in> E"
  let ?a = "\<lparr>ap_ID = deterministicID rec ''approval'' [run_ID run, rs_Service ?step], ap_RequiredRoles = pd_RequiredRoles decision,
             ap_Status = ApprovalPending, ap_PlanHash = pl_Hash (run_Plan run), ap_RequestedAt = now, ap_ExpiresAt = now + 86400000000000,
             ap_DecidedBy = [], ap_DecidedAt = None\<rparr>"
  let ?new = "?step\<lparr>rs_Approval := Some ?a, rs_Status := StepWaitingApproval\<rparr>"
  let ?run = "(set_step run index ?new)\<lparr>run_Status := RunWaitingApproval, run_UpdatedAt := now\<rparr>"
  have "open_at selected succeeded n index (set_step run index ?new)"
    by (rule open_at_set_step[OF assms(1)]) (use open_atD(3,4)[OF assms(1)] in \<open>simp_all add: step_sound_def\<close>)
  from open_at_status[OF this, of RunWaitingApproval]
  have "awaiting selected succeeded n index (rs_Service ?step) decision ?run"
    using assms open_atD(1)[OF assms(1)] by (auto simp: awaiting_def open_at_def loop_inv_def)
  moreover from this have "run_sound ?run" by (rule awaiting_sound)
  ultimately show "triple ?P (andThen (workflow_persist rec ?run
        [intent ''system'' ''policy-engine'' ''approval.request'' ''approval'' (ap_ID ?a) ''PENDING'' []] ''approval.requested'') (\<lambda>run. approval_loop rec fuel run index))
      (\<lambda>run' E. decided_on E selected succeeded n index run')"
  proof (intro triple_andThen[OF persist_ok])
    fix run1
    assume w: "awaiting selected succeeded n index (rs_Service ?step) decision ?run"
    show "triple (\<lambda>E. alike ?run run1 \<and> stored E run1 \<and> ?P E) (approval_loop rec fuel run1 index) (\<lambda>run' E. decided_on E selected succeeded n index run')"
    proof (rule triple_pre[where \<phi> = "alike ?run run1"], blast)
      assume a: "alike ?run run1"
      then have "awaiting selected succeeded n index (rs_Service ?step) decision run1" "run_Status run1 \<noteq> RunRunning"
        using same_awaiting[OF _ _ w] by (auto simp: alike_def)
      from approval_loop_ok[OF this, of "\<lambda>_. True"] show ?thesis by (rule triple_conseq) auto
    qed
  qed (assumption, rule stable_intros(2))
qed

lemma check_controls_ok:
  assumes "loop_inv selected succeeded n index run"
  shows "triple (\<lambda>_. True) (check_controls rec fuel run index) (\<lambda>run' _. loop_inv selected succeeded n index run')"
proof -
  have s: "\<forall>s \<in> set (run_Steps run). step_sound s" "run_Status run \<notin> {RunSucceeded, RunCancelled}" using assms by (auto simp: loop_inv_def)
  have c: "triple (\<lambda>_. True) (call_of (rt_ReceiveCancel rec)) (\<lambda>_ _. True)" "triple (\<lambda>_. True) (call_of (rt_ReceivePause rec)) (\<lambda>_ _. True)"
    using triple_quiet[of "\<lambda>_. True"] by (simp_all add: recording_def)
  have cancel: "triple (\<lambda>_. True) (andThen (cancelRun rec run index ''signal'') finishWith) Q" for Q :: "ReleaseRun \<Rightarrow> event set \<Rightarrow> bool"
    by (rule triple_andThen[OF cancelRun_ok[OF s(1)]]) (auto intro: triple_finishWith)
  have pause: "triple (\<lambda>_. True) (andThen (waitForResume rec fuel run index) (\<lambda>run. if run_Status run = RunCancelled then finishWith run else goOn run))
      (\<lambda>run' _. loop_inv selected succeeded n index run')"
  proof (rule triple_andThen[OF waitForResume_ok[OF s, of "\<lambda>_. True"]])
    fix run1
    show "triple (\<lambda>E. (run_Status run1 = RunCancelled \<and> run_sound run1 \<or> same run run1 \<and> run_Status run1 = run_Status run) \<and> True)
        (if run_Status run1 = RunCancelled then finishWith run1 else goOn run1) (\<lambda>run' _. loop_inv selected succeeded n index run')"
      using s(2) assms same_loop_inv by (auto intro!: triple_finishWith triple_goOn)
  qed blast
  show ?thesis
    unfolding check_controls_def
    by (intro triple_andThen[OF c(1)]) (use cancel pause assms in \<open>auto intro!: triple_andThen[OF c(2)] triple_goOn\<close>)
qed

end

text \<open>The step's deployment has been started for exactly this step, and it has an execution.\<close>

definition deployed_at :: "event set \<Rightarrow> string set \<Rightarrow> string set \<Rightarrow> nat \<Rightarrow> nat \<Rightarrow> DeployInput \<Rightarrow> ReleaseRun \<Rightarrow> bool" where
  "deployed_at E selected succeeded n index input run \<longleftrightarrow> open_at selected succeeded n index run \<and> rs_Execution (run_Steps run ! index) \<noteq> None \<and>
     input = deploy_input run (run_Steps run ! index) \<and> Deploying input \<in> E"

lemma stable_deployed [intro]: "stable (\<lambda>E. deployed_at E selected succeeded n index input run)"
  unfolding stable_def deployed_at_def by blast

lemma deploy_input_cong:
  "run_ID run' = run_ID run \<Longrightarrow> run_RequestedBy run' = run_RequestedBy run \<Longrightarrow> run_Agent run' = run_Agent run \<Longrightarrow>
   run_Environment run' = run_Environment run \<Longrightarrow> rs_Service s' = rs_Service s \<Longrightarrow> rs_Change s' = rs_Change s \<Longrightarrow>
   deploy_input run' s' = deploy_input run s"
  by (simp add: deploy_input_def)

lemma ready_sound: "ready E selected succeeded n index run \<Longrightarrow> run_sound run"
  unfolding ready_def open_at_def using loop_inv_sound by blast

context persisting
begin

lemma persist_step_ok:
  assumes "open_at selected succeeded n index run" "rs_Service s = rs_Service (run_Steps run ! index)" "rs_Status s \<noteq> StepSucceeded"
    and "step_sound s" "rs_RollbackExecution s = None" "stable P"
  shows "triple P (stamped rec (set_step run index s) audits event)
    (\<lambda>run' E. (open_at selected succeeded n index run' \<and> alike (set_step run index s) run') \<and> stored E run' \<and> P E)"
proof -
  have o: "open_at selected succeeded n index (set_step run index s)" by (rule open_at_set_step[OF assms(1-5)])
  then have "run_sound (set_step run index s)" using loop_inv_sound unfolding open_at_def by blast
  show ?thesis
  proof (rule triple_conseq[OF stamped_ok[OF \<open>run_sound (set_step run index s)\<close> assms(6)]])
    fix run' E
    assume a: "alike (set_step run index s) run' \<and> stored E run' \<and> P E"
    moreover have "open_at selected succeeded n index run'"
      by (rule same_open_at[OF _ _ o]) (use a open_atD(6)[OF o] in \<open>simp_all add: alike_def\<close>)
    ultimately show "(open_at selected succeeded n index run' \<and> alike (set_step run index s) run') \<and> stored E run' \<and> P E" by blast
  qed
qed

lemma evaluate_ok:
  "triple (\<lambda>_. True) (activity (rt_EvaluateStep rec \<lparr>evi_Run = run, evi_Step = step\<rparr>)) (\<lambda>decision E. Decided (rs_Service step) decision \<in> E)"
  unfolding recording_def Runtime.simps
  by (rule triple_activity, rule triple_noting) (auto simp: on_success_def split: sum.split)

lemma apply_decision_ok:
  assumes o: "open_at selected succeeded n index run" and policy: "rs_Policy (run_Steps run ! index) = Some decision"
    and unmet: "unmetDependency (run_Plan run) (rs_Service (run_Steps run ! index)) selected succeeded = []"
  shows "triple (\<lambda>E. Decided (rs_Service (run_Steps run ! index)) decision \<in> E) (apply_decision rec fuel run index decision)
    (\<lambda>run' E. ready E selected succeeded n index run')"
proof -
  let ?s = "run_Steps run ! index"
  let ?P = "\<lambda>E. Decided (rs_Service ?s) decision \<in> E" and ?Q = "\<lambda>run' E. ready E selected succeeded n index run'"
  have deny: "triple ?P (finish_persisted rec (stop_at run index ?s StepBlocked (pd_ReasonDetail decision) RunBlocked) [] ''release.blocked'') ?Q"
    by (intro finish_persisted_ok stop_at_sound open_atD(2)[OF o]) (use open_atD[OF o] in \<open>simp_all add: step_sound_def\<close>)
  have wait: "triple ?P (andThen (awaitApproval rec fuel run index decision) (\<lambda>run. if run_Status run \<noteq> RunRunning then finishWith run else goOn run)) ?Q"
    if "pd_Decision decision \<noteq> DecisionDeny"
  proof (rule triple_andThen[OF awaitApproval_ok[OF o policy that unmet]])
    fix run1
    show "triple (\<lambda>E. decided_on E selected succeeded n index run1) (if run_Status run1 \<noteq> RunRunning then finishWith run1 else goOn run1) ?Q"
      using ready_sound by (auto intro!: triple_finishWith triple_goOn simp: decided_on_def)
  qed
  have "triple ?P (goOn run) ?Q" if "pd_Decision decision \<noteq> DecisionDeny" "pd_Decision decision \<noteq> DecisionRequireApproval"
    by (rule triple_goOn) (use that o policy unmet in \<open>auto simp: ready_def entitled_def\<close>)
  with deny wait show ?thesis unfolding apply_decision_def by (intro triple_with_step) auto
qed

lemma evaluate_step_ok:
  assumes o: "open_at selected succeeded n index run" and step: "step = run_Steps run ! index"
  shows "triple (\<lambda>_. True) (evaluate_step rec fuel selected succeeded run index step) (\<lambda>run' E. ready E selected succeeded n index run')"
proof (cases "unmetDependency (run_Plan run) (rs_Service step) selected succeeded = []")
  case False
  have "step_sound (step\<lparr>rs_Status := StepBlocked, rs_Failure := f\<rparr>)" for f using open_atD(3,4)[OF o] step by (simp add: step_sound_def)
  with False show ?thesis
    unfolding evaluate_step_def Let_def using open_atD(2)[OF o] by (auto intro!: finish_persisted_ok stop_at_sound)
next
  case True
  have "triple (\<lambda>E. Decided (rs_Service step) decision \<in> E)
      (andThen (stamped rec (set_step run index (step\<lparr>rs_Policy := Some decision\<rparr>)) audits event) (\<lambda>run. apply_decision rec fuel run index decision))
      (\<lambda>run' E. ready E selected succeeded n index run')" for decision audits event
  proof -
    let ?s = "step\<lparr>rs_Policy := Some decision\<rparr>"
    have sound: "rs_Service ?s = rs_Service (run_Steps run ! index)" "rs_Status ?s \<noteq> StepSucceeded" "step_sound ?s" "rs_RollbackExecution ?s = None"
      using open_atD[OF o] step by (simp_all add: step_sound_def)
    show ?thesis
    proof (rule triple_andThen[OF persist_step_ok[OF o sound stable_intros(2)]], rule triple_pre, erule conjunct1)
      fix run1
      assume a: "open_at selected succeeded n index run1 \<and> alike (set_step run index ?s) run1"
      have "run_Steps run1 ! index = ?s" "run_Plan run1 = run_Plan run" using a open_atD(1)[OF o] by (simp_all add: alike_def same_def)
      with a True show "triple (\<lambda>E. (open_at selected succeeded n index run1 \<and> alike (set_step run index ?s) run1) \<and> stored E run1 \<and>
          Decided (rs_Service step) decision \<in> E) (apply_decision rec fuel run1 index decision) (\<lambda>run' E. ready E selected succeeded n index run')"
        by (intro triple_conseq[OF apply_decision_ok[of selected succeeded n]]) auto
    qed
  qed
  with True show ?thesis unfolding evaluate_step_def Let_def by (auto intro!: triple_andThen[OF evaluate_ok])
qed

end

lemma schedulingStep_ID: "step_ID (schedulingStep run step) = rs_Service step"
  by (auto simp: schedulingStep_def scheduler_step_def find_Some_iff split: option.split)

lemma deploying_safe:
  assumes "ready E selected succeeded n index run" "stored E run" "Permitted (run_ID run) (rs_Service (run_Steps run ! index)) \<in> E"
    and "rs_Status (run_Steps run ! index) = StepExecuting"
  shows "safe_event E (Deploying (deploy_input run (run_Steps run ! index)))"
proof -
  let ?s = "run_Steps run ! index"
  obtain run0 where r: "Persisted run0 \<in> E" "alike run0 run" using assms(2) by (auto simp: stored_def)
  have same: "same run0 run" using r(2) by (simp add: alike_def)
  have "open_at selected succeeded n index run" "entitled E run ?s" using assms(1) by (simp_all add: ready_def)
  moreover have "dependencies_met run ?s" by (rule ready_dependencies[OF assms(1)])
  moreover have "run_Steps run0 = run_Steps run" "run_ID run0 = run_ID run" using same by (simp_all add: same_def)
  ultimately show ?thesis
    using r(1) assms(3,4) same_cong[OF same] open_atD(1) nth_mem[of index "run_Steps run"]
    by (auto intro!: exI[of _ run0] exI[of _ ?s])
qed

context persisting
begin

lemma acquire_permit_ok:
  assumes o: "open_at selected succeeded n index run" and step: "step = run_Steps run ! index" and P: "stable P"
  shows "triple P (acquire_permit rec run index step) (\<lambda>_ E. Permitted (run_ID run) (rs_Service step) \<in> E \<and> P E)"
proof -
  let ?input = "\<lparr>si_RunID = run_ID run, si_Step = schedulingStep run step\<rparr>"
  have "triple P (activity (rt_AcquireSchedule rec ?input)) (\<lambda>answer E. (sr_Allowed answer \<longrightarrow> Permitted (run_ID run) (rs_Service step) \<in> E) \<and> P E)"
    unfolding recording_def Runtime.simps
    by (rule triple_activity, rule triple_noting) (auto simp: on_success_def schedulingStep_ID intro: stableD[OF P] split: sum.split)
  moreover have "step_sound (step\<lparr>rs_Status := StepBlocked, rs_Failure := f\<rparr>)" for f using open_atD(3,4)[OF o] step by (simp add: step_sound_def)
  ultimately show ?thesis
    unfolding acquire_permit_def using open_atD(2)[OF o]
    by (auto intro!: triple_andThen[of P "activity (rt_AcquireSchedule rec ?input)"] triple_goOn finish_persisted_ok stop_at_sound)
qed

lemma deploy_ok:
  assumes "stable P" "\<And>E. P E \<Longrightarrow> safe_event E (Deploying input)"
  shows "triple P (call_of (rt_Deploy rec input)) (\<lambda>_ E. Deploying input \<in> E \<and> P E)"
  unfolding recording_def Runtime.simps
  by (rule triple_noting) (use assms stableD[OF assms(1)] in auto)

lemma unknown_ok:
  assumes o: "open_at selected succeeded n index run" and P: "stable P"
    and ends: "status \<notin> {StepSucceeded, StepRolledBack}" "runStatus \<noteq> RunSucceeded"
  shows "triple P (andThen (completeScheduling rec run (run_Steps run ! index) failed) (\<lambda>_.
      finish_persisted rec (stop_at run index (run_Steps run ! index) status failure runStatus) audits event)) Q"
proof (rule triple_andThen[OF complete_ok[OF P]])
  have "step_sound ((run_Steps run ! index)\<lparr>rs_Status := status, rs_Failure := failure\<rparr>)"
    using open_atD(3)[OF o] ends by (simp add: step_sound_def)
  then show "triple P (finish_persisted rec (stop_at run index (run_Steps run ! index) status failure runStatus) audits event) Q"
    by (intro finish_persisted_ok stop_at_sound open_atD(2)[OF o] ends(2))
qed

lemma execute_deployment_ok:
  assumes o: "open_at selected succeeded n index run" and status: "rs_Status (run_Steps run ! index) = StepExecuting"
  shows "triple (\<lambda>E. stored E run \<and> Permitted (run_ID run) (rs_Service (run_Steps run ! index)) \<in> E \<and> ready E selected succeeded n index run)
    (execute_deployment rec run index) (\<lambda>(run', input, d) E. deployed_at E selected succeeded n index input run')"
  unfolding execute_deployment_def
proof (rule triple_with_step, unfold Let_def, rule triple_andThen[OF deploy_ok])
  let ?step = "run_Steps run ! index"
  let ?P = "\<lambda>E. stored E run \<and> Permitted (run_ID run) (rs_Service ?step) \<in> E \<and> ready E selected succeeded n index run"
  show P: "stable ?P" by (intro stable_intros stable_stored stable_ready)
  show "safe_event E (Deploying (deploy_input run ?step))" if "?P E" for E by (rule deploying_safe) (use that status in auto)
  fix answer
  have "triple (\<lambda>E. Deploying (deploy_input run ?step) \<in> E \<and> ?P E) (goOn (set_step run index (?step\<lparr>rs_Execution := Some x\<rparr>), deploy_input run ?step, d))
      (\<lambda>(run', input, d) E. deployed_at E selected succeeded n index input run')" for x d
  proof (rule triple_goOn, clarify)
    have "open_at selected succeeded n index (set_step run index (?step\<lparr>rs_Execution := Some x\<rparr>))"
      by (rule open_at_set_step[OF o]) (use open_atD[OF o] in \<open>simp_all add: step_sound_def\<close>)
    then show "deployed_at E selected succeeded n index (deploy_input run ?step) (set_step run index (?step\<lparr>rs_Execution := Some x\<rparr>))"
      if "Deploying (deploy_input run ?step) \<in> E" for E
      using that open_atD(1)[OF o] by (simp add: deployed_at_def deploy_input_def)
  qed
  then show "triple (\<lambda>E. Deploying (deploy_input run ?step) \<in> E \<and> ?P E) (case answer of
       Inl err \<Rightarrow> andThen (completeScheduling rec run ?step True) (\<lambda>_.
         finish_persisted rec (stop_at run index ?step StepUnknown ''deployment state unknown; reconciliation required'' RunBlocked) [] ''deployment.unknown'')
     | Inr deployed \<Rightarrow> goOn (set_step run index (?step\<lparr>rs_Execution := Some (dr_Execution deployed)\<rparr>), deploy_input run ?step, dr_Deployment deployed))
     (\<lambda>(run', input, d) E. deployed_at E selected succeeded n index input run')"
    by (auto split: sum.split intro!: unknown_ok[OF o] stable_intros P)
qed

lemma start_deployment_ok:
  assumes o: "open_at selected succeeded n index run" and step: "step = run_Steps run ! index"
  shows "triple (\<lambda>E. Permitted (run_ID run) (rs_Service step) \<in> E \<and> ready E selected succeeded n index run) (start_deployment rec run index step)
    (\<lambda>(run', input, d) E. deployed_at E selected succeeded n index input run')"
  unfolding start_deployment_def
proof -
  let ?s = "step\<lparr>rs_Status := StepExecuting\<rparr>" and ?P = "\<lambda>E. Permitted (run_ID run) (rs_Service step) \<in> E \<and> ready E selected succeeded n index run"
  have sound: "rs_Service ?s = rs_Service (run_Steps run ! index)" "rs_Status ?s \<noteq> StepSucceeded" "step_sound ?s" "rs_RollbackExecution ?s = None"
    using open_atD[OF o] step by (simp_all add: step_sound_def)
  have P: "stable ?P" by (intro stable_intros stable_ready)
  show "triple ?P (andThen (stamped rec (set_step run index ?s) [] ''deployment.executing'') (\<lambda>run. execute_deployment rec run index))
     (\<lambda>(run', input, d) E. deployed_at E selected succeeded n index input run')"
  proof (rule triple_andThen[OF persist_step_ok[OF o sound P]], rule triple_pre, erule conjunct1)
    fix run1
    assume a: "open_at selected succeeded n index run1 \<and> alike (set_step run index ?s) run1"
    have s1: "run_Steps run1 ! index = ?s" "run_Plan run1 = run_Plan run" "run_ID run1 = run_ID run" "run_RequestedBy run1 = run_RequestedBy run"
      using a open_atD(1)[OF o] by (simp_all add: alike_def same_def)
    from a s1 step show "triple (\<lambda>E. (open_at selected succeeded n index run1 \<and> alike (set_step run index ?s) run1) \<and> stored E run1 \<and> ?P E)
        (execute_deployment rec run1 index) (\<lambda>(run', input, d) E. deployed_at E selected succeeded n index input run')"
      by (intro triple_conseq[OF execute_deployment_ok[of selected succeeded n]]) (auto simp: ready_def entitled_def)
  qed
qed

end

text \<open>The deployment has been observed, and the step carries the observation.\<close>

definition verified_at :: "event set \<Rightarrow> string set \<Rightarrow> string set \<Rightarrow> nat \<Rightarrow> nat \<Rightarrow> DeployInput \<Rightarrow> ExecDeployment \<Rightarrow> VerificationResult \<Rightarrow> ReleaseRun \<Rightarrow> bool" where
  "verified_at E selected succeeded n index input deployment v run \<longleftrightarrow> deployed_at E selected succeeded n index input run \<and>
     Verified deployment v \<in> E \<and> (\<exists>t. rs_Verification (run_Steps run ! index) = Some (verificationProjection v t))"

lemma passed_projection: "passed (Some (verificationProjection v t)) \<longleftrightarrow> Outcome v = AdapterPass"
  by (simp add: passed_def verificationProjection_def status_of_def Let_def)

lemma loop_inv_advance:
  assumes o: "open_at selected succeeded n index run" and s: "step_sound s" "rs_Service s = rs_Service (run_Steps run ! index)"
    "rs_Status s = StepSucceeded" "rs_RollbackExecution s = None"
  shows "loop_inv selected (insert (rs_Service s) succeeded) n (Suc index) (set_step run index s)"
proof -
  have inv: "loop_inv selected succeeded n index (set_step run index s)" by (rule loop_inv_set_step[OF o s(2,1,4)])
  have i: "index < length (run_Steps run)" by (rule open_atD(1)[OF o])
  then have "s \<in> set ((run_Steps run)[index := s])" by (metis length_list_update nth_list_update_eq nth_mem)
  moreover have "rs_Status ((run_Steps run)[index := s] ! index) = StepSucceeded" using i s(3) by simp
  ultimately show ?thesis using inv s(3) unfolding loop_inv_def by (auto simp: less_Suc_eq)
qed

context persisting
begin

lemma observe_ok:
  assumes "stable P"
  shows "triple P (observe rec step d) (\<lambda>answer E. (\<forall>v. answer = Inr v \<longrightarrow> Verified d v \<in> E) \<and> P E)"
  unfolding observe_def
proof (rule triple_andThen)
  show "triple P (checked (rt_Sleep rec (observationDuration (rs_ObservationWindow step)))) (\<lambda>_. P)"
    by (simp add: recording_def triple_checked_quiet)
  show "triple P (call_of (rt_Verify rec d)) (\<lambda>answer E. (\<forall>v. answer = Inr v \<longrightarrow> Verified d v \<in> E) \<and> P E)"
    unfolding recording_def Runtime.simps
    by (rule triple_noting) (auto simp: on_success_def intro: stableD[OF assms] split: sum.split)
qed

lemma observe_deployment_ok:
  assumes o: "open_at selected succeeded n index run"
  shows "triple (\<lambda>E. deployed_at E selected succeeded n index input run) (observe_deployment rec run index deployment)
    (\<lambda>(run', v) E. verified_at E selected succeeded n index input deployment v run')"
  unfolding observe_deployment_def
proof (rule triple_with_step, rule triple_andThen[OF observe_ok[OF stable_deployed]])
  let ?step = "run_Steps run ! index" and ?P = "\<lambda>E. deployed_at E selected succeeded n index input run"
  fix answer
  have "triple (\<lambda>E. Verified deployment v \<in> E \<and> ?P E) (goOn (set_step run index (?step\<lparr>rs_Verification := Some (verificationProjection v t)\<rparr>), v))
      (\<lambda>(run', v) E. verified_at E selected succeeded n index input deployment v run')" for v t
  proof (rule triple_goOn, clarify)
    fix E
    assume a: "Verified deployment v \<in> E" "?P E"
    have "open_at selected succeeded n index (set_step run index (?step\<lparr>rs_Verification := Some (verificationProjection v t)\<rparr>))"
      by (rule open_at_set_step[OF o]) (use open_atD[OF o] in \<open>simp_all add: step_sound_def\<close>)
    with a open_atD(1)[OF o]
    show "verified_at E selected succeeded n index input deployment v (set_step run index (?step\<lparr>rs_Verification := Some (verificationProjection v t)\<rparr>))"
      by (auto simp: verified_at_def deployed_at_def deploy_input_def)
  qed
  then have go: "triple (\<lambda>E. (\<forall>v'. Inr v = Inr v' \<longrightarrow> Verified deployment v' \<in> E) \<and> ?P E)
      (andThen (call_of (rt_Now rec)) (\<lambda>now. goOn (set_step run index (?step\<lparr>rs_Verification := Some (verificationProjection v now)\<rparr>), v)))
      (\<lambda>(run', v) E. verified_at E selected succeeded n index input deployment v run')" for v
    by (intro triple_andThen[OF now_ok]) simp
  show "triple (\<lambda>E. (\<forall>v. answer = Inr v \<longrightarrow> Verified deployment v \<in> E) \<and> ?P E) (case answer of
       Inl err \<Rightarrow> andThen (completeScheduling rec run ?step True) (\<lambda>_.
         finish_persisted rec (stop_at run index ?step StepBlocked (''verification unavailable: '' @ error_text err) RunBlocked) [] ''verification.unavailable'')
     | Inr verification \<Rightarrow> andThen (call_of (rt_Now rec)) (\<lambda>now.
         goOn (set_step run index (?step\<lparr>rs_Verification := Some (verificationProjection verification now)\<rparr>), verification)))
     (\<lambda>(run', v) E. verified_at E selected succeeded n index input deployment v run')"
    by (cases answer) (use go in \<open>auto intro!: unknown_ok[OF o] stable_intros stable_deployed\<close>)
qed

lemma verify_deployment_ok:
  assumes o: "open_at selected succeeded n index run" and step: "step = run_Steps run ! index"
  shows "triple (\<lambda>E. deployed_at E selected succeeded n index input run) (verify_deployment rec run index step deployment)
    (\<lambda>(run', v) E. verified_at E selected succeeded n index input deployment v run')"
  unfolding verify_deployment_def
proof -
  let ?s = "step\<lparr>rs_Status := StepVerifying\<rparr>" and ?P = "\<lambda>E. deployed_at E selected succeeded n index input run"
  have sound: "rs_Service ?s = rs_Service (run_Steps run ! index)" "rs_Status ?s \<noteq> StepSucceeded" "step_sound ?s" "rs_RollbackExecution ?s = None"
    using open_atD[OF o] step by (simp_all add: step_sound_def)
  show "triple ?P (andThen (stamped rec (set_step run index ?s) [] ''deployment.started'') (\<lambda>run. observe_deployment rec run index deployment))
     (\<lambda>(run', v) E. verified_at E selected succeeded n index input deployment v run')"
  proof (rule triple_andThen[OF persist_step_ok[OF o sound stable_deployed]], rule triple_pre, erule conjunct1)
    fix run1
    assume a: "open_at selected succeeded n index run1 \<and> alike (set_step run index ?s) run1"
    then have "run_Steps run1 ! index = ?s" "same (set_step run index ?s) run1" using open_atD(1)[OF o] by (simp_all add: alike_def same_def)
    with a step show "triple (\<lambda>E. (open_at selected succeeded n index run1 \<and> alike (set_step run index ?s) run1) \<and> stored E run1 \<and> ?P E)
        (observe_deployment rec run1 index deployment) (\<lambda>(run', v) E. verified_at E selected succeeded n index input deployment v run')"
      by (intro triple_conseq[OF observe_deployment_ok[of selected succeeded n]]) (auto simp: deployed_at_def same_def deploy_input_def)
  qed
qed

end

context persisting
begin

lemma verify_rollback_ok:
  assumes s: "step_sound s" "rs_RollbackExecution s \<noteq> None" and P: "stable P"
  shows "triple P (verify_rollback rec s deployment reason) (\<lambda>r _. step_sound (fst r) \<and> snd r \<noteq> RunSucceeded)"
  unfolding verify_rollback_def Let_def
proof (rule triple_andThen[OF observe_ok[OF P]])
  fix answer
  have "step_sound (fst (escalated s f))" "snd (escalated s f) \<noteq> RunSucceeded" for f using s(1) by (auto simp: step_sound_def escalated_def)
  moreover have "step_sound (fst (escalated (s\<lparr>rs_RollbackVerification := Some x\<rparr>) f))" "snd (escalated (s\<lparr>rs_RollbackVerification := Some x\<rparr>) f) \<noteq> RunSucceeded" for f x
    using s(1) by (auto simp: step_sound_def escalated_def)
  moreover have "step_sound (s\<lparr>rs_RollbackVerification := Some (verificationProjection v t), rs_Status := StepRolledBack, rs_Failure := reason\<rparr>)"
    if "Outcome v = AdapterPass" for v t
    using s that by (auto simp: step_sound_def passed_projection)
  ultimately show "triple (\<lambda>E. (\<forall>v. answer = Inr v \<longrightarrow> Verified deployment v \<in> E) \<and> P E) (case answer of
       Inl err \<Rightarrow> goOn (escalated s (''rollback verification unavailable: '' @ error_text err))
     | Inr v \<Rightarrow> andThen (call_of (rt_Now rec)) (\<lambda>now.
         goOn (if Outcome v \<noteq> AdapterPass
               then escalated (s\<lparr>rs_RollbackVerification := Some (verificationProjection v now)\<rparr>) (''rollback verification did not pass: '' @ Outcome v)
               else (s\<lparr>rs_RollbackVerification := Some (verificationProjection v now)\<rparr>\<lparr>rs_Status := StepRolledBack, rs_Failure := reason\<rparr>, RunFailed))))
      (\<lambda>r _. step_sound (fst r) \<and> snd r \<noteq> RunSucceeded)"
    by (cases answer) (auto intro!: triple_goOn triple_andThen[OF now_ok] split: if_splits)
qed

lemma roll_back_ok:
  assumes s: "step_sound s" "rs_Status s = StepRollingBack" "rs_RollbackMode s = RollbackAutomatic" "\<not> passed (rs_Verification s)"
    and P: "stable P" "\<And>E. P E \<Longrightarrow> safe_event E (RollingBack \<lparr>rbi_Deploy = input, rbi_Deployment = deployment\<rparr>)"
  shows "triple P (roll_back rec s input deployment reason) (\<lambda>r _. step_sound (fst r) \<and> snd r \<noteq> RunSucceeded)"
  unfolding roll_back_def
proof (rule triple_andThen)
  show "triple P (call_of (rt_Rollback rec \<lparr>rbi_Deploy = input, rbi_Deployment = deployment\<rparr>)) (\<lambda>_. P)"
    unfolding recording_def Runtime.simps by (rule triple_noting) (use P stableD[OF P(1)] in auto)
  have rolled: "step_sound (s\<lparr>rs_RollbackExecution := Some x\<rparr>)" for x using s by (simp add: step_sound_def)
  have "step_sound (fst (escalated s f))" "snd (escalated s f) \<noteq> RunSucceeded" for f using s by (auto simp: step_sound_def escalated_def)
  then show "triple P (case answer of
        Inl err \<Rightarrow> goOn (escalated s (''rollback failed or unknown: '' @ error_text err))
      | Inr rolledBack \<Rightarrow> verify_rollback rec (s\<lparr>rs_RollbackExecution := Some (rbr_Execution rolledBack)\<rparr>) (rbr_Deployment rolledBack) reason)
      (\<lambda>r _. step_sound (fst r) \<and> snd r \<noteq> RunSucceeded)" for answer
    using verify_rollback_ok[OF rolled _ P(1)] by (cases answer) (auto intro!: triple_goOn)
qed

lemma finish_rollback_ok:
  assumes o: "open_at selected succeeded n index run" and s: "rs_Status (run_Steps run ! index) = StepRollingBack"
      "rs_RollbackMode (run_Steps run ! index) = RollbackAutomatic" and v: "Outcome v \<noteq> AdapterPass"
  shows "triple (\<lambda>E. stored E run \<and> verified_at E selected succeeded n index input deployment v run)
    (finish_rollback rec run index input deployment reason) Q"
  unfolding finish_rollback_def
proof (rule triple_with_step, rule triple_pre)
  let ?s = "run_Steps run ! index" and ?P = "\<lambda>E. stored E run \<and> verified_at E selected succeeded n index input deployment v run"
  show "\<not> passed (rs_Verification ?s)" if "?P E" for E using that v passed_projection by (auto simp: verified_at_def)
  assume np: "\<not> passed (rs_Verification ?s)"
  have P: "stable ?P" unfolding verified_at_def by (intro stable_intros stable_stored stable_deployed)
  have safe: "safe_event E (RollingBack \<lparr>rbi_Deploy = input, rbi_Deployment = deployment\<rparr>)" if a: "?P E" for E
  proof -
    obtain run0 where r: "Persisted run0 \<in> E" "same run0 run" using a by (auto simp: stored_def alike_def)
    have "?s \<in> set (run_Steps run0)" using r(2) open_atD(1)[OF o] by (simp add: same_def)
    with r a s v show ?thesis by (auto simp: verified_at_def deployed_at_def same_cong(1) intro!: exI[of _ run0] exI[of _ ?s])
  qed
  show "triple ?P (andThen (roll_back rec ?s input deployment reason) (\<lambda>(step, status).
      andThen (completeScheduling rec run step True) (\<lambda>_.
        finish_persisted rec (workflow_cancelDownstream ((set_step run index step)\<lparr>run_Status := status\<rparr>) (index + 1)) [] ''rollback.finished''))) Q"
  proof (rule triple_andThen)
    show "triple ?P (roll_back rec ?s input deployment reason) (\<lambda>r _. step_sound (fst r) \<and> snd r \<noteq> RunSucceeded)"
      by (rule roll_back_ok[OF open_atD(3)[OF o] s np P safe])
    fix r :: "ReleaseStep \<times> RunStatus"
    have settled: "triple (\<lambda>_. b) (andThen (completeScheduling rec run (fst r) True) (\<lambda>_.
        finish_persisted rec (workflow_cancelDownstream ((set_step run index (fst r))\<lparr>run_Status := snd r\<rparr>) (index + 1)) [] ''rollback.finished'')) Q"
      if "step_sound (fst r)" "snd r \<noteq> RunSucceeded" for b
      by (rule triple_andThen[OF complete_ok[OF stable_intros(1)]], rule finish_persisted_ok, rule stop_sound[OF open_atD(2)[OF o] that])
    show "triple (\<lambda>_. step_sound (fst r) \<and> snd r \<noteq> RunSucceeded) (case r of (step, status) \<Rightarrow>
      andThen (completeScheduling rec run step True) (\<lambda>_.
        finish_persisted rec (workflow_cancelDownstream ((set_step run index step)\<lparr>run_Status := status\<rparr>) (index + 1)) [] ''rollback.finished'')) Q"
      by (rule triple_pre[of _ "step_sound (fst r) \<and> snd r \<noteq> RunSucceeded"]) (use settled in \<open>auto simp: split_beta\<close>)
  qed
qed

end

context persisting
begin

lemma fail_step_ok:
  assumes o: "open_at selected succeeded n index run" and step: "step = run_Steps run ! index" and v: "Outcome v \<noteq> AdapterPass"
  shows "triple (\<lambda>E. verified_at E selected succeeded n index input deployment v run) (fail_step rec run index step input deployment v) Q"
proof (cases "rs_RollbackMode step = RollbackAutomatic")
  case False
  have P: "stable (\<lambda>E. verified_at E selected succeeded n index input deployment v run)"
    unfolding verified_at_def by (intro stable_intros stable_deployed)
  from False step show ?thesis unfolding fail_step_def by (auto intro!: unknown_ok[OF o P])
next
  case True
  let ?s = "step\<lparr>rs_Status := StepRollingBack\<rparr>" and ?P = "\<lambda>E. verified_at E selected succeeded n index input deployment v run"
  have sound: "rs_Service ?s = rs_Service (run_Steps run ! index)" "rs_Status ?s \<noteq> StepSucceeded" "step_sound ?s" "rs_RollbackExecution ?s = None"
    using open_atD[OF o] step by (simp_all add: step_sound_def)
  have P: "stable ?P" unfolding verified_at_def by (intro stable_intros stable_deployed)
  have "triple ?P (andThen (stamped rec (set_step run index ?s) [] ''rollback.started'') (\<lambda>run. finish_rollback rec run index input deployment (xv_Reason v))) Q"
  proof (rule triple_andThen[OF persist_step_ok[OF o sound P]], rule triple_pre, erule conjunct1)
    fix run1
    assume a: "open_at selected succeeded n index run1 \<and> alike (set_step run index ?s) run1"
    then have s1: "run_Steps run1 ! index = ?s" "same (set_step run index ?s) run1" using open_atD(1)[OF o] by (simp_all add: alike_def same_def)
    show "triple (\<lambda>E. (open_at selected succeeded n index run1 \<and> alike (set_step run index ?s) run1) \<and> stored E run1 \<and> ?P E)
        (finish_rollback rec run1 index input deployment (xv_Reason v)) Q"
      by (rule triple_conseq[OF finish_rollback_ok[of selected succeeded n index run1 v input deployment]])
        (use a s1 v True step in \<open>auto simp: verified_at_def deployed_at_def same_def deploy_input_def\<close>)
  qed
  with True show ?thesis by (simp add: fail_step_def)
qed

lemma succeeded_ok:
  assumes o: "open_at selected succeeded n index run" and s: "step_sound s" "rs_Service s = rs_Service (run_Steps run ! index)"
      "rs_Status s = StepSucceeded" "rs_RollbackExecution s = None"
  shows "triple (\<lambda>_. True) (andThen (completeScheduling rec run step failed) (\<lambda>_. stamped rec (set_step run index s) audits event))
    (\<lambda>run' _. loop_inv selected (insert (rs_Service s) succeeded) n (Suc index) run')"
proof (rule triple_andThen[OF complete_ok[OF stable_intros(1)]])
  have inv: "loop_inv selected (insert (rs_Service s) succeeded) n (Suc index) (set_step run index s)" by (rule loop_inv_advance[OF o s])
  show "triple (\<lambda>_. True) (stamped rec (set_step run index s) audits event) (\<lambda>run' _. loop_inv selected (insert (rs_Service s) succeeded) n (Suc index) run')"
  proof (rule triple_conseq[OF stamped_ok[OF loop_inv_sound[OF inv], of "\<lambda>_. True"]])
    show "loop_inv selected (insert (rs_Service s) succeeded) n (Suc index) run'"
      if "alike (set_step run index s) run' \<and> stored E run' \<and> True" for run' E
      by (rule same_loop_inv[OF _ _ inv]) (use that open_atD(6)[OF o] in \<open>auto simp: alike_def\<close>)
  qed auto
qed

end

context persisting
begin

lemma verified_branch_ok:
  assumes o: "open_at selected succeeded n index run" and e: "rs_Execution (run_Steps run ! index) \<noteq> None"
    and t: "rs_Verification (run_Steps run ! index) = Some (verificationProjection v t)"
  shows "triple (\<lambda>E. verified_at E selected succeeded n index input deployment v run)
    (if Outcome v \<noteq> AdapterPass then fail_step rec run index (run_Steps run ! index) input deployment v
     else andThen (succeed_step rec run index (run_Steps run ! index) v) (\<lambda>run1. goOn (run1, insert (rs_Service (run_Steps run ! index)) succeeded)))
    (\<lambda>(run', succeeded') _. loop_inv selected succeeded' n (Suc index) run')"
proof (cases "Outcome v = AdapterPass")
  case True
  let ?s = "(run_Steps run ! index)\<lparr>rs_Status := StepSucceeded\<rparr>"
  have "step_sound ?s" using open_atD[OF o] e t True by (simp add: step_sound_def passed_projection)
  then have "triple (\<lambda>_. True) (succeed_step rec run index (run_Steps run ! index) v)
      (\<lambda>run' _. loop_inv selected (insert (rs_Service (run_Steps run ! index)) succeeded) n (Suc index) run')"
    unfolding succeed_step_def using succeeded_ok[OF o, of ?s] open_atD(4)[OF o] by simp
  then have "triple (\<lambda>_. True) (andThen (succeed_step rec run index (run_Steps run ! index) v) (\<lambda>run1. goOn (run1, insert (rs_Service (run_Steps run ! index)) succeeded)))
      (\<lambda>(run', succeeded') _. loop_inv selected succeeded' n (Suc index) run')"
    by (rule triple_andThen) (auto intro: triple_goOn)
  then show ?thesis using True by (auto elim: triple_conseq)
qed (use fail_step_ok[OF o refl] in simp)

lemma conclude_step_ok:
  assumes o: "open_at selected succeeded n index run" and e: "rs_Execution (run_Steps run ! index) \<noteq> None"
  shows "triple (\<lambda>E. deployed_at E selected succeeded n index input run) (conclude_step rec succeeded index run input deployment)
    (\<lambda>(run', succeeded') _. loop_inv selected succeeded' n (Suc index) run')"
proof -
  let ?step = "run_Steps run ! index" and ?Q = "\<lambda>(run', succeeded') (_ :: event set). loop_inv selected succeeded' n (Suc index) run'"
  let ?P = "\<lambda>E. deployed_at E selected succeeded n index input run"
  have unverified: "triple ?P (andThen (succeed_unverified rec run index ?step) (\<lambda>run. goOn (run, insert (rs_Service ?step) succeeded))) ?Q"
    if "\<not> rs_VerificationRequired ?step"
  proof -
    have "step_sound (?step\<lparr>rs_Status := StepSucceeded\<rparr>)" using open_atD[OF o] e that by (simp add: step_sound_def)
    then have "triple (\<lambda>_. True) (succeed_unverified rec run index ?step) (\<lambda>run' _. loop_inv selected (insert (rs_Service ?step) succeeded) n (Suc index) run')"
      unfolding succeed_unverified_def using succeeded_ok[OF o, of "?step\<lparr>rs_Status := StepSucceeded\<rparr>"] open_atD(4)[OF o] by simp
    then have "triple (\<lambda>_. True) (andThen (succeed_unverified rec run index ?step) (\<lambda>run. goOn (run, insert (rs_Service ?step) succeeded))) ?Q"
      by (rule triple_andThen) (auto intro: triple_goOn)
    then show ?thesis by (auto elim: triple_conseq)
  qed
  have "triple ?P (andThen (verify_deployment rec run index ?step deployment) (\<lambda>(run, v). with_step run index (\<lambda>step.
       if Outcome v \<noteq> AdapterPass then fail_step rec run index step input deployment v
       else andThen (succeed_step rec run index step v) (\<lambda>run. goOn (run, insert (rs_Service step) succeeded))))) ?Q"
  proof (rule triple_andThen_pair[OF verify_deployment_ok[OF o refl]], rule triple_with_step)
    fix run1 v
    let ?ok = "open_at selected succeeded n index run1 \<and> rs_Execution (run_Steps run1 ! index) \<noteq> None \<and>
        (\<exists>t. rs_Verification (run_Steps run1 ! index) = Some (verificationProjection v t))"
    show "triple (\<lambda>E. verified_at E selected succeeded n index input deployment v run1)
       (if Outcome v \<noteq> AdapterPass then fail_step rec run1 index (run_Steps run1 ! index) input deployment v
        else andThen (succeed_step rec run1 index (run_Steps run1 ! index) v) (\<lambda>run. goOn (run, insert (rs_Service (run_Steps run1 ! index)) succeeded))) ?Q"
    proof (rule triple_pre[of _ ?ok])
      show ?ok if "verified_at E selected succeeded n index input deployment v run1" for E using that by (simp add: verified_at_def deployed_at_def)
    qed (use verified_branch_ok in blast)
  qed
  with unverified show ?thesis unfolding conclude_step_def by (intro triple_with_step) auto
qed

end

context persisting
begin

lemma dispatch_step_ok:
  "triple (\<lambda>E. ready E selected succeeded n index run) (dispatch_step rec succeeded index run)
    (\<lambda>(run', succeeded') _. loop_inv selected succeeded' n (Suc index) run')"
  unfolding dispatch_step_def
proof (rule triple_with_step, rule triple_pre)
  let ?Q = "\<lambda>(run', succeeded') (_ :: event set). loop_inv selected succeeded' n (Suc index) run'"
  show "open_at selected succeeded n index run" if "ready E selected succeeded n index run" for E using that by (simp add: ready_def)
  assume o: "open_at selected succeeded n index run"
  show "triple (\<lambda>E. ready E selected succeeded n index run) (andThen (acquire_permit rec run index (run_Steps run ! index)) (\<lambda>_.
     andThen (start_deployment rec run index (run_Steps run ! index)) (\<lambda>(run, input, deployment). conclude_step rec succeeded index run input deployment))) ?Q"
  proof (rule triple_andThen[OF acquire_permit_ok[OF o refl stable_ready]], rule triple_andThen[OF start_deployment_ok[OF o refl]])
    fix r :: "ReleaseRun \<times> DeployInput \<times> ExecDeployment"
    obtain run1 input d where r: "r = (run1, input, d)" by (cases r)
    have "triple (\<lambda>E. deployed_at E selected succeeded n index input run1) (conclude_step rec succeeded index run1 input d) ?Q"
      by (rule triple_pre[of _ "open_at selected succeeded n index run1 \<and> rs_Execution (run_Steps run1 ! index) \<noteq> None"])
        (simp add: deployed_at_def, use conclude_step_ok in blast)
    then show "triple (case r of (run', input, d) \<Rightarrow> \<lambda>E. deployed_at E selected succeeded n index input run')
        (case r of (run, input, deployment) \<Rightarrow> conclude_step rec succeeded index run input deployment) ?Q" using r by simp
  qed
qed

lemma workflow_step_ok:
  assumes "loop_inv selected succeeded n index run"
  shows "triple (\<lambda>_. True) (workflow_step rec fuel selected succeeded run index) (\<lambda>(run', succeeded') _. loop_inv selected succeeded' n (Suc index) run')"
  unfolding workflow_step_def
proof (rule triple_andThen[OF check_controls_ok[OF assms]], rule triple_with_step, rule triple_pre)
  fix run1
  assume inv: "loop_inv selected succeeded n index run1" and i: "index < length (run_Steps run1)"
  show "triple (\<lambda>_. loop_inv selected succeeded n index run1) (if rs_Status (run_Steps run1 ! index) = StepSucceeded then goOn (run1, succeeded)
      else andThen (evaluate_step rec fuel selected succeeded run1 index (run_Steps run1 ! index)) (\<lambda>run. dispatch_step rec succeeded index run))
      (\<lambda>(run', succeeded') _. loop_inv selected succeeded' n (Suc index) run')"
  proof (cases "rs_Status (run_Steps run1 ! index) = StepSucceeded")
    case True
    with inv have "loop_inv selected succeeded n (Suc index) run1" by (auto simp: loop_inv_def less_Suc_eq)
    with True show ?thesis by (auto intro: triple_goOn)
  next
    case False
    then have o: "open_at selected succeeded n index run1" using inv i by (auto simp: open_at_def loop_inv_def)
    have "triple (\<lambda>_. True) (andThen (evaluate_step rec fuel selected succeeded run1 index (run_Steps run1 ! index)) (\<lambda>run. dispatch_step rec succeeded index run))
        (\<lambda>(run', succeeded') _. loop_inv selected succeeded' n (Suc index) run')"
      by (rule triple_andThen[OF evaluate_step_ok[OF o refl] dispatch_step_ok])
    with False show ?thesis by (auto elim: triple_conseq)
  qed
qed simp

lemma workflow_loop_ok:
  assumes "loop_inv selected succeeded n k run" "k \<le> n"
  shows "triple (\<lambda>_. True) (workflow_loop rec fuel selected succeeded run [k..<n]) (\<lambda>run' _. \<exists>succeeded'. loop_inv selected succeeded' n n run')"
  using assms
proof (induction "n - k" arbitrary: k run succeeded)
  case 0
  then show ?case by (auto intro!: triple_goOn)
next
  case (Suc m)
  then have "[k..<n] = k # [Suc k..<n]" by (simp add: upt_conv_Cons)
  moreover have "triple (\<lambda>_. True) (andThen (workflow_step rec fuel selected succeeded run k) (\<lambda>(run, succeeded). workflow_loop rec fuel selected succeeded run [Suc k..<n]))
      (\<lambda>run' _. \<exists>succeeded'. loop_inv selected succeeded' n n run')"
  proof (rule triple_andThen_pair[OF workflow_step_ok[OF Suc.prems(1)]], rule triple_pre, assumption)
    fix run1 succeeded1
    assume "loop_inv selected succeeded1 n (Suc k) run1"
    then have "triple (\<lambda>_. True) (workflow_loop rec fuel selected succeeded1 run1 [Suc k..<n]) (\<lambda>run' _. \<exists>succeeded'. loop_inv selected succeeded' n n run')"
      by (intro Suc.hyps(1)) (use Suc.hyps(2) in auto)
    then show "triple (\<lambda>_. loop_inv selected succeeded1 n (Suc k) run1) (workflow_loop rec fuel selected succeeded1 run1 [Suc k..<n])
        (\<lambda>run' _. \<exists>succeeded'. loop_inv selected succeeded' n n run')" by (rule triple_conseq) auto
  qed
  ultimately show ?case by simp
qed

end

lemma assignWaves_steps:
  assumes "assignWaves run = Inr waved"
  obtains f where "run_Steps waved = map (\<lambda>s. s\<lparr>rs_Wave := f s\<rparr>) (run_Steps run)" "run_Status waved = run_Status run"
proof -
  obtain waves where "waved = run\<lparr>run_Steps := map (\<lambda>s. s\<lparr>rs_Wave := waveByService waves (rs_Service s)\<rparr>) (run_Steps run)\<rparr>"
    using assms by (auto simp: assignWaves_def Let_def split: sum.splits if_splits)
  then show ?thesis by (intro that[of "\<lambda>s. waveByService waves (rs_Service s)"]) simp_all
qed

lemma initial_inv:
  assumes "assignWaves run = Inr waved" "\<forall>s \<in> set (run_Steps run). step_sound s \<and> rs_RollbackExecution s = None" "run_Status run = RunRunning"
  shows "loop_inv (rs_Service ` set (run_Steps run)) (rs_Service ` set (filter (\<lambda>s. rs_Status s = StepSucceeded) (run_Steps run))) (length (run_Steps waved)) 0 waved"
proof -
  obtain f where f: "run_Steps waved = map (\<lambda>s. s\<lparr>rs_Wave := f s\<rparr>) (run_Steps run)" "run_Status waved = run_Status run"
    by (rule assignWaves_steps[OF assms(1)])
  have "step_sound (s\<lparr>rs_Wave := w\<rparr>) = step_sound s" for s w by (simp add: step_sound_def)
  then show ?thesis using assms(2,3) by (auto simp: loop_inv_def f image_image)
qed

context persisting
begin

lemma release_run_ok:
  assumes "\<forall>s \<in> set (run_Steps run). step_sound s \<and> rs_RollbackExecution s = None" "run_Status run = RunRunning"
  shows "triple P (release_run rec fuel run) Q"
proof (cases "assignWaves run")
  case (Inr waved)
  let ?n = "length (run_Steps waved)"
  let ?selected = "rs_Service ` set (run_Steps run)" and ?succeeded = "rs_Service ` set (filter (\<lambda>s. rs_Status s = StepSucceeded) (run_Steps run))"
  have inv: "loop_inv ?selected ?succeeded ?n 0 waved" by (rule initial_inv[OF Inr assms])
  have "triple (\<lambda>_. True) (andThen (workflow_loop rec fuel ?selected ?succeeded waved [0..<?n]) (\<lambda>run.
      finish_persisted rec (run\<lparr>run_Status := RunSucceeded\<rparr>) (audits run) event)) Q" for audits event
  proof (rule triple_andThen[OF workflow_loop_ok[OF inv]], simp, rule triple_pre, assumption)
    fix run1
    assume "\<exists>succeeded'. loop_inv ?selected succeeded' ?n ?n run1"
    then have "run_sound (run1\<lparr>run_Status := RunSucceeded\<rparr>)" by (auto simp: loop_inv_def run_sound_def in_set_conv_nth)
    then show "triple (\<lambda>_. \<exists>succeeded'. loop_inv ?selected succeeded' ?n ?n run1) (finish_persisted rec (run1\<lparr>run_Status := RunSucceeded\<rparr>) (audits run1) event) Q"
      by (rule finish_persisted_ok)
  qed
  from triple_conseq[OF this, of P] Inr show ?thesis unfolding release_run_def by simp
qed (simp add: release_run_def)

lemma ReleaseWorkflow_ok:
  assumes "\<forall>s \<in> set (run_Steps run). step_sound s \<and> rs_RollbackExecution s = None"
  shows "triple (\<lambda>_. True) (ReleaseWorkflow rec fuel run) Q"
  unfolding ReleaseWorkflow_def
proof (rule triple_andThen)
  show "triple (\<lambda>_. True) (checked (rt_SetQueryHandler rec)) (\<lambda>_ _. True)"
    using triple_checked_quiet[of "\<lambda>_. True"] by (simp add: recording_def)
  have sound: "run_sound (run\<lparr>run_Status := RunRunning\<rparr>)" using assms by (simp add: run_sound_def)
  show "triple (\<lambda>_. True) (andThen (stamped rec (run\<lparr>run_Status := RunRunning\<rparr>)
         [intent ''system'' ''temporal'' ''release.workflow.start'' ''release_run'' (run_ID run) ''RUNNING'' []] ''release.workflow.started'') (release_run rec fuel)) Q"
  proof (rule triple_andThen[OF stamped_ok[OF sound, of "\<lambda>_. True"]], blast)
    fix run1
    show "triple (\<lambda>E. alike (run\<lparr>run_Status := RunRunning\<rparr>) run1 \<and> stored E run1 \<and> True) (release_run rec fuel run1) Q"
      by (rule triple_pre[of _ "alike (run\<lparr>run_Status := RunRunning\<rparr>) run1"], blast, rule release_run_ok)
        (use assms in \<open>auto simp: alike_def same_def\<close>)
  qed
qed

lemma workflow_trace_safe:
  assumes "\<forall>s \<in> set (run_Steps run). step_sound s \<and> rs_RollbackExecution s = None"
    and "ReleaseWorkflow rec fuel run (w, []) = ((w', trace), result)"
  shows "safe_trace trace \<and> (\<forall>final. result = Return final \<longrightarrow> run_sound final) \<and> (\<forall>final. result \<noteq> Next final)"
proof -
  have "safe_trace trace \<and> (case result of Next a \<Rightarrow> False | Return run \<Rightarrow> run_sound run | _ \<Rightarrow> True)"
    using ReleaseWorkflow_ok[OF assms(1), of fuel "\<lambda>_ _. False"] assms(2) unfolding triple_def by force
  then show ?thesis by (auto split: flow.splits)
qed

end

section \<open>A runtime that runs the activities\<close>

text \<open>
  The worker's activities, attempted once each, next to an environment that gives the clock, the timers and the signals.
\<close>

definition on_worker :: "('v \<Rightarrow> 'v \<times> 'a) \<Rightarrow> 'v \<times> 'e \<Rightarrow> ('v \<times> 'e) \<times> 'a" where
  "on_worker f = (\<lambda>(v, e). case f v of (v', a) \<Rightarrow> ((v', e), a))"

definition on_env :: "('e \<Rightarrow> 'e \<times> 'a) \<Rightarrow> 'v \<times> 'e \<Rightarrow> ('v \<times> 'e) \<times> 'a" where
  "on_env f = (\<lambda>(v, e). case f e of (e', a) \<Rightarrow> ((v, e'), a))"

definition worker_runtime :: "('s, 'x) Activities \<Rightarrow> 'e Runtime \<Rightarrow> (('s, 'x) worker \<times> 'e) Runtime" where
  "worker_runtime a env = \<lparr>rt_Hash = rt_Hash env, rt_SetQueryHandler = on_env (rt_SetQueryHandler env), rt_Now = on_env (rt_Now env),
     rt_Sleep = (\<lambda>d. on_env (rt_Sleep env d)), rt_ReceiveCancel = on_env (rt_ReceiveCancel env), rt_ReceivePause = on_env (rt_ReceivePause env),
     rt_SelectApproval = (\<lambda>d. on_env (rt_SelectApproval env d)), rt_SelectResume = on_env (rt_SelectResume env),
     rt_PersistRun = (\<lambda>input. on_worker (PersistRun a input)), rt_EvaluateStep = (\<lambda>input. on_worker (EvaluateStep a input)),
     rt_AcquireSchedule = (\<lambda>input. on_worker (AcquireSchedule a input)), rt_CompleteSchedule = (\<lambda>input. on_worker (CompleteSchedule a input)),
     rt_Deploy = (\<lambda>input. on_worker (Deploy a input)), rt_Verify = (\<lambda>d. on_worker (activity_Verify a d)),
     rt_Rollback = (\<lambda>input. on_worker (activity_Rollback a input))\<rparr>"

lemma worker_persist_law:
  assumes "av_Store a = memory_durable" "rt_PersistRun (worker_runtime a env) input w = (w', Inr run)"
  shows "run = (per_Run input)\<lparr>run_StateVersion := run_StateVersion (per_Run input) + 1\<rparr>"
  using assms PersistRun_version[OF assms(1), of input] by (auto simp: worker_runtime_def on_worker_def split: prod.splits)

interpretation wr: persisting "worker_runtime (a\<lparr>av_Store := memory_durable\<rparr>) env" for a :: "(Memory, 'x) Activities" and env :: "'e Runtime"
  by unfold_locales (rule worker_persist_law, simp_all)

end
