(* ===== verification/Workflow_Progress.thy ===== *)
theory Workflow_Progress
  imports Workflow_Safety
begin

text \<open>
  That the release workflow gets to its end.  Where the runtime, the policy and the activities cooperate and the steps come in an order that
  respects the plan, the workflow returns a succeeded run for every fuel; no wait is entered.  The
  theory then states what the workflow guarantees in every run, and evaluates it on a runtime of constant answers.
\<close>

section \<open>Parts that go on\<close>

definition goes_on :: "('w, 'a) wf \<Rightarrow> ('a \<Rightarrow> bool) \<Rightarrow> bool" where
  "goes_on m Q \<longleftrightarrow> (\<forall>w. \<exists>w' a. m w = (w', Next a) \<and> Q a)"

definition answers :: "('w \<Rightarrow> 'w \<times> 'a) \<Rightarrow> ('a \<Rightarrow> bool) \<Rightarrow> bool" where
  "answers f P \<longleftrightarrow> (\<forall>w. P (snd (f w)))"

lemma goes_on_andThen: "goes_on m Q \<Longrightarrow> (\<And>a. Q a \<Longrightarrow> goes_on (f a) R) \<Longrightarrow> goes_on (andThen m f) R"
  unfolding goes_on_def
proof
  fix w
  assume m: "\<forall>w. \<exists>w' a. m w = (w', Next a) \<and> Q a" and f: "\<And>a. Q a \<Longrightarrow> \<forall>w. \<exists>w' b. f a w = (w', Next b) \<and> R b"
  obtain w1 a where "m w = (w1, Next a)" "Q a" using m by blast
  with f[of a] show "\<exists>w' b. andThen m f w = (w', Next b) \<and> R b" by (simp add: andThen_def)
qed

lemma goes_on_goOn: "Q a \<Longrightarrow> goes_on (goOn a) Q"
  by (simp add: goes_on_def goOn_def)

lemma goes_on_answer:
  assumes "answers f P" "\<And>w w' a. f w = (w', a) \<Longrightarrow> P a \<Longrightarrow> \<exists>w'' b. m w = (w'', Next b) \<and> Q b"
  shows "goes_on m Q"
  unfolding goes_on_def using assms unfolding answers_def by (metis surjective_pairing)

lemma goes_on_call: "answers f Q \<Longrightarrow> goes_on (call_of f) Q"
  by (erule goes_on_answer) (simp add: call_of_def)

lemma goes_on_activity: "answers f (\<lambda>r. \<exists>a. r = Inr a \<and> Q a) \<Longrightarrow> goes_on (activity f) Q"
  by (erule goes_on_answer) (auto simp: activity_def)

lemma goes_on_checked: "answers f (\<lambda>r. r = None) \<Longrightarrow> goes_on (checked f) (\<lambda>_. True)"
  by (erule goes_on_answer) (auto simp: checked_def)

lemma goes_on_with_step: "index < length (run_Steps run) \<Longrightarrow> goes_on (f (run_Steps run ! index)) Q \<Longrightarrow> goes_on (with_step run index f) Q"
  by (simp add: goes_on_def with_step_def)

lemma goes_on_weaken: "goes_on m Q \<Longrightarrow> (\<And>a. Q a \<Longrightarrow> R a) \<Longrightarrow> goes_on m R"
  unfolding goes_on_def by blast

section \<open>A runtime that cooperates\<close>

definition cooperative :: "'w Runtime \<Rightarrow> bool" where
  "cooperative rt \<longleftrightarrow> answers (rt_SetQueryHandler rt) (\<lambda>e. e = None) \<and> (\<forall>d. answers (rt_Sleep rt d) (\<lambda>e. e = None)) \<and>
     answers (rt_ReceiveCancel rt) Not \<and> answers (rt_ReceivePause rt) Not \<and>
     (\<forall>input. answers (rt_PersistRun rt input) (\<lambda>r. r = Inr ((per_Run input)\<lparr>run_StateVersion := run_StateVersion (per_Run input) + 1\<rparr>))) \<and>
     (\<forall>input. answers (rt_EvaluateStep rt input) (\<lambda>r. \<exists>d. r = Inr d \<and> pd_Decision d \<notin> {DecisionDeny, DecisionRequireApproval})) \<and>
     (\<forall>input. answers (rt_AcquireSchedule rt input) (\<lambda>r. \<exists>a. r = Inr a \<and> sr_Allowed a)) \<and>
     (\<forall>input. answers (rt_CompleteSchedule rt input) (\<lambda>r. \<exists>c. r = Inr c)) \<and>
     (\<forall>input. answers (rt_Deploy rt input) (\<lambda>r. \<exists>d. r = Inr d)) \<and>
     (\<forall>d. answers (rt_Verify rt d) (\<lambda>r. \<exists>v. r = Inr v \<and> Outcome v = AdapterPass))"

text \<open>Every selected service that a step must follow stands before it.\<close>

definition in_rollout_order :: "ReleasePlan \<Rightarrow> string list \<Rightarrow> bool" where
  "in_rollout_order plan services \<longleftrightarrow> (\<forall>i < length services. \<forall>ps \<in> set (plan_steps plan). ps_Service ps = services ! i \<longrightarrow>
     (\<forall>d \<in> set (ordering_dependencies ps). d \<in> set services \<longrightarrow> d \<in> set (take i services)))"

text \<open>What a part changes of a run: at most the step, its service apart, and fields that the progress does not depend on.\<close>

definition step_replaced :: "ReleaseRun \<Rightarrow> nat \<Rightarrow> ReleaseStep \<Rightarrow> ReleaseRun \<Rightarrow> bool" where
  "step_replaced run index step run' \<longleftrightarrow> run_Plan run' = run_Plan run \<and> run_Steps run' = (run_Steps run)[index := step]"

lemma stamped_goes_on:
  assumes "cooperative rt"
  shows "goes_on (stamped rt run audits event) (\<lambda>run'. \<exists>now. run' = run\<lparr>run_UpdatedAt := now, run_StateVersion := run_StateVersion run + 1\<rparr>)"
  unfolding stamped_def workflow_persist_def
proof (rule goes_on_andThen[OF goes_on_call[where Q = "\<lambda>_. True"]])
  fix now
  let ?input = "\<lparr>per_Run = run\<lparr>run_UpdatedAt := now\<rparr>, per_Audits = audits, per_EventType = event\<rparr>"
  have "answers (rt_PersistRun rt ?input) (\<lambda>r. r = Inr ((per_Run ?input)\<lparr>run_StateVersion := run_StateVersion (per_Run ?input) + 1\<rparr>))"
    using assms unfolding cooperative_def by blast
  then show "goes_on (activity (rt_PersistRun rt ?input)) (\<lambda>run'. \<exists>now. run' = run\<lparr>run_UpdatedAt := now, run_StateVersion := run_StateVersion run + 1\<rparr>)"
    by (intro goes_on_activity) (auto simp: answers_def)
qed (simp add: answers_def)

lemma stamped_replaces:
  assumes "cooperative rt" "step_replaced run index step (r\<lparr>run_UpdatedAt := 0, run_StateVersion := 0\<rparr>)"
  shows "goes_on (stamped rt r audits event) (step_replaced run index step)"
  by (rule goes_on_weaken[OF stamped_goes_on[OF assms(1)]]) (use assms(2) in \<open>auto simp: step_replaced_def\<close>)

lemma complete_goes_on: "cooperative rt \<Longrightarrow> goes_on (completeScheduling rt run step failed) (\<lambda>_. True)"
  unfolding completeScheduling_def by (rule goes_on_activity) (auto simp: cooperative_def)

lemma controls_go_on: "cooperative rt \<Longrightarrow> goes_on (check_controls rt fuel run index) (\<lambda>run'. run' = run)"
  unfolding check_controls_def
  by (rule goes_on_andThen[OF goes_on_call[where Q = Not]], simp add: cooperative_def, simp,
      rule goes_on_andThen[OF goes_on_call[where Q = Not]], simp add: cooperative_def, simp add: goes_on_goOn)

lemma evaluation_goes_on:
  assumes "cooperative rt" "unmetDependency (run_Plan run) (rs_Service step) selected succeeded = []" "index < length (run_Steps run)"
  shows "goes_on (evaluate_step rt fuel selected succeeded run index step) (\<lambda>r. \<exists>d. step_replaced run index (step\<lparr>rs_Policy := d\<rparr>) r)"
proof -
  have "goes_on (andThen (activity (rt_EvaluateStep rt \<lparr>evi_Run = run, evi_Step = step\<rparr>)) (\<lambda>decision.
        andThen (stamped rt (set_step run index (step\<lparr>rs_Policy := Some decision\<rparr>)) (audits decision) event) (\<lambda>run.
        apply_decision rt fuel run index decision))) (\<lambda>r. \<exists>d. step_replaced run index (step\<lparr>rs_Policy := d\<rparr>) r)" for audits event
  proof (rule goes_on_andThen[OF goes_on_activity])
    show "answers (rt_EvaluateStep rt \<lparr>evi_Run = run, evi_Step = step\<rparr>) (\<lambda>r. \<exists>d. r = Inr d \<and> pd_Decision d \<notin> {DecisionDeny, DecisionRequireApproval})"
      using assms(1) by (simp add: cooperative_def)
  next
    fix decision :: PolicyDecision
    assume d: "pd_Decision decision \<notin> {DecisionDeny, DecisionRequireApproval}"
    show "goes_on (andThen (stamped rt (set_step run index (step\<lparr>rs_Policy := Some decision\<rparr>)) (audits decision) event) (\<lambda>run.
        apply_decision rt fuel run index decision)) (\<lambda>r. \<exists>d. step_replaced run index (step\<lparr>rs_Policy := d\<rparr>) r)"
      by (rule goes_on_andThen[OF stamped_replaces[OF assms(1), of run index "step\<lparr>rs_Policy := Some decision\<rparr>"]])
        (use d assms(3) in \<open>auto simp: apply_decision_def set_step_def step_replaced_def intro!: goes_on_with_step goes_on_goOn\<close>)
  qed
  with assms(2) show ?thesis by (simp add: evaluate_step_def)
qed

lemma permit_goes_on: "cooperative rt \<Longrightarrow> goes_on (acquire_permit rt run index step) (\<lambda>_. True)"
  unfolding acquire_permit_def
  by (rule goes_on_andThen[OF goes_on_activity[where Q = sr_Allowed]]) (simp_all add: cooperative_def goes_on_goOn)

lemma deployment_goes_on:
  assumes "cooperative rt" "index < length (run_Steps run)"
  shows "goes_on (start_deployment rt run index step)
    (\<lambda>(r, input, deployment). \<exists>x. step_replaced run index (step\<lparr>rs_Status := StepExecuting, rs_Execution := Some x\<rparr>) r)"
  unfolding start_deployment_def execute_deployment_def
  by (rule goes_on_andThen[OF stamped_replaces[OF assms(1), of run index "step\<lparr>rs_Status := StepExecuting\<rparr>"]],
      simp add: set_step_def step_replaced_def, rule goes_on_with_step, simp add: step_replaced_def assms(2), unfold Let_def,
      rule goes_on_andThen[OF goes_on_call[where Q = "\<lambda>r. \<exists>d. r = Inr d"]])
    (use assms in \<open>auto simp: cooperative_def set_step_def step_replaced_def intro!: goes_on_goOn\<close>, rule exI, rule refl)

lemma verification_goes_on:
  assumes "cooperative rt" "index < length (run_Steps run)"
  shows "goes_on (verify_deployment rt run index step deployment)
    (\<lambda>(r, v). Outcome v = AdapterPass \<and> (\<exists>x. step_replaced run index (step\<lparr>rs_Status := StepVerifying, rs_Verification := Some x\<rparr>) r))"
proof -
  have o: "goes_on (observe rt s deployment) (\<lambda>a. \<exists>v. a = Inr v \<and> Outcome v = AdapterPass)" for s
    unfolding observe_def
    by (rule goes_on_andThen[OF goes_on_checked], use assms(1) in \<open>simp add: cooperative_def\<close>, rule goes_on_call)
      (use assms(1) in \<open>simp add: cooperative_def\<close>)
  have n: "goes_on (call_of (rt_Now rt)) (\<lambda>_. True)" by (rule goes_on_call) (simp add: answers_def)
  show ?thesis
    unfolding verify_deployment_def observe_deployment_def
    by (rule goes_on_andThen[OF stamped_replaces[OF assms(1), of run index "step\<lparr>rs_Status := StepVerifying\<rparr>"]],
        simp add: set_step_def step_replaced_def, rule goes_on_with_step, simp add: step_replaced_def assms(2),
        rule goes_on_andThen[OF o])
      (use assms(2) in \<open>auto simp: set_step_def step_replaced_def intro!: goes_on_goOn goes_on_andThen[OF n]\<close>, rule exI, rule refl)
qed

definition step_done :: "ReleaseRun \<Rightarrow> nat \<Rightarrow> string \<Rightarrow> ReleaseRun \<Rightarrow> bool" where
  "step_done run index service r \<longleftrightarrow> (\<exists>s. step_replaced run index s r \<and> rs_Service s = service \<and> rs_Status s = StepSucceeded)"

lemma conclusion_goes_on:
  assumes c: "cooperative rt" and i: "index < length (run_Steps run)"
  shows "goes_on (conclude_step rt succeeded index run input deployment) (\<lambda>(r, done'). step_done run index (rs_Service (run_Steps run ! index)) r \<and>
    done' = insert (rs_Service (run_Steps run ! index)) succeeded)"
proof -
  have last: "goes_on (stamped rt (set_step r index (s\<lparr>rs_Status := StepSucceeded\<rparr>)) audits event) (step_done run index (rs_Service (run_Steps run ! index)))"
    if "rs_Service s = rs_Service (run_Steps run ! index)" "\<exists>x. step_replaced run index x r" for r s audits event
    by (rule goes_on_weaken[OF stamped_replaces[OF c, of run index "s\<lparr>rs_Status := StepSucceeded\<rparr>"]])
      (use that in \<open>auto simp: step_done_def step_replaced_def set_step_def intro: exI[of _ "s\<lparr>rs_Status := StepSucceeded\<rparr>"]\<close>)
  have self: "step_replaced run index (run_Steps run ! index) run" by (simp add: step_replaced_def)
  show ?thesis
    unfolding conclude_step_def
  proof (rule goes_on_with_step[OF i], split if_split, intro conjI impI, goal_cases)
    case 1
    show ?case unfolding succeed_unverified_def
      by (rule goes_on_andThen[OF goes_on_andThen[OF complete_goes_on[OF c] last]]) (use self in \<open>auto intro: goes_on_goOn\<close>)
  next
    case 2
    show ?case
    proof (rule goes_on_andThen[OF verification_goes_on[OF c i]], clarify, rule goes_on_with_step, simp add: step_replaced_def i, goal_cases)
      case (1 r v x)
      show ?case unfolding succeed_step_def if_not_P[OF not_not[THEN iffD2, OF 1(1)]]
        by (rule goes_on_andThen[OF goes_on_andThen[OF complete_goes_on[OF c] last]])
          (use 1 i in \<open>auto simp: step_replaced_def intro: goes_on_goOn\<close>)
    qed
  qed
qed

lemma step_done_replaced: "step_replaced run index s r \<Longrightarrow> step_done r index service r' \<Longrightarrow> step_done run index service r'"
  by (auto simp: step_done_def step_replaced_def)

lemma dispatch_goes_on:
  assumes c: "cooperative rt" and i: "index < length (run_Steps run)"
  shows "goes_on (dispatch_step rt succeeded index run) (\<lambda>(r, done'). step_done run index (rs_Service (run_Steps run ! index)) r \<and>
    done' = insert (rs_Service (run_Steps run ! index)) succeeded)"
  unfolding dispatch_step_def
proof (rule goes_on_with_step[OF i], rule goes_on_andThen[OF permit_goes_on[OF c]], rule goes_on_andThen[OF deployment_goes_on[OF c i]], clarify)
  fix r :: ReleaseRun and input deployment x
  let ?s = "(run_Steps run ! index)\<lparr>rs_Status := StepExecuting, rs_Execution := Some x\<rparr>"
  assume r: "step_replaced run index ?s r"
  then have i': "index < length (run_Steps r)" and s: "rs_Service (run_Steps r ! index) = rs_Service (run_Steps run ! index)"
    using i by (simp_all add: step_replaced_def)
  show "goes_on (conclude_step rt succeeded index r input deployment) (\<lambda>(r, done'). step_done run index (rs_Service (run_Steps run ! index)) r \<and>
    done' = insert (rs_Service (run_Steps run ! index)) succeeded)"
    using conclusion_goes_on[OF c i', of succeeded input deployment] unfolding s
    by (rule goes_on_weaken) (auto intro: step_done_replaced[OF r])
qed

lemma step_goes_on:
  assumes c: "cooperative rt" and i: "index < length (run_Steps run)"
    and met: "unmetDependency (run_Plan run) (rs_Service (run_Steps run ! index)) selected succeeded = []"
    and already: "rs_Status (run_Steps run ! index) = StepSucceeded \<Longrightarrow> rs_Service (run_Steps run ! index) \<in> succeeded"
  shows "goes_on (workflow_step rt fuel selected succeeded run index) (\<lambda>(r, done'). step_done run index (rs_Service (run_Steps run ! index)) r \<and>
    done' = insert (rs_Service (run_Steps run ! index)) succeeded)" (is "goes_on _ ?Q")
  unfolding workflow_step_def
proof (rule goes_on_andThen[OF controls_go_on[OF c]], simp only:, rule goes_on_with_step[OF i], split if_split, intro conjI impI, goal_cases)
  case 1
  with already i show ?case by (auto simp: step_done_def step_replaced_def insert_absorb intro!: goes_on_goOn exI[of _ "run_Steps run ! index"])
next
  case 2
  show ?case
  proof (rule goes_on_andThen[OF evaluation_goes_on[OF c met i]], elim exE)
    fix r d
    assume r: "step_replaced run index ((run_Steps run ! index)\<lparr>rs_Policy := d\<rparr>) r"
    then have i': "index < length (run_Steps r)" and s: "rs_Service (run_Steps r ! index) = rs_Service (run_Steps run ! index)"
      using i by (simp_all add: step_replaced_def)
    show "goes_on (dispatch_step rt succeeded index r) ?Q"
      using dispatch_goes_on[OF c i', of succeeded] unfolding s by (rule goes_on_weaken) (auto intro: step_done_replaced[OF r])
  qed
qed

definition progressed :: "ReleasePlan \<Rightarrow> string list \<Rightarrow> nat \<Rightarrow> string set \<Rightarrow> ReleaseRun \<Rightarrow> bool" where
  "progressed plan services k succeeded run \<longleftrightarrow> run_Plan run = plan \<and> map rs_Service (run_Steps run) = services \<and>
     (\<forall>j < k. rs_Status (run_Steps run ! j) = StepSucceeded) \<and>
     (\<forall>s \<in> set (run_Steps run). rs_Status s = StepSucceeded \<longrightarrow> rs_Service s \<in> succeeded)"

lemma progressed_length: "progressed plan services k succeeded run \<Longrightarrow> length (run_Steps run) = length services"
  by (auto simp: progressed_def)

lemma progressed_met:
  assumes "in_rollout_order plan services" "progressed plan services k succeeded run" "k < length services"
  shows "unmetDependency plan (services ! k) (set services) succeeded = []"
proof -
  have "d \<in> succeeded" if ps: "ps \<in> set (plan_steps plan)" "ps_Service ps = services ! k" "d \<in> set (ordering_dependencies ps)" "d \<in> set services" for ps d
  proof -
    have "d \<in> set (take k services)" using assms(1,3) ps unfolding in_rollout_order_def by blast
    then obtain j where j: "j < k" "services ! j = d" using assms(3) by (auto simp: in_set_conv_nth)
    with assms(2,3) have "run_Steps run ! j \<in> set (run_Steps run)" "rs_Status (run_Steps run ! j) = StepSucceeded"
      by (simp_all add: progressed_length[OF assms(2)], simp add: progressed_def)
    moreover have "rs_Service (run_Steps run ! j) = d"
      using assms(2,3) j nth_map[of j "run_Steps run" rs_Service] by (auto simp: progressed_def)
    ultimately show ?thesis using assms(2) by (auto simp: progressed_def)
  qed
  then have "find (\<lambda>d. d \<in> set services \<and> d \<notin> succeeded) (concat (map ordering_dependencies (filter (\<lambda>ps. ps_Service ps = services ! k) (plan_steps plan)))) = None"
    by (auto simp: find_None_iff)
  then show ?thesis by (simp add: unmetDependency_def)
qed

lemma progressed_step:
  assumes "progressed plan services k succeeded run" "k < length services" "step_done run k (services ! k) r"
  shows "progressed plan services (Suc k) (insert (services ! k) succeeded) r"
proof -
  obtain s where s: "step_replaced run k s r" "rs_Service s = services ! k" "rs_Status s = StepSucceeded" using assms(3) by (auto simp: step_done_def)
  have l: "k < length (run_Steps run)" using assms(2) progressed_length[OF assms(1)] by simp
  have "map rs_Service ((run_Steps run)[k := s]) = services" using assms(1,2) s(2) by (simp add: map_update progressed_def)
  moreover have "rs_Status ((run_Steps run)[k := s] ! j) = StepSucceeded" if "j < Suc k" for j
    using that s(3) l assms(1) by (cases "j = k") (simp_all add: progressed_def)
  moreover have "rs_Service x \<in> insert (services ! k) succeeded" if "x \<in> set ((run_Steps run)[k := s])" "rs_Status x = StepSucceeded" for x
    using that s(2) assms(1) set_update_subset_insert[of "run_Steps run" k s] by (auto simp: progressed_def)
  ultimately show ?thesis using s(1) assms(1) by (simp add: progressed_def step_replaced_def)
qed

lemma loop_goes_on:
  assumes c: "cooperative rt" and o: "in_rollout_order plan services" and n: "k + n = length services" and p: "progressed plan services k succeeded run"
  shows "goes_on (workflow_loop rt fuel (set services) succeeded run [k..<length services]) (\<lambda>r. \<exists>done'. progressed plan services (length services) done' r)"
  using n p
proof (induction n arbitrary: k succeeded run)
  case 0
  then show ?case by (auto intro: goes_on_goOn)
next
  case (Suc n)
  then have k: "k < length services" by simp
  have l: "k < length (run_Steps run)" using k progressed_length[OF Suc.prems(2)] by simp
  have s: "rs_Service (run_Steps run ! k) = services ! k" using Suc.prems(2) l by (auto simp: progressed_def)
  have already: "rs_Service (run_Steps run ! k) \<in> succeeded" if "rs_Status (run_Steps run ! k) = StepSucceeded"
    using Suc.prems(2) l that by (auto simp: progressed_def)
  have met: "unmetDependency (run_Plan run) (rs_Service (run_Steps run ! k)) (set services) succeeded = []"
    using progressed_met[OF o Suc.prems(2) k] Suc.prems(2) by (simp add: s progressed_def)
  show ?case unfolding upt_conv_Cons[OF k] workflow_loop.simps
  proof (rule goes_on_andThen[OF step_goes_on[OF c l met already]], assumption, clarify)
    fix r
    assume "step_done run k (rs_Service (run_Steps run ! k)) r"
    then show "goes_on (workflow_loop rt fuel (set services) (insert (rs_Service (run_Steps run ! k)) succeeded) r [Suc k..<length services])
        (\<lambda>r. \<exists>done'. progressed plan services (length services) done' r)"
      unfolding s using Suc.prems(1) by (intro Suc.IH progressed_step[OF Suc.prems(2) k]) simp_all
  qed
qed

lemma release_goes_on:
  assumes c: "cooperative rt" and w: "assignWaves run = Inr waved" and o: "in_rollout_order (run_Plan run) (map rs_Service (run_Steps run))"
  shows "\<exists>w' final. release_run rt fuel run w = (w', Return final) \<and> run_Status final = RunSucceeded \<and>
    map rs_Service (run_Steps final) = map rs_Service (run_Steps run) \<and> list_all (\<lambda>s. rs_Status s = StepSucceeded) (run_Steps final)"
proof -
  let ?services = "map rs_Service (run_Steps run)" and ?done = "rs_Service ` set (filter (\<lambda>s. rs_Status s = StepSucceeded) (run_Steps run))"
  obtain f where v: "waved = run\<lparr>run_Steps := map (\<lambda>s. s\<lparr>rs_Wave := f s\<rparr>) (run_Steps run)\<rparr>"
    using w by (auto simp: assignWaves_def Let_def split: sum.splits if_splits)
  have "progressed (run_Plan run) ?services 0 ?done waved" by (auto simp: v progressed_def)
  from loop_goes_on[OF c o _ this, of "length ?services" fuel]
  have l: "goes_on (workflow_loop rt fuel (set ?services) ?done waved [0..<length (run_Steps waved)])
      (\<lambda>r. \<exists>done'. progressed (run_Plan run) ?services (length ?services) done' r)" by (simp add: v)
  obtain w1 r d where r: "workflow_loop rt fuel (set ?services) ?done waved [0..<length (run_Steps waved)] w = (w1, Next r)"
    "progressed (run_Plan run) ?services (length ?services) d r" using l unfolding goes_on_def by blast
  let ?audit = "[intent ''system'' ''temporal'' ''release.workflow.complete'' ''release_run'' (run_ID r) ''SUCCEEDED'' []]"
  obtain w2 r2 where p: "stamped rt (r\<lparr>run_Status := RunSucceeded\<rparr>) ?audit ''release.succeeded'' w1 = (w2, Next r2)"
    "run_Status r2 = RunSucceeded" "run_Steps r2 = run_Steps r"
    using stamped_goes_on[OF c, of "r\<lparr>run_Status := RunSucceeded\<rparr>" ?audit "''release.succeeded''"] unfolding goes_on_def by force
  have "length (run_Steps r) = length (run_Steps run)" using progressed_length[OF r(2)] by simp
  then have "list_all (\<lambda>s. rs_Status s = StepSucceeded) (run_Steps r)" using r(2) by (simp add: progressed_def list_all_length)
  moreover have "release_run rt fuel run w = (w2, Return r2)"
    using r(1) p(1) by (simp add: release_run_def w andThen_def finish_persisted_def finishWith_def)
  ultimately show ?thesis using p r(2) by (simp add: progressed_def)
qed


section \<open>A permit that stays\<close>


section \<open>What the workflow guarantees\<close>

text \<open>
  C1.  The workflow writes to the outside only what it is entitled to, whatever the runtime, the signals and the activities
  answer.  Before every deployment the run was persisted with the step as executing and the scheduler had given a
  permit; the policy had decided on the step and not denied it; where it asked for approval, an approval signal with the required
  roles came from somebody other than the requester, for the plan of the run; and every selected service the step
  must follow had a succeeded step.  Before every rollback the same deployment was made, its verification did not pass,
  and the step, persisted as rolling back, allows automatic rollback.
\<close>

theorem workflow_writes_are_entitled:
  assumes "\<forall>input w w' run. rt_PersistRun rt input w = (w', Inr run) \<longrightarrow> run = (per_Run input)\<lparr>run_StateVersion := run_StateVersion (per_Run input) + 1\<rparr>"
    and "\<forall>s \<in> set (run_Steps run). step_sound s \<and> rs_RollbackExecution s = None"
    and "ReleaseWorkflow (recording rt) fuel run (w, []) = ((w', later @ e # earlier), result)"
  shows "(\<forall>input. e = Deploying input \<longrightarrow>
            (\<exists>r s. Persisted r \<in> set earlier \<and> s \<in> set (run_Steps r) \<and> rs_Status s = StepExecuting \<and> input = deploy_input r s \<and>
               entitled (set earlier) r s \<and> dependencies_met r s \<and> Permitted (run_ID r) (rs_Service s) \<in> set earlier)) \<and>
         (\<forall>input. e = RollingBack input \<longrightarrow>
            (\<exists>r s. Persisted r \<in> set earlier \<and> s \<in> set (run_Steps r) \<and> rs_Status s = StepRollingBack \<and> rs_RollbackMode s = RollbackAutomatic \<and>
               rbi_Deploy input = deploy_input r s \<and> Deploying (rbi_Deploy input) \<in> set earlier \<and>
               (\<exists>v. Verified (rbi_Deployment input) v \<in> set earlier \<and> Outcome v \<noteq> AdapterPass)))"
proof -
  have "persisting rt" by unfold_locales (use assms(1) in blast)
  then have "safe_trace (later @ e # earlier)" using persisting.workflow_trace_safe[OF _ assms(2,3)] by blast
  then have "safe_event (set earlier) e" by (rule safe_trace_split)
  then show ?thesis by (cases e) auto
qed

text \<open>
  C9.  Every run that the workflow persists or returns is well formed: a succeeded step has an execution and, where it requires
  verification, a passed one; a rolled back step has a rollback execution and a passed rollback verification; only steps that allow automatic
  rollback and whose verification did not pass have a rollback execution; and a succeeded run has succeeded steps only.
\<close>

theorem workflow_runs_are_sound:
  assumes "\<forall>input w w' run. rt_PersistRun rt input w = (w', Inr run) \<longrightarrow> run = (per_Run input)\<lparr>run_StateVersion := run_StateVersion (per_Run input) + 1\<rparr>"
    and "\<forall>s \<in> set (run_Steps run). step_sound s \<and> rs_RollbackExecution s = None"
    and "ReleaseWorkflow (recording rt) fuel run (w, []) = ((w', trace), result)"
    and "Persisted r \<in> set trace \<or> result = Return r"
  shows "(\<forall>s \<in> set (run_Steps r). step_sound s) \<and> (run_Status r = RunSucceeded \<longrightarrow> list_all (\<lambda>s. rs_Status s = StepSucceeded) (run_Steps r))"
proof -
  have "persisting rt" by unfold_locales (use assms(1) in blast)
  then have t: "safe_trace trace \<and> (\<forall>final. result = Return final \<longrightarrow> run_sound final)"
    using persisting.workflow_trace_safe[OF _ assms(2,3)] by blast
  have "run_sound r"
    using assms(4)
  proof
    assume "Persisted r \<in> set trace"
    then obtain later earlier where "trace = later @ Persisted r # earlier" by (meson split_list)
    with t show ?thesis using safe_trace_split[of later "Persisted r" earlier] by simp
  qed (use t in blast)
  then show ?thesis by (auto simp: run_sound_def list_all_iff)
qed

section \<open>Concrete runs\<close>

definition demo_env :: "unit Runtime" where
  "demo_env = \<lparr>rt_Hash = id, rt_SetQueryHandler = (\<lambda>w. (w, None)), rt_Now = (\<lambda>w. (w, 50)), rt_Sleep = (\<lambda>_ w. (w, None)),
     rt_ReceiveCancel = (\<lambda>w. (w, False)), rt_ReceivePause = (\<lambda>w. (w, False)),
     rt_SelectApproval = (\<lambda>_ w. (w, Some (GotApproval \<lparr>sg_ApprovalID = ''approval_'' @ join [CHR 0x00] [''run'', ''api''], sg_Actor = ''carol'',
        sg_Roles = [''service-owner''], sg_Approve = True, sg_Action = []\<rparr>))),
     rt_SelectResume = (\<lambda>w. (w, None)),
     rt_PersistRun = (\<lambda>input w. (w, Inr ((per_Run input)\<lparr>run_StateVersion := run_StateVersion (per_Run input) + 1\<rparr>))),
     rt_EvaluateStep = (\<lambda>input w. (w, Inr \<lparr>pd_Decision = DecisionAllow, pd_PolicyVersion = ''v1'', pd_ReasonCode = [], pd_ReasonDetail = [],
        pd_RequiredRoles = [], pd_InputHash = [], pd_CreatedAt = 50\<rparr>)),
     rt_AcquireSchedule = (\<lambda>input w. (w, Inr \<lparr>sr_Allowed = True, sr_Reason = [], sr_BlockedBy = []\<rparr>)),
     rt_CompleteSchedule = (\<lambda>input w. (w, Inr \<lparr>cs_Open = False, cs_Samples = 0, cs_Failures = 0, cs_ErrorRate = 0\<rparr>)),
     rt_Deploy = (\<lambda>input w. (w, Inr \<lparr>dr_Execution = \<lparr>ex_ID = ''e'', ex_Adapter = ''mock'', ex_IdempotencyKey = dp_IdempotencyKey input,
        ex_Status = ''SUCCEEDED'', ex_ExternalExecutionID = ''x'', ex_StartedAt = 50, ex_FinishedAt = 50\<rparr>,
        dr_Deployment = \<lparr>xd_ExternalID = ''x'', xd_StartedAt = 50, xd_FinishedAt = 50\<rparr>\<rparr>)),
     rt_Verify = (\<lambda>d w. (w, snd (Mock_Verify demo_hash 50 (NewMock []) d))),
     rt_Rollback = (\<lambda>input w. (w, Inl (Errorf ''rollback unavailable'')))\<rparr>"

definition risky_run :: ReleaseRun where
  "risky_run = demo_run\<lparr>run_Agent := \<lparr>agent_ID = ''bot'', agent_Scopes = [''release:deploy'']\<rparr>,
     run_Steps := [demo_release_step\<lparr>rs_Approval := None, rs_Change := (demo_change_of ''api'')\<lparr>ch_Risk := ''high''\<rparr>\<rparr>]\<rparr>"

text \<open>The policy asks the service owner, and the runtime then delivers the signal of \<^verbatim>\<open>carol\<close>.\<close>

definition asking_env :: "unit Runtime" where
  "asking_env = demo_env\<lparr>rt_EvaluateStep := (\<lambda>input w. (w, Inr \<lparr>pd_Decision = DecisionRequireApproval, pd_PolicyVersion = ''v1'', pd_ReasonCode = [],
     pd_ReasonDetail = [], pd_RequiredRoles = [''service-owner''], pd_InputHash = [], pd_CreatedAt = 50\<rparr>))\<rparr>"

lemma asking_env_law:
  "\<forall>input w w' run. rt_PersistRun asking_env input w = (w', Inr run) \<longrightarrow> run = (per_Run input)\<lparr>run_StateVersion := run_StateVersion (per_Run input) + 1\<rparr>"
  by (simp add: asking_env_def demo_env_def)

lemma demo_env_cooperative: "cooperative demo_env"
  by (simp add: cooperative_def answers_def demo_env_def Mock_Verify_def NewMock_def Let_def behavior_of_def Outcome_def Status_Valid_def mockVerification_def no_behavior_def)

definition is_deploying :: "event \<Rightarrow> bool" where
  "is_deploying e = (case e of Deploying _ \<Rightarrow> True | _ \<Rightarrow> False)"

lemma demo_release:
  "case ReleaseWorkflow (recording asking_env) 1 risky_run ((), []) of ((w, trace), result) \<Rightarrow>
     list_ex is_deploying trace \<and> (case result of Return final \<Rightarrow> run_Status final = RunSucceeded \<and> length (run_Steps final) = 1 | _ \<Rightarrow> False)"
  by code_simp

lemma risky_run_sound: "\<forall>s \<in> set (run_Steps risky_run). step_sound s \<and> rs_RollbackExecution s = None"
  by (simp add: risky_run_def demo_release_step_def step_sound_def)

lemma demo_release_trace:
  obtains later input earlier final where
    "ReleaseWorkflow (recording asking_env) 1 risky_run ((), []) = (((), later @ Deploying input # earlier), Return final)"
    "run_Status final = RunSucceeded" "length (run_Steps final) = 1"
proof -
  obtain trace result where r: "ReleaseWorkflow (recording asking_env) 1 risky_run ((), []) = (((), trace), result)" by (metis prod.exhaust_sel old.unit.exhaust)
  have d: "list_ex is_deploying trace" and f: "case result of Return final \<Rightarrow> run_Status final = RunSucceeded \<and> length (run_Steps final) = 1 | _ \<Rightarrow> False"
    using demo_release unfolding r by simp_all
  from d obtain e where e: "e \<in> set trace" "is_deploying e" by (auto simp: list_ex_iff)
  from e(2) obtain input where "e = Deploying input" unfolding is_deploying_def by (simp split: event.splits)
  with e(1) obtain later earlier where "trace = later @ Deploying input # earlier" by (auto dest: split_list)
  with r f that show ?thesis by (cases result) auto
qed

theorem workflow_writes_are_entitled_witness:
  "\<exists>later input earlier result. ReleaseWorkflow (recording asking_env) 1 risky_run ((), []) = (((), later @ Deploying input # earlier), result) \<and>
     (\<exists>r s. Persisted r \<in> set earlier \<and> s \<in> set (run_Steps r) \<and> rs_Status s = StepExecuting \<and> input = deploy_input r s \<and>
        entitled (set earlier) r s \<and> dependencies_met r s \<and> Permitted (run_ID r) (rs_Service s) \<in> set earlier)"
proof -
  obtain later input earlier final where
    "ReleaseWorkflow (recording asking_env) 1 risky_run ((), []) = (((), later @ Deploying input # earlier), Return final)" by (rule demo_release_trace)
  with workflow_writes_are_entitled[OF asking_env_law risky_run_sound this] show ?thesis by blast
qed

theorem workflow_runs_are_sound_witness:
  "\<exists>trace final s. ReleaseWorkflow (recording asking_env) 1 risky_run ((), []) = (((), trace), Return final) \<and>
     run_Steps final = [s] \<and> step_sound s \<and> rs_Status s = StepSucceeded"
proof -
  obtain later input earlier final where f:
    "ReleaseWorkflow (recording asking_env) 1 risky_run ((), []) = (((), later @ Deploying input # earlier), Return final)"
    "run_Status final = RunSucceeded" "length (run_Steps final) = 1" by (rule demo_release_trace)
  with workflow_runs_are_sound[OF asking_env_law risky_run_sound f(1), of final] show ?thesis by (auto simp: length_Suc_conv)
qed



end
