(* ===== verification/Application.thy ===== *)
theory Application
  imports Engine Workflow
begin

text \<open>
  \<^verbatim>\<open>internal/application\<close> and \<^verbatim>\<open>internal/workflow/client.go\<close>: the use cases of the control plane that the REST
  interface, the command line, the model context protocol and the user interface share.  They plan, start a
  release through a transactional outbox, and pass decisions on to its workflow as signals.  The durable store and the
  workflow controller are the interfaces the code uses, as operations on their states \<open>'s\<close> and \<open>'x\<close>.
\<close>

section \<open>The workflow controller\<close>

record workflow_execution =
  we_WorkflowID :: string
  we_RunID :: string

record 'x WorkflowController =
  wc_StartRelease :: "'x \<Rightarrow> ReleaseRun \<Rightarrow> 'x \<times> (error, workflow_execution) result"
  wc_SignalApproval :: "'x \<Rightarrow> string \<Rightarrow> ApprovalSignal \<Rightarrow> 'x \<times> error option"
  wc_Pause :: "'x \<Rightarrow> string \<Rightarrow> ControlSignal \<Rightarrow> 'x \<times> error option"
  wc_Resume :: "'x \<Rightarrow> string \<Rightarrow> ControlSignal \<Rightarrow> 'x \<times> error option"
  wc_Cancel :: "'x \<Rightarrow> string \<Rightarrow> ControlSignal \<Rightarrow> 'x \<times> error option"

text \<open>
  The Temporal client: it starts a workflow by identifier on a task queue, rejecting duplicates, and
  signals one.
\<close>

datatype start_answer = WorkflowStarted string string | AlreadyStarted string | StartFailed error
datatype signal_payload = ApprovalPayload ApprovalSignal | ControlPayload ControlSignal

record 'x temporal_client =
  tc_ExecuteWorkflow :: "'x \<Rightarrow> string \<Rightarrow> string \<Rightarrow> ReleaseRun \<Rightarrow> 'x \<times> start_answer"
  tc_SignalWorkflow :: "'x \<Rightarrow> string \<Rightarrow> string \<Rightarrow> signal_payload \<Rightarrow> 'x \<times> error option"

definition controller_queue :: "string \<Rightarrow> string" where
  "controller_queue taskQueue = (if taskQueue = [] then ''themisy-releases'' else taskQueue)"

definition Controller_StartRelease :: "'x temporal_client \<Rightarrow> string \<Rightarrow> 'x \<Rightarrow> ReleaseRun \<Rightarrow> 'x \<times> (error, workflow_execution) result" where
  "Controller_StartRelease client queue x run = (case tc_ExecuteWorkflow client x (run_WorkflowID run) queue run of
       (x', WorkflowStarted i r) \<Rightarrow> (x', Inr \<lparr>we_WorkflowID = i, we_RunID = r\<rparr>)
     | (x', AlreadyStarted r) \<Rightarrow> (x', Inr \<lparr>we_WorkflowID = run_WorkflowID run, we_RunID = r\<rparr>)
     | (x', StartFailed err) \<Rightarrow> (x', Inl err))"

definition Controller_SignalApproval :: "'x temporal_client \<Rightarrow> 'x \<Rightarrow> string \<Rightarrow> ApprovalSignal \<Rightarrow> 'x \<times> error option" where
  "Controller_SignalApproval client x workflowID signal = tc_SignalWorkflow client x workflowID ''release.approval'' (ApprovalPayload signal)"

definition Controller_Pause :: "'x temporal_client \<Rightarrow> 'x \<Rightarrow> string \<Rightarrow> ControlSignal \<Rightarrow> 'x \<times> error option" where
  "Controller_Pause client x workflowID signal = tc_SignalWorkflow client x workflowID ''release.pause'' (ControlPayload signal)"

definition Controller_Resume :: "'x temporal_client \<Rightarrow> 'x \<Rightarrow> string \<Rightarrow> ControlSignal \<Rightarrow> 'x \<times> error option" where
  "Controller_Resume client x workflowID signal = tc_SignalWorkflow client x workflowID ''release.resume'' (ControlPayload signal)"

definition Controller_Cancel :: "'x temporal_client \<Rightarrow> 'x \<Rightarrow> string \<Rightarrow> ControlSignal \<Rightarrow> 'x \<times> error option" where
  "Controller_Cancel client x workflowID signal = tc_SignalWorkflow client x workflowID ''release.cancel'' (ControlPayload signal)"

definition NewController :: "'x temporal_client \<Rightarrow> string \<Rightarrow> 'x WorkflowController" where
  "NewController client taskQueue = \<lparr>wc_StartRelease = Controller_StartRelease client (controller_queue taskQueue),
     wc_SignalApproval = Controller_SignalApproval client, wc_Pause = Controller_Pause client,
     wc_Resume = Controller_Resume client, wc_Cancel = Controller_Cancel client\<rparr>"

section \<open>State\<close>

text \<open>The fields of \<^verbatim>\<open>Releases\<close> that do not change, with the clock and the random identifiers as streams; and its state.\<close>

record ('s, 'x) Releases =
  rl_digest :: "json \<Rightarrow> string"
  rl_planner :: Planner
  rl_store :: "'s DurableStore"
  rl_workflows :: "'x WorkflowController"
  rl_now :: "nat \<Rightarrow> time"
  rl_random :: "nat \<Rightarrow> string"

record ('s, 'x) control_plane =
  cp_store :: 's
  cp_workflows :: 'x
  cp_runners :: "(string \<times> RunnerInfo) list"
  cp_frozenRunners :: "(string \<times> RunnerInfo) list"
  cp_clock :: nat
  cp_ids :: nat

definition ready_runner :: "string \<Rightarrow> RunnerInfo" where
  "ready_runner g = \<lparr>ri_ID = g, ri_TenantID = [], ri_Group = g, ri_Status = RunnerReady, ri_Capacity = 20,
     ri_LastSeen = 0, ri_FrozenBy = [], ri_FrozenAt = None\<rparr>"

definition NewReleases :: "Planner \<Rightarrow> 's \<Rightarrow> 'x \<Rightarrow> ('s, 'x) control_plane" where
  "NewReleases p st x = \<lparr>cp_store = st, cp_workflows = x,
     cp_runners = fold (\<lambda>g runners. AList.update g (ready_runner g) runners)
       (filter (\<lambda>g. g \<noteq> []) (concat (map (\<lambda>service. map snd (svc_RunnerGroups service)) (Services p)))) [],
     cp_frozenRunners = [], cp_clock = 0, cp_ids = 0\<rparr>"

definition releases_now :: "('s, 'x) Releases \<Rightarrow> ('s, 'x) control_plane \<Rightarrow> ('s, 'x) control_plane \<times> time" where
  "releases_now r w = (w\<lparr>cp_clock := Suc (cp_clock w)\<rparr>, rl_now r (cp_clock w))"

definition releases_newID :: "('s, 'x) Releases \<Rightarrow> string \<Rightarrow> ('s, 'x) control_plane \<Rightarrow> ('s, 'x) control_plane \<times> string" where
  "releases_newID r pre w = (w\<lparr>cp_ids := Suc (cp_ids w)\<rparr>, pre @ ''_'' @ rl_random r (cp_ids w))"

section \<open>Tenants\<close>

definition releases_normalized :: "string \<Rightarrow> string \<Rightarrow> string" where
  "releases_normalized value fallback = (if value = [] then fallback else value)"

definition tenantBoundaryError :: error where
  "tenantBoundaryError = NewReasonError ReasonTenantBoundary ''tenant_id''"

definition bindTenant :: "string \<Rightarrow> string \<Rightarrow> (error, string) result" where
  "bindTenant authenticated requested = (let authenticated = releases_normalized authenticated ''default'' in
     if requested = [] then Inr authenticated else if requested \<noteq> authenticated then Inl tenantBoundaryError else Inr requested)"

definition planTenant :: "ReleasePlan \<Rightarrow> string" where
  "planTenant plan = (case concat (map pp_Steps (pl_Phases plan)) of
       [] \<Rightarrow> ''default''
     | step # _ \<Rightarrow> releases_normalized (sc_TenantID (ps_Scheduling step)) ''default'')"

section \<open>Planning\<close>

definition releases_validateRequest :: "ReleaseRequest \<Rightarrow> error option" where
  "releases_validateRequest request =
     (if rq_RequestID request = [] then Some (Wrapf ''%w: request_id is required'' ErrInvalidRequest)
      else if rq_ReleaseVersion request = [] then Some (Wrapf ''%w: release_version is required'' ErrInvalidRequest)
      else if rq_RequestedBy request = [] then Some (Wrapf ''%w: requested_by is required'' ErrInvalidRequest)
      else if agent_ID (rq_Agent request) = [] then Some (Wrapf ''%w: delegated_agent.id is required'' ErrInvalidRequest)
      else None)"

definition saved_plan :: "('s, 'x) Releases \<Rightarrow> (error, ReleasePlan) result \<Rightarrow> ('s, 'x) control_plane \<Rightarrow> ('s, 'x) control_plane \<times> (error, ReleasePlan) result" where
  "saved_plan r planned w = (case planned of
       Inl err \<Rightarrow> (w, Inl err)
     | Inr plan \<Rightarrow> (case ds_SavePlan (rl_store r) (cp_store w) plan of
           (s, Some err) \<Rightarrow> (w\<lparr>cp_store := s\<rparr>, Inl err)
         | (s, None) \<Rightarrow> (w\<lparr>cp_store := s\<rparr>, Inr plan)))"

definition releases_Plan :: "('s, 'x) Releases \<Rightarrow> ReleaseRequest \<Rightarrow> ('s, 'x) control_plane \<Rightarrow> ('s, 'x) control_plane \<times> (error, ReleasePlan) result" where
  "releases_Plan r request w = (case releases_validateRequest request of
       Some err \<Rightarrow> (w, Inl err)
     | None \<Rightarrow> (case releases_now r w of (w1, t) \<Rightarrow> saved_plan r (Plan (rl_digest r) (rl_planner r) t request) w1))"

definition releases_PlanIntent :: "('s, 'x) Releases \<Rightarrow> ReleaseIntent \<Rightarrow> ('s, 'x) control_plane \<Rightarrow> ('s, 'x) control_plane \<times> (error, ReleasePlan) result" where
  "releases_PlanIntent r wanted w = (case releases_validateRequest (LegacyRequestFromIntent wanted) of
       Some err \<Rightarrow> (w, Inl err)
     | None \<Rightarrow> (case releases_now r w of (w1, t) \<Rightarrow> saved_plan r (PlanIntent (rl_digest r) (rl_planner r) t wanted) w1))"

definition PlanIntentForTenant :: "('s, 'x) Releases \<Rightarrow> string \<Rightarrow> ReleaseIntent \<Rightarrow> ('s, 'x) control_plane \<Rightarrow> ('s, 'x) control_plane \<times> (error, ReleasePlan) result" where
  "PlanIntentForTenant r tenant wanted w = (case bindTenant tenant (in_TenantID wanted) of
       Inl err \<Rightarrow> (w, Inl err)
     | Inr bound \<Rightarrow> releases_PlanIntent r (wanted\<lparr>in_TenantID := bound\<rparr>) w)"

definition releases_GetPlan :: "('s, 'x) Releases \<Rightarrow> string \<Rightarrow> string \<Rightarrow> ('s, 'x) control_plane \<Rightarrow> (error, ReleasePlan) result" where
  "releases_GetPlan r tenant i w = (case ds_GetPlan (rl_store r) (cp_store w) i of
       Inl err \<Rightarrow> Inl err
     | Inr plan \<Rightarrow> if planTenant plan \<noteq> releases_normalized tenant ''default'' then Inl tenantBoundaryError else Inr plan)"

section \<open>Starting a release\<close>

text \<open>The run of a start: that of the engine's model with the tenant, the region, the cluster and the workflow identifier.\<close>

definition release_of :: "string \<Rightarrow> ReleaseRequest \<Rightarrow> ReleasePlan \<Rightarrow> time \<Rightarrow> ReleaseRun" where
  "release_of i request plan now = (new_run i request plan now)\<lparr>run_TenantID := releases_normalized (rq_TenantID request) ''default'',
     run_Region := releases_normalized (rq_Region request) ''global'', run_Cluster := rq_Cluster request, run_WorkflowID := i\<rparr>"

definition workflowRequestedEvent :: string where
  "workflowRequestedEvent = ''release.workflow.requested''"

definition start_audit :: "string \<Rightarrow> ReleaseRequest \<Rightarrow> ReleaseRun \<Rightarrow> time \<Rightarrow> AuditEvent" where
  "start_audit i request run now = \<lparr>au_ID = i, au_CorrelationID = run_ID run, au_ActorType = ''user'', au_ActorID = rq_RequestedBy request,
     au_DelegatedBy = rq_RequestedBy request, au_Action = ''release.start'', au_ResourceType = ''release_run'', au_ResourceID = run_ID run,
     au_Result = ''ACCEPTED'', au_Details = [(''plan_hash'', AnyString (pl_Hash (run_Plan run))), (''workflow_id'', AnyString (run_WorkflowID run))],
     au_Timestamp = now\<rparr>"

definition workflow_request :: "string \<Rightarrow> ReleaseRun \<Rightarrow> time \<Rightarrow> OutboxEvent" where
  "workflow_request i run now = \<lparr>ob_ID = i, ob_AggregateType = ''release_run'', ob_AggregateID = run_ID run, ob_EventType = workflowRequestedEvent,
     ob_Payload = [(''workflow_id'', AnyString (run_WorkflowID run))], ob_CreatedAt = now, ob_AvailableAt = now, ob_PublishedAt = None, ob_Attempts = 0\<rparr>"

text \<open>
  The workflow is started after the run is stored; the request in the outbox is marked as published after that.  A store that
  reports a created run without giving it would make the code dereference nil; the model ends there.
\<close>

definition start_workflow :: "('s, 'x) Releases \<Rightarrow> string \<Rightarrow> ReleaseRun \<Rightarrow> ('s, 'x) control_plane
    \<Rightarrow> ('s, 'x) control_plane \<times> ReleaseRun option \<times> bool \<times> error option" where
  "start_workflow r outboxID stored w = (case wc_StartRelease (rl_workflows r) (cp_workflows w) stored of
       (x, Inl err) \<Rightarrow> (w\<lparr>cp_workflows := x\<rparr>, Some stored, True, Some (Wrapf ''start temporal release workflow: %w'' err))
     | (x, Inr _) \<Rightarrow> (case releases_now r (w\<lparr>cp_workflows := x\<rparr>) of (w1, t) \<Rightarrow>
         case ds_MarkOutboxPublished (rl_store r) (cp_store w1) outboxID t of
           (s, Some err) \<Rightarrow> (w1\<lparr>cp_store := s\<rparr>, Some stored, True, Some (Wrapf ''mark workflow request published: %w'' err))
         | (s, None) \<Rightarrow> (w1\<lparr>cp_store := s\<rparr>, Some stored, True, None)))"

definition create_release :: "('s, 'x) Releases \<Rightarrow> ReleaseRequest \<Rightarrow> ReleasePlan \<Rightarrow> ('s, 'x) control_plane
    \<Rightarrow> ('s, 'x) control_plane \<times> ReleaseRun option \<times> bool \<times> error option" where
  "create_release r request plan w =
     (case releases_now r w of (w1, now) \<Rightarrow> case releases_newID r ''run'' w1 of (w2, runID) \<Rightarrow>
      case releases_newID r ''audit'' w2 of (w3, auditID) \<Rightarrow> case releases_newID r ''workflow'' w3 of (w4, outboxID) \<Rightarrow>
      let run = release_of runID request plan now in
      case ds_CreateRunAtomic (rl_store r) (cp_store w4) run [start_audit auditID request run now] [workflow_request outboxID run now] of
        (s, Inl err) \<Rightarrow> (w4\<lparr>cp_store := s\<rparr>, None, False, Some err)
      | (s, Inr (stored, False)) \<Rightarrow> (w4\<lparr>cp_store := s\<rparr>, stored, False, None)
      | (s, Inr (None, True)) \<Rightarrow> (w4\<lparr>cp_store := s\<rparr>, None, True, None)
      | (s, Inr (Some stored, True)) \<Rightarrow> start_workflow r outboxID stored (w4\<lparr>cp_store := s\<rparr>))"

definition releases_start :: "('s, 'x) Releases \<Rightarrow> ReleaseRequest \<Rightarrow> ReleasePlan \<Rightarrow> ('s, 'x) control_plane
    \<Rightarrow> ('s, 'x) control_plane \<times> ReleaseRun option \<times> bool \<times> error option" where
  "releases_start r request plan w = (case releases_now r w of (w1, t) \<Rightarrow>
      case ValidatePlan (rl_digest r) (rl_planner r) plan t of
        Some err \<Rightarrow> (w1, None, False, Some (Wrapf ''validate release plan before workflow start: %w'' err))
      | None \<Rightarrow> create_release r request plan w1)"

definition releases_Start :: "('s, 'x) Releases \<Rightarrow> ReleaseRequest \<Rightarrow> ('s, 'x) control_plane
    \<Rightarrow> ('s, 'x) control_plane \<times> ReleaseRun option \<times> bool \<times> error option" where
  "releases_Start r request w = (case releases_Plan r request w of
       (w1, Inl err) \<Rightarrow> (w1, None, False, Some err)
     | (w1, Inr plan) \<Rightarrow> releases_start r request plan w1)"

definition releases_StartIntent :: "('s, 'x) Releases \<Rightarrow> ReleaseIntent \<Rightarrow> ('s, 'x) control_plane
    \<Rightarrow> ('s, 'x) control_plane \<times> ReleaseRun option \<times> bool \<times> error option" where
  "releases_StartIntent r wanted w = (case releases_PlanIntent r wanted w of
       (w1, Inl err) \<Rightarrow> (w1, None, False, Some err)
     | (w1, Inr plan) \<Rightarrow> releases_start r (LegacyRequestFromIntent wanted) plan w1)"

definition StartIntentForTenant :: "('s, 'x) Releases \<Rightarrow> string \<Rightarrow> ReleaseIntent \<Rightarrow> ('s, 'x) control_plane
    \<Rightarrow> ('s, 'x) control_plane \<times> ReleaseRun option \<times> bool \<times> error option" where
  "StartIntentForTenant r tenant wanted w = (case bindTenant tenant (in_TenantID wanted) of
       Inl err \<Rightarrow> (w, None, False, Some err)
     | Inr bound \<Rightarrow> releases_StartIntent r (wanted\<lparr>in_TenantID := bound\<rparr>) w)"

section \<open>Reading\<close>

definition releases_Get :: "('s, 'x) Releases \<Rightarrow> string \<Rightarrow> ('s, 'x) control_plane \<Rightarrow> (error, ReleaseRun) result" where
  "releases_Get r i w = ds_GetRun (rl_store r) (cp_store w) i"

definition GetForTenant :: "('s, 'x) Releases \<Rightarrow> string \<Rightarrow> string \<Rightarrow> ('s, 'x) control_plane \<Rightarrow> (error, ReleaseRun) result" where
  "GetForTenant r tenant i w = (case releases_Get r i w of
       Inl err \<Rightarrow> Inl err
     | Inr run \<Rightarrow> if releases_normalized (run_TenantID run) ''default'' \<noteq> releases_normalized tenant ''default'' then Inl tenantBoundaryError else Inr run)"

definition releases_Events :: "('s, 'x) Releases \<Rightarrow> string \<Rightarrow> ('s, 'x) control_plane \<Rightarrow> (error, AuditEvent list) result" where
  "releases_Events r i w = (case ds_GetRun (rl_store r) (cp_store w) i of Inl err \<Rightarrow> Inl err | Inr _ \<Rightarrow> ds_AuditEvents (rl_store r) (cp_store w) i)"

definition EventsForTenant :: "('s, 'x) Releases \<Rightarrow> string \<Rightarrow> string \<Rightarrow> ('s, 'x) control_plane \<Rightarrow> (error, AuditEvent list) result" where
  "EventsForTenant r tenant i w = (case GetForTenant r tenant i w of Inl err \<Rightarrow> Inl err | Inr _ \<Rightarrow> ds_AuditEvents (rl_store r) (cp_store w) i)"

record ContractValidation =
  cv_Valid :: bool
  cv_Name :: string
  cv_ContentHash :: string

text \<open>The decoded contract is the value of the bytes; what the YAML decoder rejects is an error before that.\<close>

definition ValidateContract :: "(json \<Rightarrow> string) \<Rightarrow> (error, ServiceContract) result \<Rightarrow> (error, ContractValidation) result" where
  "ValidateContract digest parsed = (case parsed of
       Inl err \<Rightarrow> Inl err
     | Inr value \<Rightarrow> (case contract_Decode digest value of
           Inl err \<Rightarrow> Inl err
         | Inr decoded \<Rightarrow> Inr \<lparr>cv_Valid = True, cv_Name = cm_Name (sct_Metadata decoded), cv_ContentHash = sct_ContentHash decoded\<rparr>))"

section \<open>Runners\<close>

definition frozen_key :: "string \<Rightarrow> string \<Rightarrow> string" where
  "frozen_key tenant i = tenant @ [CHR 0x00] @ i"

definition ListRunners :: "string \<Rightarrow> ('s, 'x) control_plane \<Rightarrow> RunnerInfo list" where
  "ListRunners tenant w = (let tenant = releases_normalized tenant ''default'' in
     sort_key ri_ID (map (\<lambda>(_, runner). case map_of (cp_frozenRunners w) (frozen_key tenant (ri_ID runner)) of
         Some frozen \<Rightarrow> frozen | None \<Rightarrow> runner\<lparr>ri_TenantID := tenant\<rparr>) (cp_runners w)))"

definition RunnerCapacity :: "string \<Rightarrow> string \<Rightarrow> ('s, 'x) control_plane \<Rightarrow> int" where
  "RunnerCapacity tenant i w = (case map_of (cp_frozenRunners w) (frozen_key (releases_normalized tenant ''default'') i) of
       Some frozen \<Rightarrow> ri_Capacity frozen
     | None \<Rightarrow> (case map_of (cp_runners w) i of
           Some runner \<Rightarrow> if ri_Status runner = RunnerReady then ri_Capacity runner else 0
         | None \<Rightarrow> 0))"

definition FreezeRunner :: "('s, 'x) Releases \<Rightarrow> string \<Rightarrow> string \<Rightarrow> string \<Rightarrow> ('s, 'x) control_plane \<Rightarrow> ('s, 'x) control_plane \<times> (error, RunnerInfo) result" where
  "FreezeRunner r tenant i actor w = (if actor = [] then (w, Inl (Errorf ''freeze actor is required''))
     else case map_of (cp_runners w) i of
       None \<Rightarrow> (w, Inl ErrNotFound)
     | Some runner \<Rightarrow> (case releases_now r w of (w1, now) \<Rightarrow>
         let frozen = runner\<lparr>ri_TenantID := releases_normalized tenant ''default'', ri_Status := RunnerFrozen, ri_Capacity := 0,
               ri_FrozenBy := actor, ri_FrozenAt := Some now\<rparr> in
         (w1\<lparr>cp_frozenRunners := AList.update (frozen_key (ri_TenantID frozen) i) frozen (cp_frozenRunners w1)\<rparr>, Inr frozen)))"

section \<open>Approvals\<close>

definition releases_containsAll :: "string list \<Rightarrow> string list \<Rightarrow> bool" where
  "releases_containsAll actual required \<longleftrightarrow> list_all (\<lambda>v. v \<in> set actual) required"

definition approval_target :: "ReleaseRun \<Rightarrow> string \<Rightarrow> Approval option" where
  "approval_target run approvalID = find (\<lambda>a. ap_ID a = approvalID) (List.map_filter rs_Approval (run_Steps run))"

text \<open>The checks of a decision, and those of a revocation.\<close>

definition check_decision :: "ReleaseRun \<Rightarrow> string \<Rightarrow> string \<Rightarrow> string list \<Rightarrow> bool \<Rightarrow> time \<Rightarrow> error option" where
  "check_decision run approvalID actor roles approve now = (case approval_target run approvalID of
       None \<Rightarrow> Some (Wrapf ''%w: pending approval not found'' ErrApproval)
     | Some target \<Rightarrow>
         if ap_Status target \<noteq> ApprovalPending then Some (Wrapf ''%w: pending approval not found'' ErrApproval)
         else if ap_PlanHash target \<noteq> pl_Hash (run_Plan run) then Some (Wrapf ''%w: plan changed after approval request'' ErrApproval)
         else if \<not> now < ap_ExpiresAt target then Some (Wrapf ''%w: approval expired'' ErrApproval)
         else if approve \<and> actor = run_RequestedBy run then Some (Wrapf ''%w: requester cannot approve their own release'' ErrApproval)
         else if approve \<and> \<not> releases_containsAll roles (ap_RequiredRoles target) then Some (Wrapf ''%w: approver lacks required roles %v'' ErrApproval)
         else None)"

definition check_revocation :: "ReleaseRun \<Rightarrow> string \<Rightarrow> string list \<Rightarrow> error option" where
  "check_revocation run approvalID roles = (case approval_target run approvalID of
       None \<Rightarrow> Some (Wrapf ''%w: only a pending approval can be revoked safely'' ErrApproval)
     | Some target \<Rightarrow>
         if ap_Status target \<noteq> ApprovalPending then Some (Wrapf ''%w: only a pending approval can be revoked safely'' ErrApproval)
         else if \<not> releases_containsAll roles (ap_RequiredRoles target) then Some (Wrapf ''%w: revoker lacks required roles %v'' ErrApproval)
         else None)"

text \<open>A signal is sent and the run is read again.\<close>

definition signalled :: "('s, 'x) Releases \<Rightarrow> string \<Rightarrow> 'x \<times> error option \<Rightarrow> ('s, 'x) control_plane \<Rightarrow> ('s, 'x) control_plane \<times> (error, ReleaseRun) result" where
  "signalled r runID answer w = (case answer of
       (x, Some err) \<Rightarrow> (w\<lparr>cp_workflows := x\<rparr>, Inl err)
     | (x, None) \<Rightarrow> (w\<lparr>cp_workflows := x\<rparr>, ds_GetRun (rl_store r) (cp_store w) runID))"

text \<open>The clock is read only after the first three checks; that it advances in any case is not observable.\<close>

definition releases_DecideApproval :: "('s, 'x) Releases \<Rightarrow> string \<Rightarrow> string \<Rightarrow> string \<Rightarrow> string list \<Rightarrow> bool \<Rightarrow> ('s, 'x) control_plane
    \<Rightarrow> ('s, 'x) control_plane \<times> (error, ReleaseRun) result" where
  "releases_DecideApproval r runID approvalID actor roles approve w =
     (if actor = [] then (w, Inl (Wrapf ''%w: approval actor is required'' ErrApproval))
      else case ds_GetRun (rl_store r) (cp_store w) runID of
        Inl err \<Rightarrow> (w, Inl err)
      | Inr run \<Rightarrow> (case releases_now r w of (w1, now) \<Rightarrow> case check_decision run approvalID actor roles approve now of
          Some err \<Rightarrow> (w1, Inl err)
        | None \<Rightarrow> signalled r runID (wc_SignalApproval (rl_workflows r) (cp_workflows w1) (run_WorkflowID run)
            \<lparr>sg_ApprovalID = approvalID, sg_Actor = actor, sg_Roles = roles, sg_Approve = approve,
             sg_Action = (if approve then ''approve'' else ''deny'')\<rparr>) w1))"

definition DecideApprovalForTenant :: "('s, 'x) Releases \<Rightarrow> string \<Rightarrow> string \<Rightarrow> string \<Rightarrow> string \<Rightarrow> string list \<Rightarrow> bool \<Rightarrow> ('s, 'x) control_plane
    \<Rightarrow> ('s, 'x) control_plane \<times> (error, ReleaseRun) result" where
  "DecideApprovalForTenant r tenant runID approvalID actor roles approve w = (case GetForTenant r tenant runID w of
       Inl err \<Rightarrow> (w, Inl err)
     | Inr _ \<Rightarrow> releases_DecideApproval r runID approvalID actor roles approve w)"

definition RevokeApprovalForTenant :: "('s, 'x) Releases \<Rightarrow> string \<Rightarrow> string \<Rightarrow> string \<Rightarrow> string \<Rightarrow> string list \<Rightarrow> ('s, 'x) control_plane
    \<Rightarrow> ('s, 'x) control_plane \<times> (error, ReleaseRun) result" where
  "RevokeApprovalForTenant r tenant runID approvalID actor roles w =
     (if actor = [] then (w, Inl (Wrapf ''%w: approval actor is required'' ErrApproval))
      else case GetForTenant r tenant runID w of
        Inl err \<Rightarrow> (w, Inl err)
      | Inr run \<Rightarrow> (case check_revocation run approvalID roles of
          Some err \<Rightarrow> (w, Inl err)
        | None \<Rightarrow> signalled r runID (wc_SignalApproval (rl_workflows r) (cp_workflows w) (run_WorkflowID run)
            \<lparr>sg_ApprovalID = approvalID, sg_Actor = actor, sg_Roles = roles, sg_Approve = False, sg_Action = ''revoke''\<rparr>) w))"

definition ListPendingApprovals :: "('s, 'x) Releases \<Rightarrow> string \<Rightarrow> ('s, 'x) control_plane \<Rightarrow> (error, ApprovalSummary list) result" where
  "ListPendingApprovals r tenant w = (case ds_ListRuns (rl_store r) (cp_store w) of
       Inl err \<Rightarrow> Inl err
     | Inr runs \<Rightarrow> (let tenant = releases_normalized tenant ''default'' in
         Inr (concat (map (\<lambda>run. List.map_filter (\<lambda>step. case rs_Approval step of
             Some a \<Rightarrow> if ap_Status a = ApprovalPending
               then Some \<lparr>as_Approval = a, as_RunID = run_ID run, as_Service = rs_Service step, as_TenantID = tenant\<rparr> else None
           | None \<Rightarrow> None) (run_Steps run))
           (filter (\<lambda>run. releases_normalized (run_TenantID run) ''default'' = tenant) runs)))))"

section \<open>Controls\<close>

definition control :: "('s, 'x) Releases \<Rightarrow> string \<Rightarrow> string \<Rightarrow> string \<Rightarrow> ('s, 'x) control_plane \<Rightarrow> ('s, 'x) control_plane \<times> (error, ReleaseRun) result" where
  "control r runID actor action w = (if actor = [] then (w, Inl (Errorf ''actor is required''))
     else case ds_GetRun (rl_store r) (cp_store w) runID of
       Inl err \<Rightarrow> (w, Inl err)
     | Inr run \<Rightarrow> (let signal = \<lparr>cs_Actor = actor, cs_Reason = []\<rparr> in
         if action = ''cancel'' then signalled r runID (wc_Cancel (rl_workflows r) (cp_workflows w) (run_WorkflowID run) signal) w
         else if action = ''pause'' then signalled r runID (wc_Pause (rl_workflows r) (cp_workflows w) (run_WorkflowID run) signal) w
         else if action = ''resume'' then signalled r runID (wc_Resume (rl_workflows r) (cp_workflows w) (run_WorkflowID run) signal) w
         else (w, Inl (Errorf ''unsupported release control action %q''))))"

definition releases_Cancel :: "('s, 'x) Releases \<Rightarrow> string \<Rightarrow> string \<Rightarrow> ('s, 'x) control_plane \<Rightarrow> ('s, 'x) control_plane \<times> (error, ReleaseRun) result" where
  "releases_Cancel r runID actor = control r runID actor ''cancel''"

definition releases_Pause :: "('s, 'x) Releases \<Rightarrow> string \<Rightarrow> string \<Rightarrow> ('s, 'x) control_plane \<Rightarrow> ('s, 'x) control_plane \<times> (error, ReleaseRun) result" where
  "releases_Pause r runID actor = control r runID actor ''pause''"

definition releases_Resume :: "('s, 'x) Releases \<Rightarrow> string \<Rightarrow> string \<Rightarrow> ('s, 'x) control_plane \<Rightarrow> ('s, 'x) control_plane \<times> (error, ReleaseRun) result" where
  "releases_Resume r runID actor = control r runID actor ''resume''"

definition ControlForTenant :: "('s, 'x) Releases \<Rightarrow> string \<Rightarrow> string \<Rightarrow> string \<Rightarrow> string \<Rightarrow> ('s, 'x) control_plane
    \<Rightarrow> ('s, 'x) control_plane \<times> (error, ReleaseRun) result" where
  "ControlForTenant r tenant runID actor action w = (case GetForTenant r tenant runID w of
       Inl err \<Rightarrow> (w, Inl err)
     | Inr _ \<Rightarrow> control r runID actor action w)"

section \<open>Recovery of the outbox\<close>

text \<open>The events are published in turn; the result is how many were, and the error that stopped the loop.\<close>

fun publish_events :: "('s, 'x) Releases \<Rightarrow> OutboxEvent list \<Rightarrow> int \<Rightarrow> ('s, 'x) control_plane \<Rightarrow> ('s, 'x) control_plane \<times> int \<times> error option" where
  "publish_events r [] published w = (w, published, None)"
| "publish_events r (event # events) published w =
     (case ds_GetRun (rl_store r) (cp_store w) (ob_AggregateID event) of
        Inl err \<Rightarrow> (w, published, Some (Wrapf ''load outbox run %s: %w'' err))
      | Inr run \<Rightarrow> (case wc_StartRelease (rl_workflows r) (cp_workflows w) run of
          (x, Inl err) \<Rightarrow> (w\<lparr>cp_workflows := x\<rparr>, published, Some (Wrapf ''publish workflow request %s: %w'' err))
        | (x, Inr _) \<Rightarrow> (case releases_now r (w\<lparr>cp_workflows := x\<rparr>) of (w1, t) \<Rightarrow>
            case ds_MarkOutboxPublished (rl_store r) (cp_store w1) (ob_ID event) t of
              (s, Some err) \<Rightarrow> (w1\<lparr>cp_store := s\<rparr>, published, Some (Wrapf ''mark workflow request %s published: %w'' err))
            | (s, None) \<Rightarrow> publish_events r events (published + 1) (w1\<lparr>cp_store := s\<rparr>))))"

definition RecoverPendingWorkflows :: "('s, 'x) Releases \<Rightarrow> int \<Rightarrow> ('s, 'x) control_plane \<Rightarrow> ('s, 'x) control_plane \<times> int \<times> error option" where
  "RecoverPendingWorkflows r most w = (case ds_PendingOutboxByType (rl_store r) (cp_store w) workflowRequestedEvent most of
       Inl err \<Rightarrow> (w, 0, Some err)
     | Inr events \<Rightarrow> publish_events r events 0 w)"

text \<open>The rounds of \<^verbatim>\<open>RunWorkflowRecovery\<close> until its context is done, with the reported errors.\<close>

fun RunWorkflowRecovery :: "('s, 'x) Releases \<Rightarrow> nat \<Rightarrow> ('s, 'x) control_plane \<Rightarrow> ('s, 'x) control_plane \<times> error list" where
  "RunWorkflowRecovery r 0 w = (w, [])"
| "RunWorkflowRecovery r (Suc rounds) w = (case RecoverPendingWorkflows r 100 w of (w1, _, err) \<Rightarrow>
     case RunWorkflowRecovery r rounds w1 of (w2, errs) \<Rightarrow> (w2, (case err of None \<Rightarrow> errs | Some e \<Rightarrow> e # errs)))"

end
