(* ===== verification/Application_Safety.thy ===== *)
theory Application_Safety
  imports Application Workflow_Progress
begin

text \<open>
  What the control plane guarantees: no accepted release is forgotten, however often starting its workflow fails.
  The controller is wrapped so that started workflows and signals are noted, latest first.
\<close>

section \<open>Noted calls of the controller\<close>

datatype sent = StartSent ReleaseRun | SignalSent string

definition noting_start :: "'x WorkflowController \<Rightarrow> 'x \<times> sent list \<Rightarrow> ReleaseRun \<Rightarrow> ('x \<times> sent list) \<times> (error, workflow_execution) result" where
  "noting_start wc = (\<lambda>(x, sent) run. case wc_StartRelease wc x run of
       (x', Inl err) \<Rightarrow> ((x', sent), Inl err)
     | (x', Inr e) \<Rightarrow> ((x', StartSent run # sent), Inr e))"

definition noting_signal :: "('x \<Rightarrow> string \<Rightarrow> 'p \<Rightarrow> 'x \<times> error option) \<Rightarrow> 'x \<times> sent list \<Rightarrow> string \<Rightarrow> 'p \<Rightarrow> ('x \<times> sent list) \<times> error option" where
  "noting_signal f = (\<lambda>(x, sent) i p. case f x i p of (x', err) \<Rightarrow> ((x', SignalSent i # sent), err))"

definition noting_controller :: "'x WorkflowController \<Rightarrow> ('x \<times> sent list) WorkflowController" where
  "noting_controller wc = \<lparr>wc_StartRelease = noting_start wc, wc_SignalApproval = noting_signal (wc_SignalApproval wc),
     wc_Pause = noting_signal (wc_Pause wc), wc_Resume = noting_signal (wc_Resume wc), wc_Cancel = noting_signal (wc_Cancel wc)\<rparr>"

lemma noting_controller_sel [simp]:
  "wc_StartRelease (noting_controller wc) = noting_start wc" "wc_SignalApproval (noting_controller wc) = noting_signal (wc_SignalApproval wc)"
  "wc_Pause (noting_controller wc) = noting_signal (wc_Pause wc)" "wc_Resume (noting_controller wc) = noting_signal (wc_Resume wc)"
  "wc_Cancel (noting_controller wc) = noting_signal (wc_Cancel wc)"
  by (simp_all add: noting_controller_def)

definition started :: "sent list \<Rightarrow> string set" where
  "started sent = {run_WorkflowID run | run. StartSent run \<in> set sent}"

lemma started_simps [simp]:
  "started [] = {}" "started (StartSent run # sent) = insert (run_WorkflowID run) (started sent)" "started (SignalSent i # sent) = started sent"
  by (auto simp: started_def)

lemma started_mono: "set sent \<subseteq> set sent' \<Longrightarrow> started sent \<subseteq> started sent'"
  by (auto simp: started_def)

section \<open>Operations\<close>

datatype tenant_op =
    TPlan ReleaseIntent
  | TGetPlan string
  | TStart ReleaseIntent
  | TGet string
  | TEvents string
  | TControl string string string
  | TApprovals
  | TDecide string string string "string list" bool
  | TRevoke string string string "string list"
  | TRunners
  | TFreeze string string

datatype operation =
    DoPlan ReleaseRequest
  | DoPlanIntent ReleaseIntent
  | DoStart ReleaseRequest
  | DoStartIntent ReleaseIntent
  | DoDecide string string string "string list" bool
  | DoControl string string string
  | DoRecover int
  | ForTenant string tenant_op

datatype answer =
    AnsweredPlan "(error, ReleasePlan) result"
  | AnsweredRun "(error, ReleaseRun) result"
  | AnsweredStart "ReleaseRun option \<times> bool \<times> error option"
  | AnsweredEvents "(error, AuditEvent list) result"
  | AnsweredApprovals "(error, ApprovalSummary list) result"
  | AnsweredRunners "RunnerInfo list"
  | AnsweredRunner "(error, RunnerInfo) result"
  | AnsweredCount "int \<times> error option"

fun serve_tenant :: "('s, 'x) Releases \<Rightarrow> string \<Rightarrow> tenant_op \<Rightarrow> ('s, 'x) control_plane \<Rightarrow> ('s, 'x) control_plane \<times> answer" where
  "serve_tenant r tenant (TPlan wanted) w = map_prod id AnsweredPlan (PlanIntentForTenant r tenant wanted w)"
| "serve_tenant r tenant (TGetPlan i) w = (w, AnsweredPlan (releases_GetPlan r tenant i w))"
| "serve_tenant r tenant (TStart wanted) w = map_prod id AnsweredStart (StartIntentForTenant r tenant wanted w)"
| "serve_tenant r tenant (TGet i) w = (w, AnsweredRun (GetForTenant r tenant i w))"
| "serve_tenant r tenant (TEvents i) w = (w, AnsweredEvents (EventsForTenant r tenant i w))"
| "serve_tenant r tenant (TControl i actor action) w = map_prod id AnsweredRun (ControlForTenant r tenant i actor action w)"
| "serve_tenant r tenant TApprovals w = (w, AnsweredApprovals (ListPendingApprovals r tenant w))"
| "serve_tenant r tenant (TDecide i approval actor roles approve) w = map_prod id AnsweredRun (DecideApprovalForTenant r tenant i approval actor roles approve w)"
| "serve_tenant r tenant (TRevoke i approval actor roles) w = map_prod id AnsweredRun (RevokeApprovalForTenant r tenant i approval actor roles w)"
| "serve_tenant r tenant TRunners w = (w, AnsweredRunners (ListRunners tenant w))"
| "serve_tenant r tenant (TFreeze i actor) w = map_prod id AnsweredRunner (FreezeRunner r tenant i actor w)"

fun serve :: "('s, 'x) Releases \<Rightarrow> operation \<Rightarrow> ('s, 'x) control_plane \<Rightarrow> ('s, 'x) control_plane \<times> answer" where
  "serve r (DoPlan request) w = map_prod id AnsweredPlan (releases_Plan r request w)"
| "serve r (DoPlanIntent wanted) w = map_prod id AnsweredPlan (releases_PlanIntent r wanted w)"
| "serve r (DoStart request) w = map_prod id AnsweredStart (releases_Start r request w)"
| "serve r (DoStartIntent wanted) w = map_prod id AnsweredStart (releases_StartIntent r wanted w)"
| "serve r (DoDecide i approval actor roles approve) w = map_prod id AnsweredRun (releases_DecideApproval r i approval actor roles approve w)"
| "serve r (DoControl i actor action) w = map_prod id AnsweredRun (control r i actor action w)"
| "serve r (DoRecover most) w = map_prod id AnsweredCount (RecoverPendingWorkflows r most w)"
| "serve r (ForTenant tenant op) w = serve_tenant r tenant op w"

text \<open>
  A history of the control plane: its own operations, and the updates of runs that a worker with the same store makes.  A worker's run keeps its
  workflow identifier, and its events are not requests for a workflow.
\<close>

inductive history :: "(Memory, 'x \<times> sent list) Releases \<Rightarrow> (Memory, 'y) Activities \<Rightarrow> (Memory, 'x \<times> sent list) control_plane
    \<Rightarrow> (Memory, 'x \<times> sent list) control_plane \<Rightarrow> bool"
  for r a where
  initial: "history r a w w"
| served: "history r a w0 w \<Longrightarrow> serve r op w = (w', answer) \<Longrightarrow> history r a w0 w'"
| persisted: "history r a w0 w \<Longrightarrow> PersistRun a input (worker\<lparr>wk_store := cp_store w\<rparr>) = (worker', result) \<Longrightarrow>
     run_WorkflowID (per_Run input) = run_ID (per_Run input) \<Longrightarrow> per_EventType input \<noteq> workflowRequestedEvent \<Longrightarrow>
     history r a w0 (w\<lparr>cp_store := wk_store worker'\<rparr>)"

section \<open>The outbox\<close>

definition is_request :: "OutboxEvent \<Rightarrow> bool" where
  "is_request e \<longleftrightarrow> ob_EventType e = workflowRequestedEvent"

text \<open>
  Every run has a started workflow or an unpublished request for one; requests name stored runs, and their
  identifiers, made from the first \<open>n\<close> random numbers, are those of no other event.
\<close>

definition request_pending :: "Memory \<Rightarrow> string \<Rightarrow> bool" where
  "request_pending m i \<longleftrightarrow> (\<exists>e \<in> set (m_outbox m). is_request e \<and> ob_PublishedAt e = None \<and> ob_AggregateID e = i)"

definition pending :: "Memory \<Rightarrow> OutboxEvent list" where
  "pending m = filter (\<lambda>e. ob_PublishedAt e = None \<and> is_request e) (m_outbox m)"

definition event_ok :: "(nat \<Rightarrow> string) \<Rightarrow> nat \<Rightarrow> Memory \<Rightarrow> OutboxEvent \<Rightarrow> bool" where
  "event_ok random n m e \<longleftrightarrow> (if is_request e then map_of (m_runs m) (ob_AggregateID e) \<noteq> None \<and> (\<exists>k < n. ob_ID e = ''workflow_'' @ random k)
     else take 9 (ob_ID e) \<noteq> ''workflow_'')"

definition outbox_ok :: "(nat \<Rightarrow> string) \<Rightarrow> nat \<Rightarrow> Memory \<Rightarrow> sent list \<Rightarrow> bool" where
  "outbox_ok random n m sent \<longleftrightarrow>
     (\<forall>i run. map_of (m_runs m) i = Some run \<longrightarrow> run_ID run = i \<and> run_WorkflowID run = i \<and> (i \<in> started sent \<or> request_pending m i)) \<and>
     (\<forall>e \<in> set (m_outbox m). event_ok random n m e) \<and> distinct (map ob_ID (filter is_request (m_outbox m)))"

lemma event_ok_mono: "event_ok random n m e \<Longrightarrow> n \<le> n' \<Longrightarrow> event_ok random n' m e"
  by (auto simp: event_ok_def split: if_splits intro: order_less_le_trans)

lemma event_ok_prefix: "event_ok random n m e \<Longrightarrow> (take 9 (ob_ID e) = ''workflow_'') = is_request e"
  by (cases "is_request e") (auto simp: event_ok_def)

lemma event_ok_runs: "m_runs m' = m_runs m \<Longrightarrow> event_ok random n m' = event_ok random n m"
  unfolding event_ok_def by auto

lemma outbox_ok_mono: "outbox_ok random n m sent \<Longrightarrow> n \<le> n' \<Longrightarrow> set sent \<subseteq> set sent' \<Longrightarrow> outbox_ok random n' m sent'"
  using event_ok_mono started_mono[of sent sent'] unfolding outbox_ok_def by blast

lemma outbox_ok_same: "outbox_ok random n m sent \<Longrightarrow> m_runs m' = m_runs m \<Longrightarrow> m_outbox m' = m_outbox m \<Longrightarrow> outbox_ok random n m' sent"
  using event_ok_runs[of m' m] by (simp add: outbox_ok_def request_pending_def)

lemma mark_published_first: "ob_ID e = i \<Longrightarrow> i \<notin> ob_ID ` set before \<Longrightarrow>
    mark_published i t (before @ e # after) = Some (before @ e\<lparr>ob_PublishedAt := Some t\<rparr> # after)"
  by (induction before) auto

text \<open>Publishing a request whose workflow has been started keeps the outbox in order.\<close>

lemma mark_ok:
  assumes ok: "outbox_ok random n m sent" and e: "e \<in> set (m_outbox m)" "is_request e" and s: "ob_AggregateID e \<in> started sent"
  shows "\<exists>m'. MarkOutboxPublished m (ob_ID e) t = (m', None) \<and> outbox_ok random n m' sent \<and> m_runs m' = m_runs m \<and>
    set (pending m) - {e} \<subseteq> set (pending m') \<and> (e \<in> set (pending m) \<longrightarrow> length (pending m) = Suc (length (pending m')))"
proof -
  obtain before after where o: "m_outbox m = before @ e # after" using e(1) by (meson split_list)
  let ?e = "e\<lparr>ob_PublishedAt := Some t\<rparr>"
  have "ob_ID x \<noteq> ob_ID e" if x: "x \<in> set before" for x
  proof (cases "is_request x")
    case True
    moreover have "ob_ID e \<notin> ob_ID ` {x \<in> set before. is_request x}" using ok e(2) unfolding outbox_ok_def o by simp
    ultimately show ?thesis using x by (metis (mono_tags, lifting) image_eqI mem_Collect_eq)
  next
    case False
    have "event_ok random n m e" "event_ok random n m x" using ok e(1) x unfolding outbox_ok_def o by simp_all
    then have "take 9 (ob_ID e) \<noteq> take 9 (ob_ID x)" using event_ok_prefix e(2) False by metis
    then show ?thesis by auto
  qed
  then have "ob_ID e \<notin> ob_ID ` set before" by force
  then have m: "MarkOutboxPublished m (ob_ID e) t = (m\<lparr>m_outbox := before @ ?e # after\<rparr>, None)"
    by (simp add: MarkOutboxPublished_def o mark_published_first)
  have r: "is_request ?e = is_request e" by (simp add: is_request_def)
  have "i \<in> started sent \<or> request_pending (m\<lparr>m_outbox := before @ ?e # after\<rparr>) i" if "map_of (m_runs m) i = Some run" for i run
    using ok that s unfolding outbox_ok_def request_pending_def o by fastforce
  moreover have "distinct (map ob_ID (filter is_request (before @ ?e # after)))" using ok r e(2) by (simp add: outbox_ok_def o)
  moreover have "\<forall>x \<in> set (before @ ?e # after). event_ok random n (m\<lparr>m_outbox := before @ ?e # after\<rparr>) x"
    using ok r unfolding outbox_ok_def o by (auto simp: event_ok_def split: if_splits)
  ultimately have "outbox_ok random n (m\<lparr>m_outbox := before @ ?e # after\<rparr>) sent" using ok by (simp add: outbox_ok_def)
  then show ?thesis using m o e(2) by (auto simp: pending_def)
qed

lemma event_ok_update: "event_ok random n m x \<Longrightarrow> m_runs m' = AList.update i run (m_runs m) \<Longrightarrow> event_ok random n m' x"
  by (cases "is_request x") (simp_all add: event_ok_def update_conv')

lemma create_ok:
  assumes ok: "outbox_ok random n m sent" and "inj random" "n \<le> k" "k < n'"
    and c: "CreateRunAtomic m run audits [workflow_request (''workflow_'' @ random k) run t] = (m', Inr (made, True))"
    and w: "run_WorkflowID run = run_ID run"
  shows "outbox_ok random n' m' sent \<and> made = Some run \<and> map_of (m_runs m') (run_ID run) = Some run \<and>
    workflow_request (''workflow_'' @ random k) run t \<in> set (m_outbox m')"
proof -
  let ?e = "workflow_request (''workflow_'' @ random k) run t"
  obtain p where new: "map_of (m_runs m) (run_ID run) = None" and runs: "m_runs m' = AList.update (run_ID run) run (m_runs m)"
    and box: "m_outbox m' = m_outbox m @ [?e, p]" and p: "\<not> is_request p" "take 9 (ob_ID p) \<noteq> ''workflow_''" and s: "made = Some run"
    using c by (auto simp: CreateRunAtomic_def appendAtomic_def appendProjection_def is_request_def workflowRequestedEvent_def split: option.splits if_splits)
  have e: "is_request ?e" "ob_ID ?e = ''workflow_'' @ random k" "ob_AggregateID ?e = run_ID run" "ob_PublishedAt ?e = None"
    by (simp_all add: is_request_def workflow_request_def)
  have pend: "request_pending m i \<Longrightarrow> request_pending m' i" "request_pending m' (run_ID run)" for i
    using e by (auto simp: request_pending_def box)
  have "event_ok random n' m' x" if x: "x \<in> set (m_outbox m)" for x
  proof -
    have "event_ok random n m x" using ok x by (simp add: outbox_ok_def)
    from event_ok_mono[OF event_ok_update[OF this runs]] show ?thesis using assms(3,4) by simp
  qed
  moreover have "event_ok random n' m' ?e" using e assms(4) by (auto simp: event_ok_def runs update_conv')
  moreover have "event_ok random n' m' p" using p by (simp add: event_ok_def)
  moreover have "ob_ID ?e \<notin> ob_ID ` {x \<in> set (m_outbox m). is_request x}"
  proof
    assume "ob_ID ?e \<in> ob_ID ` {x \<in> set (m_outbox m). is_request x}"
    then obtain x where "x \<in> set (m_outbox m)" "is_request x" "ob_ID x = ''workflow_'' @ random k" using e(2) by auto
    moreover from this obtain j where "j < n" "ob_ID x = ''workflow_'' @ random j" using ok unfolding outbox_ok_def event_ok_def by metis
    ultimately show False using assms(2,3) by (auto dest: injD)
  qed
  moreover have "run_ID x = i \<and> run_WorkflowID x = i \<and> (i \<in> started sent \<or> request_pending m' i)" if "map_of (m_runs m') i = Some x" for i x
    using that ok w pend unfolding outbox_ok_def by (cases "i = run_ID run") (auto simp: runs update_conv')
  moreover have "distinct (map ob_ID (filter is_request (m_outbox m)))" using ok by (simp add: outbox_ok_def)
  ultimately have "outbox_ok random n' m' sent" using e(1) p(1) unfolding outbox_ok_def by (simp add: box)
  then show ?thesis using s by (simp add: runs box update_conv')
qed

lemma update_ok:
  assumes ok: "outbox_ok random n m sent" and u: "UpdateRunAtomic m run version audits events = (m', result)"
    and w: "run_WorkflowID run = run_ID run" and e: "\<forall>x \<in> set events. \<not> is_request x \<and> take 9 (ob_ID x) \<noteq> ''workflow_''"
  shows "outbox_ok random n m' sent"
proof (cases "m' = m")
  case False
  let ?run = "run\<lparr>run_StateVersion := version + 1\<rparr>"
  obtain p old where old: "map_of (m_runs m) (run_ID run) = Some old" and runs: "m_runs m' = AList.update (run_ID run) ?run (m_runs m)"
    and box: "m_outbox m' = m_outbox m @ events @ [p]" and p: "\<not> is_request p" "take 9 (ob_ID p) \<noteq> ''workflow_''"
    using u False by (auto simp: UpdateRunAtomic_def appendAtomic_def appendProjection_def is_request_def workflowRequestedEvent_def Let_def split: option.splits if_splits)
  have "event_ok random n m' x" if x: "x \<in> set (m_outbox m')" for x
  proof (cases "x \<in> set (m_outbox m)")
    case True
    then have "event_ok random n m x" using ok by (simp add: outbox_ok_def)
    from event_ok_update[OF this runs] show ?thesis .
  qed (use x e p in \<open>auto simp: box event_ok_def\<close>)
  moreover have "filter is_request (m_outbox m') = filter is_request (m_outbox m)" using e p by (auto simp: box filter_empty_conv)
  moreover have "request_pending m i \<Longrightarrow> request_pending m' i" for i by (auto simp: request_pending_def box)
  moreover have "run_ID x = i \<and> run_WorkflowID x = i \<and> (i \<in> started sent \<or> request_pending m' i)" if "map_of (m_runs m') i = Some x" for i x
    using that ok old w calculation(3) unfolding outbox_ok_def by (cases "i = run_ID run") (auto simp: runs update_conv')
  ultimately show ?thesis using ok unfolding outbox_ok_def by simp
qed (use ok in simp)

section \<open>Every operation keeps the outbox in order\<close>

definition plane_ok :: "(Memory, 'x \<times> sent list) Releases \<Rightarrow> (Memory, 'x \<times> sent list) control_plane \<Rightarrow> bool" where
  "plane_ok r w \<longleftrightarrow> outbox_ok (rl_random r) (cp_ids w) (cp_store w) (snd (cp_workflows w))"

definition notes_calls :: "'x WorkflowController \<Rightarrow> (Memory, 'x \<times> sent list) Releases \<Rightarrow> bool" where
  "notes_calls wc r \<longleftrightarrow> rl_store r = memory_durable \<and> rl_workflows r = noting_controller wc \<and> inj (rl_random r)"

lemma noting_start_cases:
  assumes "noting_start wc xs run = (ys, answer)"
  shows "case answer of Inl _ \<Rightarrow> snd ys = snd xs | Inr _ \<Rightarrow> snd ys = StartSent run # snd xs"
  using assms by (auto simp: noting_start_def split: prod.splits sum.splits)

definition reliable :: "'x WorkflowController \<Rightarrow> bool" where
  "reliable wc \<longleftrightarrow> (\<forall>x run. \<exists>x' a. wc_StartRelease wc x run = (x', Inr a))"

lemma noting_start_fails: "noting_start wc xs run = (ys, Inl err) \<Longrightarrow> wc_StartRelease wc (fst xs) run \<noteq> (x', Inr a)"
  by (auto simp: noting_start_def split: prod.splits sum.splits)

lemma saved_plan_ok:
  assumes "notes_calls wc r" "plane_ok r w" "saved_plan r planned w = (w', result)"
  shows "plane_ok r w'"
  using assms outbox_ok_same[of "rl_random r" "cp_ids w" "cp_store w" "snd (cp_workflows w)"]
  by (auto simp: saved_plan_def plane_ok_def notes_calls_def SavePlan_def split: sum.splits)

lemma plane_ok_now: "releases_now r w = (w', t) \<Longrightarrow> plane_ok r w \<Longrightarrow> plane_ok r w'"
  by (auto simp: releases_now_def plane_ok_def)

lemma Plan_ok:
  assumes "notes_calls wc r" "plane_ok r w"
  shows "releases_Plan r request w = (w', result) \<Longrightarrow> plane_ok r w'" "releases_PlanIntent r wanted w = (w', result) \<Longrightarrow> plane_ok r w'"
  using saved_plan_ok[OF assms(1)] plane_ok_now[OF _ assms(2)] assms(2)
  by (auto simp: releases_Plan_def releases_PlanIntent_def split: option.splits prod.splits)

text \<open>Starting the workflow of a stored run and marking its request.\<close>

lemma publish_one_ok:
  assumes n: "notes_calls wc r" and ok: "plane_ok r w" and e: "e \<in> set (m_outbox (cp_store w))" "is_request e"
    and run: "map_of (m_runs (cp_store w)) (ob_AggregateID e) = Some run"
    and s: "noting_start wc (cp_workflows w) run = (x, Inr answer)" and t: "releases_now r (w\<lparr>cp_workflows := x\<rparr>) = (w1, t)"
  shows "\<exists>m. MarkOutboxPublished (cp_store w1) (ob_ID e) t = (m, None) \<and> plane_ok r (w1\<lparr>cp_store := m\<rparr>) \<and> m_runs m = m_runs (cp_store w) \<and>
    cp_workflows w1 = x \<and> snd x = StartSent run # snd (cp_workflows w) \<and> ob_AggregateID e \<in> started (snd x) \<and>
    set (pending (cp_store w)) - {e} \<subseteq> set (pending m) \<and> (e \<in> set (pending (cp_store w)) \<longrightarrow> length (pending (cp_store w)) = Suc (length (pending m)))"
proof -
  have x: "snd x = StartSent run # snd (cp_workflows w)" using noting_start_cases[OF s] by simp
  have w1: "cp_store w1 = cp_store w" "cp_ids w1 = cp_ids w" "cp_workflows w1 = x" using t by (auto simp: releases_now_def)
  have "run_WorkflowID run = ob_AggregateID e" using ok run by (simp add: plane_ok_def outbox_ok_def)
  then have st: "ob_AggregateID e \<in> started (snd x)" by (simp add: x)
  have "outbox_ok (rl_random r) (cp_ids w) (cp_store w) (snd x)"
    using outbox_ok_mono[of "rl_random r" "cp_ids w" "cp_store w" "snd (cp_workflows w)" "cp_ids w" "snd x"] ok by (auto simp: plane_ok_def x)
  from mark_ok[OF this e st, of t] obtain m where m: "MarkOutboxPublished (cp_store w) (ob_ID e) t = (m, None)"
    "outbox_ok (rl_random r) (cp_ids w) m (snd x)" "m_runs m = m_runs (cp_store w)" "set (pending (cp_store w)) - {e} \<subseteq> set (pending m)"
    "e \<in> set (pending (cp_store w)) \<longrightarrow> length (pending (cp_store w)) = Suc (length (pending m))" by blast
  then show ?thesis using x st w1 by (auto simp: plane_ok_def)
qed

lemma start_workflow_ok:
  assumes n: "notes_calls wc r" and ok: "plane_ok r w" and e: "e \<in> set (m_outbox (cp_store w))" "is_request e" "ob_ID e = i" "ob_AggregateID e = run_ID run"
    and run: "map_of (m_runs (cp_store w)) (run_ID run) = Some run" and s: "start_workflow r i run w = (w', result)"
  shows "plane_ok r w'"
proof (cases "noting_start wc (cp_workflows w) run")
  case (Pair x answer)
  show ?thesis
  proof (cases answer)
    case (Inl err)
    have "snd x = snd (cp_workflows w)" using noting_start_cases[OF Pair] Inl by simp
    then show ?thesis using s n ok Pair Inl by (auto simp: start_workflow_def notes_calls_def plane_ok_def)
  next
    case (Inr a)
    obtain w1 t where t: "releases_now r (w\<lparr>cp_workflows := x\<rparr>) = (w1, t)" by force
    from publish_one_ok[OF n ok e(1,2) _ Pair[unfolded Inr] t] run e(3,4)
    obtain m where "MarkOutboxPublished (cp_store w1) i t = (m, None)" "plane_ok r (w1\<lparr>cp_store := m\<rparr>)" by auto
    then show ?thesis using s n Pair Inr t by (auto simp: start_workflow_def notes_calls_def)
  qed
qed

lemma create_release_ok:
  assumes n: "notes_calls wc r" and ok: "plane_ok r w" and c: "create_release r request plan w = (w', result)"
  shows "plane_ok r w'"
proof -
  let ?t = "rl_now r (cp_clock w)" and ?k = "cp_ids w" and ?w = "w\<lparr>cp_clock := Suc (cp_clock w), cp_ids := Suc (Suc (Suc (cp_ids w)))\<rparr>"
  let ?i = "''workflow_'' @ rl_random r (Suc (Suc (cp_ids w)))" and ?run = "release_of (''run_'' @ rl_random r (cp_ids w)) request plan (rl_now r (cp_clock w))"
  let ?audit = "start_audit (''audit_'' @ rl_random r (Suc (cp_ids w))) request ?run ?t"
  obtain m answer where m: "CreateRunAtomic (cp_store w) ?run [?audit] [workflow_request ?i ?run ?t] = (m, answer)" by force
  have same: "m = cp_store w" if "\<forall>s. answer \<noteq> Inr (s, True)"
    using m that by (auto simp: CreateRunAtomic_def split: option.splits if_splits)
  have mono: "plane_ok r (?w\<lparr>cp_store := cp_store w\<rparr>)"
    using ok outbox_ok_mono[of "rl_random r" "cp_ids w" "cp_store w" "snd (cp_workflows w)" "Suc (Suc (Suc (cp_ids w)))"] by (simp add: plane_ok_def)
  have "w' = (case answer of Inr (Some s, True) \<Rightarrow> fst (start_workflow r ?i s (?w\<lparr>cp_store := m\<rparr>)) | _ \<Rightarrow> ?w\<lparr>cp_store := m\<rparr>)"
    using c m n by (auto simp: create_release_def releases_now_def releases_newID_def Let_def notes_calls_def split: sum.splits prod.splits option.splits bool.splits)
  moreover
  { fix s assume a: "answer = Inr (s, True)"
    have "cp_ids w \<le> Suc (Suc (cp_ids w))" "Suc (Suc (cp_ids w)) < Suc (Suc (Suc (cp_ids w)))" "inj (rl_random r)" "run_WorkflowID ?run = run_ID ?run"
      using n by (simp_all add: notes_calls_def release_of_def new_run_def)
    from create_ok[OF _ this(3,1,2) m[unfolded a] this(4)] ok
    have o: "outbox_ok (rl_random r) (Suc (Suc (Suc (cp_ids w)))) m (snd (cp_workflows w))" "s = Some ?run" "map_of (m_runs m) (run_ID ?run) = Some ?run"
      "workflow_request ?i ?run ?t \<in> set (m_outbox m)" by (simp_all add: plane_ok_def)
    have "plane_ok r (fst (start_workflow r ?i ?run (?w\<lparr>cp_store := m\<rparr>)))"
      by (rule start_workflow_ok[OF n _ _ _ _ _ _ prod.collapse[symmetric], of "?w\<lparr>cp_store := m\<rparr>" "workflow_request ?i ?run ?t"])
        (use o in \<open>simp_all add: plane_ok_def workflow_request_def is_request_def\<close>)
    with o(2) have "s = Some ?run \<and> plane_ok r (fst (start_workflow r ?i ?run (?w\<lparr>cp_store := m\<rparr>)))" by simp }
  moreover have "plane_ok r (?w\<lparr>cp_store := m\<rparr>)" if "\<forall>s. answer \<noteq> Inr (s, True)" using same[OF that] mono by simp
  ultimately show ?thesis by (cases "\<exists>s. answer = Inr (s, True)") (auto split: sum.splits option.splits bool.splits)
qed

lemma start_planned_ok:
  "notes_calls wc r \<Longrightarrow> plane_ok r w \<Longrightarrow> releases_start r request plan w = (w', result) \<Longrightarrow> plane_ok r w'"
  using create_release_ok[of wc r] plane_ok_now[of r w] by (auto simp: releases_start_def split: prod.splits option.splits)

lemma start_ok:
  assumes n: "notes_calls wc r" and ok: "plane_ok r w"
  shows "releases_Start r request w = (w', result) \<Longrightarrow> plane_ok r w'"
    and "releases_StartIntent r wanted w = (w', result) \<Longrightarrow> plane_ok r w'"
  by (auto simp: releases_Start_def releases_StartIntent_def split: prod.splits sum.splits
      dest: Plan_ok[OF n ok] intro: start_planned_ok[OF n])

lemma noting_signal_sent: "noting_signal f xs i p = (ys, err) \<Longrightarrow> snd ys = SignalSent i # snd xs"
  by (auto simp: noting_signal_def split: prod.splits)

lemma signalled_ok:
  assumes "plane_ok r w" "noting_signal f (cp_workflows w) i p = answer" "signalled r runID answer w = (w', result)"
  shows "plane_ok r w'"
proof -
  obtain ys err where a: "answer = (ys, err)" by (cases answer)
  have "plane_ok r (w\<lparr>cp_workflows := ys\<rparr>)"
    using noting_signal_sent[OF assms(2)[unfolded a]] assms(1)
      outbox_ok_mono[of "rl_random r" "cp_ids w" "cp_store w" "snd (cp_workflows w)" "cp_ids w" "snd ys"] by (auto simp: plane_ok_def)
  then show ?thesis using assms(3) by (auto simp: a signalled_def split: option.splits)
qed

lemma decision_keeps_outbox:
  assumes "notes_calls wc r" "plane_ok r w" "releases_DecideApproval r i approval actor roles approve w = (w', result)"
  shows "plane_ok r w'"
  using assms by (auto simp: releases_DecideApproval_def notes_calls_def split: if_splits sum.splits prod.splits option.splits
      dest: plane_ok_now intro: signalled_ok[OF _ refl])

lemma revoke_ok:
  assumes "notes_calls wc r" "plane_ok r w" "RevokeApprovalForTenant r tenant i approval actor roles w = (w', result)"
  shows "plane_ok r w'"
  using assms by (auto simp: RevokeApprovalForTenant_def notes_calls_def split: if_splits sum.splits option.splits intro: signalled_ok[OF _ refl])

lemma control_ok:
  assumes "notes_calls wc r" "plane_ok r w" "control r i actor action w = (w', result)"
  shows "plane_ok r w'"
  using assms by (auto simp: control_def notes_calls_def Let_def split: if_splits sum.splits intro: signalled_ok[OF _ refl])

text \<open>
  The loop over pending requests: it starts the workflows of all events it gets to, and with a controller that does not fail it gets
  to all of them.
\<close>

lemma publish_ok:
  assumes n: "notes_calls wc r"
  shows "plane_ok r w \<Longrightarrow> set events \<subseteq> set (pending (cp_store w)) \<Longrightarrow> distinct events \<Longrightarrow>
    publish_events r events k w = (w', published, err) \<Longrightarrow>
    plane_ok r w' \<and> m_runs (cp_store w') = m_runs (cp_store w) \<and> started (snd (cp_workflows w)) \<subseteq> started (snd (cp_workflows w')) \<and>
    (err = None \<longrightarrow> published = k + int (length events) \<and> length (pending (cp_store w)) = length events + length (pending (cp_store w')) \<and> (\<forall>e \<in> set events. ob_AggregateID e \<in> started (snd (cp_workflows w')))) \<and>
    (reliable wc \<longrightarrow> err = None)"
proof (induction events arbitrary: k w)
  case (Cons e events)
  have p: "e \<in> set (pending (cp_store w))" using Cons.prems(2) by simp
  then have e: "e \<in> set (m_outbox (cp_store w))" "is_request e" by (simp_all add: pending_def)
  then obtain run where run: "map_of (m_runs (cp_store w)) (ob_AggregateID e) = Some run"
    using Cons.prems(1) by (fastforce simp: plane_ok_def outbox_ok_def event_ok_def)
  obtain x answer where x: "noting_start wc (cp_workflows w) run = (x, answer)" by (meson surj_pair)
  show ?case
  proof (cases answer)
    case (Inl err')
    have s: "snd x = snd (cp_workflows w)" using noting_start_cases[OF x] Inl by simp
    have "\<not> reliable wc" using noting_start_fails[OF x[unfolded Inl]] unfolding reliable_def by blast
    then show ?thesis using Cons.prems(1,4) n run x Inl s by (auto simp: notes_calls_def GetRun_def plane_ok_def)
  next
    case (Inr a)
    obtain w1 t where t: "releases_now r (w\<lparr>cp_workflows := x\<rparr>) = (w1, t)" by force
    from publish_one_ok[OF n Cons.prems(1) e run x[unfolded Inr] t]
    obtain m where m: "MarkOutboxPublished (cp_store w1) (ob_ID e) t = (m, None)" "plane_ok r (w1\<lparr>cp_store := m\<rparr>)" "m_runs m = m_runs (cp_store w)"
      "cp_workflows w1 = x" "snd x = StartSent run # snd (cp_workflows w)" "ob_AggregateID e \<in> started (snd x)"
      "set (pending (cp_store w)) - {e} \<subseteq> set (pending m)" "length (pending (cp_store w)) = Suc (length (pending m))" using p by blast
    have rest: "publish_events r events (k + 1) (w1\<lparr>cp_store := m\<rparr>) = (w', published, err)"
      using Cons.prems(4) n run x Inr t m(1) by (simp add: notes_calls_def GetRun_def)
    have "set events \<subseteq> set (pending (cp_store (w1\<lparr>cp_store := m\<rparr>)))" using Cons.prems(2,3) m(7) by auto
    from Cons.IH[OF m(2) this _ rest] Cons.prems(3) m(3-6,8) show ?thesis by auto
  qed
qed simp

lemma PendingOutboxByType_pending: "\<exists>k. PendingOutboxByType m workflowRequestedEvent most = take k (pending m) \<and>
    (int k < most \<longrightarrow> length (pending m) \<le> k)"
proof -
  have "workflowRequestedEvent \<noteq> []" by (simp add: workflowRequestedEvent_def)
  then have "PendingOutboxByType m workflowRequestedEvent most =
      take (if most \<le> 0 \<or> int (length (m_outbox m)) < most then length (m_outbox m) else nat most) (pending m)"
    by (simp add: PendingOutboxByType_def pendingOutbox_def pending_def is_request_def Let_def)
  moreover have "length (pending m) \<le> length (m_outbox m)" by (simp add: pending_def)
  ultimately show ?thesis by (intro exI[of _ "if most \<le> 0 \<or> int (length (m_outbox m)) < most then length (m_outbox m) else nat most"]) auto
qed

lemma pending_distinct:
  assumes "plane_ok r w"
  shows "distinct (pending (cp_store w))"
proof -
  have "distinct (filter is_request (m_outbox (cp_store w)))" using assms by (simp add: plane_ok_def outbox_ok_def distinct_map)
  from distinct_filter[OF this, of "\<lambda>e. ob_PublishedAt e = None"] show ?thesis by (simp add: pending_def conj_commute)
qed

lemma recover_ok:
  assumes n: "notes_calls wc r" and ok: "plane_ok r w" and s: "RecoverPendingWorkflows r most w = (w', published, err)"
  shows "plane_ok r w' \<and> m_runs (cp_store w') = m_runs (cp_store w) \<and> (reliable wc \<longrightarrow> err = None) \<and>
    (err = None \<and> most > 0 \<longrightarrow> int (length (pending (cp_store w'))) \<le> max 0 (int (length (pending (cp_store w))) - most))"
proof -
  obtain k where k: "PendingOutboxByType (cp_store w) workflowRequestedEvent most = take k (pending (cp_store w))"
    "int k < most \<longrightarrow> length (pending (cp_store w)) \<le> k" using PendingOutboxByType_pending by blast
  have "publish_events r (take k (pending (cp_store w))) 0 w = (w', published, err)"
    using s n k(1) by (simp add: RecoverPendingWorkflows_def notes_calls_def)
  from publish_ok[OF n ok _ _ this] pending_distinct[OF ok] k(2) show ?thesis by (auto simp: set_take_subset)
qed

lemma tenant_ok:
  assumes n: "notes_calls wc r" and ok: "plane_ok r w" and s: "serve_tenant r tenant op w = (w', answer)"
  shows "plane_ok r w'"
proof -
  have f: "plane_ok r w'" if "FreezeRunner r tenant i actor w = (w', result)" for i actor result
    using that ok plane_ok_now[OF _ ok] by (auto simp: FreezeRunner_def plane_ok_def Let_def split: if_splits option.splits prod.splits)
  have d: "plane_ok r w'" if "DecideApprovalForTenant r tenant i approval actor roles approve w = (w', result)" for i approval actor roles approve result
    using that ok by (auto simp: DecideApprovalForTenant_def split: sum.splits intro: decision_keeps_outbox[OF n ok])
  have c: "plane_ok r w'" if "ControlForTenant r tenant i actor action w = (w', result)" for i actor action result
    using that ok by (auto simp: ControlForTenant_def split: sum.splits intro: control_ok[OF n ok])
  have p: "plane_ok r w'" if "PlanIntentForTenant r tenant wanted w = (w', result)" for wanted result
    using that ok by (auto simp: PlanIntentForTenant_def split: sum.splits intro: Plan_ok(2)[OF n ok])
  have t: "plane_ok r w'" if "StartIntentForTenant r tenant wanted w = (w', result)" for wanted result
    using that ok by (auto simp: StartIntentForTenant_def split: sum.splits intro: start_ok(2)[OF n ok])
  show ?thesis using s ok f d c p t revoke_ok[OF n ok] by (cases op) (auto simp: map_prod_def split: prod.splits)
qed

lemma serve_ok:
  assumes n: "notes_calls wc r" and ok: "plane_ok r w" and s: "serve r op w = (w', answer)"
  shows "plane_ok r w'"
  using s Plan_ok[OF n ok] start_ok[OF n ok] decision_keeps_outbox[OF n ok] control_ok[OF n ok] recover_ok[OF n ok] tenant_ok[OF n ok]
  by (cases op) (auto simp: map_prod_def split: prod.splits)

lemma persist_keeps_outbox:
  assumes "outbox_ok random n (wk_store w) sent" "av_Store a = memory_durable" "PersistRun a input w = (w', result)"
    and "run_WorkflowID (per_Run input) = run_ID (per_Run input)" "per_EventType input \<noteq> workflowRequestedEvent"
  shows "outbox_ok random n (wk_store w') sent"
proof -
  obtain audits events answer where
    "UpdateRunAtomic (wk_store w) (per_Run input) (run_StateVersion (per_Run input)) audits events = (wk_store w', answer)"
    "\<forall>e \<in> set events. ob_EventType e = per_EventType input \<and> take 9 (ob_ID e) = ''run-event''"
    by (rule PersistRun_events[OF assms(3), unfolded assms(2) memory_durable_sel]) (rule that)
  then show ?thesis using update_ok[OF assms(1) _ assms(4)] assms(5) by (auto simp: is_request_def)
qed

lemma history_ok:
  assumes n: "notes_calls wc r" and a: "av_Store a = memory_durable" and h: "history r a w0 w" and ok: "plane_ok r w0"
  shows "plane_ok r w"
  using h ok
proof (induction rule: history.induct)
  case (persisted w0 w input worker worker' result)
  then show ?case using persist_keeps_outbox[OF _ a, of _ _ "worker\<lparr>wk_store := cp_store w\<rparr>"] by (simp add: plane_ok_def)
qed (auto intro: serve_ok[OF n])

lemma empty_plane_ok: "cp_store w = NewMemory \<Longrightarrow> plane_ok r w"
  by (simp add: plane_ok_def outbox_ok_def NewMemory_def)

lemma recovery_rounds:
  assumes n: "notes_calls wc r" "reliable wc"
  shows "plane_ok r w \<Longrightarrow> length (pending (cp_store w)) \<le> 100 * rounds \<Longrightarrow>
    \<exists>w'. RunWorkflowRecovery r rounds w = (w', []) \<and> plane_ok r w' \<and> m_runs (cp_store w') = m_runs (cp_store w) \<and> pending (cp_store w') = []"
proof (induction rounds arbitrary: w)
  case (Suc rounds)
  obtain w1 published err where s: "RecoverPendingWorkflows r 100 w = (w1, published, err)" by (metis prod_cases3)
  from recover_ok[OF n(1) Suc.prems(1) s] n(2) have r: "err = None" "plane_ok r w1" "m_runs (cp_store w1) = m_runs (cp_store w)"
    "int (length (pending (cp_store w1))) \<le> max 0 (int (length (pending (cp_store w))) - 100)" by auto
  with Suc.prems(2) have "length (pending (cp_store w1)) \<le> 100 * rounds" by (simp add: max_def split: if_splits)
  from Suc.IH[OF r(2) this] r(1,3) s show ?case by auto
qed simp

section \<open>No release is forgotten\<close>

text \<open>
  C8.  In every history of the control plane and of workers on its store, every stored run has a started workflow or a pending request
  for one in the outbox, however often the controller failed before.  And once the controller works, rounds of the recovery that
  are enough for the pending requests, at a hundred each, end without an error and with a started workflow for every stored run.
\<close>

theorem recovery_starts_every_release:
  assumes "notes_calls wc r" "av_Store a = memory_durable" "history r a w0 w" "cp_store w0 = NewMemory"
  shows "(\<forall>i run. GetRun (cp_store w) i = Inr run \<longrightarrow> run_WorkflowID run \<in> started (snd (cp_workflows w)) \<or> request_pending (cp_store w) i) \<and>
    (reliable wc \<and> length (pending (cp_store w)) \<le> 100 * rounds \<longrightarrow>
      (\<exists>w'. RunWorkflowRecovery r rounds w = (w', []) \<and> m_runs (cp_store w') = m_runs (cp_store w) \<and>
        (\<forall>i run. GetRun (cp_store w') i = Inr run \<longrightarrow> run_WorkflowID run \<in> started (snd (cp_workflows w')))))"
proof -
  have ok: "plane_ok r w" by (rule history_ok[OF assms(1-3) empty_plane_ok[OF assms(4)]])
  have run: "run_WorkflowID run = i \<and> (i \<in> started (snd (cp_workflows v)) \<or> request_pending (cp_store v) i)"
    if "plane_ok r v" "GetRun (cp_store v) i = Inr run" for v i run
    using that by (auto simp: plane_ok_def outbox_ok_def GetRun_def split: option.splits)
  have none: "\<not> request_pending m i" if "pending m = []" for m i
    using that by (auto simp: pending_def request_pending_def filter_empty_conv)
  have "\<exists>w'. RunWorkflowRecovery r rounds w = (w', []) \<and> m_runs (cp_store w') = m_runs (cp_store w) \<and>
        (\<forall>i run. GetRun (cp_store w') i = Inr run \<longrightarrow> run_WorkflowID run \<in> started (snd (cp_workflows w')))"
    if "reliable wc" "length (pending (cp_store w)) \<le> 100 * rounds"
    using recovery_rounds[OF assms(1) that(1) ok that(2)] run none by metis
  with run[OF ok] show ?thesis by blast
qed

end
