(* ===== verification/Tenants.thy ===== *)
theory Tenants
  imports Application_Safety Catalog Engine_Safety
begin

text \<open>
  What an operation on behalf of a tenant shows and touches, what a start does with the request identifier of another tenant, and how the checks
  of the control plane relate to those of the workflow that gets the signal.
\<close>

section \<open>Isolation\<close>

abbreviation owned :: "string \<Rightarrow> ReleaseRun \<Rightarrow> bool" where
  "owned tenant run \<equiv> releases_normalized (run_TenantID run) ''default'' = releases_normalized tenant ''default''"

fun shows_only :: "string \<Rightarrow> Memory \<Rightarrow> answer \<Rightarrow> bool" where
  "shows_only tenant m (AnsweredPlan (Inr plan)) \<longleftrightarrow> planTenant plan = releases_normalized tenant ''default''"
| "shows_only tenant m (AnsweredRun (Inr run)) \<longleftrightarrow> owned tenant run"
| "shows_only tenant m (AnsweredStart (Some run, True, err)) \<longleftrightarrow> owned tenant run"
| "shows_only tenant m (AnsweredEvents (Inr events)) \<longleftrightarrow> (\<exists>i run. GetRun m i = Inr run \<and> owned tenant run \<and> events = AuditEvents m i)"
| "shows_only tenant m (AnsweredApprovals (Inr approvals)) \<longleftrightarrow> (\<forall>a \<in> set approvals. \<exists>run \<in> set (ListRuns m). owned tenant run \<and> run_ID run = as_RunID a \<and>
     (\<exists>s \<in> set (run_Steps run). rs_Service s = as_Service a \<and> rs_Approval s = Some (as_Approval a) \<and> ap_Status (as_Approval a) = ApprovalPending))"
| "shows_only tenant m _ \<longleftrightarrow> True"

definition sent_to :: "string \<Rightarrow> Memory \<Rightarrow> sent \<Rightarrow> bool" where
  "sent_to tenant m s \<longleftrightarrow> (case s of
       StartSent run \<Rightarrow> owned tenant run
     | SignalSent workflow \<Rightarrow> \<exists>i run. GetRun m i = Inr run \<and> owned tenant run \<and> run_WorkflowID run = workflow)"

text \<open>What an operation for a tenant may do: send to the workflows of the tenant, and keep the stored runs.\<close>

definition confined :: "string \<Rightarrow> (Memory, 'x \<times> sent list) control_plane \<Rightarrow> (Memory, 'x \<times> sent list) control_plane \<Rightarrow> bool" where
  "confined tenant w w' \<longleftrightarrow> (\<forall>i run. GetRun (cp_store w) i = Inr run \<longrightarrow> GetRun (cp_store w') i = Inr run) \<and>
     (\<exists>new. snd (cp_workflows w') = new @ snd (cp_workflows w) \<and> (\<forall>s \<in> set new. sent_to tenant (cp_store w) s))"

lemma confined_same: "cp_store w' = cp_store w \<Longrightarrow> cp_workflows w' = cp_workflows w \<Longrightarrow> confined tenant w w'"
  by (simp add: confined_def)

lemma GetForTenant_Inr:
  assumes "GetForTenant r tenant i w = Inr run" "rl_store r = memory_durable"
  shows "GetRun (cp_store w) i = Inr run \<and> owned tenant run"
  using assms by (auto simp: GetForTenant_def releases_Get_def split: sum.splits if_splits)

lemma signalled_confined:
  assumes "rl_store r = memory_durable" "GetRun (cp_store w) i = Inr run" "owned tenant run" "cp_store w1 = cp_store w" "cp_workflows w1 = cp_workflows w"
    and "signalled r i (noting_signal f (cp_workflows w1) (run_WorkflowID run) p) w1 = (w', result)"
  shows "confined tenant w w' \<and> shows_only tenant (cp_store w) (AnsweredRun result)"
proof -
  obtain ys err where a: "noting_signal f (cp_workflows w1) (run_WorkflowID run) p = (ys, err)" by (meson surj_pair)
  from noting_signal_sent[OF a] assms(2,3,5) have "snd ys = [SignalSent (run_WorkflowID run)] @ snd (cp_workflows w)"
    "\<forall>s \<in> set [SignalSent (run_WorkflowID run)]. sent_to tenant (cp_store w) s" by (auto simp: sent_to_def)
  then show ?thesis using assms(1,3,4,6) unfolding a by (auto simp: assms(2) signalled_def confined_def split: option.splits)
qed

lemma releases_now_keeps: "releases_now r w = (w1, t) \<Longrightarrow> cp_store w1 = cp_store w \<and> cp_workflows w1 = cp_workflows w"
  by (auto simp: releases_now_def)

lemma decide_confined:
  assumes n: "notes_calls wc r" and d: "DecideApprovalForTenant r tenant i approval actor roles approve w = (w', result)"
  shows "confined tenant w w' \<and> shows_only tenant (cp_store w) (AnsweredRun result)"
proof (cases "GetForTenant r tenant i w")
  case (Inr run)
  have g: "GetRun (cp_store w) i = Inr run" "owned tenant run" "rl_store r = memory_durable" using GetForTenant_Inr[OF Inr] n by (simp_all add: notes_calls_def)
  obtain w1 t where w1: "releases_now r w = (w1, t)" by (meson surj_pair)
  show ?thesis using d n Inr w1 g releases_now_keeps[OF w1]
    by (auto simp: DecideApprovalForTenant_def releases_DecideApproval_def notes_calls_def split: if_splits option.splits
        intro: confined_same dest: signalled_confined[OF g(3,1,2)])
next
  case (Inl err)
  show ?thesis using d by (auto simp: Inl DecideApprovalForTenant_def intro: confined_same)
qed

lemma revoke_confined:
  assumes n: "notes_calls wc r" and d: "RevokeApprovalForTenant r tenant i approval actor roles w = (w', result)"
  shows "confined tenant w w' \<and> shows_only tenant (cp_store w) (AnsweredRun result)"
proof (cases "GetForTenant r tenant i w")
  case (Inr run)
  have g: "GetRun (cp_store w) i = Inr run" "owned tenant run" "rl_store r = memory_durable" using GetForTenant_Inr[OF Inr] n by (simp_all add: notes_calls_def)
  show ?thesis using d n Inr
    by (auto simp: RevokeApprovalForTenant_def notes_calls_def split: if_splits option.splits
        intro: confined_same dest: signalled_confined[OF g(3,1,2) refl refl])
next
  case (Inl err)
  show ?thesis using d by (auto simp: Inl RevokeApprovalForTenant_def intro: confined_same split: if_splits)
qed

lemma control_confined:
  assumes n: "notes_calls wc r" and d: "ControlForTenant r tenant i actor action w = (w', result)"
  shows "confined tenant w w' \<and> shows_only tenant (cp_store w) (AnsweredRun result)"
proof (cases "GetForTenant r tenant i w")
  case (Inr run)
  have g: "GetRun (cp_store w) i = Inr run" "owned tenant run" "rl_store r = memory_durable" using GetForTenant_Inr[OF Inr] n by (simp_all add: notes_calls_def)
  show ?thesis using d n Inr g
    by (auto simp: ControlForTenant_def control_def Let_def notes_calls_def split: if_splits
        intro: confined_same dest: signalled_confined[OF g(3,1,2) refl refl])
next
  case (Inl err)
  show ?thesis using d by (auto simp: Inl ControlForTenant_def intro: confined_same)
qed

lemma planned_tenant:
  assumes "PlanIntent digest p now wanted = Inr plan"
  shows "planTenant plan = releases_normalized (in_TenantID wanted) ''default''"
proof -
  obtain phase where plan: "header_ok wanted" "plan = seal_plan digest (unsealed_plan digest p now wanted phase)"
    using PlanIntent_Inr[OF assms] by metis
  have m: "mset (concat (map pp_Steps (pl_Phases plan))) = mset (map (plan_step digest p wanted phase) (in_Changes wanted))"
    by (simp add: plan(2) unsealed_plan_def group_phases_mset)
  have t: "sc_TenantID (ps_Scheduling (plan_step digest p wanted phase c)) = releases_normalized (in_TenantID wanted) ''default''" for c
    by (simp add: plan_step_def Let_def normalizedValue_def releases_normalized_def split: option.splits)
  have "length (concat (map pp_Steps (pl_Phases plan))) \<noteq> 0" unfolding mset_eq_length[OF m] using plan(1) by (simp add: header_ok_def)
  then obtain s rest where s: "concat (map pp_Steps (pl_Phases plan)) = s # rest" by (metis list.size(3) neq_Nil_conv)
  with m have "s \<in> set (map (plan_step digest p wanted phase) (in_Changes wanted))" by (metis list.set_intros(1) mset_eq_setD)
  then have "sc_TenantID (ps_Scheduling s) = releases_normalized (in_TenantID wanted) ''default''" using t by auto
  then show ?thesis by (simp add: planTenant_def s releases_normalized_def)
qed

lemma bindTenant_Inr: "bindTenant tenant requested = Inr bound \<Longrightarrow> bound = releases_normalized tenant ''default'' \<and> bound \<noteq> []"
  by (auto simp: bindTenant_def releases_normalized_def Let_def split: if_splits)

lemma SavePlan_runs [simp]: "GetRun (SavePlan m plan) i = GetRun m i"
  by (simp add: GetRun_def SavePlan_def)

lemma plan_confined:
  assumes n: "notes_calls wc r" and p: "releases_PlanIntent r wanted w = (w', result)"
  shows "cp_workflows w' = cp_workflows w \<and> (\<forall>i. GetRun (cp_store w') i = GetRun (cp_store w) i) \<and>
    (\<forall>plan. result = Inr plan \<longrightarrow> planTenant plan = releases_normalized (in_TenantID wanted) ''default'')"
  using p n by (auto simp: releases_PlanIntent_def saved_plan_def releases_now_def notes_calls_def planned_tenant split: option.splits sum.splits)

lemma CreateRunAtomic_runs:
  assumes "CreateRunAtomic m run audits events = (m', answer)"
  shows "\<forall>i made. GetRun m i = Inr made \<longrightarrow> GetRun m' i = Inr made" "answer = Inr (s, True) \<Longrightarrow> s = Some run"
  using assms by (auto simp: CreateRunAtomic_def GetRun_def appendAtomic_def update_conv' split: option.splits if_splits)

lemma MarkOutboxPublished_runs: "MarkOutboxPublished m i t = (m', err) \<Longrightarrow> GetRun m' k = GetRun m k"
  by (auto simp: MarkOutboxPublished_def GetRun_def split: option.splits)

lemma start_workflow_confined:
  assumes n: "notes_calls wc r" and s: "start_workflow r i run w = (w', got, created, err)"
  shows "(\<exists>new. snd (cp_workflows w') = new @ snd (cp_workflows w) \<and> set new \<subseteq> {StartSent run}) \<and>
    (\<forall>i. GetRun (cp_store w') i = GetRun (cp_store w) i) \<and> got = Some run"
proof -
  obtain x answer where x: "noting_start wc (cp_workflows w) run = (x, answer)" by (meson surj_pair)
  from noting_start_cases[OF x] have "\<exists>new. snd x = new @ snd (cp_workflows w) \<and> set new \<subseteq> {StartSent run}"
    by (auto split: sum.splits intro: exI[of _ "[]"] exI[of _ "[StartSent run]"])
  then show ?thesis using s n x
    by (auto simp: start_workflow_def notes_calls_def releases_now_def split: sum.splits option.splits prod.splits
        dest: MarkOutboxPublished_runs)
qed

lemma start_confined:
  assumes n: "notes_calls wc r" and s: "releases_start r request plan w = (w', got, created, err)"
    and o: "rq_TenantID request = releases_normalized tenant ''default''" "rq_TenantID request \<noteq> []"
  shows "confined tenant w w' \<and> (created \<longrightarrow> (\<forall>run. got = Some run \<longrightarrow> owned tenant run))"
proof (cases "ValidatePlan (rl_digest r) (rl_planner r) plan (rl_now r (cp_clock w))")
  case None
  let ?w = "w\<lparr>cp_clock := Suc (Suc (cp_clock w)), cp_ids := Suc (Suc (Suc (cp_ids w)))\<rparr>" and ?t = "rl_now r (Suc (cp_clock w))"
  let ?i = "''workflow_'' @ rl_random r (Suc (Suc (cp_ids w)))" and ?run = "release_of (''run_'' @ rl_random r (cp_ids w)) request plan (rl_now r (Suc (cp_clock w)))"
  let ?audit = "start_audit (''audit_'' @ rl_random r (Suc (cp_ids w))) request ?run ?t"
  obtain m answer where m: "CreateRunAtomic (cp_store w) ?run [?audit] [workflow_request ?i ?run ?t] = (m, answer)" by (meson surj_pair)
  note kept = CreateRunAtomic_runs(1)[OF m]
  have own: "owned tenant ?run" using o by (simp add: release_of_def releases_normalized_def split: if_splits)
  have "(case answer of
        Inl err \<Rightarrow> (?w\<lparr>cp_store := m\<rparr>, None, False, Some err)
      | Inr (made, False) \<Rightarrow> (?w\<lparr>cp_store := m\<rparr>, made, False, None)
      | Inr (None, True) \<Rightarrow> (?w\<lparr>cp_store := m\<rparr>, None, True, None)
      | Inr (Some made, True) \<Rightarrow> start_workflow r ?i made (?w\<lparr>cp_store := m\<rparr>)) = (w', got, created, err)"
    using s n None m by (auto simp: releases_start_def create_release_def releases_now_def releases_newID_def Let_def notes_calls_def
        split: sum.splits prod.splits option.splits bool.splits)
  moreover have "confined tenant w (?w\<lparr>cp_store := m\<rparr>)" using kept by (simp add: confined_def)
  moreover have "confined tenant w v' \<and> got = Some ?run" if "start_workflow r ?i ?run (?w\<lparr>cp_store := m\<rparr>) = (v', got, created, err)" for v'
  proof -
    from start_workflow_confined[OF n that] obtain new where "snd (cp_workflows v') = new @ snd (cp_workflows w)" "set new \<subseteq> {StartSent ?run}"
      "\<forall>i. GetRun (cp_store v') i = GetRun m i" "got = Some ?run" by auto
    moreover from this(2) own have "\<forall>s \<in> set new. sent_to tenant (cp_store w) s" by (auto simp: sent_to_def)
    ultimately show ?thesis using kept by (auto simp: confined_def)
  qed
  ultimately show ?thesis using CreateRunAtomic_runs(2)[OF m] own
    by (auto split: sum.splits prod.splits option.splits bool.splits dest!: sym[of "Some _"])
next
  case (Some err)
  then show ?thesis using s by (auto simp: releases_start_def releases_now_def intro: confined_same)
qed

lemma approvals_confined:
  assumes "rl_store r = memory_durable"
  shows "shows_only tenant (cp_store w) (AnsweredApprovals (ListPendingApprovals r tenant w))"
proof -
  let ?pick = "\<lambda>run step. case rs_Approval step of Some a \<Rightarrow> if ap_Status a = ApprovalPending
      then Some \<lparr>as_Approval = a, as_RunID = run_ID run, as_Service = rs_Service step, as_TenantID = releases_normalized tenant ''default''\<rparr> else None
    | None \<Rightarrow> None"
  have "rs_Service s = as_Service a \<and> rs_Approval s = Some (as_Approval a) \<and> ap_Status (as_Approval a) = ApprovalPending \<and> run_ID run = as_RunID a"
    if "?pick run s = Some a" for run s a
    using that by (auto split: option.splits if_splits)
  then show ?thesis using assms by (fastforce simp: ListPendingApprovals_def Let_def List.map_filter_def)
qed

lemma reads_confined:
  assumes "rl_store r = memory_durable"
  shows "shows_only tenant (cp_store w) (AnsweredPlan (releases_GetPlan r tenant i w))"
    and "shows_only tenant (cp_store w) (AnsweredEvents (EventsForTenant r tenant i w))"
    and "shows_only tenant (cp_store w) (AnsweredRun (GetForTenant r tenant i w))"
proof -
  show "shows_only tenant (cp_store w) (AnsweredPlan (releases_GetPlan r tenant i w))" by (auto simp: releases_GetPlan_def split: sum.splits)
  show "shows_only tenant (cp_store w) (AnsweredEvents (EventsForTenant r tenant i w))"
    using GetForTenant_Inr[OF _ assms, of tenant i w] by (cases "GetForTenant r tenant i w") (auto simp: EventsForTenant_def assms)
  show "shows_only tenant (cp_store w) (AnsweredRun (GetForTenant r tenant i w))"
    using GetForTenant_Inr[OF _ assms, of tenant i w] by (cases "GetForTenant r tenant i w") auto
qed

lemma plan_for_tenant_confined:
  assumes n: "notes_calls wc r" and t: "PlanIntentForTenant r tenant wanted w = (w', result)"
  shows "confined tenant w w' \<and> shows_only tenant (cp_store w) (AnsweredPlan result)"
proof (cases "bindTenant tenant (in_TenantID wanted)")
  case (Inr bound)
  then have "releases_PlanIntent r (wanted\<lparr>in_TenantID := bound\<rparr>) w = (w', result)" using t by (simp add: PlanIntentForTenant_def)
  from plan_confined[OF n this] bindTenant_Inr[OF Inr] show ?thesis
    by (cases result) (auto simp: confined_def releases_normalized_def)
qed (use t in \<open>auto simp: PlanIntentForTenant_def intro: confined_same\<close>)

lemma start_for_tenant_confined:
  assumes n: "notes_calls wc r" and t: "StartIntentForTenant r tenant wanted w = (w', result)"
  shows "confined tenant w w' \<and> shows_only tenant (cp_store w) (AnsweredStart result)"
proof (cases "bindTenant tenant (in_TenantID wanted)")
  case b: (Inr bound)
  let ?wanted = "wanted\<lparr>in_TenantID := bound\<rparr>"
  obtain w1 planned where w1: "releases_PlanIntent r ?wanted w = (w1, planned)" by (meson surj_pair)
  note c = plan_confined[OF n w1]
  show ?thesis
  proof (cases planned)
    case (Inr plan)
    obtain got created err where res: "result = (got, created, err)" by (cases result)
    have "releases_start r (LegacyRequestFromIntent ?wanted) plan w1 = (w', got, created, err)"
      using t w1 Inr b res by (simp add: StartIntentForTenant_def releases_StartIntent_def)
    from start_confined[OF n this, of tenant] bindTenant_Inr[OF b]
    have "confined tenant w1 w' \<and> (created \<longrightarrow> (\<forall>run. got = Some run \<longrightarrow> owned tenant run))" by (auto simp: LegacyRequestFromIntent_def)
    moreover have "sent_to tenant (cp_store w1) = sent_to tenant (cp_store w)" using c by (auto simp: sent_to_def fun_eq_iff split: sent.splits)
    ultimately show ?thesis using c by (cases got; cases created) (auto simp: res confined_def)
  qed (use t w1 c b in \<open>auto simp: StartIntentForTenant_def releases_StartIntent_def confined_def\<close>)
qed (use t in \<open>auto simp: StartIntentForTenant_def intro: confined_same\<close>)

lemma freeze_confined: "FreezeRunner r tenant i actor w = (w', result) \<Longrightarrow> confined tenant w w'"
  by (auto simp: FreezeRunner_def releases_now_def Let_def split: if_splits option.splits intro!: confined_same)


text \<open>
  C40.  A start whose request identifier is in use returns the run of the earlier request without looking at its tenant: any tenant
  that names the identifier gets the run, also one of another tenant, which no other operation shows.
\<close>

theorem request_id_crosses_tenants:
  assumes "rl_store r = memory_durable" "bindTenant tenant (in_TenantID wanted) = Inr bound"
    and "releases_PlanIntent r (wanted\<lparr>in_TenantID := bound\<rparr>) w = (w1, Inr plan)"
    and "ValidatePlan (rl_digest r) (rl_planner r) plan (rl_now r (cp_clock w1)) = None"
    and "map_of (m_runByRequestID (cp_store w)) (in_RequestID wanted) = Some i" "GetRun (cp_store w) i = Inr run"
  shows "\<exists>w'. StartIntentForTenant r tenant wanted w = (w', Some run, False, None)"
proof -
  have "m_runByRequestID (cp_store w1) = m_runByRequestID (cp_store w)" "m_runs (cp_store w1) = m_runs (cp_store w)"
    using assms(1,3) by (auto simp: releases_PlanIntent_def saved_plan_def releases_now_def SavePlan_def split: option.splits sum.splits)
  with assms show ?thesis
    by (auto simp: StartIntentForTenant_def releases_StartIntent_def releases_start_def create_release_def releases_now_def releases_newID_def
        Let_def release_of_def new_run_def LegacyRequestFromIntent_def CreateRunAtomic_def GetRun_def split: option.splits)
qed

section \<open>Decisions\<close>

text \<open>
  C24.  The checks of the control plane and those of the waiting workflow agree.  The control plane passes a decision on exactly when the
  approval is pending, for the plan of the run and not expired, and the workflow would accept the signal; and a revocation
  exactly when the approval is pending and the workflow would accept it.  The workflow then acts as asked.
\<close>

theorem decisions_agree_with_workflow:
  assumes "actor \<noteq> []"
  shows "(check_decision run approvalID actor roles approve now = None \<longleftrightarrow>
      (\<exists>a signal. approval_target run approvalID = Some a \<and> ap_Status a = ApprovalPending \<and> ap_PlanHash a = pl_Hash (run_Plan run) \<and> now < ap_ExpiresAt a \<and>
        signal = \<lparr>sg_ApprovalID = approvalID, sg_Actor = actor, sg_Roles = roles, sg_Approve = approve, sg_Action = (if approve then ''approve'' else ''deny'')\<rparr> \<and>
        signal_accepted run a signal \<and> (signal_action signal = ''approve'' \<longleftrightarrow> approve))) \<and>
    (check_revocation run approvalID roles = None \<longleftrightarrow>
      (\<exists>a signal. approval_target run approvalID = Some a \<and> ap_Status a = ApprovalPending \<and>
        signal = \<lparr>sg_ApprovalID = approvalID, sg_Actor = actor, sg_Roles = roles, sg_Approve = False, sg_Action = ''revoke''\<rparr> \<and>
        signal_accepted run a signal \<and> signal_action signal = ''revoke''))"
proof (cases "approval_target run approvalID")
  case (Some a)
  then have "ap_ID a = approvalID" unfolding approval_target_def by (auto simp: find_Some_iff)
  with Some assms show ?thesis
    by (auto simp: check_decision_def check_revocation_def signal_accepted_def signal_action_def workflow_containsAll_def releases_containsAll_def)
qed (simp add: check_decision_def check_revocation_def)

section \<open>Frozen runners\<close>

lemma frozen_key_eq:
  "CHR 0x00 \<notin> set tenant \<Longrightarrow> CHR 0x00 \<notin> set tenant' \<Longrightarrow> frozen_key tenant i = frozen_key tenant' i' \<longleftrightarrow> tenant = tenant' \<and> i = i'"
  unfolding frozen_key_def by (auto simp: append_eq_append_conv2 append_eq_Cons_conv Cons_eq_append_conv)

lemma publish_frozen: "cp_frozenRunners (fst (publish_events r events k w)) = cp_frozenRunners w"
  by (induction r events k w rule: publish_events.induct) (auto simp: releases_now_def split: sum.splits prod.splits option.splits)

lemma signalled_frozen: "cp_frozenRunners (fst (signalled r i answer w)) = cp_frozenRunners w"
  by (auto simp: signalled_def split: prod.splits option.splits)

lemma planning_frozen:
  "cp_frozenRunners (fst (releases_Plan r request w)) = cp_frozenRunners w" "cp_frozenRunners (fst (releases_PlanIntent r wanted w)) = cp_frozenRunners w"
  by (auto simp: releases_Plan_def releases_PlanIntent_def saved_plan_def releases_now_def split: option.splits sum.splits prod.splits)

lemma starting_frozen: "cp_frozenRunners (fst (releases_start r request plan w)) = cp_frozenRunners w"
  by (auto simp: releases_start_def create_release_def start_workflow_def releases_now_def releases_newID_def Let_def
      split: option.splits sum.splits prod.splits bool.splits)

lemma starts_frozen:
  "cp_frozenRunners (fst (releases_Start r request w)) = cp_frozenRunners w" "cp_frozenRunners (fst (releases_StartIntent r wanted w)) = cp_frozenRunners w"
  using planning_frozen[of r _ w]
  by (simp_all add: releases_Start_def releases_StartIntent_def starting_frozen split: prod.splits sum.splits) (metis fst_conv)+

lemma decision_frozen: "cp_frozenRunners (fst (releases_DecideApproval r i approval actor roles approve w)) = cp_frozenRunners w"
  by (auto simp: releases_DecideApproval_def releases_now_def signalled_frozen split: sum.splits option.splits)

lemma control_frozen: "cp_frozenRunners (fst (control r i actor action w)) = cp_frozenRunners w"
  by (auto simp: control_def Let_def signalled_frozen split: sum.splits)

definition drained :: "string \<Rightarrow> ('s, 'x) control_plane \<Rightarrow> bool" where
  "drained key w \<longleftrightarrow> (\<exists>f. map_of (cp_frozenRunners w) key = Some f \<and> ri_Capacity f = 0)"

lemma drained_same: "cp_frozenRunners w' = cp_frozenRunners w \<Longrightarrow> drained key w \<Longrightarrow> drained key w'"
  by (simp add: drained_def)

lemma freeze_drains:
  assumes "FreezeRunner r tenant i actor w = (w', result)"
  shows "drained key w \<Longrightarrow> drained key w'" "result = Inr frozen \<Longrightarrow> drained (frozen_key (releases_normalized tenant ''default'') i) w'"
    "key \<noteq> frozen_key (releases_normalized tenant ''default'') i \<Longrightarrow> map_of (cp_frozenRunners w') key = map_of (cp_frozenRunners w) key"
    "cp_runners w' = cp_runners w"
  using assms by (auto simp: FreezeRunner_def releases_now_def drained_def Let_def update_conv' split: if_splits option.splits)

lemma freeze_keeps_drained: "drained key w \<Longrightarrow> drained key (fst (FreezeRunner r tenant i actor w))"
  using freeze_drains(1) by (metis prod.collapse)

lemmas frozen_kept = planning_frozen starts_frozen decision_frozen control_frozen signalled_frozen publish_frozen

lemma tenant_drained: "drained key w \<Longrightarrow> drained key (fst (serve_tenant r tenant op w))"
proof (cases "\<exists>i actor. op = TFreeze i actor")
  case False
  then show "drained key w \<Longrightarrow> drained key (fst (serve_tenant r tenant op w))"
    by (cases op) (auto simp: PlanIntentForTenant_def StartIntentForTenant_def DecideApprovalForTenant_def
      RevokeApprovalForTenant_def ControlForTenant_def frozen_kept intro!: drained_same[of _ w key] split: sum.splits option.splits)
qed (auto simp: freeze_keeps_drained)

lemma serve_drained: "drained key w \<Longrightarrow> drained key (fst (serve r op w))"
  by (cases op) (auto simp: RecoverPendingWorkflows_def frozen_kept tenant_drained intro: drained_same[of _ w key] split: sum.splits)

lemma drained_capacity: "drained (frozen_key (releases_normalized tenant ''default'') i) w \<Longrightarrow> RunnerCapacity tenant i w = 0"
  by (auto simp: drained_def RunnerCapacity_def)

text \<open>
  Freezing a runner group takes its capacity for the tenant and for no other.  A group that has been frozen stays without capacity in
  whatever the control plane is asked afterwards.
\<close>

theorem frozen_runner_has_no_capacity:
  assumes "FreezeRunner r tenant i actor w = (w', Inr frozen)"
  shows "RunnerCapacity tenant i w' = 0 \<and>
    (CHR 0x00 \<notin> set tenant \<and> CHR 0x00 \<notin> set other \<and> releases_normalized other ''default'' \<noteq> releases_normalized tenant ''default'' \<longrightarrow>
       RunnerCapacity other k w' = RunnerCapacity other k w) \<and>
    RunnerCapacity tenant i (fold (\<lambda>op w. fst (serve r op w)) ops w') = 0"
proof -
  let ?key = "frozen_key (releases_normalized tenant ''default'') i"
  have d: "drained ?key w'" by (rule freeze_drains(2)[OF assms refl])
  then have "drained ?key (fold (\<lambda>op w. fst (serve r op w)) ops w')" by (induction ops arbitrary: w') (auto intro: serve_drained)
  moreover have "RunnerCapacity other k w' = RunnerCapacity other k w"
    if "CHR 0x00 \<notin> set tenant" "CHR 0x00 \<notin> set other" "releases_normalized other ''default'' \<noteq> releases_normalized tenant ''default''"
  proof -
    have "CHR 0x00 \<notin> set (releases_normalized tenant ''default'')" "CHR 0x00 \<notin> set (releases_normalized other ''default'')"
      using that(1,2) by (simp_all add: releases_normalized_def)
    with that(3) have "frozen_key (releases_normalized other ''default'') k \<noteq> ?key" by (simp add: frozen_key_eq)
    then show ?thesis unfolding RunnerCapacity_def freeze_drains(4)[OF assms] by (simp add: freeze_drains(3)[OF assms])
  qed
  ultimately show ?thesis using d drained_capacity by blast
qed

section \<open>A control plane\<close>

text \<open>The controller starts every workflow and delivers every signal.\<close>

definition demo_controller :: "unit WorkflowController" where
  "demo_controller = \<lparr>wc_StartRelease = (\<lambda>x run. (x, Inr \<lparr>we_WorkflowID = run_WorkflowID run, we_RunID = ''1''\<rparr>)), wc_SignalApproval = (\<lambda>x _ _. (x, None)),
     wc_Pause = (\<lambda>x _ _. (x, None)), wc_Resume = (\<lambda>x _ _. (x, None)), wc_Cancel = (\<lambda>x _ _. (x, None))\<rparr>"

definition demo_releases :: "(Memory, unit \<times> sent list) Releases" where
  "demo_releases = \<lparr>rl_digest = demo_digest, rl_planner = demo_planner, rl_store = memory_durable, rl_workflows = noting_controller demo_controller,
     rl_now = (\<lambda>_. 1), rl_random = (\<lambda>n. replicate n CHR ''x'')\<rparr>"

definition demo_plane :: "(Memory, unit \<times> sent list) control_plane" where
  "demo_plane = (NewReleases demo_planner NewMemory ((), []))\<lparr>cp_runners := [(''g'', ready_runner ''g'')]\<rparr>"

lemma demo_notes: "notes_calls demo_controller demo_releases"
  by (simp add: notes_calls_def demo_releases_def inj_def)

definition demo_started :: "(Memory, unit \<times> sent list) control_plane" where
  "demo_started = fst (serve demo_releases (ForTenant ''t'' (TStart demo_intent)) demo_plane)"

lemma demo_started_run:
  "map_sum id (\<lambda>run. (run_TenantID run, run_WorkflowID run, run_RequestedBy run)) (GetRun (cp_store demo_started) ''run_'') = Inr (''t'', ''run_'', ''u'') \<and>
   map_of (m_runByRequestID (cp_store demo_started)) ''r'' = Some ''run_'' \<and> length (pending (cp_store demo_started)) = 0 \<and> length (snd (cp_workflows demo_started)) = 1"
  by code_simp

lemma demo_history: "history demo_releases demo_activities demo_plane demo_started"
  unfolding demo_started_def by (rule history.served[OF history.initial]) (rule prod.collapse[symmetric])

theorem recovery_starts_every_release_witness:
  "\<exists>w run. history demo_releases demo_activities demo_plane w \<and> GetRun (cp_store w) ''run_'' = Inr run \<and>
     (\<exists>w'. RunWorkflowRecovery demo_releases 0 w = (w', []) \<and> GetRun (cp_store w') ''run_'' = Inr run \<and> run_WorkflowID run \<in> started (snd (cp_workflows w')))"
proof -
  obtain run where run: "GetRun (cp_store demo_started) ''run_'' = Inr run"
    using demo_started_run by (cases "GetRun (cp_store demo_started) ''run_''") auto
  have "av_Store demo_activities = memory_durable" "cp_store demo_plane = NewMemory" "reliable demo_controller" "length (pending (cp_store demo_started)) \<le> 100 * 0"
    using demo_started_run by (simp_all add: demo_activities_def demo_plane_def NewReleases_def reliable_def demo_controller_def)
  with recovery_starts_every_release[OF demo_notes _ demo_history, of 0] obtain w' where
    w': "RunWorkflowRecovery demo_releases 0 demo_started = (w', [])" "m_runs (cp_store w') = m_runs (cp_store demo_started)"
    "\<forall>i run. GetRun (cp_store w') i = Inr run \<longrightarrow> run_WorkflowID run \<in> started (snd (cp_workflows w'))" by blast
  from w'(2) run have "GetRun (cp_store w') ''run_'' = Inr run" by (simp add: GetRun_def)
  with w' run demo_history show ?thesis by blast
qed


definition other_intent :: ReleaseIntent where
  "other_intent = demo_intent\<lparr>in_TenantID := ''other''\<rparr>"

theorem request_id_crosses_tenants_witness:
  "\<exists>w' run. StartIntentForTenant demo_releases ''other'' other_intent demo_started = (w', Some run, False, None) \<and> run_TenantID run = ''t''"
proof -
  obtain run where run: "GetRun (cp_store demo_started) ''run_'' = Inr run" "run_TenantID run = ''t''"
    using demo_started_run by (cases "GetRun (cp_store demo_started) ''run_''") auto
  have b: "bindTenant ''other'' (in_TenantID other_intent) = Inr ''other''" by (simp add: bindTenant_def releases_normalized_def other_intent_def)
  obtain w1 plan where p: "releases_PlanIntent demo_releases (other_intent\<lparr>in_TenantID := ''other''\<rparr>) demo_started = (w1, Inr plan)"
    and v: "ValidatePlan (rl_digest demo_releases) (rl_planner demo_releases) plan (rl_now demo_releases (cp_clock w1)) = None"
  proof -
    have "case releases_PlanIntent demo_releases (other_intent\<lparr>in_TenantID := ''other''\<rparr>) demo_started of
        (w1, Inr plan) \<Rightarrow> ValidatePlan (rl_digest demo_releases) (rl_planner demo_releases) plan (rl_now demo_releases (cp_clock w1)) = None
      | _ \<Rightarrow> False" by code_simp
    then show ?thesis using that by (auto split: prod.splits sum.splits)
  qed
  have "rl_store demo_releases = memory_durable" "in_RequestID other_intent = ''r''"
    by (simp_all add: demo_releases_def other_intent_def demo_intent_def)
  with request_id_crosses_tenants[OF _ b p v _ run(1)] demo_started_run run(2) show ?thesis by auto
qed

theorem decisions_agree_with_workflow_witness:
  "check_decision waiting_run ''a1'' ''carol'' [''service-owner''] True 50 = None \<and>
   (\<exists>a. approval_target waiting_run ''a1'' = Some a \<and> signal_accepted waiting_run a
      \<lparr>sg_ApprovalID = ''a1'', sg_Actor = ''carol'', sg_Roles = [''service-owner''], sg_Approve = True, sg_Action = ''approve''\<rparr>)"
proof -
  have "check_decision waiting_run ''a1'' ''carol'' [''service-owner''] True 50 = None" by code_simp
  with decisions_agree_with_workflow[of "''carol''" waiting_run "''a1''" "[''service-owner'']" True 50] show ?thesis by auto
qed

theorem frozen_runner_has_no_capacity_witness:
  "\<exists>w' frozen. FreezeRunner demo_releases ''t'' ''g'' ''alice'' demo_plane = (w', Inr frozen) \<and> RunnerCapacity ''t'' ''g'' demo_plane = 20 \<and>
     RunnerCapacity ''t'' ''g'' w' = 0 \<and> RunnerCapacity ''other'' ''g'' w' = 20"
proof -
  obtain w' frozen where f: "FreezeRunner demo_releases ''t'' ''g'' ''alice'' demo_plane = (w', Inr frozen)"
    by (simp add: FreezeRunner_def demo_plane_def releases_now_def Let_def)
  have "RunnerCapacity ''t'' ''g'' demo_plane = 20" "RunnerCapacity ''other'' ''g'' demo_plane = 20"
    by (simp_all add: RunnerCapacity_def demo_plane_def NewReleases_def ready_runner_def)
  with f frozen_runner_has_no_capacity[OF f, of "''other''" "''g''" "[]"] show ?thesis by (simp add: releases_normalized_def)
qed

end
