(* ===== verification/Spec2Isabelle.thy ===== *)
theory Spec2Isabelle
  imports Scheduler Catalog GitHub_Safety Datadog Engine_Safety Workflow_Progress Tenants
begin

text \<open>
  Verification of Themisy, a gateway that lets agents request releases and executes them under policy,
  approval and budget.  All source paths below are relative to \<^verbatim>\<open>src/\<close>.

  \<^bold>\<open>The program.\<close>  A release intent is planned against service contracts and a release profile; the plan
  is an ordered list of steps with dependencies and a content hash.  The control plane stores the run
  together with a request to start its workflow and starts a durable workflow for it.  The workflow walks
  the steps: dependencies, policy, approval by a second person, a permit of the scheduler, deployment,
  observation, verification, and rollback where verification does not pass.  Its effects are activities on
  a worker, which reserve each write in the store before they make it.  In the customer's environment a
  runner receives signed action grants, checks them against keys, identity, delegation, pinned hashes and
  its own policy, reserves them in a journal and calls a provider adapter.  An older in-process engine
  drives the same steps without the workflow runtime.

  \<^bold>\<open>Conventions.\<close>  A struct is a record whose fields carry a prefix and the Go name; an enumeration is a
  datatype, or its string where the code compares strings.  Strings are lists of bytes, times are
  nanoseconds from the first of January of year 1 with zero as the zero time, durations are nanoseconds,
  Go maps are association lists or functions, nil interfaces and pointers are \<open>None\<close>.  Fallible code
  returns \<open>Inl\<close> of an \<open>error\<close> or \<open>Inr\<close> of a value.  Stateful code passes its state; clocks and random
  sources are streams of readings, and services are functions of their own state.

  \<^bold>\<open>Shared theories.\<close>
  \<^item> \<open>Prelude\<close>: types and list, map and option lemmas.  \<open>Go_Std\<close>: float64 rounding, \<^verbatim>\<open>strings.TrimSpace\<close>,
    \<^verbatim>\<open>time.ParseDuration\<close>, decimal text, JSON value trees.  \<open>Encoding\<close>: base64 and hexadecimal digests.
    \<open>Go_HTTP\<close>: requests, responses, URL escaping, RFC 3339 text.  \<open>Path_Match\<close>: \<^verbatim>\<open>path.Match\<close>.
  \<^item> \<open>Domain\<close>: \<^verbatim>\<open>internal/domain\<close>.

  \<^bold>\<open>Planning and scheduling.\<close>
  \<^item> \<open>Contracts\<close>, \<open>Catalog\<close>: \<^verbatim>\<open>internal/contract\<close>, \<^verbatim>\<open>internal/profile\<close>, \<^verbatim>\<open>internal/catalog\<close>.  A catalog is accepted
    exactly when its dependencies are acyclic.
  \<^item> \<open>Ordering\<close>, \<open>Planner\<close>: \<^verbatim>\<open>internal/planner\<close>.  The two topological passes are instances of the locale
    \<open>topological_pass\<close>.  The planner succeeds exactly on well-formed intents, its steps respect the rollout
    order, and the plan hash binds the content.
  \<^item> \<open>Budget\<close>, \<open>Waves\<close>, \<open>Scheduler\<close>: \<^verbatim>\<open>internal/scheduler\<close>.  Budgets stay within their limits (locale
    \<open>admission\<close>); waves respect dependencies and limits and exist exactly when the steps can be ordered; the
    circuit breaker refuses exactly when it has tripped.

  \<^bold>\<open>Trust.\<close>
  \<^item> \<open>Protocol\<close>: \<^verbatim>\<open>pkg/protocol\<close>, \<^verbatim>\<open>internal/grant\<close>.  A grant that verifies was issued by the control plane.
  \<^item> \<open>Identity\<close>: \<^verbatim>\<open>internal/identity\<close>.  A subject comes only from a signed token; a delegation is honoured only in
    its scope.
  \<^item> \<open>Policy\<close>: \<^verbatim>\<open>internal/policy\<close>, \<^verbatim>\<open>policies/baseline/main.rego\<close>.  The mandatory policy is decided in closed form,
    and control plane and runner evaluate the same input.

  \<^bold>\<open>Storage and writes.\<close>
  \<^item> \<open>Store\<close>: \<^verbatim>\<open>internal/store/store.go\<close> and \<^verbatim>\<open>memory.go\<close>.  At most one update succeeds per version; references
    resolve.
  \<^item> \<open>Adapter\<close>: \<^verbatim>\<open>pkg/adapter\<close>, \<^verbatim>\<open>pkg/credentials\<close>, \<^verbatim>\<open>internal/verification\<close>.  Tampered evidence is detected.
  \<^item> \<open>GitHub_Actions\<close>, \<open>GitHub_Safety\<close>: \<^verbatim>\<open>adapters/githubactions\<close>.  Every HTTP exchange is noted; a deployment sends
    at most one request, a doubtful answer becomes an unknown external state, reconciliation reports what
    the listings show, and behind runners that share a journal each write to GitHub belongs to an authorized
    grant with an idempotency key of its own.
  \<^item> \<open>Datadog\<close>: \<^verbatim>\<open>adapters/datadog\<close>.  Evidence that passes rests on enough recent points that meet the threshold.
  \<^item> \<open>Runner\<close>, \<open>Runner_Safety\<close>: \<^verbatim>\<open>internal/runner\<close>.  Concurrent calls are a step relation over shared journal and
    outside world.  From the laws of the locales \<open>runner_journal\<close> and \<open>recording_journal\<close>, which the
    in-memory journal satisfies, follow at most one adapter call per nonce and per key, full authorization
    of each call, and stable answers to repeated deliveries; reconciliation only confirms.

  \<^bold>\<open>Release execution.\<close>
  \<^item> \<open>Executor\<close>, \<open>Engine\<close>, \<open>Engine_Safety\<close>: \<^verbatim>\<open>internal/executor\<close>, \<^verbatim>\<open>internal/engine\<close>.  Over the locale \<open>run_store\<close>:
    every executed step was entitled to run.
  \<^item> \<open>Activities\<close>, \<open>Activities_Safety\<close>: \<^verbatim>\<open>internal/workflow/activities.go\<close>.  Attempts interleave and may stop between
    effects; over the locale \<open>execution_store\<close> the executor is called at most once per key, persisting is
    idempotent, and outstanding permits fit the limits.
  \<^item> \<open>Workflow\<close>, \<open>Workflow_Safety\<close>, \<open>Workflow_Progress\<close>: \<^verbatim>\<open>internal/workflow/release.go\<close>, \<^verbatim>\<open>signals.go\<close>.  A recording
    runtime notes persists, calls and writes.  Over the locale \<open>persisting\<close>, which the worker with the
    in-memory store satisfies, every write was entitled and every persisted run is well formed; with a
    cooperating runtime the release succeeds.
  \<^item> \<open>Application\<close>, \<open>Application_Safety\<close>, \<open>Tenants\<close>: \<^verbatim>\<open>internal/application\<close>, \<^verbatim>\<open>internal/workflow/client.go\<close>.  No accepted
    release is lost; an operation for a tenant shows and touches only what is the tenant's, except a start
    whose request identifier is in use; and the control plane passes a decision on exactly when the
    waiting workflow would accept it.

  \<^bold>\<open>Parameters and hypotheses.\<close>  SHA-256 over encoded values is a function \<open>digest\<close>; where a claim needs it,
  the absence of a collision on the values at hand is a hypothesis.  Ed25519 verification, the Rego
  evaluator, JSON and YAML decoding, the HTTP clients, the Temporal runtime and client, clocks and random
  sources are parameters.  A hypothesis about a parameter states its documented behaviour, and a witness
  instantiates it.

  \<^bold>\<open>Bounds and fuel.\<close>  The waiting loops of the workflow may wait for ever; their fuel counts wake-ups, the
  safety statements hold for every fuel, and the progress statement holds for every fuel, zero
  included, since a cooperating runtime never waits.  Recovery counts rounds of one hundred requests
  instead of timer ticks; the statement gives the number of rounds that suffices.  Every other recursion
  is total.

  \<^bold>\<open>What the code does not do.\<close>  The theories also prove behaviour that differs from what the code or its
  documents intend: the mandatory policy never sees a missing delegation reference; failed executions
  stay pending in the runner's journal; an approval after a cancellation deploys the cancelled step of
  the in-process engine; a failed persist leaks the permit of a step; and a start with a request
  identifier of another tenant returns that tenant's run.

  \<^bold>\<open>Not modelled.\<close>  The PostgreSQL store (\<^verbatim>\<open>internal/store/postgres\<close>) is SQL text whose meaning is that of the
  database server.  The HTTP API, the MCP server and the operator UI (\<^verbatim>\<open>internal/api\<close>, \<^verbatim>\<open>internal/mcp\<close>,
  \<^verbatim>\<open>internal/ui\<close>) are transport and rendering around the use cases.  The commands and configuration files
  (\<^verbatim>\<open>cmd\<close>, \<^verbatim>\<open>internal/config\<close>) are process start-up and YAML decoding, and \<^verbatim>\<open>internal/workflow/worker.go\<close>
  registers functions with the Temporal SDK.  Of contracts, profiles, grants and tokens the reading of
  files and the decoding of bytes are left out.
\<close>

end
